(* ===== verification/JsPrelude.thy ===== *)
theory JsPrelude
  imports Complex_Main "HOL-Library.AList" "HOL-Library.Multiset"
begin

section \<open>The JavaScript values, strings and maps the components share\<close>

text \<open>
  What every component theory needs of the language and its standard library.

  \<^item> A string is a list of \<open>char\<close>, that is of UTF-16 code units below 256 (Latin-1). The
    operations follow ECMAScript on these code units: \<open>js_trim\<close> is \<open>String.prototype.trim\<close>,
    \<open>to_lower\<close> is \<open>toLowerCase\<close>, \<open>split_on\<close> and \<open>join_with\<close> are \<open>split\<close> and \<open>join\<close> for a
    one-character separator and any separator.
  \<^item> A number is a rational, one of the infinities or NaN. IEEE rounding and the sign of zero
    are not modelled, so the results are those of the code for numbers that need no rounding
    (all the counts, ports, millisecond times and limits the code handles).
  \<^item> A dynamic value is a \<open>jsv\<close>; an object is the association list of its own properties in
    insertion order. \<open>AList.update\<close> is assignment to a property (and \<open>Map.set\<close>),
    \<open>AList.delete\<close> is \<open>delete\<close>.
\<close>

named_theorems js_simps \<open>equations of the string and value operations\<close>
named_theorems js_obj \<open>reading a property of an updated object\<close>

subsection \<open>Numbers\<close>

datatype jsnum = Fin rat | PosInf | NegInf | NaN

abbreviation num :: "int \<Rightarrow> jsnum" where
  "num n \<equiv> Fin (of_int n)"

fun num_lt :: "jsnum \<Rightarrow> jsnum \<Rightarrow> bool" where
  "num_lt (Fin a) (Fin b) = (a < b)"
| "num_lt (Fin _) PosInf = True"
| "num_lt NegInf (Fin _) = True"
| "num_lt NegInf PosInf = True"
| "num_lt _ _ = False"

definition num_eq :: "jsnum \<Rightarrow> jsnum \<Rightarrow> bool" where
  "num_eq a b \<longleftrightarrow> a \<noteq> NaN \<and> a = b"

definition num_le :: "jsnum \<Rightarrow> jsnum \<Rightarrow> bool" where
  "num_le a b \<longleftrightarrow> num_lt a b \<or> num_eq a b"

fun is_finite :: "jsnum \<Rightarrow> bool" where
  "is_finite (Fin _) = True"
| "is_finite _ = False"

text \<open>\<open>Number.isInteger\<close> and \<open>Number.isSafeInteger\<close>.\<close>

fun is_integer :: "jsnum \<Rightarrow> bool" where
  "is_integer (Fin r) = (of_int \<lfloor>r\<rfloor> = r)"
| "is_integer _ = False"

fun is_safe_integer :: "jsnum \<Rightarrow> bool" where
  "is_safe_integer (Fin r) = (of_int \<lfloor>r\<rfloor> = r \<and> \<bar>r\<bar> \<le> 9007199254740991)"
| "is_safe_integer _ = False"

definition num_truthy :: "jsnum \<Rightarrow> bool" where
  "num_truthy n \<longleftrightarrow> n \<noteq> Fin 0 \<and> n \<noteq> NaN"

lemma num_eq_sym: "num_eq a b = num_eq b a"
  by (auto simp: num_eq_def)

lemma num_eq_Fin [simp]: "num_eq (Fin a) b = (b = Fin a)"
  by (auto simp: num_eq_def)

lemma num_eq_Fin2 [simp]: "num_eq b (Fin a) = (b = Fin a)"
  by (auto simp: num_eq_def)

lemma num_lt_asym: "num_lt a b \<Longrightarrow> \<not> num_lt b a"
  by (cases a; cases b) auto

subsection \<open>Strings\<close>

definition code_of :: "char \<Rightarrow> nat" where
  "code_of c = of_char c"

lemma code_of_Char [simp]: "code_of (Char a b c d e f g h) = of_char (Char a b c d e f g h)"
  by (simp only: code_of_def)

definition is_digit :: "char \<Rightarrow> bool" where
  "is_digit c \<longleftrightarrow> 48 \<le> code_of c \<and> code_of c \<le> 57"

definition is_alpha :: "char \<Rightarrow> bool" where
  "is_alpha c \<longleftrightarrow> (65 \<le> code_of c \<and> code_of c \<le> 90) \<or> (97 \<le> code_of c \<and> code_of c \<le> 122)"

text \<open>The white space and line terminators below 256 that \<open>trim\<close> and the class \<open>\s\<close> take.\<close>

definition is_space :: "char \<Rightarrow> bool" where
  "is_space c \<longleftrightarrow> (9 \<le> code_of c \<and> code_of c \<le> 13) \<or> code_of c = 32 \<or> code_of c = 160"

definition js_trim :: "string \<Rightarrow> string" where
  "js_trim s = rev (dropWhile is_space (rev (dropWhile is_space s)))"

definition lower_char :: "char \<Rightarrow> char" where
  "lower_char c = (if (65 \<le> code_of c \<and> code_of c \<le> 90)
       \<or> (192 \<le> code_of c \<and> code_of c \<le> 222 \<and> code_of c \<noteq> 215)
     then char_of (code_of c + 32) else c)"

definition to_lower :: "string \<Rightarrow> string" where
  "to_lower s = map lower_char s"

definition starts_with :: "string \<Rightarrow> string \<Rightarrow> bool" where
  "starts_with s p \<longleftrightarrow> take (length p) s = p"

definition ends_with :: "string \<Rightarrow> string \<Rightarrow> bool" where
  "ends_with s p \<longleftrightarrow> length p \<le> length s \<and> drop (length s - length p) s = p"

fun str_includes :: "string \<Rightarrow> string \<Rightarrow> bool" where
  "str_includes [] p = (p = [])"
| "str_includes (c # s) p = (starts_with (c # s) p \<or> str_includes s p)"

fun split_on :: "char \<Rightarrow> string \<Rightarrow> string list" where
  "split_on d [] = [[]]"
| "split_on d (c # s) =
     (if c = d then [] # split_on d s
      else (case split_on d s of [] \<Rightarrow> [[c]] | w # ws \<Rightarrow> (c # w) # ws))"

fun join_with :: "string \<Rightarrow> string list \<Rightarrow> string" where
  "join_with sep [] = []"
| "join_with sep [w] = w"
| "join_with sep (w # v # ws) = w @ sep @ join_with sep (v # ws)"

text \<open>Decimal digits: the number a digit string denotes, and \<open>String(n)\<close>.\<close>

definition digit_val :: "char \<Rightarrow> int" where
  "digit_val c = int (code_of c) - 48"

definition digits_val :: "string \<Rightarrow> int" where
  "digits_val s = foldl (\<lambda>n c. 10 * n + digit_val c) 0 s"

definition all_digits :: "string \<Rightarrow> bool" where
  "all_digits s \<longleftrightarrow> s \<noteq> [] \<and> list_all is_digit s"

definition digit_char :: "nat \<Rightarrow> char" where
  "digit_char n = char_of (48 + n)"

fun nat_str :: "nat \<Rightarrow> string" where
  "nat_str n = (if n < 10 then [digit_char n] else nat_str (n div 10) @ [digit_char (n mod 10)])"

declare nat_str.simps [simp del]

definition int_str :: "int \<Rightarrow> string" where
  "int_str i = (if i < 0 then CHR ''-'' # nat_str (nat (- i)) else nat_str (nat i))"

subsection \<open>Dynamic values\<close>

datatype jsv =
    JUndef
  | JNull
  | JBool bool
  | JNum jsnum
  | JStr string
  | JArr "jsv list"
  | JObj "(string \<times> jsv) list"

type_synonym jsobj = "(string \<times> jsv) list"

abbreviation jint :: "int \<Rightarrow> jsv" where
  "jint n \<equiv> JNum (Fin (of_int n))"

text \<open>\<open>o[k]\<close> and \<open>o?.[k]\<close>: a missing property reads as undefined.\<close>

definition oget :: "jsobj \<Rightarrow> string \<Rightarrow> jsv" where
  "oget ob k = (case map_of ob k of None \<Rightarrow> JUndef | Some v \<Rightarrow> v)"

fun vget :: "jsv \<Rightarrow> string \<Rightarrow> jsv" where
  "vget (JObj ob) k = oget ob k"
| "vget _ k = JUndef"

definition ohas :: "jsobj \<Rightarrow> string \<Rightarrow> bool" where
  "ohas ob k \<longleftrightarrow> map_of ob k \<noteq> None"

fun truthy :: "jsv \<Rightarrow> bool" where
  "truthy JUndef = False"
| "truthy JNull = False"
| "truthy (JBool b) = b"
| "truthy (JNum n) = num_truthy n"
| "truthy (JStr s) = (s \<noteq> [])"
| "truthy (JArr _) = True"
| "truthy (JObj _) = True"

text \<open>
  \<open>===\<close>. Arrays and objects are compared by reference; the two sides of every comparison in the
  modelled code come from different JSON documents, so two of them are never the same reference.
\<close>

fun strict_eq :: "jsv \<Rightarrow> jsv \<Rightarrow> bool" where
  "strict_eq JUndef JUndef = True"
| "strict_eq JNull JNull = True"
| "strict_eq (JBool a) (JBool b) = (a = b)"
| "strict_eq (JNum a) (JNum b) = num_eq a b"
| "strict_eq (JStr a) (JStr b) = (a = b)"
| "strict_eq _ _ = False"

text \<open>\<open>v ?? d\<close>\<close>

definition or_default :: "jsv \<Rightarrow> jsv \<Rightarrow> jsv" where
  "or_default v d = (if v = JUndef \<or> v = JNull then d else v)"

definition nullish :: "jsv \<Rightarrow> bool" where
  "nullish v \<longleftrightarrow> v = JUndef \<or> v = JNull"

text \<open>\<open>typeof v === 'string' ? v : ''\<close>\<close>

fun str_or_empty :: "jsv \<Rightarrow> string" where
  "str_or_empty (JStr s) = s"
| "str_or_empty _ = []"

text \<open>\<open>{...o}\<close> without the listed fields.\<close>

definition without :: "jsobj \<Rightarrow> string list \<Rightarrow> jsobj" where
  "without ob ks = filter (\<lambda>(k, v). k \<notin> set ks) ob"

subsection \<open>Collections\<close>

text \<open>\<open>Set.prototype.add\<close> on the list of the members in insertion order.\<close>

definition set_add :: "'a \<Rightarrow> 'a list \<Rightarrow> 'a list" where
  "set_add x xs = (if x \<in> set xs then xs else xs @ [x])"

text \<open>
  \<open>Array.prototype.sort\<close> with a comparison that is a total preorder: the result is the stable sort.
  \<open>le a b\<close> says that the comparison of \<open>a\<close> with \<open>b\<close> is not positive.
\<close>

fun js_insert :: "('a \<Rightarrow> 'a \<Rightarrow> bool) \<Rightarrow> 'a \<Rightarrow> 'a list \<Rightarrow> 'a list" where
  "js_insert le x [] = [x]"
| "js_insert le x (y # ys) = (if le x y then x # y # ys else y # js_insert le x ys)"

definition js_sort :: "('a \<Rightarrow> 'a \<Rightarrow> bool) \<Rightarrow> 'a list \<Rightarrow> 'a list" where
  "js_sort le xs = foldr (js_insert le) xs []"

subsection \<open>Facts about collections\<close>

lemma set_set_add [simp]: "set (set_add x xs) = insert x (set xs)"
  by (auto simp: set_add_def)

lemma distinct_set_add [simp]: "distinct xs \<Longrightarrow> distinct (set_add x xs)"
  by (simp add: set_add_def)

lemma set_fold_set_add [simp]: "set (fold (\<lambda>x. set_add (f x)) ys xs) = set xs \<union> f ` set ys"
  by (induction ys arbitrary: xs) auto

lemma distinct_fold_set_add: "distinct xs \<Longrightarrow> distinct (fold (\<lambda>x. set_add (f x)) ys xs)"
  by (induction ys arbitrary: xs) auto

lemma mset_js_insert [simp]: "mset (js_insert le x ys) = add_mset x (mset ys)"
  by (induction ys) auto

lemma mset_js_sort [simp]: "mset (js_sort le xs) = mset xs"
  by (induction xs) (auto simp: js_sort_def)

lemma set_js_sort [simp]: "set (js_sort le xs) = set xs"
  by (metis mset_js_sort set_mset_mset)

lemma length_js_sort [simp]: "length (js_sort le xs) = length xs"
  by (metis mset_js_sort size_mset)

lemma sorted_js_insert:
  assumes "\<And>a b. le a b \<or> le b a" "\<And>a b c. le a b \<Longrightarrow> le b c \<Longrightarrow> le a c"
  shows "sorted_wrt le ys \<Longrightarrow> sorted_wrt le (js_insert le x ys)"
proof (induction ys)
  case (Cons y ys)
  have "set (js_insert le x ys) = insert x (set ys)"
    by (metis mset_js_insert set_mset_add_mset_insert set_mset_mset)
  then show ?case
    using Cons assms by auto
qed simp

lemma sorted_js_sort:
  assumes "\<And>a b. le a b \<or> le b a" "\<And>a b c. le a b \<Longrightarrow> le b c \<Longrightarrow> le a c"
  shows "sorted_wrt le (js_sort le xs)"
  using assms by (induction xs) (simp_all add: js_sort_def sorted_js_insert)

subsection \<open>Facts about strings\<close>

lemma starts_with_append [simp]: "starts_with (p @ s) p"
  by (simp add: starts_with_def)

lemma starts_with_iff: "starts_with s p \<longleftrightarrow> (\<exists>r. s = p @ r)"
  by (metis append_take_drop_id append_eq_conv_conj starts_with_def)

lemma str_includes_iff: "str_includes s p \<longleftrightarrow> (\<exists>a b. s = a @ p @ b)"
proof (induction s)
  case Nil
  then show ?case by auto
next
  case (Cons c s)
  show ?case
  proof
    assume "str_includes (c # s) p"
    then show "\<exists>a b. c # s = a @ p @ b"
      using Cons.IH by (auto simp: starts_with_iff) (metis append_Cons append_Nil)+
  next
    assume "\<exists>a b. c # s = a @ p @ b"
    then obtain a b where ab: "c # s = a @ p @ b" by blast
    show "str_includes (c # s) p"
    proof (cases a)
      case Nil
      with ab have "starts_with (c # s) p" unfolding starts_with_iff by auto
      then show ?thesis by simp
    next
      case (Cons x xs)
      with ab have "s = xs @ p @ b" by simp
      then show ?thesis using \<open>str_includes s p = (\<exists>a b. s = a @ p @ b)\<close> by auto
    qed
  qed
qed

lemma str_includes_refl [simp]: "str_includes s s"
  by (auto simp: str_includes_iff intro: exI [of _ "[]"])

lemma ends_with_iff: "ends_with s p \<longleftrightarrow> (\<exists>r. s = r @ p)"
  by (metis append_eq_conv_conj append_take_drop_id diff_diff_cancel diff_le_self ends_with_def
      length_append length_drop le_add2 add_diff_cancel_right')

lemma js_trim_Nil [simp]: "js_trim [] = []"
  by (simp add: js_trim_def)

lemma dropWhile_hd_not: "(\<And>x. s \<noteq> [] \<Longrightarrow> x = hd s \<Longrightarrow> \<not> P x) \<Longrightarrow> dropWhile P s = s"
  by (cases s) auto

lemma js_trim_idem [simp]: "js_trim (js_trim s) = js_trim s"
proof -
  define u where "u = dropWhile is_space s"
  define t where "t = rev (dropWhile is_space (rev u))"
  have tp: "\<exists>w. u = t @ w"
    by (metis rev_append rev_rev_ident t_def takeWhile_dropWhile_id)
  have "dropWhile is_space t = t"
  proof (rule dropWhile_hd_not)
    fix x assume "t \<noteq> []" "x = hd t"
    with tp have "u \<noteq> []" "x = hd u" by auto
    then show "\<not> is_space x" unfolding u_def by (simp add: hd_dropWhile)
  qed
  then have "js_trim t = rev (dropWhile is_space (rev t))"
    by (simp add: js_trim_def)
  also have "\<dots> = t" by (simp add: t_def)
  finally show ?thesis by (simp add: js_trim_def t_def u_def)
qed

lemma set_js_trim: "set (js_trim s) \<subseteq> set s"
  by (auto simp: js_trim_def dest!: set_dropWhileD)

lemma length_js_trim: "length (js_trim s) \<le> length s"
  by (metis js_trim_def length_dropWhile_le length_rev order_trans)

lemma split_on_not_Nil [simp]: "split_on d s \<noteq> []"
  by (induction s) (auto split: list.splits)

lemma join_split [simp]: "join_with [d] (split_on d s) = s"
proof (induction s)
  case Nil
  then show ?case by simp
next
  case (Cons c s)
  then show ?case
    by (cases "split_on d s") (auto, metis join_with.simps neq_Nil_conv append_Cons append_Nil)
qed

lemma split_on_no_sep: "w \<in> set (split_on d s) \<Longrightarrow> d \<notin> set w"
  by (induction s arbitrary: w) (auto split: list.splits if_splits)

lemma split_on_plain: "d \<notin> set w \<Longrightarrow> split_on d w = [w]"
  by (induction w) auto

lemma split_on_append: "d \<notin> set w \<Longrightarrow> split_on d (w @ d # s) = w # split_on d s"
  by (induction w) auto

lemma set_join: "x \<in> set (join_with sep ws) \<Longrightarrow> x \<in> set sep \<or> (\<exists>w\<in>set ws. x \<in> set w)"
  by (induction sep ws rule: join_with.induct) auto

lemma split_join:
  "ws \<noteq> [] \<Longrightarrow> (\<forall>w\<in>set ws. d \<notin> set w) \<Longrightarrow> split_on d (join_with [d] ws) = ws"
  by (induction "[d]" ws rule: join_with.induct) (auto simp: split_on_plain split_on_append)

lemma join_inj:
  assumes "ws \<noteq> []" "vs \<noteq> []" "\<forall>w\<in>set ws. d \<notin> set w" "\<forall>w\<in>set vs. d \<notin> set w"
    and "join_with [d] ws = join_with [d] vs"
  shows "ws = vs"
  by (metis assms split_join)

subsection \<open>Facts about decimal numerals\<close>

lemma code_of_char_of [simp]: "n < 256 \<Longrightarrow> code_of (char_of n) = n"
  by (simp add: code_of_def)

lemma is_digit_digit_char [simp]: "n < 10 \<Longrightarrow> is_digit (digit_char n)"
  by (simp add: is_digit_def digit_char_def)

lemma digit_val_digit_char [simp]: "n < 10 \<Longrightarrow> digit_val (digit_char n) = int n"
  by (simp add: digit_val_def digit_char_def)

lemma digits_val_Nil [simp]: "digits_val [] = 0"
  by (simp add: digits_val_def)

lemma digits_val_snoc [simp]: "digits_val (s @ [c]) = 10 * digits_val s + digit_val c"
  by (simp add: digits_val_def)

lemma digits_val_single [simp]: "digits_val [c] = digit_val c"
  by (simp add: digits_val_def)

lemma digits_val_nat_str [simp]: "digits_val (nat_str n) = int n"
proof (induction n rule: nat_str.induct)
  case (1 n)
  then show ?case by (subst nat_str.simps) (auto simp: zdiv_int zmod_int)
qed

lemma nat_str_not_Nil [simp]: "nat_str n \<noteq> []"
  by (subst nat_str.simps) simp

lemma all_digits_nat_str [simp]: "all_digits (nat_str n)"
proof (induction n rule: nat_str.induct)
  case (1 n)
  then show ?case by (subst nat_str.simps) (auto simp: all_digits_def)
qed

lemma nat_str_inj [simp]: "nat_str a = nat_str b \<longleftrightarrow> a = b"
  by (metis digits_val_nat_str of_nat_eq_iff)

lemma nat_str_digits: "c \<in> set (nat_str n) \<Longrightarrow> is_digit c"
  using all_digits_nat_str [of n] by (auto simp: all_digits_def list_all_iff)

subsection \<open>Facts about objects\<close>

lemma oget_Nil [simp, js_obj]: "oget [] k = JUndef"
  by (simp add: oget_def)

lemma oget_Cons [js_obj]: "oget ((a, v) # ob) k = (if a = k then v else oget ob k)"
  by (simp add: oget_def)

lemma oget_update [simp, js_obj]: "oget (AList.update a v ob) k = (if a = k then v else oget ob k)"
  by (simp add: oget_def update_conv')

lemma oget_delete [simp, js_obj]: "oget (AList.delete a ob) k = (if a = k then JUndef else oget ob k)"
  by (simp add: oget_def delete_conv')

lemma map_of_without: "map_of (without ob ks) k = (if k \<in> set ks then None else map_of ob k)"
  by (induction ob) (auto simp: without_def)

lemma oget_without [simp, js_obj]: "oget (without ob ks) k = (if k \<in> set ks then JUndef else oget ob k)"
  by (simp add: oget_def map_of_without)

lemma ohas_without [simp, js_obj]: "ohas (without ob ks) k \<longleftrightarrow> k \<notin> set ks \<and> ohas ob k"
  by (simp add: ohas_def map_of_without)

lemma ohas_delete [simp, js_obj]: "ohas (AList.delete a ob) k \<longleftrightarrow> k \<noteq> a \<and> ohas ob k"
  by (auto simp: ohas_def delete_conv')

lemma ohas_update [simp, js_obj]: "ohas (AList.update a v ob) k \<longleftrightarrow> k = a \<or> ohas ob k"
  by (auto simp: ohas_def update_conv')

lemma not_ohas_oget: "\<not> ohas ob k \<Longrightarrow> oget ob k = JUndef"
  by (auto simp: ohas_def oget_def)

lemma without_without: "without (without ob ks) ls = without ob (ks @ ls)"
  by (induction ob) (auto simp: without_def)

lemma delete_is_without: "AList.delete k ob = without ob [k]"
  by (auto simp: AList.delete_eq without_def intro: filter_cong)

lemma or_default_id [simp]: "v \<noteq> JUndef \<Longrightarrow> v \<noteq> JNull \<Longrightarrow> or_default v d = v"
  by (simp add: or_default_def)

lemma strict_eq_sym: "strict_eq a b = strict_eq b a"
  by (cases a; cases b) (auto simp: num_eq_sym)

lemma strict_eq_imp_eq: "strict_eq a b \<Longrightarrow> a = b"
  by (cases a; cases b) (auto simp: num_eq_def)

end
