(* ===== verification/Json.thy ===== *)
theory Json
  imports JsPrelude
begin

section \<open>JSON text\<close>

text \<open>
  \<open>JSON.parse\<close>, \<open>JSON.stringify\<close>, \<open>Number\<close> of a decimal literal and \<open>atob\<close>, as far as the modelled
  code uses them. The parser is the ECMA-404 grammar: it takes white space between tokens,
  rejects control characters in strings and anything after the value, and keeps the last of two
  equal keys. A \<open>\u\<close> escape of a code unit above 255 has no counterpart in \<open>char\<close> and is refused.
  The recursion is bounded by a fuel of one more than the length of the text; \<open>json_roundtrip\<close>
  shows that this is enough to read back every value the printer writes.
\<close>

subsection \<open>Numbers\<close>

text \<open>A decimal value as the nearest-double conversion classifies it: too large is infinite.\<close>

definition double_bound :: rat where
  "double_bound = 2 ^ 1024 - 2 ^ 970"

definition to_double :: "rat \<Rightarrow> jsnum" where
  "to_double r = (if double_bound \<le> r then PosInf
     else if r \<le> - double_bound then NegInf else Fin r)"

lemma double_bound_large: "9007199254740992 \<le> double_bound"
  by (simp add: double_bound_def)

text \<open>Evaluation does not look at the bound for a number below \<open>2 ^ 53\<close>.\<close>

lemma to_double_code [code]:
  "to_double r = (if \<bar>r\<bar> < 9007199254740992 then Fin r
     else if double_bound \<le> r then PosInf else if r \<le> - double_bound then NegInf else Fin r)"
  using double_bound_large by (auto simp: to_double_def)

definition take_digits :: "string \<Rightarrow> string \<times> string" where
  "take_digits s = (takeWhile is_digit s, dropWhile is_digit s)"

definition pow10 :: "int \<Rightarrow> rat" where
  "pow10 e = (if 0 \<le> e then 10 ^ nat e else 1 / 10 ^ nat (- e))"

text \<open>The optional exponent of a literal: its value and the rest; no exponent is 0.\<close>

definition exponent_part :: "string \<Rightarrow> (int \<times> string) option" where
  "exponent_part s = (case s of
     [] \<Rightarrow> Some (0, [])
   | c # r \<Rightarrow>
       if c = CHR ''e'' \<or> c = CHR ''E'' then
         (let neg = (r \<noteq> [] \<and> hd r = CHR ''-'');
              r' = (if r \<noteq> [] \<and> (hd r = CHR ''-'' \<or> hd r = CHR ''+'') then tl r else r);
              (ds, rest) = take_digits r'
          in if ds = [] then None
             else Some ((if neg then - digits_val ds else digits_val ds), rest))
       else Some (0, s))"

text \<open>The optional fraction: its digits and the rest. A point needs a digit after it.\<close>

definition fraction_part :: "string \<Rightarrow> (string \<times> string) option" where
  "fraction_part s = (case s of
     [] \<Rightarrow> Some ([], [])
   | c # r \<Rightarrow>
       if c = CHR ''.'' then
         (let (ds, rest) = take_digits r in if ds = [] then None else Some (ds, rest))
       else Some ([], s))"

definition decimal_value :: "bool \<Rightarrow> string \<Rightarrow> string \<Rightarrow> int \<Rightarrow> rat" where
  "decimal_value neg ip fp e =
     (if neg then -1 else 1) * (of_int (digits_val (ip @ fp)) * pow10 (e - int (length fp)))"

definition parse_number :: "string \<Rightarrow> (jsv \<times> string) option" where
  "parse_number s =
     (let neg = (s \<noteq> [] \<and> hd s = CHR ''-'');
          (ip, r1) = take_digits (if neg then tl s else s)
      in if ip = [] \<or> (1 < length ip \<and> hd ip = CHR ''0'') then None
         else (case fraction_part r1 of
             None \<Rightarrow> None
           | Some (fp, r2) \<Rightarrow>
               (case exponent_part r2 of
                  None \<Rightarrow> None
                | Some (e, rest) \<Rightarrow> Some (JNum (to_double (decimal_value neg ip fp e)), rest))))"

text \<open>
  \<open>Number(s)\<close>: white space around is dropped and the empty string is 0; a decimal literal may
  have a sign and start or end with its point; a radix prefix takes no sign; anything else is NaN.
\<close>

definition hex_val :: "char \<Rightarrow> nat option" where
  "hex_val c = (let n = code_of c in
     if 48 \<le> n \<and> n \<le> 57 then Some (n - 48)
     else if 65 \<le> n \<and> n \<le> 70 then Some (n - 55)
     else if 97 \<le> n \<and> n \<le> 102 then Some (n - 87)
     else None)"

definition radix_digits :: "nat \<Rightarrow> string \<Rightarrow> bool" where
  "radix_digits b s \<longleftrightarrow> s \<noteq> [] \<and> list_all (\<lambda>c. case hex_val c of None \<Rightarrow> False | Some d \<Rightarrow> d < b) s"

definition radix_val :: "nat \<Rightarrow> string \<Rightarrow> int" where
  "radix_val b s = foldl (\<lambda>n c. int b * n + int (the (hex_val c))) 0 s"

definition decimal_literal :: "bool \<Rightarrow> string \<Rightarrow> jsnum" where
  "decimal_literal neg s =
     (let (ip, r1) = take_digits s;
          (fp, r2) = (if r1 \<noteq> [] \<and> hd r1 = CHR ''.'' then take_digits (tl r1) else ([], r1))
      in if ip = [] \<and> fp = [] then NaN
         else (case exponent_part r2 of
             Some (e, []) \<Rightarrow> to_double (decimal_value neg ip fp e)
           | _ \<Rightarrow> NaN))"

definition js_number :: "string \<Rightarrow> jsnum" where
  "js_number str =
     (let s = js_trim str;
          signed = (s \<noteq> [] \<and> (hd s = CHR ''-'' \<or> hd s = CHR ''+''));
          neg = (s \<noteq> [] \<and> hd s = CHR ''-'');
          u = (if signed then tl s else s)
      in if s = [] then Fin 0
         else if u = ''Infinity'' then (if neg then NegInf else PosInf)
         else if (starts_with s ''0x'' \<or> starts_with s ''0X'') \<and> radix_digits 16 (drop 2 s) then to_double (of_int (radix_val 16 (drop 2 s)))
         else if (starts_with s ''0o'' \<or> starts_with s ''0O'') \<and> radix_digits 8 (drop 2 s) then to_double (of_int (radix_val 8 (drop 2 s)))
         else if (starts_with s ''0b'' \<or> starts_with s ''0B'') \<and> radix_digits 2 (drop 2 s) then to_double (of_int (radix_val 2 (drop 2 s)))
         else decimal_literal neg u)"

subsection \<open>Strings\<close>

fun hex4 :: "string \<Rightarrow> (nat \<times> string) option" where
  "hex4 (a # b # c # d # r) =
     (case (hex_val a, hex_val b, hex_val c, hex_val d) of
        (Some w, Some x, Some y, Some z) \<Rightarrow> Some (4096 * w + 256 * x + 16 * y + z, r)
      | _ \<Rightarrow> None)"
| "hex4 _ = None"

definition escape_char :: "char \<Rightarrow> char option" where
  "escape_char c =
     (if c = CHR 0x22 \<or> c = CHR 0x5C \<or> c = CHR ''/'' then Some c
      else if c = CHR ''b'' then Some (CHR 0x08)
      else if c = CHR ''f'' then Some (CHR 0x0C)
      else if c = CHR ''n'' then Some (CHR 0x0A)
      else if c = CHR ''r'' then Some (CHR 0x0D)
      else if c = CHR ''t'' then Some (CHR 0x09)
      else None)"

text \<open>The rest of a string literal after its opening quote.\<close>

function (sequential) parse_chars :: "string \<Rightarrow> (string \<times> string) option" where
  "parse_chars [] = None"
| "parse_chars (c # s) =
     (if c = CHR 0x22 then Some ([], s)
      else if code_of c < 32 then None
      else if c = CHR 0x5C then
        (case s of
           [] \<Rightarrow> None
         | k # r \<Rightarrow>
             if k = CHR ''u'' then
               (case hex4 r of
                  None \<Rightarrow> None
                | Some (n, r') \<Rightarrow>
                    if n < 256 \<and> length r' < length r
                    then map_option (\<lambda>(t, q). (char_of n # t, q)) (parse_chars r') else None)
             else (case escape_char k of
                  None \<Rightarrow> None
                | Some x \<Rightarrow> map_option (\<lambda>(t, q). (x # t, q)) (parse_chars r)))
      else map_option (\<lambda>(t, q). (c # t, q)) (parse_chars s))"
  by pat_completeness auto
termination
  by (relation "measure length") auto

subsection \<open>Values\<close>

definition is_json_space :: "char \<Rightarrow> bool" where
  "is_json_space c \<longleftrightarrow> c = CHR '' '' \<or> c = CHR 0x09 \<or> c = CHR 0x0A \<or> c = CHR 0x0D"

definition skip_ws :: "string \<Rightarrow> string" where
  "skip_ws s = dropWhile is_json_space s"

definition parse_word :: "string \<Rightarrow> jsv \<Rightarrow> string \<Rightarrow> (jsv \<times> string) option" where
  "parse_word w v s = (if starts_with s w then Some (v, drop (length w) s) else None)"

text \<open>A value; the elements of an array after \<open>[\<close>; the members of an object after \<open>{\<close>.\<close>

fun parse_value :: "nat \<Rightarrow> string \<Rightarrow> (jsv \<times> string) option"
and parse_elems :: "nat \<Rightarrow> jsv list \<Rightarrow> string \<Rightarrow> (jsv \<times> string) option"
and parse_members :: "nat \<Rightarrow> jsobj \<Rightarrow> string \<Rightarrow> (jsv \<times> string) option" where
  "parse_value 0 s = None"
| "parse_value (Suc n) s =
     (case skip_ws s of
        [] \<Rightarrow> None
      | c # r \<Rightarrow>
          if c = CHR ''{'' then
            (case skip_ws r of [] \<Rightarrow> None
             | d # r' \<Rightarrow> if d = CHR ''}'' then Some (JObj [], r') else parse_members n [] r)
          else if c = CHR ''['' then
            (case skip_ws r of [] \<Rightarrow> None
             | d # r' \<Rightarrow> if d = CHR '']'' then Some (JArr [], r') else parse_elems n [] r)
          else if c = CHR 0x22 then map_option (\<lambda>(t, q). (JStr t, q)) (parse_chars r)
          else if c = CHR ''t'' then parse_word ''true'' (JBool True) (c # r)
          else if c = CHR ''f'' then parse_word ''false'' (JBool False) (c # r)
          else if c = CHR ''n'' then parse_word ''null'' JNull (c # r)
          else parse_number (c # r))"
| "parse_elems 0 acc s = None"
| "parse_elems (Suc n) acc s =
     (case parse_value n s of
        None \<Rightarrow> None
      | Some (v, r) \<Rightarrow>
          (case skip_ws r of [] \<Rightarrow> None
           | d # r' \<Rightarrow>
               if d = CHR '','' then parse_elems n (acc @ [v]) r'
               else if d = CHR '']'' then Some (JArr (acc @ [v]), r')
               else None))"
| "parse_members 0 acc s = None"
| "parse_members (Suc n) acc s =
     (case skip_ws s of
        [] \<Rightarrow> None
      | q # r \<Rightarrow>
          if q \<noteq> CHR 0x22 then None
          else (case parse_chars r of
              None \<Rightarrow> None
            | Some (k, r1) \<Rightarrow>
                (case skip_ws r1 of [] \<Rightarrow> None
                 | d # r2 \<Rightarrow>
                     if d \<noteq> CHR '':'' then None
                     else (case parse_value n r2 of
                         None \<Rightarrow> None
                       | Some (v, r3) \<Rightarrow>
                           (case skip_ws r3 of [] \<Rightarrow> None
                            | e # r4 \<Rightarrow>
                                if e = CHR '','' then parse_members n (AList.update k v acc) r4
                                else if e = CHR ''}'' then Some (JObj (AList.update k v acc), r4)
                                else None)))))"

definition json_parse :: "string \<Rightarrow> jsv option" where
  "json_parse s = (case parse_value (Suc (length s)) s of
     None \<Rightarrow> None
   | Some (v, r) \<Rightarrow> if skip_ws r = [] then Some v else None)"

declare parse_value.simps(2) [simp del] parse_elems.simps(2) [simp del] parse_members.simps(2) [simp del]

subsection \<open>Printing\<close>

definition hex_digit :: "nat \<Rightarrow> char" where
  "hex_digit n = (if n < 10 then char_of (48 + n) else char_of (87 + n))"

definition quote_char :: "char \<Rightarrow> string" where
  "quote_char c =
     (if c = CHR 0x22 \<or> c = CHR 0x5C then [CHR 0x5C, c]
      else if c = CHR 0x08 then [CHR 0x5C, CHR ''b'']
      else if c = CHR 0x0C then [CHR 0x5C, CHR ''f'']
      else if c = CHR 0x0A then [CHR 0x5C, CHR ''n'']
      else if c = CHR 0x0D then [CHR 0x5C, CHR ''r'']
      else if c = CHR 0x09 then [CHR 0x5C, CHR ''t'']
      else if code_of c < 32 then
        [CHR 0x5C, CHR ''u'', CHR ''0'', CHR ''0'', hex_digit (code_of c div 16), hex_digit (code_of c mod 16)]
      else [c])"

definition quote :: "string \<Rightarrow> string" where
  "quote s = CHR 0x22 # concat (map quote_char s) @ [CHR 0x22]"

text \<open>\<open>String(n)\<close>; a fraction is printed with at most 17 decimals.\<close>

fun frac_digits :: "nat \<Rightarrow> rat \<Rightarrow> string" where
  "frac_digits 0 r = []"
| "frac_digits (Suc n) r =
     (if r = 0 then []
      else digit_char (nat \<lfloor>10 * r\<rfloor>) # frac_digits n (10 * r - of_int \<lfloor>10 * r\<rfloor>))"

definition rat_str :: "rat \<Rightarrow> string" where
  "rat_str r = (if of_int \<lfloor>r\<rfloor> = r then int_str \<lfloor>r\<rfloor>
     else (if r < 0 then ''-'' else []) @ int_str \<lfloor>\<bar>r\<bar>\<rfloor> @ ''.''
       @ frac_digits 17 (\<bar>r\<bar> - of_int \<lfloor>\<bar>r\<bar>\<rfloor>))"

fun num_str :: "jsnum \<Rightarrow> string" where
  "num_str (Fin r) = rat_str r"
| "num_str PosInf = ''Infinity''"
| "num_str NegInf = ''-Infinity''"
| "num_str NaN = ''NaN''"

text \<open>\<open>String(v)\<close>, as a template literal prints a value.\<close>

function (sequential) js_string :: "jsv \<Rightarrow> string"
and js_string_elems :: "jsv list \<Rightarrow> string list" where
  "js_string JUndef = ''undefined''"
| "js_string JNull = ''null''"
| "js_string (JBool b) = (if b then ''true'' else ''false'')"
| "js_string (JNum n) = num_str n"
| "js_string (JStr s) = s"
| "js_string (JArr vs) = join_with '','' (js_string_elems vs)"
| "js_string (JObj _) = ''[object Object]''"
| "js_string_elems [] = []"
| "js_string_elems (v # vs) = (if nullish v then [] else js_string v) # js_string_elems vs"
  by pat_completeness auto
termination
  by (relation "measure (case_sum size (size_list size))") auto

fun json_num :: "jsnum \<Rightarrow> string" where
  "json_num (Fin r) = rat_str r"
| "json_num _ = ''null''"

text \<open>\<open>JSON.stringify\<close>: a hole of an array is \<open>null\<close>, an undefined member is left out.\<close>

function (sequential) json_stringify :: "jsv \<Rightarrow> string"
and json_elems :: "jsv list \<Rightarrow> string list"
and json_members :: "jsobj \<Rightarrow> string list" where
  "json_stringify JUndef = ''null''"
| "json_stringify JNull = ''null''"
| "json_stringify (JBool b) = (if b then ''true'' else ''false'')"
| "json_stringify (JNum n) = json_num n"
| "json_stringify (JStr s) = quote s"
| "json_stringify (JArr vs) = CHR ''['' # join_with '','' (json_elems vs) @ '']''"
| "json_stringify (JObj ob) = CHR ''{'' # join_with '','' (json_members ob) @ ''}''"
| "json_elems [] = []"
| "json_elems (v # vs) = json_stringify v # json_elems vs"
| "json_members [] = []"
| "json_members ((k, v) # ob) =
     (if v = JUndef then json_members ob
      else (quote k @ CHR '':'' # json_stringify v) # json_members ob)"
  by pat_completeness auto
termination
  by (relation "measure (case_sum size (case_sum (size_list size) (size_list (size_prod (\<lambda>_. 0) size))))")
    auto

subsection \<open>Reading back what was printed\<close>

text \<open>
  The values that survive \<open>JSON.stringify\<close> unchanged: no undefined, no infinity or NaN, integers
  in the range of a double, objects without duplicate keys.
\<close>

function (sequential) jsonable :: "jsv \<Rightarrow> bool"
and jsonable_list :: "jsv list \<Rightarrow> bool"
and jsonable_fields :: "jsobj \<Rightarrow> bool" where
  "jsonable JUndef = False"
| "jsonable JNull = True"
| "jsonable (JBool b) = True"
| "jsonable (JNum n) = (case n of Fin r \<Rightarrow> of_int \<lfloor>r\<rfloor> = r \<and> \<bar>r\<bar> < double_bound | _ \<Rightarrow> False)"
| "jsonable (JStr s) = True"
| "jsonable (JArr vs) = jsonable_list vs"
| "jsonable (JObj ob) = (distinct (map fst ob) \<and> jsonable_fields ob)"
| "jsonable_list [] = True"
| "jsonable_list (v # vs) = (jsonable v \<and> jsonable_list vs)"
| "jsonable_fields [] = True"
| "jsonable_fields ((k, v) # ob) = (jsonable v \<and> jsonable_fields ob)"
  by pat_completeness auto
termination
  by (relation "measure (case_sum size (case_sum (size_list size) (size_list (size_prod (\<lambda>_. 0) size))))")
    auto

lemma hex_val_hex_digit: "n < 16 \<Longrightarrow> hex_val (hex_digit n) = Some n"
  by (auto simp: hex_val_def hex_digit_def)

lemma char_of_code_of [simp]: "char_of (code_of c) = c"
  by (simp add: code_of_def)

lemma quote_char_control:
  assumes "code_of c < 32"
  shows "parse_chars (CHR 0x5C # CHR ''u'' # CHR ''0'' # CHR ''0'' # hex_digit (code_of c div 16)
      # hex_digit (code_of c mod 16) # t) = map_option (\<lambda>(x, q). (c # x, q)) (parse_chars t)"
proof -
  have "hex_val (CHR ''0'') = Some 0" by (simp add: hex_val_def code_of_def)
  moreover have "16 * (code_of c div 16) + code_of c mod 16 = code_of c" by simp
  moreover have "code_of c div 16 < 16" using assms by linarith
  ultimately show ?thesis using assms
    by (simp add: hex_val_hex_digit)
qed

lemma quote_char_plain:
  assumes "c \<noteq> CHR 0x22" "c \<noteq> CHR 0x5C" "\<not> code_of c < 32"
  shows "parse_chars (c # t) = map_option (\<lambda>(x, q). (c # x, q)) (parse_chars t)"
  using assms by simp

lemma parse_quote_char: "parse_chars (quote_char c @ t) = map_option (\<lambda>(x, q). (c # x, q)) (parse_chars t)"
proof (cases "c \<in> {CHR 0x22, CHR 0x5C, CHR 0x08, CHR 0x0C, CHR 0x0A, CHR 0x0D, CHR 0x09}")
  case True
  then show ?thesis by (auto simp: quote_char_def escape_char_def code_of_def)
next
  case False
  show ?thesis
  proof (cases "code_of c < 32")
    case True
    with False have "quote_char c = [CHR 0x5C, CHR ''u'', CHR ''0'', CHR ''0'',
        hex_digit (code_of c div 16), hex_digit (code_of c mod 16)]"
      by (simp add: quote_char_def)
    then show ?thesis using quote_char_control [OF True] by simp
  next
    case ctl: False
    with False have "quote_char c = [c]" by (simp add: quote_char_def)
    then show ?thesis using quote_char_plain [of c t] False ctl by simp
  qed
qed

lemma parse_quote: "parse_chars (concat (map quote_char s) @ CHR 0x22 # r) = Some (s, r)"
  by (induction s) (simp_all add: parse_quote_char)

lemma hd_nat_str_zero: "hd (nat_str n) = CHR ''0'' \<Longrightarrow> n = 0"
proof (induction n rule: nat_str.induct)
  case (1 n)
  show ?case
  proof (cases "n < 10")
    case True
    with "1.prems" have "code_of (digit_char n) = code_of (CHR ''0'')"
      by (simp add: nat_str.simps [of n])
    with True show ?thesis by (simp add: digit_char_def)
  next
    case False
    with "1.prems" have "hd (nat_str (n div 10)) = CHR ''0''" by (simp add: nat_str.simps [of n])
    with "1.IH" False show ?thesis by auto
  qed
qed

lemma nat_str_no_lead: "1 < length (nat_str n) \<Longrightarrow> hd (nat_str n) \<noteq> CHR ''0''"
  using hd_nat_str_zero [of n] by (auto simp: nat_str.simps [of 0])

definition ends_number :: "string \<Rightarrow> bool" where
  "ends_number r \<longleftrightarrow> r = [] \<or> hd r = CHR '','' \<or> hd r = CHR '']'' \<or> hd r = CHR ''}''"

lemma take_digits_nat_str: "ends_number r \<Longrightarrow> take_digits (nat_str n @ r) = (nat_str n, r)"
proof -
  assume r: "ends_number r"
  have nd: "takeWhile is_digit r = []" "dropWhile is_digit r = r"
    using r by (cases r; auto simp: ends_number_def is_digit_def code_of_def)+
  have all: "\<forall>c\<in>set (nat_str n). is_digit c" by (auto dest: nat_str_digits)
  show ?thesis
    using all nd by (simp add: take_digits_def takeWhile_append2 dropWhile_append2)
qed

lemma parse_number_tail:
  "ends_number r \<Longrightarrow> fraction_part r = Some ([], r)" "ends_number r \<Longrightarrow> exponent_part r = Some (0, r)"
  by (cases r; auto simp: ends_number_def fraction_part_def exponent_part_def)+

lemma nat_str_hd_digit: "is_digit (hd (nat_str n))"
  by (meson hd_in_set nat_str_digits nat_str_not_Nil)

lemma is_digit_minus [simp]: "\<not> is_digit (CHR ''-'')"
  by (simp add: is_digit_def code_of_def)

lemma to_double_int: "\<bar>of_int i\<bar> < double_bound \<Longrightarrow> to_double (of_int i) = Fin (of_int i)"
  by (auto simp: to_double_def abs_less_iff)

lemma parse_number_int:
  assumes r: "ends_number r" and b: "\<bar>of_int i\<bar> < double_bound"
  shows "parse_number (int_str i @ r) = Some (jint i, r)"
proof -
  have val: "of_nat (nat \<bar>i\<bar>) = (of_int \<bar>i\<bar> :: rat)" by simp
  show ?thesis
  proof (cases "i < 0")
    case True
    then have "to_double (- of_int (int (nat (- i)))) = Fin (of_int i)"
      using to_double_int [OF b] by simp
    with True r show ?thesis
      by (auto simp: parse_number_def int_str_def take_digits_nat_str parse_number_tail
          decimal_value_def pow10_def nat_str_no_lead)
  next
    case False
    have "hd (nat_str (nat i) @ r) \<noteq> CHR ''-''"
      using nat_str_hd_digit [of "nat i"] is_digit_minus by (metis hd_append2 nat_str_not_Nil)
    moreover have "to_double (of_int (int (nat i))) = Fin (of_int i)"
      using to_double_int [OF b] False by simp
    ultimately show ?thesis using False r
      by (auto simp: parse_number_def int_str_def take_digits_nat_str parse_number_tail
          decimal_value_def pow10_def nat_str_no_lead)
  qed
qed

text \<open>What a printed value starts with decides the branch of the parser it takes.\<close>

lemma int_str_head: "\<exists>c r. int_str i = c # r \<and> (is_digit c \<or> c = CHR ''-'')"
  using nat_str_digits [of _ "nat i"] by (cases "nat_str (nat i)") (auto simp: int_str_def)

lemma jsonable_num: "jsonable (JNum n) \<Longrightarrow> \<exists>i. n = num i \<and> \<bar>of_int i\<bar> < double_bound"
proof (cases n)
  case (Fin r)
  moreover assume "jsonable (JNum n)"
  ultimately have "n = num \<lfloor>r\<rfloor>" "\<bar>of_int \<lfloor>r\<rfloor>\<bar> < double_bound" by auto
  then show ?thesis by blast
qed auto

lemma rat_str_int [simp]: "rat_str (of_int i) = int_str i"
  by (simp add: rat_str_def)

lemma json_head:
  assumes "jsonable v"
  shows "\<exists>c r. json_stringify v = c # r \<and> \<not> is_json_space c \<and> c \<noteq> CHR '']''"
proof (cases v)
  case (JNum n)
  then obtain i where "n = num i" using jsonable_num assms by blast
  then show ?thesis using JNum int_str_head [of i]
    by (auto simp: is_json_space_def is_digit_def)
qed (use assms in \<open>auto simp: is_json_space_def quote_def\<close>)

lemma skip_ws_head: "\<not> is_json_space c \<Longrightarrow> skip_ws (c # r) = c # r"
  by (simp add: skip_ws_def)

lemma skip_ws_json: "jsonable v \<Longrightarrow> skip_ws (json_stringify v @ r) = json_stringify v @ r"
  using json_head [of v] by (auto simp: skip_ws_head)

lemma json_space_marks [simp]:
  "\<not> is_json_space (CHR '','')" "\<not> is_json_space (CHR '']'')" "\<not> is_json_space (CHR ''}'')"
  "\<not> is_json_space (CHR '':'')" "\<not> is_json_space (CHR 0x22)" "\<not> is_json_space (CHR ''['')"
  "\<not> is_json_space (CHR ''{'')"
  by (auto simp: is_json_space_def)

lemma number_head:
  assumes "is_digit c \<or> c = CHR ''-''"
  shows "c \<noteq> CHR ''{''" "c \<noteq> CHR ''[''" "c \<noteq> CHR 0x22" "c \<noteq> CHR ''t''" "c \<noteq> CHR ''f''" "c \<noteq> CHR ''n''"
  using assms by (auto simp: is_digit_def)

lemma parse_value_num:
  assumes "jsonable (JNum n)" "ends_number r"
  shows "parse_value (Suc k) (json_stringify (JNum n) @ r) = Some (JNum n, r)"
proof -
  obtain i where n: "n = num i" and b: "\<bar>of_int i\<bar> < double_bound"
    using jsonable_num assms(1) by blast
  obtain c t where ct: "int_str i = c # t" and c: "is_digit c \<or> c = CHR ''-''"
    using int_str_head by blast
  have "\<not> is_json_space c" using c by (auto simp: is_json_space_def is_digit_def)
  then have "parse_value (Suc k) (c # t @ r) = parse_number (c # t @ r)"
    using number_head [OF c] by (simp add: parse_value.simps(2) skip_ws_head del: parse_elems.simps parse_members.simps)
  also have "\<dots> = Some (JNum n, r)"
    using parse_number_int [OF assms(2) b] n ct by simp
  finally show ?thesis using n ct by simp
qed

lemma json_join_len: "length (join_with '','' (w # ws)) = length w + (if ws = [] then 0 else 1 + length (join_with '','' ws))"
  by (cases ws) auto

lemma json_elems_Nil [simp]: "json_elems vs = [] \<longleftrightarrow> vs = []"
  by (cases vs) auto

lemma jsonable_not_undef: "jsonable v \<Longrightarrow> v \<noteq> JUndef"
  by auto

lemma json_members_cons:
  "jsonable_fields ((k, v) # ob) \<Longrightarrow> json_members ((k, v) # ob) = (quote k @ CHR '':'' # json_stringify v) # json_members ob"
  by auto

lemma json_members_Nil: "jsonable_fields ob \<Longrightarrow> json_members ob = [] \<longleftrightarrow> ob = []"
  by (cases ob) (auto split: if_splits)

lemma update_fresh: "k \<notin> set (map fst acc) \<Longrightarrow> AList.update k v acc = acc @ [(k, v)]"
  by (induction acc) auto

lemma join_cons: "ws \<noteq> [] \<Longrightarrow> join_with sep (w # ws) = w @ sep @ join_with sep ws"
  by (cases ws) auto

lemma ends_number_marks [simp]:
  "ends_number (CHR '','' # r)" "ends_number (CHR '']'' # r)" "ends_number (CHR ''}'' # r)"
  by (auto simp: ends_number_def)

lemma quote_head: "quote k = CHR 0x22 # concat (map quote_char k) @ [CHR 0x22]"
  by (simp add: quote_def)

lemma json_read_back:
  "jsonable v \<Longrightarrow> length (json_stringify v) \<le> n \<Longrightarrow> ends_number r \<Longrightarrow>
     parse_value n (json_stringify v @ r) = Some (v, r)"
  "jsonable_list vs \<Longrightarrow> vs \<noteq> [] \<Longrightarrow> length (join_with '','' (json_elems vs)) < n \<Longrightarrow>
     parse_elems n acc (join_with '','' (json_elems vs) @ CHR '']'' # r) = Some (JArr (acc @ vs), r)"
  "jsonable_fields ob \<Longrightarrow> ob \<noteq> [] \<Longrightarrow> distinct (map fst (ob0 @ ob)) \<Longrightarrow>
     length (join_with '','' (json_members ob)) < n \<Longrightarrow>
     parse_members n ob0 (join_with '','' (json_members ob) @ CHR ''}'' # r) = Some (JObj (ob0 @ ob), r)"
proof (induction v and vs and ob arbitrary: n r and n acc r and n ob0 r
    rule: json_stringify_json_elems_json_members.induct)
  case (2 n r)
  then show ?case by (cases n) (auto simp: parse_value.simps(2) parse_word_def skip_ws_head is_json_space_def starts_with_def)
next
  case (3 b n r)
  then show ?case by (cases n; cases b) (auto simp: parse_value.simps(2) parse_word_def skip_ws_head is_json_space_def starts_with_def)
next
  case (4 x n r)
  obtain c t where "json_stringify (JNum x) = c # t" using json_head "4.prems" by blast
  then obtain m where "n = Suc m" using "4.prems" by (cases n) auto
  then show ?case using parse_value_num "4.prems" by blast
next
  case (5 s n r)
  obtain m where "n = Suc m" using "5.prems" by (cases n) (auto simp: quote_head)
  then show ?case
    by (simp add: parse_value.simps(2) quote_head skip_ws_head parse_quote)
next
  case (6 vs)
  obtain m where n: "n = Suc m" using "6.prems" by (cases n) auto
  show ?case
  proof (cases vs)
    case Nil
    then show ?thesis by (simp add: n parse_value.simps(2) skip_ws_head)
  next
    case (Cons v ws)
    have "parse_elems m [] (join_with '','' (json_elems vs) @ CHR '']'' # r) = Some (JArr vs, r)"
      using "6.IH" [of m "[]" r] "6.prems" Cons n by simp
    moreover obtain c t where "json_stringify v = c # t" "\<not> is_json_space c" "c \<noteq> CHR '']''"
      using json_head [of v] "6.prems" Cons by auto
    moreover have "\<exists>u. join_with '','' (json_elems vs) = json_stringify v @ u"
      using Cons by (cases "json_elems ws") auto
    ultimately show ?thesis by (auto simp: n parse_value.simps(2) skip_ws_head)
  qed
next
  case (7 ob)
  obtain m where n: "n = Suc m" using "7.prems" by (cases n) auto
  show ?case
  proof (cases ob)
    case Nil
    then show ?thesis by (simp add: n parse_value.simps(2) skip_ws_head)
  next
    case (Cons p ob')
    obtain k v where p: "p = (k, v)" by fastforce
    have "parse_members m [] (join_with '','' (json_members ob) @ CHR ''}'' # r) = Some (JObj ob, r)"
      using "7.IH" [of "[]" m r] "7.prems" Cons n by simp
    moreover have "\<exists>u. join_with '','' (json_members ob) = CHR 0x22 # u"
      using "7.prems" Cons p
      by (cases "json_members ob'") (auto simp: quote_head)
    ultimately show ?thesis by (auto simp: n parse_value.simps(2) skip_ws_head)
  qed
next
  case (9 v vs)
  obtain m where n: "n = Suc m" using "9.prems" by (cases n) auto
  show ?case
  proof (cases "vs = []")
    case True
    with "9.IH"(1) [of m "CHR '']'' # r"] "9.prems" n show ?thesis
      by (simp add: parse_elems.simps(2) skip_ws_head)
  next
    case False
    have j: "join_with '','' (json_elems (v # vs)) = json_stringify v @ CHR '','' # join_with '','' (json_elems vs)"
      using False by (simp add: join_cons)
    with "9.prems" n have m: "length (json_stringify v) \<le> m" "length (join_with '','' (json_elems vs)) < m"
      by auto
    have "parse_value m (json_stringify v @ CHR '','' # join_with '','' (json_elems vs) @ CHR '']'' # r)
        = Some (v, CHR '','' # join_with '','' (json_elems vs) @ CHR '']'' # r)"
      using "9.IH"(1) "9.prems" m by simp
    moreover have "parse_elems m (acc @ [v]) (join_with '','' (json_elems vs) @ CHR '']'' # r)
        = Some (JArr ((acc @ [v]) @ vs), r)"
      using "9.IH"(2) "9.prems" False m by (simp del: append_assoc)
    ultimately show ?thesis using j n by (simp add: parse_elems.simps(2) skip_ws_head)
  qed
next
  case (11 k v ob)
  obtain m where n: "n = Suc m" using "11.prems" by (cases n) auto
  have v: "v \<noteq> JUndef" "jsonable v" "jsonable_fields ob" using "11.prems" by auto
  have fresh: "k \<notin> set (map fst ob0)" using "11.prems" by auto
  show ?case
  proof (cases "ob = []")
    case True
    with "11.IH"(2) [OF v(1) v(2), of m "CHR ''}'' # r"] "11.prems" v n fresh show ?thesis
      by (simp add: parse_members.simps(2) skip_ws_head quote_head parse_quote update_fresh)
  next
    case False
    have j: "join_with '','' (json_members ((k, v) # ob))
        = CHR 0x22 # concat (map quote_char k) @ CHR 0x22 # CHR '':'' # json_stringify v
          @ CHR '','' # join_with '','' (json_members ob)"
      using False v by (simp add: join_cons json_members_Nil quote_head)
    with "11.prems" n have m: "length (json_stringify v) \<le> m" "length (join_with '','' (json_members ob)) < m"
      by auto
    have "parse_value m (json_stringify v @ CHR '','' # join_with '','' (json_members ob) @ CHR ''}'' # r)
        = Some (v, CHR '','' # join_with '','' (json_members ob) @ CHR ''}'' # r)"
      using "11.IH"(2) v m by simp
    moreover have "parse_members m (ob0 @ [(k, v)]) (join_with '','' (json_members ob) @ CHR ''}'' # r)
        = Some (JObj ((ob0 @ [(k, v)]) @ ob), r)"
      using "11.IH"(3) "11.prems" v False m by (simp del: append_assoc)
    ultimately show ?thesis using j n fresh
      by (simp add: parse_members.simps(2) skip_ws_head parse_quote update_fresh)
  qed
qed auto

lemma json_roundtrip: "jsonable v \<Longrightarrow> json_parse (json_stringify v) = Some v"
  using json_read_back(1) [of v "Suc (length (json_stringify v))" "[]"]
  by (simp add: json_parse_def ends_number_def skip_ws_def)

lemma json_stringify_inj: "jsonable v \<Longrightarrow> jsonable w \<Longrightarrow> json_stringify v = json_stringify w \<Longrightarrow> v = w"
  by (metis json_roundtrip option.inject)

end
