(* ===== verification/Session.thy ===== *)
theory Session
  imports Json
begin

section \<open>The browser session: token lifetime, teardown, redirect target\<close>

text \<open>
  \<open>src/src/session/session.ts\<close>, the navigation helpers it calls from \<open>src/src/common.ts\<close> and
  the login path of \<open>src/src/pages/LoginPage.tsx\<close> that starts a session.

  \<^item> \<open>parseJwtExp\<close> reads the expiry of a token; a failure is a value of \<open>jwt_error\<close>.
  \<^item> The state is a \<open>browser\<close>: the two Web Storage areas, the module's \<open>terminating\<close> flag and
    registered purges, the teardowns that are waiting for a purge, and the navigations done.
    \<open>setItem\<close> raises when the area would hold more than \<open>capacity\<close> characters.
  \<^item> \<open>terminateSession\<close> is asynchronous: it awaits each registered purge, and anything may happen
    between two of them. \<open>session_step\<close> gives every step that can be interleaved, one event each.
\<close>

subsection \<open>Token inspection\<close>

definition b64_val :: "char \<Rightarrow> nat option" where
  "b64_val c = (let n = code_of c in
     if 65 \<le> n \<and> n \<le> 90 then Some (n - 65)
     else if 97 \<le> n \<and> n \<le> 122 then Some (n - 71)
     else if 48 \<le> n \<and> n \<le> 57 then Some (n + 4)
     else if n = 43 then Some 62
     else if n = 47 then Some 63
     else None)"

fun b64_bytes :: "nat list \<Rightarrow> string" where
  "b64_bytes (a # b # c # d # r) =
     char_of (4 * a + b div 16) # char_of (16 * (b mod 16) + c div 4) # char_of (64 * (c mod 4) + d) # b64_bytes r"
| "b64_bytes [a, b, c] = [char_of (4 * a + b div 16), char_of (16 * (b mod 16) + c div 4)]"
| "b64_bytes [a, b] = [char_of (4 * a + b div 16)]"
| "b64_bytes _ = []"

definition strip_pad :: "string \<Rightarrow> string" where
  "strip_pad s = (if length s mod 4 = 0 \<and> ends_with s ''=='' then take (length s - 2) s
     else if length s mod 4 = 0 \<and> ends_with s ''='' then take (length s - 1) s
     else s)"

text \<open>The forgiving base64 decoding of the platform; \<open>None\<close> is its exception.\<close>

definition atob :: "string \<Rightarrow> string option" where
  "atob s = (let t = strip_pad (filter (\<lambda>c. \<not> (code_of c \<in> {9, 10, 12, 13, 32})) s)
     in if length t mod 4 = 1 \<or> \<not> list_all (\<lambda>c. b64_val c \<noteq> None) t then None
        else Some (b64_bytes (map (the \<circ> b64_val) t)))"

datatype jwt_error = NoPayload | PayloadNotJson | BadExp

definition replace_char :: "char \<Rightarrow> char \<Rightarrow> string \<Rightarrow> string" where
  "replace_char a b s = map (\<lambda>c. if c = a then b else c) s"

definition parseJwtExp :: "string \<Rightarrow> jwt_error + jsnum" where
  "parseJwtExp token =
     (let segs = split_on CHR ''.'' token;
          payload = (if 1 < length segs then segs ! 1 else [])
      in if payload = [] then Inl NoPayload
         else (let base64 = replace_char CHR ''_'' CHR ''/'' (replace_char CHR ''-'' CHR ''+'' payload);
                   normalized = base64 @ replicate ((4 - length base64 mod 4) mod 4) CHR ''=''
               in (case Option.bind (atob normalized) json_parse of
                     None \<Rightarrow> Inl PayloadNotJson
                   | Some claims \<Rightarrow>
                       (case vget claims ''exp'' of
                          JNum (Fin r) \<Rightarrow> Inr (to_double (r * 1000))
                        | _ \<Rightarrow> Inl BadExp))))"

definition PROACTIVE_SKEW_MS :: int where "PROACTIVE_SKEW_MS = 30000"

definition IDLE_LIMIT_MS :: int where "IDLE_LIMIT_MS = 15 * 60000"

fun ms_left :: "jsnum \<Rightarrow> int \<Rightarrow> jsnum" where
  "ms_left (Fin r) now = Fin (max 0 (r - of_int PROACTIVE_SKEW_MS - of_int now))"
| "ms_left PosInf now = PosInf"
| "ms_left NegInf now = Fin 0"
| "ms_left NaN now = NaN"

definition msUntilProactiveLogout :: "string \<Rightarrow> int \<Rightarrow> jwt_error + jsnum" where
  "msUntilProactiveLogout token now =
     (case parseJwtExp token of Inl e \<Rightarrow> Inl e | Inr e \<Rightarrow> Inr (ms_left e now))"

subsection \<open>State\<close>

datatype reason = Logout | Expired | Idle | Revoked

fun reason_str :: "reason \<Rightarrow> string" where
  "reason_str Logout = ''logout''"
| "reason_str Expired = ''expired''"
| "reason_str Idle = ''idle''"
| "reason_str Revoked = ''revoked''"

type_synonym store = "(string \<times> string) list"

definition TOKEN_KEY :: string where "TOKEN_KEY = ''access_token''"
definition REASON_KEY :: string where "REASON_KEY = ''session_end_reason''"
definition REDIRECT_KEY :: string where "REDIRECT_KEY = ''session_redirect_target''"
definition PERSISTED_CACHE_KEY :: string where "PERSISTED_CACHE_KEY = ''REACT_QUERY_OFFLINE_CACHE''"
definition SERIES_KEY_MARK :: string where "SERIES_KEY_MARK = ''-series_''"

datatype callback = NoCallback | Returns | Throws

text \<open>\<open>opts\<close> of \<open>terminateSession\<close>.\<close>

record session_opts =
  on_teardown :: callback
  has_navigate :: bool
  opt_path :: "string option"

definition no_opts :: session_opts where
  "no_opts = \<lparr>on_teardown = NoCallback, has_navigate = False, opt_path = None\<rparr>"

text \<open>A call of \<open>terminateSession\<close> that is awaiting the purge with index \<open>td_done\<close>.\<close>

record teardown =
  td_reason :: reason
  td_opts :: session_opts
  td_token :: string
  td_done :: nat

datatype navigation = Href string | Custom reason

record browser =
  local_store :: store
  session_store :: store
  capacity :: nat
  root_url :: string
  href :: string
  here :: string
  terminating :: bool
  purge_count :: nat
  running :: "teardown list"
  entered :: nat
  moves :: "navigation list"

definition store_size :: "store \<Rightarrow> nat" where
  "store_size st = sum_list (map (\<lambda>(k, v). length k + length v) st)"

text \<open>\<open>setItem\<close>: \<open>None\<close> is the \<open>QuotaExceededError\<close>, which leaves the area as it was.\<close>

definition set_item :: "nat \<Rightarrow> string \<Rightarrow> string \<Rightarrow> store \<Rightarrow> store option" where
  "set_item cap k v st = (let st' = AList.update k v st in if store_size st' \<le> cap then Some st' else None)"

definition get_item :: "store \<Rightarrow> string \<Rightarrow> string option" where
  "get_item st k = map_of st k"

text \<open>\<open>move_forced\<close> of \<open>common.ts\<close>: assigning the location starts a navigation, the document keeps
  its own address until it is replaced.\<close>

definition move_forced :: "string \<Rightarrow> browser \<Rightarrow> browser" where
  "move_forced target w =
     (if str_includes (href w) target then w
      else w\<lparr>moves := moves w @ [Href (root_url w @ target)]\<rparr>)"

subsection \<open>Why the session ended and where the operator was\<close>

definition before_char :: "char \<Rightarrow> string \<Rightarrow> string" where
  "before_char c s = takeWhile (\<lambda>x. x \<noteq> c) s"

text \<open>The value \<open>rememberRedirectTarget\<close> stores, if it stores one.\<close>

definition redirect_target :: "string \<Rightarrow> string \<Rightarrow> string option" where
  "redirect_target base path =
     (if \<not> starts_with path ''/'' \<or> starts_with path ''//'' then None
      else (let withoutRoot = (if base \<noteq> [] \<and> starts_with path (base @ ''/'') then drop (length base) path else path);
                withoutFragment = before_char CHR ''#'' withoutRoot;
                bare = before_char CHR ''?'' withoutFragment
            in if bare = ''/login'' \<or> bare = ''/'' then None else Some withoutFragment))"

text \<open>\<open>None\<close> is the exception of \<open>sessionStorage.setItem\<close>.\<close>

definition rememberRedirectTarget :: "string \<Rightarrow> browser \<Rightarrow> browser option" where
  "rememberRedirectTarget path w =
     (case redirect_target (root_url w) path of
        None \<Rightarrow> Some w
      | Some target \<Rightarrow>
          map_option (\<lambda>st. w\<lparr>session_store := st\<rparr>) (set_item (capacity w) REDIRECT_KEY target (session_store w)))"

definition consume :: "string \<Rightarrow> browser \<Rightarrow> string option \<times> browser" where
  "consume key w =
     ((case get_item (session_store w) key of None \<Rightarrow> None | Some v \<Rightarrow> if v = [] then None else Some v),
      w\<lparr>session_store := AList.delete key (session_store w)\<rparr>)"

definition consumeRedirectTarget :: "browser \<Rightarrow> string option \<times> browser" where
  "consumeRedirectTarget w = consume REDIRECT_KEY w"

definition consumeSessionEndReason :: "browser \<Rightarrow> string option \<times> browser" where
  "consumeSessionEndReason w = consume REASON_KEY w"

subsection \<open>Teardown\<close>

text \<open>The entries \<open>purgeSessionStorage\<close> removes: the scan skips the empty key.\<close>

definition doomed :: "string \<Rightarrow> string \<times> string \<Rightarrow> bool" where
  "doomed token e = (fst e \<noteq> [] \<and>
     (fst e = TOKEN_KEY \<or> fst e = PERSISTED_CACHE_KEY \<or> str_includes (fst e) SERIES_KEY_MARK
      \<or> (token \<noteq> [] \<and> str_includes (snd e) token)))"

definition purge_store :: "string \<Rightarrow> store \<Rightarrow> store" where
  "purge_store token st = fold AList.delete (map fst (filter (doomed token) st)) st"

definition purgeSessionStorage :: "string \<Rightarrow> browser \<Rightarrow> browser" where
  "purgeSessionStorage token w =
     w\<lparr>local_store := purge_store token (local_store w),
       session_store := purge_store token (session_store w)\<rparr>"

text \<open>The catch block: the redirect is the last resort.\<close>

definition teardown_failed :: "session_opts \<Rightarrow> browser \<Rightarrow> browser" where
  "teardown_failed opts w =
     (if \<not> has_navigate opts \<and> \<not> str_includes (href w) ''/login'' then move_forced ''/login'' w else w)"

text \<open>The rest of the body once every purge has settled.\<close>

definition finish_teardown :: "teardown \<Rightarrow> browser \<Rightarrow> browser" where
  "finish_teardown td w =
     (let opts = td_opts td;
          w1 = purgeSessionStorage (td_token td) w
      in (case set_item (capacity w1) REASON_KEY (reason_str (td_reason td)) (session_store w1) of
            None \<Rightarrow> teardown_failed opts w1
          | Some st \<Rightarrow>
              (let w2 = w1\<lparr>session_store := st\<rparr>;
                   path = (case opt_path opts of None \<Rightarrow> here w2 | Some p \<Rightarrow> p)
               in (case rememberRedirectTarget path w2 of
                     None \<Rightarrow> teardown_failed opts w2
                   | Some w3 \<Rightarrow>
                       if on_teardown opts = Throws then teardown_failed opts w3
                       else if has_navigate opts then w3\<lparr>moves := moves w3 @ [Custom (td_reason td)]\<rparr>
                       else if \<not> str_includes (href w3) ''/login'' then move_forced ''/login'' w3
                       else w3))))"

text \<open>The loop over the purges: the next one is awaited, or there is none left.\<close>

definition resume_teardown :: "teardown \<Rightarrow> browser \<Rightarrow> browser" where
  "resume_teardown td w =
     (if td_done td < purge_count w then w\<lparr>running := running w @ [td]\<rparr> else finish_teardown td w)"

definition terminateSession :: "reason \<Rightarrow> session_opts \<Rightarrow> browser \<Rightarrow> browser" where
  "terminateSession r opts w =
     (if terminating w then w
      else (let token = (case get_item (local_store w) TOKEN_KEY of None \<Rightarrow> [] | Some t \<Rightarrow> t)
            in resume_teardown \<lparr>td_reason = r, td_opts = opts, td_token = token, td_done = 0\<rparr>
                 (w\<lparr>terminating := True, entered := Suc (entered w)\<rparr>)))"

definition beginSession :: "browser \<Rightarrow> browser" where
  "beginSession w = w\<lparr>terminating := False\<rparr>"

definition registerSessionPurge :: "browser \<Rightarrow> browser" where
  "registerSessionPurge w = w\<lparr>purge_count := Suc (purge_count w)\<rparr>"

text \<open>
  \<open>clearOldTimeSeriesData\<close> of \<open>common.ts\<close>: every time-series entry is cut to its last 50 points,
  or removed when it is no JSON array or cannot be written back.
\<close>

definition is_series_key :: "string \<Rightarrow> bool" where
  "is_series_key key \<longleftrightarrow> key \<noteq> [] \<and>
     (str_includes key ''-series_'' \<or> str_includes key ''-full-series_''
      \<or> str_includes key ''cache-stats-series_'' \<or> str_includes key ''live-metrics-'')"

definition last_points :: "'a list \<Rightarrow> 'a list" where
  "last_points xs = drop (length xs - 50) xs"

definition trim_series :: "nat \<Rightarrow> string \<Rightarrow> store \<Rightarrow> store" where
  "trim_series cap key st =
     (case map_of st key of
        None \<Rightarrow> st
      | Some data \<Rightarrow>
          if data = [] then st
          else (case json_parse data of
                  Some (JArr points) \<Rightarrow>
                    (case set_item cap key (json_stringify (JArr (last_points points))) st of
                       None \<Rightarrow> AList.delete key st
                     | Some st' \<Rightarrow> st')
                | _ \<Rightarrow> AList.delete key st))"

definition clearOldTimeSeriesData :: "nat \<Rightarrow> store \<Rightarrow> store" where
  "clearOldTimeSeriesData cap st = fold (trim_series cap) (filter is_series_key (map fst st)) st"

definition save_local_storage :: "string \<Rightarrow> string \<Rightarrow> browser \<Rightarrow> browser" where
  "save_local_storage name value w =
     (case set_item (capacity w) name value (local_store w) of
        Some st \<Rightarrow> w\<lparr>local_store := st\<rparr>
      | None \<Rightarrow>
          (let st = clearOldTimeSeriesData (capacity w) (local_store w)
           in (case set_item (capacity w) name value st of
                 Some st' \<Rightarrow> w\<lparr>local_store := st'\<rparr>
               | None \<Rightarrow> w\<lparr>local_store := st\<rparr>)))"

text \<open>
  The login path, after \<open>login_user\<close> answered with a token: a token whose expiry cannot be read
  is refused; else the session begins, the token is saved and the operator goes back to where
  the last session ended.
\<close>

definition install_token :: "string \<Rightarrow> browser \<Rightarrow> browser" where
  "install_token token w =
     (case parseJwtExp token of
        Inl _ \<Rightarrow> w
      | Inr _ \<Rightarrow>
          (let w1 = beginSession w;
               w2 = save_local_storage TOKEN_KEY token w1;
               (target, w3) = consumeRedirectTarget w2
           in move_forced (case target of None \<Rightarrow> ''/instance'' | Some t \<Rightarrow> t) w3))"

subsection \<open>Interleaving\<close>

datatype session_event =
    Terminate reason session_opts
  | PurgeSettled nat
  | Begin
  | RegisterPurge
  | Login string
  | WriteLocal string string
  | WriteSession string string
  | RemoveLocal string
  | Arrive string string
  | Quota nat

fun session_step :: "browser \<Rightarrow> session_event \<Rightarrow> browser" where
  "session_step w (Terminate r opts) = terminateSession r opts w"
| "session_step w (PurgeSettled i) =
     (if i < length (running w)
      then (let td = running w ! i
            in resume_teardown (td\<lparr>td_done := Suc (td_done td)\<rparr>)
                 (w\<lparr>running := take i (running w) @ drop (Suc i) (running w)\<rparr>))
      else w)"
| "session_step w Begin = beginSession w"
| "session_step w RegisterPurge = registerSessionPurge w"
| "session_step w (Login token) = install_token token w"
| "session_step w (WriteLocal k v) =
     (case set_item (capacity w) k v (local_store w) of None \<Rightarrow> w | Some st \<Rightarrow> w\<lparr>local_store := st\<rparr>)"
| "session_step w (WriteSession k v) =
     (case set_item (capacity w) k v (session_store w) of None \<Rightarrow> w | Some st \<Rightarrow> w\<lparr>session_store := st\<rparr>)"
| "session_step w (RemoveLocal k) = w\<lparr>local_store := AList.delete k (local_store w)\<rparr>"
| "session_step w (Arrive h p) = w\<lparr>href := h, here := p\<rparr>"
| "session_step w (Quota n) = w\<lparr>capacity := n\<rparr>"

definition session_run :: "browser \<Rightarrow> session_event list \<Rightarrow> browser" where
  "session_run w es = foldl session_step w es"

subsection \<open>What the teardown leaves\<close>

lemma fold_delete: "fold AList.delete ks st = filter (\<lambda>e. fst e \<notin> set ks) st"
  by (induction ks arbitrary: st) (auto simp: AList.delete_eq intro: filter_cong)

lemma purge_store_filter: "purge_store token st = filter (\<lambda>e. \<forall>d\<in>set st. doomed token d \<longrightarrow> fst d \<noteq> fst e) st"
  unfolding purge_store_def fold_delete by (rule filter_cong) force+

lemma purge_store_clean: "e \<in> set (purge_store token st) \<Longrightarrow> e \<in> set st \<and> \<not> doomed token e"
  by (auto simp: purge_store_filter)

lemma purge_store_keeps:
  "distinct (map fst st) \<Longrightarrow> e \<in> set st \<Longrightarrow> \<not> doomed token e \<Longrightarrow> e \<in> set (purge_store token st)"
  unfolding purge_store_filter by (cases e) (auto dest: eq_key_imp_eq_value)

text \<open>No entry of a store belongs to the session of \<open>token\<close>.\<close>

definition scrubbed :: "string \<Rightarrow> store \<Rightarrow> bool" where
  "scrubbed token st \<longleftrightarrow> (\<forall>(k, v)\<in>set st. k \<noteq> TOKEN_KEY \<and> k \<noteq> PERSISTED_CACHE_KEY
     \<and> \<not> str_includes k SERIES_KEY_MARK \<and> (token \<noteq> [] \<longrightarrow> \<not> str_includes v token))"

lemma purge_store_scrubbed: "[] \<notin> fst ` set st \<Longrightarrow> scrubbed token (purge_store token st)"
  by (force simp: scrubbed_def doomed_def dest: purge_store_clean)

lemma scrubbed_update:
  "scrubbed token st \<Longrightarrow> k \<noteq> TOKEN_KEY \<Longrightarrow> k \<noteq> PERSISTED_CACHE_KEY \<Longrightarrow> \<not> str_includes k SERIES_KEY_MARK
     \<Longrightarrow> (token \<noteq> [] \<Longrightarrow> \<not> str_includes v token) \<Longrightarrow> scrubbed token (AList.update k v st)"
  by (induction st) (auto simp: scrubbed_def)

lemma set_item_update: "set_item cap k v st = Some st' \<Longrightarrow> st' = AList.update k v st"
  by (auto simp: set_item_def Let_def split: if_splits)

lemma session_keys:
  "REASON_KEY \<noteq> TOKEN_KEY" "REASON_KEY \<noteq> PERSISTED_CACHE_KEY" "\<not> str_includes REASON_KEY SERIES_KEY_MARK"
  "REDIRECT_KEY \<noteq> TOKEN_KEY" "REDIRECT_KEY \<noteq> PERSISTED_CACHE_KEY" "\<not> str_includes REDIRECT_KEY SERIES_KEY_MARK"
  by (simp_all add: REASON_KEY_def TOKEN_KEY_def PERSISTED_CACHE_KEY_def REDIRECT_KEY_def SERIES_KEY_MARK_def
      starts_with_def)

lemma str_includes_trans: "str_includes a b \<Longrightarrow> str_includes b c \<Longrightarrow> str_includes a c"
  unfolding str_includes_iff by (metis append.assoc)

lemma before_char_prefix: "\<exists>r. s = before_char c s @ r"
  unfolding before_char_def by (metis takeWhile_dropWhile_id)

lemma redirect_target_part: "redirect_target base path = Some t \<Longrightarrow> str_includes path t"
proof -
  assume "redirect_target base path = Some t"
  then obtain u where u: "u = path \<or> u = drop (length base) path" "t = before_char CHR ''#'' u"
    by (auto simp: redirect_target_def Let_def split: if_splits)
  have "str_includes path u"
    using u(1) unfolding str_includes_iff by (metis append_Nil append_Nil2 append_take_drop_id)
  moreover have "str_includes u t"
    using before_char_prefix [of u "CHR ''#''"] u(2) unfolding str_includes_iff by (metis append_Nil)
  ultimately show ?thesis by (rule str_includes_trans)
qed

lemma teardown_failed_stores [simp]:
  "local_store (teardown_failed opts w) = local_store w" "session_store (teardown_failed opts w) = session_store w"
  by (simp_all add: teardown_failed_def move_forced_def)

lemma move_forced_stores [simp]:
  "local_store (move_forced t w) = local_store w" "session_store (move_forced t w) = session_store w"
  "running (move_forced t w) = running w" "entered (move_forced t w) = entered w"
  "terminating (move_forced t w) = terminating w" "root_url (move_forced t w) = root_url w"
  by (simp_all add: move_forced_def)

lemma finish_teardown_local:
  "local_store (finish_teardown td w) = purge_store (td_token td) (local_store w)"
  by (auto simp: finish_teardown_def Let_def purgeSessionStorage_def rememberRedirectTarget_def
      split: option.splits)

lemma finish_teardown_session:
  fixes td :: teardown and w :: browser
  defines "st \<equiv> purge_store (td_token td) (session_store w)"
    and "path \<equiv> (case opt_path (td_opts td) of None \<Rightarrow> here w | Some p \<Rightarrow> p)"
  shows "session_store (finish_teardown td w) \<in> {st, AList.update REASON_KEY (reason_str (td_reason td)) st}
    \<union> {AList.update REDIRECT_KEY t (AList.update REASON_KEY (reason_str (td_reason td)) st) |t.
         redirect_target (root_url w) path = Some t}"
  unfolding st_def path_def
  by (auto simp: finish_teardown_def Let_def purgeSessionStorage_def rememberRedirectTarget_def
      split: option.splits dest!: set_item_update)

subsection \<open>Counting teardowns and navigations\<close>

definition starts_session :: "session_event \<Rightarrow> bool" where
  "starts_session e \<longleftrightarrow> (case e of Begin \<Rightarrow> True | Login _ \<Rightarrow> True | _ \<Rightarrow> False)"

definition pending_moves :: "browser \<Rightarrow> nat" where
  "pending_moves w = length (moves w) + length (running w)"

definition budget :: "browser \<Rightarrow> nat" where
  "budget w = entered w + (if terminating w then 0 else 1)"

lemma move_forced_moves: "length (moves (move_forced t w)) \<le> Suc (length (moves w))"
  by (simp add: move_forced_def)

lemma teardown_failed_frame:
  "running (teardown_failed opts w) = running w" "entered (teardown_failed opts w) = entered w"
  "terminating (teardown_failed opts w) = terminating w"
  "length (moves (teardown_failed opts w)) \<le> Suc (length (moves w))"
  by (simp_all add: teardown_failed_def move_forced_moves)

lemma rememberRedirectTarget_frame:
  "rememberRedirectTarget p w = Some w' \<Longrightarrow>
     running w' = running w \<and> entered w' = entered w \<and> terminating w' = terminating w \<and> moves w' = moves w"
  by (auto simp: rememberRedirectTarget_def split: option.splits)

lemma finish_teardown_frame:
  "running (finish_teardown td w) = running w \<and> entered (finish_teardown td w) = entered w
   \<and> terminating (finish_teardown td w) = terminating w
   \<and> length (moves (finish_teardown td w)) \<le> Suc (length (moves w))"
  by (auto simp: finish_teardown_def Let_def purgeSessionStorage_def teardown_failed_frame
      intro!: order.trans [OF teardown_failed_frame(4)] order.trans [OF move_forced_moves]
      dest!: rememberRedirectTarget_frame split: option.splits)

lemma resume_teardown_frame:
  "entered (resume_teardown td w) = entered w \<and> terminating (resume_teardown td w) = terminating w
   \<and> pending_moves (resume_teardown td w) \<le> Suc (pending_moves w)"
  using finish_teardown_frame [of td w] by (auto simp: resume_teardown_def pending_moves_def)

lemma session_step_counts:
  assumes "\<not> starts_session e"
  shows "budget (session_step w e) \<le> budget w
    \<and> pending_moves (session_step w e) + entered w \<le> pending_moves w + entered (session_step w e)"
proof (cases e)
  case (Terminate r opts)
  let ?w = "w\<lparr>terminating := True, entered := Suc (entered w)\<rparr>"
  have "pending_moves ?w = pending_moves w" by (simp add: pending_moves_def)
  then show ?thesis using Terminate resume_teardown_frame [of _ ?w]
    by (auto simp: terminateSession_def Let_def budget_def)
next
  case (PurgeSettled i)
  show ?thesis
  proof (cases "i < length (running w)")
    case True
    let ?w = "w\<lparr>running := take i (running w) @ drop (Suc i) (running w)\<rparr>"
    have "Suc (pending_moves ?w) = pending_moves w" using True by (simp add: pending_moves_def)
    then show ?thesis using PurgeSettled True resume_teardown_frame [of _ ?w]
      by (auto simp: budget_def Let_def)
  qed (simp add: PurgeSettled)
qed (use assms in \<open>auto simp: starts_session_def budget_def pending_moves_def registerSessionPurge_def
       split: option.splits\<close>)

lemma session_run_counts:
  assumes "\<forall>e\<in>set es. \<not> starts_session e"
  shows "budget (session_run w es) \<le> budget w
    \<and> pending_moves (session_run w es) + entered w \<le> pending_moves w + entered (session_run w es)"
  using assms
proof (induction es arbitrary: w)
  case Nil
  then show ?case by (simp add: session_run_def)
next
  case (Cons e es)
  have run: "session_run w (e # es) = session_run (session_step w e) es"
    by (simp add: session_run_def)
  from Cons.prems have "\<not> starts_session e" and "\<forall>e\<in>set es. \<not> starts_session e" by auto
  then show ?case
    using session_step_counts [of e w] Cons.IH [of "session_step w e"] unfolding run by linarith
qed

subsection \<open>A teardown left to itself\<close>

lemma finish_teardown_moves:
  assumes "\<not> has_navigate (td_opts td)" "\<not> str_includes (href w) ''/login''"
  shows "moves (finish_teardown td w) = moves w @ [Href (root_url w @ ''/login'')]"
  using assms
  by (auto simp: finish_teardown_def Let_def purgeSessionStorage_def teardown_failed_def move_forced_def
      rememberRedirectTarget_def split: option.splits)

lemma settle_all:
  assumes "running w = [td]" "td_done td + Suc k = purge_count w"
    and "\<not> has_navigate (td_opts td)" "\<not> str_includes (href w) ''/login''"
  shows "running (session_run w (replicate (Suc k) (PurgeSettled 0))) = []
    \<and> moves (session_run w (replicate (Suc k) (PurgeSettled 0))) = moves w @ [Href (root_url w @ ''/login'')]"
  using assms
proof (induction k arbitrary: w td)
  case 0
  let ?td = "td\<lparr>td_done := Suc (td_done td)\<rparr>" and ?w = "w\<lparr>running := []\<rparr>"
  have "session_run w [PurgeSettled 0] = finish_teardown ?td ?w"
    using 0 by (simp add: session_run_def resume_teardown_def Let_def)
  then show ?case using 0 finish_teardown_frame [of ?td ?w] finish_teardown_moves [of ?td ?w] by simp
next
  case (Suc k)
  let ?td = "td\<lparr>td_done := Suc (td_done td)\<rparr>" and ?w = "w\<lparr>running := [td\<lparr>td_done := Suc (td_done td)\<rparr>]\<rparr>"
  have step: "session_step w (PurgeSettled 0) = ?w"
    using Suc.prems by (simp add: resume_teardown_def Let_def)
  have "session_run w (replicate (Suc (Suc k)) (PurgeSettled 0)) = session_run ?w (replicate (Suc k) (PurgeSettled 0))"
    using step by (simp add: session_run_def)
  then show ?case using Suc.IH [of ?w ?td] Suc.prems by simp
qed

subsection \<open>Trimming the time series\<close>

text \<open>A series entry after the clean-up: absent, empty, or at most 50 points.\<close>

definition trimmed :: "store \<Rightarrow> string \<Rightarrow> bool" where
  "trimmed st key \<longleftrightarrow> (case map_of st key of None \<Rightarrow> True
     | Some data \<Rightarrow> data = [] \<or> (\<exists>points. length points \<le> 50 \<and> data = json_stringify (JArr points)))"

lemma map_of_set_item:
  "set_item cap k v st = Some st' \<Longrightarrow> map_of st' x = (if x = k then Some v else map_of st x)"
  by (auto dest!: set_item_update simp: update_conv')

lemma trim_series_other: "x \<noteq> key \<Longrightarrow> map_of (trim_series cap key st) x = map_of st x"
  by (auto simp: trim_series_def delete_conv' map_of_set_item split: option.splits jsv.splits)

lemma trim_series_trims: "trimmed (trim_series cap key st) key"
proof (cases "map_of st key")
  case None
  then show ?thesis by (simp add: trim_series_def trimmed_def)
next
  case (Some data)
  have len: "length (last_points points) \<le> 50" for points :: "jsv list"
    by (simp add: last_points_def)
  show ?thesis
  proof (cases "data = [] \<or> (\<forall>points. json_parse data \<noteq> Some (JArr points))")
    case True
    with Some show ?thesis
      by (auto simp: trim_series_def trimmed_def delete_conv' split: option.splits jsv.splits)
  next
    case False
    then obtain points where p: "json_parse data = Some (JArr points)" "data \<noteq> []" by blast
    show ?thesis
    proof (cases "set_item cap key (json_stringify (JArr (last_points points))) st")
      case None
      with p Some show ?thesis by (simp add: trim_series_def trimmed_def delete_conv')
    next
      case (Some st')
      with p \<open>map_of st key = Some data\<close> show ?thesis
        using len by (auto simp: trim_series_def trimmed_def map_of_set_item)
    qed
  qed
qed

lemma trim_all:
  "map_of (fold (trim_series cap) ks st) x = map_of st x \<or> x \<in> set ks"
  "x \<in> set ks \<Longrightarrow> trimmed (fold (trim_series cap) ks st) x"
proof (induction ks arbitrary: st)
  case (Cons k ks)
  {
    case 1
    then show ?case
      using Cons.IH(1) [of "trim_series cap k st"] trim_series_other [of x k cap st] by (cases "x = k") auto
  next
    case 2
    show ?case
    proof (cases "x \<in> set ks")
      case True
      then show ?thesis using Cons.IH(2) by simp
    next
      case False
      with 2 have "x = k" by simp
      then show ?thesis
        using Cons.IH(1) [of "trim_series cap k st"] False trim_series_trims [of cap k st]
        by (auto simp: trimmed_def)
    qed
  }
qed auto

subsection \<open>The properties\<close>

text \<open>C1. However calls, settled purges and storage writes interleave, one session is torn down at
  most once and the operator is redirected at most once; a session that is already ending is not
  torn down again.\<close>

theorem session_ends_once:
  assumes "\<forall>e\<in>set es. \<not> starts_session e" and "running w = []"
  shows "entered (session_run w es) \<le> entered w + (if terminating w then 0 else 1)
    \<and> length (moves (session_run w es)) \<le> length (moves w) + (if terminating w then 0 else 1)"
proof -
  have "budget (session_run w es) \<le> budget w"
    "pending_moves (session_run w es) + entered w \<le> pending_moves w + entered (session_run w es)"
    using session_run_counts [OF assms(1)] by auto
  then show ?thesis using assms(2) by (auto simp: budget_def pending_moves_def split: if_splits)
qed

definition demo_browser :: browser where
  "demo_browser = \<lparr>local_store = [(''access_token'', ''tok''), (''lang'', ''en'')], session_store = [],
     capacity = 1000, root_url = ''/ui'', href = ''/ui/instance/lb'', here = ''/ui/instance/lb?name=a'',
     terminating = False, purge_count = 1, running = [], entered = 0, moves = []\<rparr>"

theorem session_ends_once_witness:
  "entered (session_run demo_browser [Terminate Revoked no_opts, Terminate Revoked no_opts, PurgeSettled 0]) \<le> 1"
  using session_ends_once [of "[Terminate Revoked no_opts, Terminate Revoked no_opts, PurgeSettled 0]" demo_browser]
  by (simp add: starts_session_def demo_browser_def)

text \<open>C23. Once called, the teardown of a live session always gets to the login screen when its purges
  settle: the redirect happens exactly once, even if a storage write or the teardown callback
  raises.\<close>

theorem teardown_reaches_login:
  assumes "\<not> terminating w" "running w = []" "\<not> has_navigate opts" "\<not> str_includes (href w) ''/login''"
  shows "let w' = session_run w (Terminate r opts # replicate (purge_count w) (PurgeSettled 0))
    in running w' = [] \<and> moves w' = moves w @ [Href (root_url w @ ''/login'')]"
proof -
  obtain t where t: "session_step w (Terminate r opts) =
      resume_teardown \<lparr>td_reason = r, td_opts = opts, td_token = t, td_done = 0\<rparr>
        (w\<lparr>terminating := True, entered := Suc (entered w)\<rparr>)"
    using assms(1) by (auto simp: terminateSession_def Let_def)
  let ?td = "\<lparr>td_reason = r, td_opts = opts, td_token = t, td_done = 0\<rparr>"
  let ?w = "w\<lparr>terminating := True, entered := Suc (entered w)\<rparr>"
  show ?thesis
  proof (cases "purge_count w")
    case 0
    then show ?thesis
      using t assms finish_teardown_frame [of ?td ?w] finish_teardown_moves [of ?td ?w]
      by (simp add: session_run_def resume_teardown_def)
  next
    case (Suc k)
    have "session_run w (Terminate r opts # replicate (purge_count w) (PurgeSettled 0))
        = session_run (?w\<lparr>running := [?td]\<rparr>) (replicate (Suc k) (PurgeSettled 0))"
      using t assms Suc by (simp add: session_run_def resume_teardown_def)
    then show ?thesis using settle_all [of "?w\<lparr>running := [?td]\<rparr>" ?td k] assms Suc by simp
  qed
qed

theorem teardown_reaches_login_witness:
  "moves (session_run demo_browser [Terminate Idle no_opts, PurgeSettled 0]) = [Href ''/ui/login'']"
  using teardown_reaches_login [of demo_browser no_opts Idle]
  by (simp add: demo_browser_def no_opts_def starts_with_def Let_def)

text \<open>When the teardown is done no store holds the token under its key, the persisted query cache,
  a metric series, or the token inside any other value, whatever path of the body was taken.\<close>

theorem teardown_scrubs:
  assumes "[] \<notin> fst ` set (local_store w)" "[] \<notin> fst ` set (session_store w)"
    and "td_token td \<noteq> [] \<Longrightarrow> \<not> str_includes (reason_str (td_reason td)) (td_token td)"
    and "td_token td \<noteq> [] \<Longrightarrow>
      \<not> str_includes (case opt_path (td_opts td) of None \<Rightarrow> here w | Some p \<Rightarrow> p) (td_token td)"
  shows "scrubbed (td_token td) (local_store (finish_teardown td w))
    \<and> scrubbed (td_token td) (session_store (finish_teardown td w))"
proof -
  let ?tok = "td_token td" and ?path = "case opt_path (td_opts td) of None \<Rightarrow> here w | Some p \<Rightarrow> p"
  let ?st = "purge_store ?tok (session_store w)"
  let ?st1 = "AList.update REASON_KEY (reason_str (td_reason td)) ?st"
  have st: "scrubbed ?tok ?st" using assms(2) by (rule purge_store_scrubbed)
  then have st1: "scrubbed ?tok ?st1" using assms(3) by (intro scrubbed_update session_keys) auto
  have "scrubbed ?tok (AList.update REDIRECT_KEY t ?st1)" if "redirect_target (root_url w) ?path = Some t" for t
    using scrubbed_update [OF st1 session_keys(4-6)] assms(4) redirect_target_part [OF that] str_includes_trans
    by blast
  then show ?thesis
    using finish_teardown_session [of td w] st st1 assms(1)
    by (auto simp: finish_teardown_local purge_store_scrubbed)
qed

theorem teardown_scrubs_witness:
  "scrubbed ''tok'' (local_store (finish_teardown \<lparr>td_reason = Logout, td_opts = no_opts, td_token = ''tok'', td_done = 1\<rparr> demo_browser))"
  using teardown_scrubs [of demo_browser "\<lparr>td_reason = Logout, td_opts = no_opts, td_token = ''tok'', td_done = 1\<rparr>"]
  by (simp add: demo_browser_def no_opts_def starts_with_def)

text \<open>The remembered route is a local path taken from the page's own address: it starts with a
  slash, and behind the application's base address it is never protocol-relative, so the login
  screen cannot be turned into an open redirect.\<close>

theorem redirect_is_local:
  assumes "redirect_target base path = Some t"
  shows "starts_with t ''/'' \<and> (base = [] \<longrightarrow> \<not> starts_with t ''//'') \<and> str_includes path t"
proof -
  from assms obtain u where p: "starts_with path ''/''" "\<not> starts_with path ''//''"
    and u: "u = (if base \<noteq> [] \<and> starts_with path (base @ ''/'') then drop (length base) path else path)"
    and t: "t = before_char CHR ''#'' u"
    by (auto simp: redirect_target_def Let_def split: if_splits)
  have "starts_with u ''/''" using p u by (auto simp: starts_with_iff)
  then have "starts_with t ''/''" using t by (auto simp: starts_with_iff before_char_def)
  moreover have "\<not> starts_with t ''//''" if "base = []"
    using p(2) u t that before_char_prefix [of u "CHR ''#''"] by (auto simp: starts_with_iff)
  ultimately show ?thesis using redirect_target_part [OF assms] by blast
qed

theorem redirect_is_local_witness: "starts_with ''/instance/lb?name=a'' ''/''"
  using redirect_is_local [of "''/ui''" "''/ui/instance/lb?name=a#x''" "''/instance/lb?name=a''"]
  by (simp add: redirect_target_def before_char_def starts_with_def)

text \<open>Signing in again returns the operator to the page and query of the session that ended: the
  remembered route, put behind the base address, is the address they were at.\<close>

theorem relogin_returns:
  assumes "rememberRedirectTarget (root_url w @ p) w = Some w1" and "starts_with p ''/''"
    and "redirect_target (root_url w) (root_url w @ p) \<noteq> None"
    and "CHR ''#'' \<notin> set p" and "\<not> str_includes (href w) p" and "parseJwtExp token = Inr e"
  shows "moves (install_token token w1) = moves w @ [Href (root_url w @ p)]
    \<and> get_item (session_store (install_token token w1)) REDIRECT_KEY = None"
proof -
  have "before_char CHR ''#'' p = p"
    using assms(4) by (auto simp: before_char_def takeWhile_eq_all_conv)
  moreover have "starts_with (root_url w @ p) (root_url w @ ''/'')"
    using assms(2) by (auto simp: starts_with_def)
  ultimately have t: "redirect_target (root_url w) (root_url w @ p) = Some p"
    using assms(3) by (auto simp: redirect_target_def Let_def split: if_splits)
  then have w1: "w1 = w\<lparr>session_store := AList.update REDIRECT_KEY p (session_store w)\<rparr>"
    using assms(1) by (auto simp: rememberRedirectTarget_def dest!: set_item_update)
  have save: "session_store (save_local_storage k v x) = session_store x" "moves (save_local_storage k v x) = moves x"
    "href (save_local_storage k v x) = href x" "root_url (save_local_storage k v x) = root_url x" for k v x
    by (auto simp: save_local_storage_def Let_def split: option.splits)
  have "p \<noteq> []" using assms(2) by (auto simp: starts_with_iff)
  then show ?thesis using assms(5,6) w1
    by (simp add: install_token_def consumeRedirectTarget_def consume_def save get_item_def Let_def
        beginSession_def update_conv' delete_conv' move_forced_def)
qed

definition demo_token :: string where
  "demo_token = ''h.eyJleHAiOjE3MDB9.s''"

theorem relogin_returns_witness:
  "moves (install_token demo_token (demo_browser\<lparr>session_store := [(REDIRECT_KEY, ''/status/lb?name=a'')]\<rparr>))
     = [Href ''/ui/status/lb?name=a'']"
proof -
  have tok: "parseJwtExp demo_token = Inr (num 1700000)" by code_simp
  have mem: "rememberRedirectTarget (root_url demo_browser @ ''/status/lb?name=a'') demo_browser
      = Some (demo_browser\<lparr>session_store := [(REDIRECT_KEY, ''/status/lb?name=a'')]\<rparr>)"
    by code_simp
  show ?thesis
    using relogin_returns [OF mem _ _ _ _ tok]
    by (simp add: demo_browser_def redirect_target_def before_char_def starts_with_def)
qed

text \<open>A token is accepted only if the payload segment decodes to a JSON object whose exp is a
  finite number; the result is that number in milliseconds. Everything else is an error.\<close>

theorem parseJwtExp_sound:
  assumes "parseJwtExp token = Inr e"
  shows "\<exists>payload doc ob r. split_on CHR ''.'' token ! 1 = payload \<and> payload \<noteq> []
    \<and> json_parse doc = Some (JObj ob) \<and> oget ob ''exp'' = JNum (Fin r) \<and> e = to_double (r * 1000)"
proof -
  obtain doc claims r where "json_parse doc = Some claims" and v: "vget claims ''exp'' = JNum (Fin r)"
    and "e = to_double (r * 1000)" and "split_on CHR ''.'' token ! 1 \<noteq> []"
    using assms
    by (auto simp: parseJwtExp_def Let_def bind_eq_Some_conv split: if_splits option.splits jsv.splits jsnum.splits)
  moreover from v obtain ob where "claims = JObj ob" "oget ob ''exp'' = JNum (Fin r)"
    by (cases claims) auto
  ultimately show ?thesis by blast
qed

theorem parseJwtExp_sound_witness:
  "\<exists>doc ob r. json_parse doc = Some (JObj ob) \<and> oget ob ''exp'' = JNum (Fin r) \<and> num 1700000 = to_double (r * 1000)"
proof -
  have "parseJwtExp demo_token = Inr (num 1700000)" by code_simp
  then show ?thesis using parseJwtExp_sound by blast
qed

text \<open>Under quota pressure every time-series entry ends up empty, removed or at most 50 points long,
  and no other entry is touched.\<close>

theorem series_cleanup:
  "if is_series_key key then trimmed (clearOldTimeSeriesData cap st) key
   else map_of (clearOldTimeSeriesData cap st) key = map_of st key"
proof -
  let ?ks = "filter is_series_key (map fst st)"
  have absent: "trimmed (clearOldTimeSeriesData cap st) key" if "key \<notin> fst ` set st"
    using that trim_all(1) [where x = key and ks = ?ks and cap = cap and st = st]
    by (auto simp: clearOldTimeSeriesData_def trimmed_def map_of_eq_None_iff [THEN iffD2])
  show ?thesis
    using absent trim_all [where x = key and ks = ?ks and cap = cap and st = st]
    by (cases "key \<in> fst ` set st") (auto simp: clearOldTimeSeriesData_def)
qed

end
