(* ===== verification/JsWord.thy ===== *)
theory JsWord
  imports JsPrelude "HOL-Library.Word"
begin

section \<open>Numbers as 32-bit integers\<close>

text \<open>
  \<open>ToInt32\<close>, the conversion of the bitwise operators and of timer delays: the number is truncated
  and taken modulo \<open>2 ^ 32\<close>; NaN and the infinities give 0.
\<close>

unbundle bit_operations_syntax

fun to_int32 :: "jsnum \<Rightarrow> 32 word" where
  "to_int32 (Fin r) = word_of_int (if 0 \<le> r then \<lfloor>r\<rfloor> else \<lceil>r\<rceil>)"
| "to_int32 _ = 0"

lemma to_int32_int [simp]: "to_int32 (num i) = word_of_int i"
  by simp

end
