(* ===== verification/SessionWatch.thy ===== *)
theory SessionWatch
  imports Session JsWord
begin

section \<open>The session timers\<close>

text \<open>
  \<open>src/src/session/useSessionWatch.ts\<close>: the three watchers of a mounted application. The state
  holds the clock, the token in \<open>localStorage\<close>, the variables of the effect closure (\<open>watch\<close>) and
  the calls made out of it in order (\<open>effects\<close>). A timer is the time it is due at; its callback
  may run at any later time, as a suspended tab delays it. \<open>setTimeout\<close> converts its delay to a
  signed 32-bit integer, which wraps, and treats a negative delay as 0.
\<close>

datatype effect = RequestLogout | EndSession reason | Reload

record watch =
  w_token :: string
  w_ended :: bool
  w_deadline :: int
  w_idle :: "int option"
  w_expiry :: "int option"

record watcher =
  clock :: int
  stored_token :: "string option"
  closure :: "watch option"
  effects :: "effect list"

text \<open>The delay \<open>setTimeout\<close> uses for a requested one.\<close>

definition timer_delay :: "jsnum \<Rightarrow> int" where
  "timer_delay d = max 0 (sint (to_int32 d))"

definition emit :: "effect list \<Rightarrow> watcher \<Rightarrow> watcher" where
  "emit es s = s\<lparr>effects := effects s @ es\<rparr>"

definition ownsSession :: "watcher \<Rightarrow> watch \<Rightarrow> bool" where
  "ownsSession s c \<longleftrightarrow> \<not> w_ended c \<and> stored_token s = Some (w_token c)"

definition endIdle :: "watcher \<Rightarrow> watch \<Rightarrow> watcher" where
  "endIdle s c =
     (if \<not> ownsSession s c then s\<lparr>closure := Some c\<rparr>
      else emit [RequestLogout, EndSession Idle] (s\<lparr>closure := Some (c\<lparr>w_ended := True\<rparr>)\<rparr>))"

definition scheduleIdle :: "watcher \<Rightarrow> watch \<Rightarrow> watcher" where
  "scheduleIdle s c =
     (let c1 = c\<lparr>w_idle := None\<rparr>
      in if \<not> ownsSession s c1 then s\<lparr>closure := Some c1\<rparr>
         else if w_deadline c1 - clock s \<le> 0 then endIdle s c1
         else s\<lparr>closure := Some (c1\<lparr>w_idle := Some (clock s + timer_delay (num (w_deadline c1 - clock s)))\<rparr>)\<rparr>)"

definition onActivity :: "watcher \<Rightarrow> watch \<Rightarrow> watcher" where
  "onActivity s c =
     (if \<not> ownsSession s c then s
      else scheduleIdle s (c\<lparr>w_deadline := clock s + IDLE_LIMIT_MS\<rparr>))"

definition onStorage :: "bool \<Rightarrow> string option \<Rightarrow> watcher \<Rightarrow> watch \<Rightarrow> watcher" where
  "onStorage is_local key s c =
     (if \<not> is_local then s
      else if key \<noteq> None \<and> key \<noteq> Some TOKEN_KEY then s
      else (case stored_token s of
              Some (x # xs) \<Rightarrow> if x # xs \<noteq> w_token c then emit [Reload] s else s
            | _ \<Rightarrow> emit [EndSession Logout] s))"

text \<open>The effect body: nothing is armed without a token; an unreadable expiry ends the session.\<close>

definition mount_watch :: "watcher \<Rightarrow> watcher" where
  "mount_watch s =
     (case stored_token s of
        None \<Rightarrow> s
      | Some token \<Rightarrow>
          if token = [] then s
          else (let c = \<lparr>w_token = token, w_ended = False, w_deadline = clock s + IDLE_LIMIT_MS,
                         w_idle = None, w_expiry = None\<rparr>
                in (case msUntilProactiveLogout token (clock s) of
                      Inl _ \<Rightarrow> scheduleIdle (emit [EndSession Expired] s) c
                    | Inr d \<Rightarrow> scheduleIdle s (c\<lparr>w_expiry := Some (clock s + timer_delay d)\<rparr>))))"

datatype watch_event =
    Advance nat
  | Activity
  | BecomesVisible
  | IdleFires
  | ExpiryFires
  | StorageEvent bool "string option"
  | SetToken "string option"
  | Unmount

fun watch_step :: "watcher \<Rightarrow> watch_event \<Rightarrow> watcher" where
  "watch_step s (Advance d) = s\<lparr>clock := clock s + int d\<rparr>"
| "watch_step s (SetToken t) = s\<lparr>stored_token := t\<rparr>"
| "watch_step s Unmount = s\<lparr>closure := None\<rparr>"
| "watch_step s Activity = (case closure s of None \<Rightarrow> s | Some c \<Rightarrow> onActivity s c)"
| "watch_step s BecomesVisible = (case closure s of None \<Rightarrow> s | Some c \<Rightarrow> scheduleIdle s c)"
| "watch_step s IdleFires =
     (case closure s of None \<Rightarrow> s
      | Some c \<Rightarrow> (case w_idle c of None \<Rightarrow> s
          | Some t \<Rightarrow> if t \<le> clock s then scheduleIdle s c else s))"
| "watch_step s ExpiryFires =
     (case closure s of None \<Rightarrow> s
      | Some c \<Rightarrow> (case w_expiry c of None \<Rightarrow> s
          | Some t \<Rightarrow> if t \<le> clock s
              then (if ownsSession s c then emit [EndSession Expired] else id)
                     (s\<lparr>closure := Some (c\<lparr>w_expiry := None\<rparr>)\<rparr>)
              else s))"
| "watch_step s (StorageEvent is_local key) =
     (case closure s of None \<Rightarrow> s | Some c \<Rightarrow> onStorage is_local key s c)"

definition watch_run :: "watcher \<Rightarrow> watch_event list \<Rightarrow> watcher" where
  "watch_run s es = foldl watch_step s es"

subsection \<open>Invariant of a run\<close>

text \<open>
  \<open>last_activity\<close> is the time of the mount or of the last interaction that counted; the closure
  keeps the deadline one idle window after it, and the idle timer, when armed, is due at the
  deadline.
\<close>

definition watch_inv :: "int \<Rightarrow> watcher \<Rightarrow> bool" where
  "watch_inv t0 s \<longleftrightarrow>
     count_list (effects s) (EndSession Idle) \<le> 1 \<and>
     (case closure s of None \<Rightarrow> True
      | Some c \<Rightarrow>
          (EndSession Idle \<in> set (effects s) \<longrightarrow> w_ended c) \<and>
          t0 + IDLE_LIMIT_MS \<le> w_deadline c)"

lemma count_list_append1: "count_list (xs @ ys) x = count_list xs x + count_list ys x"
  by simp

lemma count_zero: "EndSession Idle \<notin> set es \<Longrightarrow> count_list es (EndSession Idle) = 0"
  by (simp add: count_list_0_iff)

lemma watch_inv_endIdle:
  assumes "watch_inv t0 s" "closure s = Some c0" "w_ended c0 = w_ended c" "w_deadline c0 \<le> w_deadline c"
  shows "watch_inv t0 (endIdle s c)"
  using assms by (auto simp: watch_inv_def endIdle_def emit_def ownsSession_def count_zero)

lemma watch_inv_scheduleIdle:
  assumes "watch_inv t0 s" "closure s = Some c0" "w_ended c0 = w_ended c" "w_deadline c0 \<le> w_deadline c"
  shows "watch_inv t0 (scheduleIdle s c)"
  using assms watch_inv_endIdle [of t0 s c0 "c\<lparr>w_idle := None\<rparr>"]
  by (auto simp: scheduleIdle_def Let_def) (auto simp: watch_inv_def)

lemma watch_inv_emit:
  "watch_inv t0 s \<Longrightarrow> EndSession Idle \<notin> set es \<Longrightarrow> watch_inv t0 (emit es s)"
  by (auto simp: watch_inv_def emit_def count_zero split: option.splits)

lemma watch_inv_step:
  assumes "watch_inv t0 s" "t0 \<le> clock s"
  shows "watch_inv t0 (watch_step s e)"
proof (cases "closure s")
  case None
  then show ?thesis using assms by (cases e) (auto simp: watch_inv_def)
next
  case (Some c)
  note sched = watch_inv_scheduleIdle [OF assms(1) Some]
  show ?thesis
  proof (cases e)
    case Activity
    then show ?thesis using Some assms sched [of "c\<lparr>w_deadline := clock s + IDLE_LIMIT_MS\<rparr>"]
      by (cases "w_deadline c \<le> clock s + IDLE_LIMIT_MS")
        (auto simp: onActivity_def watch_inv_def scheduleIdle_def endIdle_def emit_def ownsSession_def
          Let_def count_zero split: if_splits)
  next
    case ExpiryFires
    then show ?thesis using Some assms
      by (auto simp: watch_inv_def emit_def count_zero split: option.splits)
  next
    case (StorageEvent l k)
    then show ?thesis using Some assms
      by (auto simp: onStorage_def watch_inv_emit split: option.splits list.splits)
  qed (use Some assms sched [of c] in \<open>auto simp: watch_inv_def split: option.splits\<close>)
qed

lemma emit_frame [simp]:
  "clock (emit es s) = clock s" "stored_token (emit es s) = stored_token s" "closure (emit es s) = closure s"
  "effects (emit es s) = effects s @ es"
  by (simp_all add: emit_def)

lemma endIdle_frame [simp]: "clock (endIdle s c) = clock s" "stored_token (endIdle s c) = stored_token s"
  by (simp_all add: endIdle_def)

lemma scheduleIdle_frame [simp]:
  "clock (scheduleIdle s c) = clock s" "stored_token (scheduleIdle s c) = stored_token s"
  by (simp_all add: scheduleIdle_def Let_def)

lemma watch_step_clock: "clock s \<le> clock (watch_step s e)"
  by (cases e) (auto simp: onActivity_def onStorage_def split: option.splits list.splits)

lemma watch_run_inv: "watch_inv t0 s \<Longrightarrow> t0 \<le> clock s \<Longrightarrow> watch_inv t0 (watch_run s es)"
proof (induction es arbitrary: s)
  case Nil
  then show ?case by (simp add: watch_run_def)
next
  case (Cons e es)
  have "watch_inv t0 (watch_step s e)" "t0 \<le> clock (watch_step s e)"
    using Cons.prems watch_inv_step watch_step_clock [of s e] by auto
  then show ?case using Cons.IH [of "watch_step s e"] by (simp add: watch_run_def)
qed

text \<open>What a call of \<open>scheduleIdle\<close> emits.\<close>

lemma scheduleIdle_effects:
  "effects (scheduleIdle s c) = effects s @
     (if ownsSession s c \<and> w_deadline c \<le> clock s then [RequestLogout, EndSession Idle] else [])"
  by (auto simp: scheduleIdle_def endIdle_def Let_def ownsSession_def)

subsection \<open>The properties\<close>

lemma mount_watch_inv:
  "effects s = [] \<Longrightarrow> closure s = None \<Longrightarrow> watch_inv (clock s) (mount_watch s)"
  unfolding mount_watch_def
  by (auto simp: watch_inv_def scheduleIdle_def endIdle_def emit_def ownsSession_def Let_def IDLE_LIMIT_MS_def
      split: option.splits sum.splits)

lemma mount_watch_clock: "clock (mount_watch s) = clock s"
  by (auto simp: mount_watch_def Let_def split: option.splits sum.splits)

definition demo_watcher :: watcher where
  "demo_watcher = \<lparr>clock = 1000, stored_token = Some demo_token, closure = None, effects = []\<rparr>"

text \<open>Over any run of events after the mount the idle watcher ends the session at most once.\<close>

theorem idle_ends_once:
  assumes "effects s = []" "closure s = None"
  shows "count_list (effects (watch_run (mount_watch s) es)) (EndSession Idle) \<le> 1"
proof -
  have "watch_inv (clock s) (mount_watch s)" using assms by (rule mount_watch_inv)
  then have "watch_inv (clock s) (watch_run (mount_watch s) es)"
    by (rule watch_run_inv) (simp add: mount_watch_clock)
  then show ?thesis by (simp add: watch_inv_def)
qed

theorem idle_ends_once_witness:
  "count_list (effects (watch_run (mount_watch demo_watcher) [Advance 900001, IdleFires, BecomesVisible])) (EndSession Idle) \<le> 1"
  using idle_ends_once [of demo_watcher] by (simp add: demo_watcher_def)

text \<open>An event ends the session as idle only while this tab's own token is still the stored one,
  the watcher has not ended it before, and the whole idle window has passed since the last
  interaction that moved the deadline; a replaced token is never revoked by an old watcher.\<close>

theorem idle_needs_owner:
  assumes "closure s = Some c" "effects (watch_step s e) = effects s @ es" "EndSession Idle \<in> set es"
  shows "stored_token s = Some (w_token c) \<and> \<not> w_ended c \<and> w_deadline c \<le> clock s"
proof -
  note eff = scheduleIdle_effects ownsSession_def
  show ?thesis
  proof (cases e)
    case Activity
    then have "effects (watch_step s e) = effects s"
      using assms(1) by (auto simp: onActivity_def eff IDLE_LIMIT_MS_def)
    then show ?thesis using assms by simp
  qed (use assms in \<open>auto simp: eff onStorage_def split: if_splits option.splits list.splits\<close>)
qed

theorem idle_needs_owner_witness:
  "w_deadline (\<lparr>w_token = ''t'', w_ended = False, w_deadline = 5, w_idle = Some 5, w_expiry = None\<rparr>) \<le> 5"
  using idle_needs_owner [of "\<lparr>clock = 5, stored_token = Some ''t'',
      closure = Some \<lparr>w_token = ''t'', w_ended = False, w_deadline = 5, w_idle = Some 5, w_expiry = None\<rparr>,
      effects = []\<rparr>" _ IdleFires]
  by (simp add: scheduleIdle_def endIdle_def ownsSession_def emit_def)



text \<open>A delay below \<open>2 ^ 31\<close> ms is used as asked.\<close>

lemma timer_delay_small:
  assumes "0 \<le> i" "i < 2 ^ 31"
  shows "timer_delay (num i) = i"
proof -
  have "sint (word_of_int i :: 32 word) = i"
    using assms by (simp add: sint_sbintrunc' signed_take_bit_int_eq_self)
  then show ?thesis using assms by (simp add: timer_delay_def)
qed

lemma scheduleIdle_expiry:
  "\<exists>c'. closure (scheduleIdle s c) = Some c' \<and> w_expiry c' = w_expiry c \<and> w_token c' = w_token c"
  by (auto simp: scheduleIdle_def endIdle_def Let_def emit_def)

text \<open>For a token that expires within 2 ^ 31 ms, mounting arms the proactive logout for
  exactly the skew before its expiry, or for now when that has passed.\<close>

theorem expiry_armed:
  assumes "stored_token s = Some token" "token \<noteq> []" "parseJwtExp token = Inr (num e)"
    and "e - PROACTIVE_SKEW_MS - clock s < 2 ^ 31"
  shows "\<exists>c. closure (mount_watch s) = Some c \<and> w_token c = token
    \<and> w_expiry c = Some (max (clock s) (e - PROACTIVE_SKEW_MS))"
proof -
  have "ms_left (num e) (clock s) = num (max 0 (e - PROACTIVE_SKEW_MS - clock s))"
    by (simp add: max_def)
  then have "msUntilProactiveLogout token (clock s) = Inr (num (max 0 (e - PROACTIVE_SKEW_MS - clock s)))"
    using assms(3) by (simp add: msUntilProactiveLogout_def)
  moreover have "timer_delay (num (max 0 (e - PROACTIVE_SKEW_MS - clock s))) = max 0 (e - PROACTIVE_SKEW_MS - clock s)"
    using assms(4) by (intro timer_delay_small) auto
  ultimately show ?thesis
    using assms(1,2) scheduleIdle_expiry [of s "\<lparr>w_token = token, w_ended = False,
        w_deadline = clock s + IDLE_LIMIT_MS, w_idle = None,
        w_expiry = Some (clock s + max 0 (e - PROACTIVE_SKEW_MS - clock s))\<rparr>"]
    by (auto simp: mount_watch_def Let_def max_def)
qed

theorem expiry_armed_witness:
  "\<exists>c. closure (mount_watch demo_watcher) = Some c \<and> w_expiry c = Some 1670000"
proof -
  have "parseJwtExp demo_token = Inr (num 1700000)" by code_simp
  then show ?thesis
    using expiry_armed [of demo_watcher demo_token 1700000]
    by (auto simp: demo_watcher_def PROACTIVE_SKEW_MS_def demo_token_def)
qed

text \<open>
  Beyond \<open>2 ^ 31\<close> ms (24.8 days) the delay wraps: a token that expires 30 days ahead is logged out
  as expired as soon as the timer callback runs.
\<close>

lemma far_expiry_fires_now:
  assumes "stored_token s = Some token" "token \<noteq> []" "parseJwtExp token = Inr (num e)"
    and "e - PROACTIVE_SKEW_MS - clock s = 2592000000"
  shows "effects (watch_step (mount_watch s) ExpiryFires) = effects s @ [EndSession Expired]"
proof -
  have "ms_left (num e) (clock s) = num 2592000000"
    using assms(4) by (simp add: max_def)
  then have "msUntilProactiveLogout token (clock s) = Inr (num 2592000000)"
    using assms(3) by (simp add: msUntilProactiveLogout_def)
  moreover have "timer_delay (num 2592000000) = 0"
    by (simp add: timer_delay_def)
  ultimately show ?thesis
    using assms(1,2) by (simp add: mount_watch_def Let_def scheduleIdle_def ownsSession_def IDLE_LIMIT_MS_def)
qed

end
