(* ===== verification/Fetcher.thy ===== *)
theory Fetcher
  imports Session
begin

section \<open>HTTP: requests, responses and what a failure does to the page\<close>

text \<open>
  \<open>src/src/connector/fetcher/fetcher_base.ts\<close>. A response of the platform is an
  \<open>http_response\<close>; its body is \<open>None\<close> when the stream cannot be read. Header names are compared
  without case, as \<open>Headers\<close> does. \<open>fetch_data\<close> is split at the call of \<open>fetch\<close>: what is sent
  (\<open>build_request\<close>), what an answer makes the page do (\<open>on_response\<close>) and what a thrown error
  makes it do (\<open>on_throw\<close>). The probe that asks the management API about a session is a step
  relation at the end.
\<close>

type_synonym headers = "(string \<times> string) list"

fun header_get :: "headers \<Rightarrow> string \<Rightarrow> string option" where
  "header_get [] name = None"
| "header_get ((k, v) # hs) name = (if to_lower k = to_lower name then Some v else header_get hs name)"

record http_response =
  h_status :: int
  h_status_text :: string
  h_headers :: headers
  h_body :: "string option"

record simple_response =
  r_code :: jsv
  r_data :: jsv
  r_message :: jsv
  r_headers :: headers
  r_parse_failed :: bool

datatype http_method = GetM | PostM | PutM | PatchM | DeleteM

record request_options =
  o_method :: http_method
  o_body :: jsv
  o_headers :: "headers option"

record api_error =
  e_message :: string
  e_status :: jsv
  e_response :: "(jsv \<times> headers) option"

subsection \<open>Success and failure of an answer\<close>

text \<open>
  The primary message is the first truthy of \<open>result\<close>, \<open>message\<close>, \<open>error\<close> and the status text.
  Where \<open>result\<close> or \<open>message\<close> was chosen it is that same value, so it is not repeated below.
\<close>

definition primary_message :: "simple_response \<Rightarrow> jsv" where
  "primary_message resp =
     (if r_parse_failed resp then JStr ''The response body could not be read''
      else if truthy (vget (r_data resp) ''result'') then vget (r_data resp) ''result''
      else if truthy (vget (r_data resp) ''message'') then vget (r_data resp) ''message''
      else if truthy (vget (r_data resp) ''error'') then vget (r_data resp) ''error''
      else if truthy (r_message resp) then r_message resp
      else JStr ''Unknown error'')"

abbreviation nl2 :: string where
  "nl2 \<equiv> [CHR 0x0A, CHR 0x0A]"

definition createDetailedErrorMessage :: "simple_response \<Rightarrow> string \<Rightarrow> string" where
  "createDetailedErrorMessage resp operation =
     (let p = primary_message resp;
          fields = vget (r_data resp) ''fields'';
          msg = vget (r_data resp) ''message'';
          res = vget (r_data resp) ''result''
      in js_string p @ ''.'' @ nl2
         @ ''Operation is ['' @ operation @ ''].'' @ nl2
         @ ''HTTP Code is ['' @ js_string (r_code resp) @ ''].'' @ nl2
         @ (if truthy fields then ''Fields are : ['' @ json_stringify fields @ ''].'' @ nl2 else [])
         @ (if truthy msg \<and> (r_parse_failed resp \<or> truthy res) \<and> \<not> strict_eq msg p
            then ''Message is ['' @ js_string msg @ ''].'' @ nl2 else [])
         @ (if truthy res \<and> r_parse_failed resp \<and> \<not> strict_eq res p
            then ''Result is ['' @ js_string res @ ''].'' @ nl2 else []))"

fun code_between :: "jsv \<Rightarrow> int \<Rightarrow> int \<Rightarrow> bool" where
  "code_between (JNum n) lo hi = (num_le (num lo) n \<and> num_lt n (num hi))"
| "code_between _ lo hi = False"

definition assertOk :: "simple_response \<Rightarrow> string \<Rightarrow> api_error + unit" where
  "assertOk resp operation =
     (if code_between (r_code resp) 200 300 \<and> \<not> r_parse_failed resp then Inr ()
      else Inl \<lparr>e_message = createDetailedErrorMessage resp operation, e_status = r_code resp,
                e_response = Some (r_data resp, r_headers resp)\<rparr>)"

definition isMutationFailure :: "simple_response \<Rightarrow> jsv list \<Rightarrow> bool" where
  "isMutationFailure resp acceptedCodes =
     (if \<not> list_ex (strict_eq (r_code resp)) acceptedCodes then True
      else (let result = (case vget (r_data resp) ''result'' of JStr s \<Rightarrow> to_lower (js_trim s) | _ \<Rightarrow> [])
            in result = ''fail'' \<or> result = ''failed'' \<or> result = ''failure'' \<or> result = ''error''))"

definition load_token :: "browser \<Rightarrow> string" where
  "load_token w = (case get_item (local_store w) TOKEN_KEY of None \<Rightarrow> [] | Some t \<Rightarrow> t)"

definition remove_token :: "browser \<Rightarrow> browser" where
  "remove_token w = w\<lparr>local_store := AList.delete TOKEN_KEY (local_store w)\<rparr>"

subsection \<open>Recognising addresses\<close>

definition is_word_char :: "char \<Rightarrow> bool" where
  "is_word_char c \<longleftrightarrow> is_alpha c \<or> is_digit c \<or> c = CHR ''_''"

text \<open>The pattern \<open>/login\<close> followed by a word boundary (a slash is one).\<close>

fun has_login :: "string \<Rightarrow> bool" where
  "has_login [] = False"
| "has_login (c # s) =
     ((starts_with (c # s) ''/login'' \<and> (drop 5 s = [] \<or> \<not> is_word_char (hd (drop 5 s)))) \<or> has_login s)"

text \<open>The pattern \<open>/loxilbs/\<close>, digits, \<open>/netlox/\<close>.\<close>

fun is_gateway_passthrough :: "string \<Rightarrow> bool" where
  "is_gateway_passthrough [] = False"
| "is_gateway_passthrough (c # s) =
     ((starts_with (c # s) ''/loxilbs/'' \<and>
        (let (ds, r) = take_digits (drop 8 s) in ds \<noteq> [] \<and> starts_with r ''/netlox/''))
      \<or> is_gateway_passthrough s)"

text \<open>The pattern \<open>/oam/snapshots/\<close>, or \<open>/oam/instances/\<close>, one segment, \<open>/snapshot\<close>.\<close>

fun is_inline_error_endpoint :: "string \<Rightarrow> bool" where
  "is_inline_error_endpoint [] = False"
| "is_inline_error_endpoint (c # s) =
     (starts_with (c # s) ''/oam/snapshots/''
      \<or> (starts_with (c # s) ''/oam/instances/'' \<and>
          (let r = drop 14 s in
             takeWhile (\<lambda>x. x \<noteq> CHR ''/'') r \<noteq> [] \<and>
             starts_with (dropWhile (\<lambda>x. x \<noteq> CHR ''/'') r) ''/snapshot''))
      \<or> is_inline_error_endpoint s)"

text \<open>
  The path of an address resolved against the page: absolute (\<open>http\<close>, \<open>https\<close> or
  protocol-relative), rooted, or relative to the page's directory. Dot segments are not
  normalised; the application builds no address with them.
\<close>

definition after_host :: "string \<Rightarrow> string" where
  "after_host s = (let r = dropWhile (\<lambda>c. c \<noteq> CHR ''/'') s in if r = [] then ''/'' else r)"

definition page_dir :: "string \<Rightarrow> string" where
  "page_dir p = rev (dropWhile (\<lambda>c. c \<noteq> CHR ''/'') (rev p))"

definition url_pathname :: "string \<Rightarrow> string \<Rightarrow> string" where
  "url_pathname page url =
     (let u = before_char CHR ''?'' (before_char CHR ''#'' url)
      in if starts_with u ''http://'' then after_host (drop 7 u)
         else if starts_with u ''https://'' then after_host (drop 8 u)
         else if starts_with u ''//'' then after_host (drop 2 u)
         else if starts_with u ''/'' then u
         else page_dir page @ u)"

datatype unauthorized_verdict = Inline | Expire | Verify

definition SESSION_PROBE_PATH :: string where "SESSION_PROBE_PATH = ''/users/me''"

definition origin_marker :: "headers \<Rightarrow> string option" where
  "origin_marker hs = map_option (\<lambda>v. to_lower (js_trim v)) (header_get hs ''X-Loxi-Error-Origin'')"

definition classifyUnauthorized :: "http_response \<Rightarrow> string \<Rightarrow> string \<Rightarrow> unauthorized_verdict" where
  "classifyUnauthorized response page url =
     (if has_login url then Inline
      else if origin_marker (h_headers response) = Some ''gateway'' then Inline
      else if origin_marker (h_headers response) = Some ''oam'' then Expire
      else if ends_with (url_pathname page url) SESSION_PROBE_PATH then Expire
      else Verify)"

subsection \<open>What is sent\<close>

definition utf8 :: "char \<Rightarrow> nat list" where
  "utf8 c = (let n = code_of c in if n < 128 then [n] else [192 + n div 64, 128 + n mod 64])"

definition hex_upper :: "nat \<Rightarrow> char" where
  "hex_upper n = (if n < 10 then char_of (48 + n) else char_of (55 + n))"

definition percent :: "nat \<Rightarrow> string" where
  "percent n = [CHR ''%'', hex_upper (n div 16), hex_upper (n mod 16)]"

text \<open>\<open>application/x-www-form-urlencoded\<close> of a name or value.\<close>

definition form_encode :: "string \<Rightarrow> string" where
  "form_encode s = concat (map (\<lambda>c.
     if is_alpha c \<or> is_digit c \<or> c \<in> set ''*-._'' then [c]
     else if c = CHR '' '' then ''+''
     else concat (map percent (utf8 c))) s)"

definition search_params :: "jsobj \<Rightarrow> string" where
  "search_params ob = join_with ''&'' (map (\<lambda>(k, v). form_encode k @ ''='' @ form_encode (js_string v)) ob)"

datatype sent_body = NoBody | TextBody string | FormBody jsv | RawBody jsv

record sent_request =
  s_url :: string
  s_method :: http_method
  s_headers :: headers
  s_body :: sent_body

fun is_object :: "jsv \<Rightarrow> bool" where
  "is_object (JArr _) = True"
| "is_object (JObj _) = True"
| "is_object JNull = True"
| "is_object _ = False"

text \<open>\<open>Object.entries\<close> of the object or array given as the body.\<close>

fun body_entries :: "jsv \<Rightarrow> jsobj" where
  "body_entries (JObj ob) = ob"
| "body_entries (JArr vs) = zip (map nat_str [0..<length vs]) vs"
| "body_entries _ = []"

definition merged_headers :: "string \<Rightarrow> request_options \<Rightarrow> headers" where
  "merged_headers token opts =
     (let given = (case o_headers opts of None \<Rightarrow> [] | Some hs \<Rightarrow> hs);
          ctype = (case map_of given ''Content-Type'' of
                     Some v \<Rightarrow> (if v = [] then ''application/json'' else v) | None \<Rightarrow> ''application/json'');
          base = [(''Accept'', ''application/json''), (''Authorization'', ''Bearer '' @ token), (''Content-Type'', ctype)];
          all = foldl (\<lambda>hs (k, v). AList.update k v hs) base given
      in if token = [] then AList.delete ''Authorization'' all else all)"

definition build_request :: "string \<Rightarrow> string \<Rightarrow> request_options \<Rightarrow> sent_request" where
  "build_request token url opts =
     (let hs = merged_headers token opts; body = o_body opts
      in if truthy body \<and> is_object body then
           (if o_method opts = GetM then
              \<lparr>s_url = url @ ''?'' @ search_params (body_entries body), s_method = GetM, s_headers = hs, s_body = NoBody\<rparr>
            else if map_of hs ''Content-Type'' = Some ''multipart/form-data'' then
              \<lparr>s_url = url, s_method = o_method opts, s_headers = AList.delete ''Content-Type'' hs, s_body = FormBody body\<rparr>
            else \<lparr>s_url = url, s_method = o_method opts, s_headers = hs, s_body = TextBody (json_stringify body)\<rparr>)
         else \<lparr>s_url = url, s_method = o_method opts, s_headers = hs,
               s_body = (if body = JUndef then NoBody else RawBody body)\<rparr>)"

definition GET :: "string \<Rightarrow> jsv \<Rightarrow> request_options" where
  "GET url params = \<lparr>o_method = GetM, o_body = params, o_headers = None\<rparr>"

definition GET_TEXT_options :: "jsv \<Rightarrow> request_options" where
  "GET_TEXT_options params = \<lparr>o_method = GetM, o_body = params, o_headers = Some [(''Accept'', ''*/*'')]\<rparr>"

definition with_content_type :: "http_method \<Rightarrow> jsv \<Rightarrow> string option \<Rightarrow> request_options" where
  "with_content_type m body ctype = \<lparr>o_method = m, o_body = body,
     o_headers = (case ctype of None \<Rightarrow> None | Some c \<Rightarrow> if c = [] then None else Some [(''Content-Type'', c)])\<rparr>"

definition POST :: "jsv \<Rightarrow> string option \<Rightarrow> request_options" where "POST = with_content_type PostM"
definition PATCH :: "jsv \<Rightarrow> string option \<Rightarrow> request_options" where "PATCH = with_content_type PatchM"
definition DELETE :: "jsv \<Rightarrow> string option \<Rightarrow> request_options" where "DELETE = with_content_type DeleteM"
definition PUT :: "jsv \<Rightarrow> request_options" where
  "PUT body = \<lparr>o_method = PutM, o_body = body, o_headers = None\<rparr>"

subsection \<open>What an answer does to the page\<close>

datatype page_effect =
    TerminateRevoked
  | AskOAM string
  | GoTo string
  | KeepError int string

text \<open>The redirect helpers of \<open>common.ts\<close> on a page at \<open>href\<close>; \<open>move_404\<close> is empty there.\<close>

definition move_402 :: "string \<Rightarrow> page_effect list" where
  "move_402 h = (if str_includes h ''/instance'' then [] else [GoTo ''/instance''])"

definition move_404 :: "string \<Rightarrow> page_effect list" where
  "move_404 h = []"

definition move_500 :: "string \<Rightarrow> int \<Rightarrow> string \<Rightarrow> page_effect list" where
  "move_500 h code msg = (if str_includes h ''/500'' then [] else [KeepError code msg, GoTo ''/500''])"

definition move_cors :: "string \<Rightarrow> page_effect list" where
  "move_cors h = (if str_includes h ''/cors'' then [] else [GoTo ''/cors''])"

record page =
  pg_href :: string
  pg_path :: string

definition on_response :: "page \<Rightarrow> string \<Rightarrow> sent_request \<Rightarrow> http_response \<Rightarrow> page_effect list" where
  "on_response pg token req resp =
     (let url = s_url req;
          isGatewayPassthrough = is_gateway_passthrough url;
          isMutation = (s_method req \<noteq> GetM);
          isInlineErrorEndpoint = is_inline_error_endpoint url
      in if h_status resp = 204 then []
         else if h_status resp = 401 then
           (case classifyUnauthorized resp (pg_path pg) url of
              Expire \<Rightarrow> [TerminateRevoked]
            | Verify \<Rightarrow> [AskOAM token]
            | Inline \<Rightarrow> [])
         else if h_status resp = 403 then []
         else if h_status resp = 402 then (if \<not> isMutation then move_402 (pg_href pg) else [])
         else if h_status resp = 404 then
           (if \<not> isMutation \<and> \<not> isGatewayPassthrough \<and> \<not> isInlineErrorEndpoint then move_404 (pg_href pg) else [])
         else [])"

datatype thrown = TypeErr string | OtherErr string

definition on_throw :: "page \<Rightarrow> thrown \<Rightarrow> page_effect list" where
  "on_throw pg err =
     (case err of
        TypeErr msg \<Rightarrow>
          (if str_includes msg ''Failed to fetch'' then
             (if str_includes msg ''CORS'' \<or> str_includes msg ''cross-origin'' \<or> str_includes msg ''preflight''
              then move_cors (pg_href pg) else [])
           else move_500 (pg_href pg) 500 msg)
      | OtherErr msg \<Rightarrow> move_500 (pg_href pg) 500 msg)"

definition fetch_data :: "page \<Rightarrow> string \<Rightarrow> string \<Rightarrow> request_options \<Rightarrow> (sent_request \<Rightarrow> thrown + http_response)
    \<Rightarrow> (thrown + http_response) \<times> page_effect list" where
  "fetch_data pg token url opts server =
     (let req = build_request token url opts
      in (case server req of
            Inr resp \<Rightarrow> (Inr resp, on_response pg token req resp)
          | Inl err \<Rightarrow> (Inl err, on_throw pg err)))"

subsection \<open>Reading the body\<close>

definition handle_response :: "http_response \<Rightarrow> simple_response" where
  "handle_response resp =
     (let base = \<lparr>r_code = jint (h_status resp), r_data = JNull, r_message = JStr (h_status_text resp),
                  r_headers = h_headers resp, r_parse_failed = False\<rparr>
      in (case h_body resp of
            None \<Rightarrow> base\<lparr>r_parse_failed := True\<rparr>
          | Some body \<Rightarrow>
              if js_trim body = [] then base
              else (case json_parse body of
                      Some v \<Rightarrow> base\<lparr>r_data := v,
                        r_message := (if h_status_text resp \<noteq> [] then JStr (h_status_text resp) else vget v ''result'')\<rparr>
                    | None \<Rightarrow> base\<lparr>r_parse_failed := True\<rparr>)))"

definition fetch_json :: "page \<Rightarrow> string \<Rightarrow> string \<Rightarrow> request_options \<Rightarrow> (sent_request \<Rightarrow> thrown + http_response)
    \<Rightarrow> (thrown + simple_response) \<times> page_effect list" where
  "fetch_json pg token url opts server =
     (case fetch_data pg token url opts server of
        (Inl err, es) \<Rightarrow> (Inl err, es)
      | (Inr resp, es) \<Rightarrow> (Inr (handle_response resp), es))"

subsection \<open>The management and the gateway connectors\<close>

text \<open>
  \<open>fetcher_oam.ts\<close> and \<open>fetcher_inst.ts\<close> prefix the address; \<open>POST_OAM\<close> first drops unused
  parameters (\<open>common.ts\<close>), the members that are \<open>-1\<close>, \<open>'-1'\<close>, null or undefined.
\<close>

definition oam_url :: "string \<Rightarrow> string \<Rightarrow> string" where
  "oam_url base url = base @ url"

definition inst_url :: "string \<Rightarrow> int \<Rightarrow> string \<Rightarrow> string" where
  "inst_url base n url = base @ ''/loxilbs/'' @ int_str n @ ''/netlox/v1'' @ url"

definition unused_param :: "jsv \<Rightarrow> bool" where
  "unused_param v \<longleftrightarrow> strict_eq v (jint (-1)) \<or> strict_eq v (JStr ''-1'') \<or> nullish v"

function (sequential) filterUnusedParams :: "jsv \<Rightarrow> jsv"
and filter_items :: "jsv list \<Rightarrow> jsv list"
and filter_fields :: "jsobj \<Rightarrow> jsobj" where
  "filterUnusedParams (JArr vs) = JArr (filter_items vs)"
| "filterUnusedParams (JObj ob) = JObj (filter_fields ob)"
| "filterUnusedParams v = v"
| "filter_items [] = []"
| "filter_items (v # vs) = filterUnusedParams v # filter_items vs"
| "filter_fields [] = []"
| "filter_fields ((k, v) # ob) =
     (if unused_param v then filter_fields ob else (k, filterUnusedParams v) # filter_fields ob)"
  by pat_completeness auto
termination
  by (relation "measure (case_sum size (case_sum (size_list size) (size_list (size_prod (\<lambda>_. 0) size))))")
    auto

definition POST_OAM :: "page \<Rightarrow> string \<Rightarrow> string \<Rightarrow> string \<Rightarrow> jsv \<Rightarrow> (sent_request \<Rightarrow> thrown + http_response)
    \<Rightarrow> (thrown + simple_response) \<times> page_effect list" where
  "POST_OAM pg token base url data = fetch_json pg token (oam_url base url) (POST (filterUnusedParams data) None)"

definition GET_OAM :: "page \<Rightarrow> string \<Rightarrow> string \<Rightarrow> string \<Rightarrow> jsv \<Rightarrow> (sent_request \<Rightarrow> thrown + http_response)
    \<Rightarrow> (thrown + simple_response) \<times> page_effect list" where
  "GET_OAM pg token base url params = fetch_json pg token (oam_url base url) (GET url params)"

definition GET_INST :: "page \<Rightarrow> string \<Rightarrow> string \<Rightarrow> int \<Rightarrow> string \<Rightarrow> jsv \<Rightarrow> (sent_request \<Rightarrow> thrown + http_response)
    \<Rightarrow> (thrown + simple_response) \<times> page_effect list" where
  "GET_INST pg token base n url params = fetch_json pg token (inst_url base n url) (GET url params)"

definition POST_INST :: "page \<Rightarrow> string \<Rightarrow> string \<Rightarrow> int \<Rightarrow> string \<Rightarrow> jsv \<Rightarrow> string option
    \<Rightarrow> (sent_request \<Rightarrow> thrown + http_response) \<Rightarrow> (thrown + simple_response) \<times> page_effect list" where
  "POST_INST pg token base n url data ctype = fetch_json pg token (inst_url base n url) (POST data ctype)"

definition PUT_INST :: "page \<Rightarrow> string \<Rightarrow> string \<Rightarrow> int \<Rightarrow> string \<Rightarrow> jsv
    \<Rightarrow> (sent_request \<Rightarrow> thrown + http_response) \<Rightarrow> (thrown + simple_response) \<times> page_effect list" where
  "PUT_INST pg token base n url data = fetch_json pg token (inst_url base n url) (PUT data)"

definition PATCH_INST :: "page \<Rightarrow> string \<Rightarrow> string \<Rightarrow> int \<Rightarrow> string \<Rightarrow> jsv \<Rightarrow> string option
    \<Rightarrow> (sent_request \<Rightarrow> thrown + http_response) \<Rightarrow> (thrown + simple_response) \<times> page_effect list" where
  "PATCH_INST pg token base n url data ctype = fetch_json pg token (inst_url base n url) (PATCH data ctype)"

definition DELETE_INST :: "page \<Rightarrow> string \<Rightarrow> string \<Rightarrow> int \<Rightarrow> string \<Rightarrow> jsv \<Rightarrow> string option
    \<Rightarrow> (sent_request \<Rightarrow> thrown + http_response) \<Rightarrow> (thrown + simple_response) \<times> page_effect list" where
  "DELETE_INST pg token base n url data ctype = fetch_json pg token (inst_url base n url) (DELETE data ctype)"

subsection \<open>Asking the management API about a session\<close>

text \<open>
  \<open>sessionProbe\<close>, \<open>oamSessionEnded\<close> and \<open>endSessionIfOAMConfirms\<close>. A probe is a token with its
  answer, once there is one; the module variable remembers the last probe; a caller that awaits a
  probe is a token with the number of the probe. \<open>revoked\<close> lists the tokens on whose behalf
  \<open>terminateSession('revoked')\<close> was called. Tokens are installed and removed by others at any time.
\<close>

record probing =
  installed :: string
  sessionProbe :: "(string \<times> nat) option"
  probes :: "(string \<times> bool option) list"
  askers :: "(string \<times> nat) list"
  revoked :: "string list"

definition probing_start :: "string \<Rightarrow> probing" where
  "probing_start t = \<lparr>installed = t, sessionProbe = None, probes = [], askers = [], revoked = []\<rparr>"

definition oamSessionEnded :: "string \<Rightarrow> probing \<Rightarrow> nat \<times> probing" where
  "oamSessionEnded token s =
     (let fresh = (length (probes s), s\<lparr>probes := probes s @ [(token, None)],
                                        sessionProbe := Some (token, length (probes s))\<rparr>)
      in case sessionProbe s of
           Some (t, i) \<Rightarrow> if t = token then (i, s) else fresh
         | None \<Rightarrow> fresh)"

definition revoke_if_installed :: "string \<Rightarrow> probing \<Rightarrow> probing" where
  "revoke_if_installed token s = (if installed s \<noteq> token then s else s\<lparr>revoked := revoked s @ [token]\<rparr>)"

definition endSessionIfOAMConfirms :: "string \<Rightarrow> probing \<Rightarrow> probing" where
  "endSessionIfOAMConfirms token s =
     (if token = [] then revoke_if_installed token s
      else (let (i, s') = oamSessionEnded token s in s'\<lparr>askers := askers s' @ [(token, i)]\<rparr>))"

text \<open>The probe's answer: its status, or \<open>None\<close> when the request failed.\<close>

definition answer_probe :: "nat \<Rightarrow> int option \<Rightarrow> probing \<Rightarrow> probing" where
  "answer_probe i status s = s\<lparr>probes := (probes s)[i := (fst (probes s ! i), Some (status = Some 401))]\<rparr>"

definition resume_asker :: "nat \<Rightarrow> bool \<Rightarrow> probing \<Rightarrow> probing" where
  "resume_asker k ended s =
     (let s' = s\<lparr>askers := take k (askers s) @ drop (Suc k) (askers s)\<rparr>
      in if \<not> ended then s' else revoke_if_installed (fst (askers s ! k)) s')"

inductive probe_step :: "probing \<Rightarrow> probing \<Rightarrow> bool" where
  unattributed: "probe_step s (endSessionIfOAMConfirms token s)"
| answered: "i < length (probes s) \<Longrightarrow> snd (probes s ! i) = None \<Longrightarrow> probe_step s (answer_probe i status s)"
| resumed: "k < length (askers s) \<Longrightarrow> snd (probes s ! snd (askers s ! k)) = Some ended
    \<Longrightarrow> probe_step s (resume_asker k ended s)"
| installs: "probe_step s (s\<lparr>installed := token\<rparr>)"

inductive probe_reach :: "probing \<Rightarrow> bool" where
  start: "probe_reach (probing_start token)"
| step: "probe_reach s \<Longrightarrow> probe_step s s' \<Longrightarrow> probe_reach s'"

inductive_cases probe_stepE: "probe_step s s'"

subsection \<open>Facts about answers and requests\<close>

lemma has_login_append: "has_login t \<Longrightarrow> has_login (s @ t)"
  by (induction s) auto

lemma passthrough_append: "is_gateway_passthrough t \<Longrightarrow> is_gateway_passthrough (s @ t)"
  by (induction s) auto

lemma take_digits_stop:
  "\<forall>c\<in>set ds. is_digit c \<Longrightarrow> \<not> is_digit c \<Longrightarrow> take_digits (ds @ c # r) = (ds, c # r)"
  by (simp add: take_digits_def takeWhile_append dropWhile_append)

text \<open>What holds of every reachable state of the probes.\<close>

definition probe_ok :: "probing \<Rightarrow> bool" where
  "probe_ok s \<longleftrightarrow>
     (\<forall>(t, i)\<in>set (askers s). i < length (probes s) \<and> fst (probes s ! i) = t \<and> t \<noteq> []) \<and>
     (case sessionProbe s of None \<Rightarrow> probes s = []
      | Some (t, i) \<Rightarrow> Suc i = length (probes s) \<and> fst (probes s ! i) = t) \<and>
     distinct_adj (map fst (probes s)) \<and>
     (\<forall>t\<in>set (revoked s). t = [] \<or> (t, Some True) \<in> set (probes s))"

lemma probe_ok_start: "probe_ok (probing_start t)"
  by (simp add: probe_ok_def probing_start_def)

lemma probe_ok_fresh:
  assumes "probe_ok s" and "sessionProbe s = None \<or> (\<exists>t i. sessionProbe s = Some (t, i) \<and> t \<noteq> token)" and "token \<noteq> []"
  shows "probe_ok (s\<lparr>probes := probes s @ [(token, None)], sessionProbe := Some (token, length (probes s)),
                     askers := askers s @ [(token, length (probes s))]\<rparr>)"
proof -
  have "probes s = [] \<or> fst (last (probes s)) \<noteq> token"
    using assms(1,2) by (auto simp: probe_ok_def last_conv_nth dest!: sym [of "Suc _"] split: option.splits)
  then have "distinct_adj (map fst (probes s) @ [token])"
    using assms(1) by (cases "probes s = []") (auto simp: probe_ok_def distinct_adj_append_iff last_map)
  then show ?thesis
    using assms by (auto simp: probe_ok_def nth_append)
qed

lemma probe_ok_shared:
  "probe_ok s \<Longrightarrow> sessionProbe s = Some (token, i) \<Longrightarrow> token \<noteq> [] \<Longrightarrow> probe_ok (s\<lparr>askers := askers s @ [(token, i)]\<rparr>)"
  by (auto simp: probe_ok_def)

lemma probe_ok_asked: "probe_ok s \<Longrightarrow> token \<noteq> [] \<Longrightarrow> probe_ok (endSessionIfOAMConfirms token s)"
  using probe_ok_fresh [of s token] probe_ok_shared [of s token]
  by (cases "sessionProbe s") (auto simp: endSessionIfOAMConfirms_def oamSessionEnded_def)

lemma probe_ok_tokenless: "probe_ok s \<Longrightarrow> probe_ok (endSessionIfOAMConfirms [] s)"
  by (cases "sessionProbe s") (auto simp: endSessionIfOAMConfirms_def revoke_if_installed_def probe_ok_def)

lemma probe_ok_answered:
  assumes "probe_ok s" and "i < length (probes s)" and "snd (probes s ! i) = None"
  shows "probe_ok (answer_probe i status s)"
proof -
  have "map fst ((probes s)[i := (fst (probes s ! i), v)]) = map fst (probes s)" for v
    by (metis fst_conv list_update_id map_update nth_map assms(2))
  moreover have "(t, Some True) \<in> set ((probes s)[i := v])" if "(t, Some True) \<in> set (probes s)" for t v
    using that assms(2,3) by (auto simp: in_set_conv_nth nth_list_update) (metis nth_list_update_neq option.distinct(1) snd_conv length_list_update)
  ultimately show ?thesis
    using assms unfolding probe_ok_def answer_probe_def
    by (auto simp: nth_list_update split: option.splits)
qed

lemma probe_ok_resumed:
  assumes "probe_ok s" and "k < length (askers s)" and "snd (probes s ! snd (askers s ! k)) = Some ended"
  shows "probe_ok (resume_asker k ended s)"
proof -
  have k: "askers s ! k \<in> set (askers s)"
    using assms(2) by simp
  obtain t i where ti: "askers s ! k = (t, i)" "i < length (probes s)" "fst (probes s ! i) = t"
    using assms(1) k unfolding probe_ok_def by (cases "askers s ! k") auto
  have "probes s ! i = (t, Some ended)"
    using ti assms(3) by (cases "probes s ! i") simp
  then have "(t, Some ended) \<in> set (probes s)"
    using ti(2) nth_mem by metis
  then show ?thesis
    using assms(1) ti(1) unfolding probe_ok_def resume_asker_def revoke_if_installed_def
    by (auto simp: Let_def dest: in_set_takeD in_set_dropD split: option.splits if_splits)
qed

lemma probe_ok_step: "probe_step s s' \<Longrightarrow> probe_ok s \<Longrightarrow> probe_ok s'"
proof (induction rule: probe_step.induct)
  case (unattributed s token)
  then show ?case
    using probe_ok_asked [of s token] probe_ok_tokenless [of s] by (cases "token = []") auto
next
  case (installs s token)
  then show ?case
    by (cases "sessionProbe s") (auto simp: probe_ok_def)
qed (auto simp: probe_ok_answered probe_ok_resumed)

lemma probe_ok_reach: "probe_reach s \<Longrightarrow> probe_ok s"
  by (induction rule: probe_reach.induct) (auto simp: probe_ok_start probe_ok_step)

lemma unused_param_filter: "unused_param (filterUnusedParams v) = unused_param v"
  by (cases v) (auto simp: unused_param_def nullish_def)

lemma filter_facts:
  "filterUnusedParams (filterUnusedParams v) = filterUnusedParams v"
  "filter_items (filter_items vs) = filter_items vs"
  "filter_fields (filter_fields ob) = filter_fields ob"
  by (induction v and vs and ob rule: filterUnusedParams_filter_items_filter_fields.induct)
     (auto simp: unused_param_filter)

lemma int_str_of_nat: "int_str (int n) = nat_str n"
  by (simp add: int_str_def)

lemma take_digits_nat: "\<not> is_digit c \<Longrightarrow> take_digits (nat_str n @ c # r) = (nat_str n, c # r)"
  by (rule take_digits_stop) (auto dest: nat_str_digits)

lemma inst_url_passthrough: "is_gateway_passthrough (inst_url base (int n) url)"
proof -
  have "\<not> is_digit CHR ''/''"
    by (simp add: is_digit_def)
  then have "is_gateway_passthrough (''/loxilbs/'' @ nat_str n @ ''/netlox/v1'' @ url)"
    by (simp add: take_digits_nat starts_with_def)
  then show ?thesis
    by (simp only: inst_url_def int_str_of_nat passthrough_append)
qed

lemma build_request_url_method [simp]: "s_method (build_request token url opts) = o_method opts"
  by (simp add: build_request_def Let_def)

text \<open>What an HTTP answer can do to the page. A mutation never leaves the page; only a dead
  licence on a read navigates; the session is ended directly only for a 401 that is not from the
  gateway and not from a login, and a 401 nobody signed is settled by asking the management API.\<close>

theorem answer_effects:
  "\<forall>e. e \<in> set (on_response pg token req resp) \<longleftrightarrow>
     (e = GoTo ''/instance'' \<and> h_status resp = 402 \<and> s_method req = GetM \<and> \<not> str_includes (pg_href pg) ''/instance'') \<or>
     (e = TerminateRevoked \<and> h_status resp = 401 \<and> \<not> has_login (s_url req) \<and>
        origin_marker (h_headers resp) \<noteq> Some ''gateway'' \<and>
        (origin_marker (h_headers resp) = Some ''oam'' \<or>
         ends_with (url_pathname (pg_path pg) (s_url req)) SESSION_PROBE_PATH)) \<or>
     (e = AskOAM token \<and> h_status resp = 401 \<and> \<not> has_login (s_url req) \<and>
        origin_marker (h_headers resp) \<notin> {Some ''gateway'', Some ''oam''} \<and>
        \<not> ends_with (url_pathname (pg_path pg) (s_url req)) SESSION_PROBE_PATH)"
  by (auto simp: on_response_def Let_def classifyUnauthorized_def move_402_def move_404_def)

text \<open>A read is accepted exactly when the status is in the 2xx class and the body was read and
  was either blank or JSON: a body that arrived broken never passes for an empty answer.\<close>

theorem read_accepts:
  "assertOk (handle_response resp) operation = Inr () \<longleftrightarrow>
     200 \<le> h_status resp \<and> h_status resp < 300 \<and>
     (\<exists>body. h_body resp = Some body \<and> (js_trim body = [] \<or> (\<exists>v. json_parse body = Some v)))"
  by (auto simp: assertOk_def handle_response_def num_le_def num_eq_def Let_def split: option.splits)

text \<open>C18. A probe is made at most once for the token at hand (two successive probes never ask about
  the same token), and a session is revoked on an unattributed 401 only if the request carried no
  token or the management API answered 401 for the very token that is still installed.\<close>

theorem revocation_is_confirmed:
  assumes "probe_reach s" and "probe_step s s'" and "revoked s' \<noteq> revoked s"
  shows "distinct_adj (map fst (probes s')) \<and>
         revoked s' = revoked s @ [installed s] \<and>
         (installed s = [] \<or> (installed s, Some True) \<in> set (probes s))"
proof -
  have "probe_ok s" and "probe_ok s'"
    using assms probe_ok_reach probe_ok_step by blast+
  moreover have "revoked s' = revoked s @ [installed s]"
    using assms(2,3) by cases (auto simp: endSessionIfOAMConfirms_def oamSessionEnded_def answer_probe_def
      resume_asker_def revoke_if_installed_def Let_def split: option.splits if_splits prod.splits)
  moreover have "probes s' = probes s"
    using assms(2,3) by cases (auto simp: endSessionIfOAMConfirms_def oamSessionEnded_def answer_probe_def
      resume_asker_def revoke_if_installed_def Let_def split: option.splits if_splits prod.splits)
  ultimately show ?thesis
    by (auto simp: probe_ok_def)
qed

definition probe_demo :: probing where
  "probe_demo = answer_probe 0 (Some 401) (endSessionIfOAMConfirms ''t1'' (endSessionIfOAMConfirms ''t1'' (probing_start ''t1'')))"

lemma probe_demo_eval:
  "probe_demo = \<lparr>installed = ''t1'', sessionProbe = Some (''t1'', 0), probes = [(''t1'', Some True)],
                 askers = [(''t1'', 0), (''t1'', 0)], revoked = []\<rparr>"
  by (simp add: probe_demo_def probing_start_def endSessionIfOAMConfirms_def oamSessionEnded_def answer_probe_def)

theorem revocation_is_confirmed_witness:
  "distinct_adj (map fst (probes (resume_asker 0 True probe_demo))) \<and>
   revoked (resume_asker 0 True probe_demo) = revoked probe_demo @ [installed probe_demo] \<and>
   (installed probe_demo = [] \<or> (installed probe_demo, Some True) \<in> set (probes probe_demo))"
proof (rule revocation_is_confirmed)
  show "probe_reach probe_demo"
    unfolding probe_demo_def
    by (intro probe_reach.step [OF _ probe_step.answered] probe_reach.step [OF _ probe_step.unattributed] probe_reach.start)
       (simp_all add: probing_start_def endSessionIfOAMConfirms_def oamSessionEnded_def)
  show "probe_step probe_demo (resume_asker 0 True probe_demo)"
    by (rule probe_step.resumed) (simp_all add: probe_demo_eval)
  show "revoked (resume_asker 0 True probe_demo) \<noteq> revoked probe_demo"
    by (simp add: probe_demo_eval resume_asker_def revoke_if_installed_def)
qed

text \<open>Unused parameters: what is posted has no member that is -1, null or undefined at any
  depth of objects, so filtering again changes nothing.\<close>

theorem filter_settles: "filterUnusedParams (filterUnusedParams v) = filterUnusedParams v"
  by (rule filter_facts)

end
