(* ===== verification/OpResult.thy ===== *)
theory OpResult
  imports Fetcher
begin

section \<open>What an operation came to: the one table from HTTP to a status\<close>

text \<open>
  \<open>src/src/connector/fetcher/\<close>: \<open>opResult.ts\<close> (the result record), \<open>opResultCodes.ts\<close> (the
  catalogue keys), \<open>opResultAdapter.ts\<close> (answers and thrown errors to results), \<open>opResultText.ts\<close>
  (the sentence shown), \<open>pathSegment.ts\<close> (names that cannot travel in a path) and
  \<open>src/src/utils/retryAfter.ts\<close>. The translation function of i18next is a parameter.
\<close>

datatype op_status = Confirmed | Submitted | Pending | Denied | Invalid | Unavailable | Unknown | Failed

datatype op_origin = GatewayOrigin | OamOrigin

datatype op_kind = Mutation | ReadOp

record op_result =
  op_status :: op_status
  op_code :: string
  op_localeKey :: string
  op_retryable :: bool
  op_correlationId :: "string option"
  op_retryAfter :: "int option"
  op_origin :: "op_origin option"
  op_data :: jsv
  op_httpStatus :: jsv
  op_rawDetail :: "string option"

subsection \<open>Catalogue keys\<close>

fun STATUS_LOCALE_KEYS :: "op_status \<Rightarrow> string" where
  "STATUS_LOCALE_KEYS Confirmed = ''Operation completed successfully.''"
| "STATUS_LOCALE_KEYS Submitted = ''The request was submitted and is awaiting confirmation.''"
| "STATUS_LOCALE_KEYS Pending = ''The operation is still in progress.''"
| "STATUS_LOCALE_KEYS Denied = ''Permission denied''"
| "STATUS_LOCALE_KEYS Invalid = ''The request was rejected as invalid.''"
| "STATUS_LOCALE_KEYS Unavailable = ''The service is temporarily unavailable. Please try again later.''"
| "STATUS_LOCALE_KEYS Unknown = ''No answer came back, so it is not known whether this change was applied. Check the current state before sending it again.''"
| "STATUS_LOCALE_KEYS Failed = ''The operation could not be completed.''"

definition RATE_LIMITED_KEY :: string where "RATE_LIMITED_KEY = ''Too many requests. Please try again later.''"
definition CONFLICT_KEY :: string where "CONFLICT_KEY = ''The request conflicts with an existing item.''"
definition NOT_ENABLED_KEY :: string where "NOT_ENABLED_KEY = ''This feature is not enabled on this instance.''"
definition PRECONDITION_KEY :: string where
  "PRECONDITION_KEY = ''This gateway is not configured to accept this request. The request is valid; its deployment must change.''"
definition AUDIT_UNAVAILABLE_KEY :: string where
  "AUDIT_UNAVAILABLE_KEY = ''The gateway refused this request because it cannot write its audit record right now. Nothing was changed.''"
definition MAINTENANCE_KEY :: string where
  "MAINTENANCE_KEY = ''The gateway is in maintenance mode and is not accepting changes. Nothing was changed.''"
definition IDENTITY_UNAVAILABLE_KEY :: string where
  "IDENTITY_UNAVAILABLE_KEY = ''The management service cannot authenticate to this gateway right now, so the request was not sent to it.''"

subsection \<open>Retry-After\<close>

text \<open>
  A date is only read in the fixed form \<open>Www, DD Mon YYYY HH:MM:SS GMT\<close>. \<open>Date.parse\<close> on that form
  ignores the weekday, needs the name of a month and values in range (a day up to 31 runs over into
  the next month, 24:00:00 is the next midnight, and a year below 100 is of the 20th or 21st
  century), and gives \<open>NaN\<close> otherwise.
\<close>

definition is_leap :: "int \<Rightarrow> bool" where
  "is_leap y \<longleftrightarrow> 4 dvd y \<and> (\<not> 100 dvd y \<or> 400 dvd y)"

text \<open>Days from 1970-01-01 to the first of January of a year.\<close>

definition days_to_year :: "int \<Rightarrow> int" where
  "days_to_year y = 365 * (y - 1970) + ((y - 1969) div 4) - ((y - 1901) div 100) + ((y - 1601) div 400)"

definition days_to_month :: "int \<Rightarrow> nat \<Rightarrow> int" where
  "days_to_month y m = [0, 31, 59, 90, 120, 151, 181, 212, 243, 273, 304, 334] ! m + (if m \<ge> 2 \<and> is_leap y then 1 else 0)"

definition month_index :: "string \<Rightarrow> nat option" where
  "month_index s = map_of (zip [''jan'', ''feb'', ''mar'', ''apr'', ''may'', ''jun'', ''jul'', ''aug'', ''sep'', ''oct'', ''nov'', ''dec'']
                               [0..<12]) (to_lower s)"

definition date_ms :: "string \<Rightarrow> nat \<Rightarrow> string \<Rightarrow> string \<Rightarrow> string \<Rightarrow> string \<Rightarrow> int option" where
  "date_ms dd month yyyy hh mm ss =
     (let d = digits_val dd; h = digits_val hh; mi = digits_val mm; se = digits_val ss; y0 = digits_val yyyy;
          y = (if y0 < 50 then y0 + 2000 else if y0 < 100 then y0 + 1900 else y0)
      in if 1 \<le> d \<and> d \<le> 31 \<and> mi \<le> 59 \<and> se \<le> 59 \<and> (h \<le> 23 \<or> (h = 24 \<and> mi = 0 \<and> se = 0))
         then Some ((((days_to_year y + days_to_month y month + d - 1) * 24 + h) * 60 + mi) * 60000 + se * 1000)
         else None)"

definition http_date :: "string \<Rightarrow> int option" where
  "http_date s =
     (let www = take 3 s; dd = take 2 (drop 5 s); mon = take 3 (drop 8 s); yyyy = take 4 (drop 12 s);
          hh = take 2 (drop 17 s); mm = take 2 (drop 20 s); ss = take 2 (drop 23 s)
      in if length s = 29 \<and> list_all is_alpha www \<and> list_all is_digit (dd @ yyyy @ hh @ mm @ ss) \<and>
            list_all is_alpha mon \<and> take 2 (drop 3 s) = '', '' \<and> s ! 7 = CHR '' '' \<and> s ! 11 = CHR '' '' \<and>
            s ! 16 = CHR '' '' \<and> s ! 19 = CHR '':'' \<and> s ! 22 = CHR '':'' \<and> drop 25 s = '' GMT''
         then (case month_index mon of None \<Rightarrow> None | Some m \<Rightarrow> date_ms dd m yyyy hh mm ss)
         else None)"

definition retryAfterSeconds :: "string option \<Rightarrow> int \<Rightarrow> int option" where
  "retryAfterSeconds value nowMs =
     (case value of
        None \<Rightarrow> None
      | Some v \<Rightarrow>
          (let raw = js_trim v
           in if raw = [] then None
              else if all_digits raw then
                (if digits_val raw \<le> 9007199254740991 then Some (digits_val raw) else None)
              else (case http_date raw of
                      None \<Rightarrow> None
                    | Some at_ms \<Rightarrow> Some (max 0 (- ((nowMs - at_ms) div 1000))))))"

subsection \<open>Reading a failed answer\<close>

fun textOf :: "jsv \<Rightarrow> string option" where
  "textOf (JStr s) = (if js_trim s \<noteq> [] then Some (js_trim s) else None)"
| "textOf _ = None"

definition originOf :: "simple_response \<Rightarrow> op_origin option" where
  "originOf resp =
     (if origin_marker (r_headers resp) = Some ''gateway'' then Some GatewayOrigin
      else if origin_marker (r_headers resp) = Some ''oam'' then Some OamOrigin
      else None)"

text \<open>The two fields a failure carries besides its status.\<close>

definition provenanceOf :: "int \<Rightarrow> simple_response \<Rightarrow> int option \<times> op_origin option" where
  "provenanceOf now resp = (retryAfterSeconds (header_get (r_headers resp) ''Retry-After'') now, originOf resp)"

definition refusal503 :: "simple_response \<Rightarrow> string \<Rightarrow> string \<times> string" where
  "refusal503 resp operation =
     (let message = textOf (vget (r_data resp) ''message'')
      in if message = Some ''Audit unavailable'' then (operation @ ''.audit_unavailable'', AUDIT_UNAVAILABLE_KEY)
         else if message = Some ''Maintenance mode'' then (operation @ ''.maintenance'', MAINTENANCE_KEY)
         else if originOf resp = Some OamOrigin \<and>
                 textOf (vget (r_data resp) ''error'') = Some ''Gateway service identity unavailable''
           then (operation @ ''.identity_unavailable'', IDENTITY_UNAVAILABLE_KEY)
         else (operation @ ''.unavailable'', STATUS_LOCALE_KEYS Unavailable))"

definition rawDetailOf :: "simple_response \<Rightarrow> string option" where
  "rawDetailOf resp =
     (case textOf (vget (r_data resp) ''error'') of
        Some e \<Rightarrow> Some e
      | None \<Rightarrow>
          (case (textOf (vget (r_data resp) ''message''), textOf (vget (r_data resp) ''result'')) of
             (Some cls, Some reason) \<Rightarrow> Some (if cls \<noteq> reason then cls @ '': '' @ reason else cls)
           | (Some cls, None) \<Rightarrow> Some cls
           | (None, Some reason) \<Rightarrow> Some reason
           | (None, None) \<Rightarrow> textOf (r_message resp)))"

subsection \<open>Answers to results\<close>

definition bare_result :: "op_status \<Rightarrow> string \<Rightarrow> string \<Rightarrow> bool \<Rightarrow> op_result" where
  "bare_result st cd key retry =
     \<lparr>op_status = st, op_code = cd, op_localeKey = key, op_retryable = retry, op_correlationId = None,
      op_retryAfter = None, op_origin = None, op_data = JUndef, op_httpStatus = JUndef, op_rawDetail = None\<rparr>"

definition with_common :: "int \<Rightarrow> simple_response \<Rightarrow> op_result \<Rightarrow> op_result" where
  "with_common now resp r =
     r\<lparr>op_correlationId := header_get (r_headers resp) ''X-Correlation-Id'', op_httpStatus := r_code resp,
       op_rawDetail := rawDetailOf resp, op_retryAfter := fst (provenanceOf now resp),
       op_origin := snd (provenanceOf now resp)\<rparr>"

fun is_number :: "jsv \<Rightarrow> bool" where
  "is_number (JNum _) = True"
| "is_number _ = False"

abbreviation code_is :: "simple_response \<Rightarrow> int \<Rightarrow> bool" where
  "code_is resp n \<equiv> r_code resp = jint n"

definition fromSimpleResponse :: "int \<Rightarrow> simple_response option \<Rightarrow> string \<Rightarrow> op_kind \<Rightarrow> op_result" where
  "fromSimpleResponse now answer operation kind =
     (case answer of
        None \<Rightarrow> bare_result Failed (operation @ ''.malformed_response'') (STATUS_LOCALE_KEYS Failed) False
      | Some resp \<Rightarrow>
          (let result = (\<lambda>st suffix key retry. with_common now resp (bare_result st (operation @ suffix) key retry))
           in if \<not> is_number (r_code resp)
                then bare_result Failed (operation @ ''.malformed_response'') (STATUS_LOCALE_KEYS Failed) False
              else if code_is resp 401 \<or> code_is resp 403
                then result Denied ''.denied'' (STATUS_LOCALE_KEYS Denied) False
              else if code_is resp 400 \<or> code_is resp 422
                then result Invalid ''.rejected'' (STATUS_LOCALE_KEYS Invalid) False
              else if code_is resp 409 then result Invalid ''.conflict'' CONFLICT_KEY False
              else if code_is resp 429 then result Denied ''.rate_limited'' RATE_LIMITED_KEY True
              else if code_is resp 402 then result Denied ''.payment_required'' (STATUS_LOCALE_KEYS Denied) False
              else if code_is resp 412 then result Failed ''.precondition_failed'' PRECONDITION_KEY False
              else if code_is resp 501 then result Failed ''.not_implemented'' NOT_ENABLED_KEY False
              else if code_is resp 503 then
                with_common now resp (bare_result Unavailable (fst (refusal503 resp operation)) (snd (refusal503 resp operation)) True)
              else if code_is resp 502 \<or> code_is resp 504 \<or> code_is resp 0 then
                (if kind = ReadOp then result Unavailable ''.unavailable'' (STATUS_LOCALE_KEYS Unavailable) True
                 else result Unknown ''.outcome_unknown'' (STATUS_LOCALE_KEYS Unknown) False)
              else if code_between (r_code resp) 200 300 then
                (if isMutationFailure resp [r_code resp]
                   then result Failed ''.reported_failure'' (STATUS_LOCALE_KEYS Failed) False
                 else if r_parse_failed resp then result Failed ''.parse_error'' (STATUS_LOCALE_KEYS Failed) False
                 else (bare_result Confirmed (operation @ ''.ok'') (STATUS_LOCALE_KEYS Confirmed) False)
                        \<lparr>op_data := or_default (r_data resp) JUndef,
                         op_correlationId := header_get (r_headers resp) ''X-Correlation-Id'',
                         op_httpStatus := r_code resp\<rparr>)
              else result Failed ''.failed'' (STATUS_LOCALE_KEYS Failed) False))"

subsection \<open>Thrown errors to results\<close>

datatype js_error = ApiErr api_error | PlainErr string | NotAnError

fun error_message :: "js_error \<Rightarrow> string option" where
  "error_message (ApiErr e) = Some (e_message e)"
| "error_message (PlainErr m) = Some m"
| "error_message NotAnError = None"

definition fromNetworkError :: "string \<Rightarrow> js_error \<Rightarrow> op_kind \<Rightarrow> op_result" where
  "fromNetworkError operation err kind =
     (if kind = ReadOp
      then (bare_result Unavailable (operation @ ''.network_error'') (STATUS_LOCALE_KEYS Unavailable) True)\<lparr>op_rawDetail := error_message err\<rparr>
      else (bare_result Unknown (operation @ ''.outcome_unknown'') (STATUS_LOCALE_KEYS Unknown) False)\<lparr>op_rawDetail := error_message err\<rparr>)"

fun finite_num :: "jsv \<Rightarrow> bool" where
  "finite_num (JNum n) = is_finite n"
| "finite_num _ = False"

fun fromThrownError :: "int \<Rightarrow> string \<Rightarrow> js_error \<Rightarrow> op_result" where
  "fromThrownError now operation (ApiErr e) =
     (if \<not> finite_num (e_status e) \<or> code_between (e_status e) 200 300
      then fromNetworkError operation (ApiErr e) ReadOp
      else (let carried = (case e_response e of Some (d, hs) \<Rightarrow> (or_default d JNull, hs) | None \<Rightarrow> (JNull, []));
                mapped = (fromSimpleResponse now
                            (Some \<lparr>r_code = e_status e, r_data = fst carried, r_message = JStr (e_message e),
                                   r_headers = snd carried, r_parse_failed = False\<rparr>)
                            operation ReadOp)\<lparr>op_rawDetail := Some (e_message e)\<rparr>
            in if op_status mapped \<noteq> Invalid then mapped
               else mapped\<lparr>op_status := Failed, op_code := operation @ ''.failed'', op_localeKey := STATUS_LOCALE_KEYS Failed\<rparr>))"
| "fromThrownError now operation err = fromNetworkError operation err ReadOp"

text \<open>\<open>runOp\<close>: the call either throws or answers.\<close>

definition runOp :: "int \<Rightarrow> string \<Rightarrow> js_error + simple_response option \<Rightarrow> op_result" where
  "runOp now operation call =
     (case call of Inr answer \<Rightarrow> fromSimpleResponse now answer operation Mutation
      | Inl err \<Rightarrow> fromNetworkError operation err Mutation)"

subsection \<open>The sentence shown\<close>

definition isPreconditionFailure :: "op_result \<Rightarrow> bool" where
  "isPreconditionFailure res \<longleftrightarrow> ends_with (op_code res) ''.precondition_failed''"

definition retryAfterText :: "(string \<Rightarrow> jsobj \<Rightarrow> string) \<Rightarrow> op_result \<Rightarrow> string option" where
  "retryAfterText tr res =
     (case op_retryAfter res of
        Some seconds \<Rightarrow> (if seconds > 0 then Some (tr ''Try again in {{seconds}} s.'' [(''seconds'', jint seconds)]) else None)
      | None \<Rightarrow> None)"

definition opErrorText :: "(string \<Rightarrow> jsobj \<Rightarrow> string) \<Rightarrow> op_result \<Rightarrow> string" where
  "opErrorText tr res =
     (let detail = (if isPreconditionFailure res then map_option js_trim (op_rawDetail res) else None)
      in join_with '' '' (filter (\<lambda>s. s \<noteq> [])
           (map (\<lambda>x. case x of None \<Rightarrow> [] | Some s \<Rightarrow> s)
             [Some (tr (op_localeKey res) []), detail, retryAfterText tr res])))"

subsection \<open>Names that cannot travel in a path\<close>

definition UNSENDABLE_PATH_CHARS :: string where "UNSENDABLE_PATH_CHARS = [CHR ''/'', CHR 0x5C, CHR ''?'', CHR ''#'']"

definition UNSENDABLE_PATH_KEY :: string where
  "UNSENDABLE_PATH_KEY = ''This name contains one of the characters / '' @ [CHR 0x5C]
     @ '' ? #, which cannot be sent through the management service. Change or remove this item with the gateway API or command line.''"

fun unsendable_value :: "jsv \<Rightarrow> bool" where
  "unsendable_value (JStr s) = list_ex (\<lambda>c. c \<in> set UNSENDABLE_PATH_CHARS) s"
| "unsendable_value _ = False"

definition unsendableInPath :: "jsv list \<Rightarrow> bool" where
  "unsendableInPath values = list_ex unsendable_value values"

definition pathRefusal :: "string \<Rightarrow> op_result" where
  "pathRefusal operation = bare_result Invalid (operation @ ''.client_invalid_path'') UNSENDABLE_PATH_KEY False"

subsection \<open>Facts about results\<close>

lemma bare_result_sel [simp]:
  "op_status (bare_result st cd key retry) = st"
  "op_code (bare_result st cd key retry) = cd"
  "op_localeKey (bare_result st cd key retry) = key"
  "op_retryable (bare_result st cd key retry) = retry"
  "op_retryAfter (bare_result st cd key retry) = None"
  "op_origin (bare_result st cd key retry) = None"
  by (simp_all add: bare_result_def)

lemma with_common_sel [simp]:
  "op_status (with_common now resp r) = op_status r"
  "op_code (with_common now resp r) = op_code r"
  "op_localeKey (with_common now resp r) = op_localeKey r"
  "op_retryable (with_common now resp r) = op_retryable r"
  "op_retryAfter (with_common now resp r) = fst (provenanceOf now resp)"
  "op_origin (with_common now resp r) = snd (provenanceOf now resp)"
  "op_rawDetail (with_common now resp r) = rawDetailOf resp"
  by (simp_all add: with_common_def)

lemma code_between_num: "code_between v 200 300 \<Longrightarrow> is_number v"
  by (cases v) auto

declare code_between.simps(1) [simp del]

lemma code_between_Fin [simp]: "code_between (JNum (Fin r)) lo hi \<longleftrightarrow> of_int lo \<le> r \<and> r < of_int hi"
  by (auto simp: code_between.simps num_le_def num_eq_def)

lemma strict_eq_num: "code_between v 200 300 \<Longrightarrow> strict_eq v v"
  by (cases v) (auto simp: code_between.simps num_eq_def num_le_def)

lemma digits_val_nonneg: "list_all is_digit s \<Longrightarrow> 0 \<le> digits_val s"
proof (induction s rule: rev_induct)
  case (snoc c s)
  then show ?case
    by (simp add: digit_val_def is_digit_def)
qed simp

lemma retryAfter_nonneg: "retryAfterSeconds value now = Some n \<Longrightarrow> 0 \<le> n"
  by (auto simp: retryAfterSeconds_def Let_def digits_val_nonneg all_digits_def split: option.splits if_splits)

lemma js_trim_nat_str: "js_trim (nat_str n) = nat_str n"
proof -
  have ns: "\<forall>c\<in>set (nat_str n). \<not> is_space c"
    by (auto dest!: nat_str_digits simp: is_digit_def is_space_def)
  then have "dropWhile is_space s = s" if "set s = set (nat_str n)" for s
    using that hd_in_set [of s] by (auto simp: dropWhile_eq_self_iff)
  then have "dropWhile is_space (nat_str n) = nat_str n" "dropWhile is_space (rev (nat_str n)) = rev (nat_str n)"
    by simp_all
  then show ?thesis
    by (simp add: js_trim_def)
qed

lemma unsendable_iff:
  "unsendableInPath values \<longleftrightarrow> (\<exists>s. JStr s \<in> set values \<and> set s \<inter> {CHR ''/'', CHR 0x5C, CHR ''?'', CHR ''#''} \<noteq> {})"
proof -
  have "unsendable_value v \<longleftrightarrow> (\<exists>s. v = JStr s \<and> set s \<inter> {CHR ''/'', CHR 0x5C, CHR ''?'', CHR ''#''} \<noteq> {})" for v
    by (cases v) (auto simp: UNSENDABLE_PATH_CHARS_def list_ex_iff)
  then show ?thesis
    by (auto simp: unsendableInPath_def list_ex_iff)
qed

subsection \<open>The contract a read failure promises to the pages\<close>

text \<open>
  What the pages rely on when they turn a thrown error into a state: the failure of a read is never
  a success, never pending, never about operator input, and never an unknown outcome.
\<close>

locale read_failure =
  fixes failure :: "'e \<Rightarrow> op_result"
  assumes failure_status: "op_status (failure e) \<in> {Denied, Unavailable, Failed}"
begin

lemma never_succeeds: "op_status (failure e) \<noteq> Confirmed"
  using failure_status [of e] by auto

lemma never_blames_input: "op_status (failure e) \<noteq> Invalid"
  using failure_status [of e] by auto

lemma three_ways:
  "op_status (failure e) = Denied \<or> op_status (failure e) = Unavailable \<or> op_status (failure e) = Failed"
  using failure_status [of e] by auto

end

lemma refused_read_status:
  "is_number (r_code r) \<Longrightarrow> \<not> code_between (r_code r) 200 300 \<Longrightarrow>
   op_status (fromSimpleResponse now (Some r) operation ReadOp) \<in> {Denied, Unavailable, Failed, Invalid}"
  by (simp add: fromSimpleResponse_def Let_def)

lemma finite_is_number: "finite_num v \<Longrightarrow> is_number v"
  by (cases v) auto

lemma thrown_read_status: "op_status (fromThrownError now operation e) \<in> {Denied, Unavailable, Failed}"
proof (cases e)
  case (ApiErr a)
  define r where "r = (let c = (case e_response a of Some (d, hs) \<Rightarrow> (or_default d JNull, hs) | None \<Rightarrow> (JNull, [])) in
    \<lparr>r_code = e_status a, r_data = fst c, r_message = JStr (e_message a), r_headers = snd c, r_parse_failed = False\<rparr>)"
  have "r_code r = e_status a"
    by (simp add: r_def Let_def)
  then show ?thesis
    using refused_read_status [of r now operation]
    by (auto simp: ApiErr fromNetworkError_def Let_def finite_is_number r_def simp del: code_between.simps)
qed (simp_all add: fromNetworkError_def)

interpretation thrown: read_failure "fromThrownError now operation" for now operation
  by unfold_locales (rule thrown_read_status)


lemma accepted_answer:
  "code_between (r_code resp) 200 300 \<Longrightarrow>
   op_status (fromSimpleResponse now (Some resp) operation kind) =
     (if isMutationFailure resp [r_code resp] \<or> r_parse_failed resp then Failed else Confirmed)"
  by (auto simp: fromSimpleResponse_def Let_def code_between_num)

lemma refused_answer:
  "\<not> code_between (r_code resp) 200 300 \<Longrightarrow>
   op_status (fromSimpleResponse now (Some resp) operation kind) \<noteq> Confirmed"
  by (simp add: fromSimpleResponse_def Let_def)


subsection \<open>Properties\<close>

text \<open>Success is claimed exactly when there was an answer of the 2xx class whose envelope does
  not report a failure and whose body could be read.\<close>

theorem confirmed_iff:
  "op_status (fromSimpleResponse now answer operation kind) = Confirmed \<longleftrightarrow>
     (\<exists>resp. answer = Some resp \<and> code_between (r_code resp) 200 300 \<and>
             \<not> isMutationFailure resp [r_code resp] \<and> \<not> r_parse_failed resp)"
proof (cases answer)
  case (Some resp)
  then show ?thesis
    by (cases "code_between (r_code resp) 200 300") (simp_all add: accepted_answer refused_answer)
qed (simp add: fromSimpleResponse_def)

text \<open>A lost answer: 502, 504 and 0 leave the outcome of a change unknown and never offer to send
  it again, while the same codes on a read are an outage; a retry is offered for 429 and 503, and
  for a lost answer only on a read.\<close>

theorem lost_answers:
  "(op_status (fromSimpleResponse now (Some resp) operation kind) = Unknown \<longleftrightarrow>
      kind = Mutation \<and> r_code resp \<in> {jint 502, jint 504, jint 0}) \<and>
   (op_retryable (fromSimpleResponse now (Some resp) operation kind) \<longleftrightarrow>
      r_code resp \<in> {jint 429, jint 503} \<or> kind = ReadOp \<and> r_code resp \<in> {jint 502, jint 504, jint 0})"
  by (cases kind) (auto simp: fromSimpleResponse_def Let_def)

text \<open>A failed read: whatever a read connector throws, the page is told denied, unavailable or
  failed, and it may retry only what was rate limited or not answered.\<close>

theorem failed_reads:
  "op_status (fromThrownError now operation e) \<in> {Denied, Unavailable, Failed} \<and>
   (op_retryable (fromThrownError now operation e) \<longleftrightarrow>
      op_status (fromThrownError now operation e) = Unavailable \<or>
      op_code (fromThrownError now operation e) = operation @ ''.rate_limited'')"
proof -
  have "op_retryable (fromThrownError now operation e) \<longleftrightarrow>
      op_status (fromThrownError now operation e) = Unavailable \<or>
      op_code (fromThrownError now operation e) = operation @ ''.rate_limited''"
    by (cases e) (auto simp: fromNetworkError_def fromSimpleResponse_def Let_def)
  then show ?thesis
    using thrown.failure_status by blast
qed

lemma assertOk_refuses:
  "\<not> code_between (r_code resp) 200 300 \<Longrightarrow>
   assertOk resp operation = Inl \<lparr>e_message = createDetailedErrorMessage resp operation, e_status = r_code resp,
     e_response = Some (r_data resp, r_headers resp)\<rparr>"
  by (simp add: assertOk_def)

text \<open>The wait of a refused read: when an answer outside the 2xx class is refused by assertOk
  and thrown, the wait and the origin the server named reach the page unchanged, and the wait is
  never negative.\<close>

theorem refusal_keeps_wait:
  assumes "assertOk resp operation = Inl e" and "finite_num (r_code resp)" and "\<not> code_between (r_code resp) 200 300"
  shows "op_retryAfter (fromThrownError now operation (ApiErr e)) =
           retryAfterSeconds (header_get (r_headers resp) ''Retry-After'') now \<and>
         op_origin (fromThrownError now operation (ApiErr e)) = originOf resp \<and>
         op_httpStatus (fromThrownError now operation (ApiErr e)) = r_code resp"
proof -
  have "is_number (r_code resp)"
    using assms(2) by (cases "r_code resp") auto
  moreover have e: "e_status e = r_code resp" "e_response e = Some (r_data resp, r_headers resp)"
    using assms(1) by (auto simp: assertOk_def split: if_splits)
  ultimately show ?thesis
    using assms(2,3)
    by (auto simp: fromSimpleResponse_def Let_def provenanceOf_def originOf_def with_common_def)
qed

definition busy_answer :: simple_response where
  "busy_answer = \<lparr>r_code = jint 503, r_data = JNull, r_message = JStr [],
     r_headers = [(''retry-after'', ''12''), (''X-Loxi-Error-Origin'', ''OAM'')], r_parse_failed = False\<rparr>"

theorem refusal_keeps_wait_witness:
  "\<exists>e. op_retryAfter (fromThrownError 0 ''lb.list'' (ApiErr e)) =
         retryAfterSeconds (header_get (r_headers busy_answer) ''Retry-After'') 0 \<and>
       op_origin (fromThrownError 0 ''lb.list'' (ApiErr e)) = originOf busy_answer \<and>
       op_httpStatus (fromThrownError 0 ''lb.list'' (ApiErr e)) = r_code busy_answer"
proof -
  have code: "finite_num (r_code busy_answer)" "\<not> code_between (r_code busy_answer) 200 300"
    by (simp_all add: busy_answer_def)
  show ?thesis
    by (rule exI, rule refusal_keeps_wait [OF assertOk_refuses [OF code(2)] code])
qed

text \<open>The delay form of \<open>Retry-After\<close>: every number of seconds that can be held exactly is read
  back as itself, and a larger one is no wait at all.\<close>

theorem retryAfter_delay:
  "retryAfterSeconds (Some (nat_str n)) now = (if n \<le> 9007199254740991 then Some (int n) else None)"
  by (simp add: retryAfterSeconds_def js_trim_nat_str)

end
