(* ===== verification/PageState.thy ===== *)
theory PageState
  imports OpResult
begin

section \<open>What a page is showing: \<open>components/state/pageState.ts\<close>\<close>

text \<open>
  A query holds the rows of its last success (\<open>None\<close> is \<open>undefined\<close>; a connector's \<open>null\<close> is a
  value), its current error and the time of the rows. \<open>toPageState\<close> gives the state of the page,
  and \<open>writesEnabled\<close>, \<open>createEnabled\<close> what the operator may do in it.
\<close>

datatype 'a page_state =
    Loading
  | Data 'a int
  | Empty int
  | Stale 'a int op_result
  | PageDenied op_result
  | PageUnavailable op_result
  | PageFailed op_result

record 'a read_query =
  q_data :: "'a option"
  q_error :: "js_error option"
  q_updatedAt :: int

text \<open>The rule when the page gives none: an array with no elements.\<close>

fun defaultIsEmpty :: "jsv \<Rightarrow> bool" where
  "defaultIsEmpty (JArr vs) = (vs = [])"
| "defaultIsEmpty _ = False"

definition fromFailure :: "op_result \<Rightarrow> 'a page_state" where
  "fromFailure failure =
     (case op_status failure of
        Denied \<Rightarrow> PageDenied failure
      | Unavailable \<Rightarrow> PageUnavailable failure
      | _ \<Rightarrow> PageFailed failure)"

definition toPageState :: "int \<Rightarrow> string \<Rightarrow> ('a \<Rightarrow> bool) \<Rightarrow> 'a read_query \<Rightarrow> 'a page_state" where
  "toPageState now operation isEmpty query =
     (case q_error query of
        Some err \<Rightarrow>
          (let failure = fromThrownError now operation err
           in case q_data query of
                Some rows \<Rightarrow> Stale rows (q_updatedAt query) failure
              | None \<Rightarrow> fromFailure failure)
      | None \<Rightarrow>
          (case q_data query of
             None \<Rightarrow> Loading
           | Some rows \<Rightarrow> if isEmpty rows then Empty (q_updatedAt query) else Data rows (q_updatedAt query)))"

fun writesEnabled :: "'a page_state \<Rightarrow> bool" where
  "writesEnabled (Data _ _) = True"
| "writesEnabled (Empty _) = True"
| "writesEnabled _ = False"

fun createEnabled :: "'a page_state \<Rightarrow> bool" where
  "createEnabled (Stale _ _ _) = False"
| "createEnabled _ = True"

definition isApiError :: "js_error \<Rightarrow> bool" where
  "isApiError err \<longleftrightarrow> (case err of ApiErr _ \<Rightarrow> True | _ \<Rightarrow> False)"

subsection \<open>What the contract of read failures gives the pages\<close>

fun page_result :: "'a page_state \<Rightarrow> op_result option" where
  "page_result (Stale _ _ r) = Some r"
| "page_result (PageDenied r) = Some r"
| "page_result (PageUnavailable r) = Some r"
| "page_result (PageFailed r) = Some r"
| "page_result _ = None"

context read_failure begin

lemma failure_kind:
  "fromFailure (failure e) =
     (if op_status (failure e) = Denied then PageDenied (failure e)
      else if op_status (failure e) = Unavailable then PageUnavailable (failure e)
      else PageFailed (failure e))"
  using three_ways [of e] by (auto simp: fromFailure_def)

lemma failure_shown: "page_result (fromFailure (failure e)) = Some (failure e)"
  by (simp add: failure_kind)

lemma failure_blocks_writes: "\<not> writesEnabled (fromFailure (failure e)) \<and> createEnabled (fromFailure (failure e))"
  by (simp add: failure_kind)

end

subsection \<open>Properties\<close>

text \<open>A failed read never looks healthy: rows may be acted on exactly when the last read
  succeeded and is not being contradicted by an error; a new item may be created unless stale rows
  are on screen; the page spins exactly when there is neither.\<close>

theorem page_guards:
  "(writesEnabled (toPageState now operation isEmpty query) \<longleftrightarrow> q_error query = None \<and> q_data query \<noteq> None) \<and>
   (createEnabled (toPageState now operation isEmpty query) \<longleftrightarrow> q_error query = None \<or> q_data query = None) \<and>
   (toPageState now operation isEmpty query = Loading \<longleftrightarrow> q_error query = None \<and> q_data query = None)"
proof (cases "q_error query")
  case (Some err)
  have "fromFailure (fromThrownError now operation err) \<noteq> (Loading :: 'a page_state)"
    by (simp add: thrown.failure_kind)
  then show ?thesis
    using thrown.failure_blocks_writes [of now operation err]
    by (cases "q_data query") (simp_all add: toPageState_def Some)
qed (simp add: toPageState_def split: option.splits)

text \<open>Every failed read is explained: an error always comes with the result made from it, and the
  rows on screen, if any, are still the last rows read.\<close>

theorem failure_is_explained:
  "page_result (toPageState now operation isEmpty query) = map_option (fromThrownError now operation) (q_error query) \<and>
   (\<forall>rows t r. toPageState now operation isEmpty query = Stale rows t r \<longleftrightarrow>
      q_data query = Some rows \<and> t = q_updatedAt query \<and> map_option (fromThrownError now operation) (q_error query) = Some r)"
proof (cases "q_error query")
  case (Some err)
  have "fromFailure (fromThrownError now operation err) \<noteq> Stale rows t r" for rows :: 'a and t r
    by (simp add: thrown.failure_kind)
  then show ?thesis
    by (cases "q_data query") (auto simp: toPageState_def Some thrown.failure_shown Let_def)
qed (auto simp: toPageState_def split: option.splits)

end
