(* ===== verification/Reconcile.thy ===== *)
theory Reconcile
  imports JsPrelude
begin

section \<open>Bounded reconciliation: \<open>hooks/query/reconcile.ts\<close>, \<open>reconcileReport.ts\<close>\<close>

text \<open>
  After a mutation was accepted, a chain re-reads the list until a predicate of the fresh data
  holds or its intervals are used up. A chain stops at its two awaits: for the answer of a read
  (\<open>Reading\<close>, with the intervals still to come) and for the sleep (\<open>Sleeping\<close>). The answer of a
  read is \<open>None\<close> when the read failed or gave nothing. One reconciler holds the chains of its hook
  instance; starting one aborts the one before, and unmounting aborts the last. The reporter on top
  counts generations and decides which popup is opened.
\<close>

definition DEFAULT_RECONCILE_INTERVALS_MS :: "int list" where
  "DEFAULT_RECONCILE_INTERVALS_MS = [500, 1000, 2000, 4000]"

datatype outcome = RConfirmed | RPending

record 'a reconcile_spec =
  rs_confirm :: "('a \<Rightarrow> bool) option"
  rs_intervals :: "int list option"

datatype phase = Reading "int list" | Sleeping int "int list" | Settled outcome

record 'a chain =
  ch_spec :: "'a reconcile_spec"
  ch_phase :: phase
  ch_aborted :: bool
  ch_reads :: "'a option list"

definition intervals_of :: "'a reconcile_spec \<Rightarrow> int list" where
  "intervals_of spec = (case rs_intervals spec of None \<Rightarrow> DEFAULT_RECONCILE_INTERVALS_MS | Some ds \<Rightarrow> ds)"

definition new_chain :: "'a reconcile_spec \<Rightarrow> 'a chain" where
  "new_chain spec = \<lparr>ch_spec = spec, ch_phase = Reading (intervals_of spec), ch_aborted = False, ch_reads = []\<rparr>"

text \<open>\<open>fromQueryRefetch\<close>: a failed refetch still carries old data, which is no read.\<close>

definition fromQueryRefetch :: "'a option \<Rightarrow> bool \<Rightarrow> 'a option" where
  "fromQueryRefetch data isError = (if isError then None else data)"

text \<open>The continuation after a read, and after a sleep.\<close>

definition after_read :: "'a option \<Rightarrow> int list \<Rightarrow> 'a chain \<Rightarrow> phase" where
  "after_read latest intervals c =
     (case rs_confirm (ch_spec c) of
        None \<Rightarrow> Settled RConfirmed
      | Some confirm \<Rightarrow>
          if ch_aborted c then Settled RPending
          else if (case latest of None \<Rightarrow> False | Some v \<Rightarrow> confirm v) then Settled RConfirmed
          else (case intervals of [] \<Rightarrow> Settled RPending | delay # rest \<Rightarrow> Sleeping delay rest))"

definition read_done :: "'a option \<Rightarrow> 'a chain \<Rightarrow> 'a chain" where
  "read_done latest c =
     (case ch_phase c of
        Reading intervals \<Rightarrow> c\<lparr>ch_phase := after_read latest intervals c, ch_reads := ch_reads c @ [latest]\<rparr>
      | _ \<Rightarrow> c)"

definition sleep_done :: "'a chain \<Rightarrow> 'a chain" where
  "sleep_done c =
     (case ch_phase c of
        Sleeping delay rest \<Rightarrow> c\<lparr>ch_phase := (if ch_aborted c then Settled RPending else Reading rest)\<rparr>
      | _ \<Rightarrow> c)"

datatype 'a chain_event = Answer "'a option" | Wake | Abort

fun chain_step :: "'a chain \<Rightarrow> 'a chain_event \<Rightarrow> 'a chain" where
  "chain_step c (Answer latest) = read_done latest c"
| "chain_step c Wake = sleep_done c"
| "chain_step c Abort = c\<lparr>ch_aborted := True\<rparr>"

definition chain_run :: "'a chain \<Rightarrow> 'a chain_event list \<Rightarrow> 'a chain" where
  "chain_run = foldl chain_step"

subsection \<open>The hook and its reporter\<close>

datatype popup = PopSuccess string | PopUnread | PopNotYet

text \<open>A call is reported with a message, or reconciled silently.\<close>

record 'a call =
  cl_chain :: "'a chain"
  cl_generation :: nat
  cl_message :: "string option"

record 'a reporter =
  rp_calls :: "'a call list"
  rp_current :: "nat option"
  rp_generation :: nat
  rp_mounted :: bool
  rp_popups :: "popup list"

definition reporter_start :: "'a reporter" where
  "reporter_start = \<lparr>rp_calls = [], rp_current = None, rp_generation = 0, rp_mounted = True, rp_popups = []\<rparr>"

definition abort_call :: "nat option \<Rightarrow> 'a call list \<Rightarrow> 'a call list" where
  "abort_call cur calls =
     (case cur of
        None \<Rightarrow> calls
      | Some i \<Rightarrow> calls[i := (calls ! i)\<lparr>cl_chain := chain_step (cl_chain (calls ! i)) Abort\<rparr>])"

definition start_call :: "'a reconcile_spec \<Rightarrow> string option \<Rightarrow> 'a reporter \<Rightarrow> 'a reporter" where
  "start_call spec message r =
     r\<lparr>rp_generation := Suc (rp_generation r),
       rp_calls := abort_call (rp_current r) (rp_calls r)
                   @ [\<lparr>cl_chain = new_chain spec, cl_generation = Suc (rp_generation r), cl_message = message\<rparr>],
       rp_current := Some (length (rp_calls r))\<rparr>"

definition unmount :: "'a reporter \<Rightarrow> 'a reporter" where
  "unmount r = r\<lparr>rp_calls := abort_call (rp_current r) (rp_calls r), rp_current := None,
                 rp_mounted := False, rp_generation := Suc (rp_generation r)\<rparr>"

definition lastReadFailed :: "'a chain \<Rightarrow> bool" where
  "lastReadFailed c \<longleftrightarrow> ch_reads c \<noteq> [] \<and> last (ch_reads c) = None"

definition popup_for :: "'a reporter \<Rightarrow> 'a call \<Rightarrow> popup list" where
  "popup_for r cl =
     (case (ch_phase (cl_chain cl), cl_message cl) of
        (Settled out, Some message) \<Rightarrow>
          (if \<not> rp_mounted r \<or> cl_generation cl \<noteq> rp_generation r then []
           else if out = RConfirmed then [PopSuccess message]
           else if lastReadFailed (cl_chain cl) then [PopUnread]
           else [PopNotYet])
      | _ \<Rightarrow> [])"

definition settled :: "'a chain \<Rightarrow> bool" where
  "settled c \<longleftrightarrow> (case ch_phase c of Settled _ \<Rightarrow> True | _ \<Rightarrow> False)"

text \<open>An answer or a wake-up of call \<open>i\<close>; when it settles the chain, the report follows.\<close>

definition resume_call :: "nat \<Rightarrow> 'a chain_event \<Rightarrow> 'a reporter \<Rightarrow> 'a reporter" where
  "resume_call i ev r =
     (let cl = rp_calls r ! i; cl' = cl\<lparr>cl_chain := chain_step (cl_chain cl) ev\<rparr>
      in r\<lparr>rp_calls := (rp_calls r)[i := cl'],
           rp_popups := rp_popups r @ (if settled (cl_chain cl) then [] else popup_for r cl')\<rparr>)"

inductive reporter_step :: "'a reporter \<Rightarrow> 'a reporter \<Rightarrow> bool" where
  started: "rp_mounted r \<Longrightarrow> reporter_step r (start_call spec message r)"
| answered: "i < length (rp_calls r) \<Longrightarrow> reporter_step r (resume_call i (Answer latest) r)"
| woken: "i < length (rp_calls r) \<Longrightarrow> reporter_step r (resume_call i Wake r)"
| unmounted: "reporter_step r (unmount r)"

inductive reporter_reach :: "'a reporter \<Rightarrow> bool" where
  fresh: "reporter_reach reporter_start"
| later: "reporter_reach r \<Longrightarrow> reporter_step r r' \<Longrightarrow> reporter_reach r'"

inductive_cases reporter_stepE: "reporter_step r r'"

subsection \<open>The invariant of a chain\<close>

text \<open>The reads still allowed, and the awaits still to come.\<close>

fun reads_left :: "phase \<Rightarrow> nat" where
  "reads_left (Reading ds) = Suc (length ds)"
| "reads_left (Sleeping d ds) = Suc (length ds)"
| "reads_left (Settled out) = 0"

fun awaits_left :: "phase \<Rightarrow> nat" where
  "awaits_left (Reading ds) = Suc (2 * length ds)"
| "awaits_left (Sleeping d ds) = 2 * Suc (length ds)"
| "awaits_left (Settled out) = 0"

definition chain_ok :: "'a chain \<Rightarrow> bool" where
  "chain_ok c \<longleftrightarrow>
     length (ch_reads c) + reads_left (ch_phase c) \<le> Suc (length (intervals_of (ch_spec c))) \<and>
     (ch_phase c = Settled RConfirmed \<longrightarrow>
        ch_reads c \<noteq> [] \<and>
        (\<forall>confirm. rs_confirm (ch_spec c) = Some confirm \<longrightarrow> (\<exists>v. last (ch_reads c) = Some v \<and> confirm v)))"

lemma chain_ok_new: "chain_ok (new_chain spec)"
  by (simp add: chain_ok_def new_chain_def)

lemma chain_step_spec [simp]: "ch_spec (chain_step c ev) = ch_spec c"
  by (cases ev) (auto simp: read_done_def sleep_done_def split: phase.splits)

lemma chain_ok_step: "chain_ok c \<Longrightarrow> chain_ok (chain_step c ev)"
  by (cases ev; cases "ch_phase c")
     (auto simp: chain_ok_def read_done_def sleep_done_def after_read_def split: option.splits list.splits if_splits)

lemma chain_ok_run: "chain_ok c \<Longrightarrow> chain_ok (chain_run c evs)"
  by (induction evs arbitrary: c) (auto simp: chain_run_def chain_ok_step)

lemma chain_run_spec [simp]: "ch_spec (chain_run c evs) = ch_spec c"
  by (induction evs arbitrary: c) (auto simp: chain_run_def)

text \<open>An event the chain is waiting for uses up an await.\<close>

fun awaited :: "'a chain \<Rightarrow> 'a chain_event \<Rightarrow> bool" where
  "awaited c (Answer latest) = (case ch_phase c of Reading _ \<Rightarrow> True | _ \<Rightarrow> False)"
| "awaited c Wake = (case ch_phase c of Sleeping _ _ \<Rightarrow> True | _ \<Rightarrow> False)"
| "awaited c Abort = False"

lemma awaits_decrease: "awaited c ev \<Longrightarrow> awaits_left (ch_phase (chain_step c ev)) < awaits_left (ch_phase c)"
  by (cases ev; cases "ch_phase c")
     (auto simp: read_done_def sleep_done_def after_read_def split: option.splits list.splits)

lemma awaits_keep: "\<not> awaited c ev \<Longrightarrow> ch_phase (chain_step c ev) = ch_phase c"
  by (cases ev; cases "ch_phase c") (auto simp: read_done_def sleep_done_def)

lemma settled_iff: "settled c \<longleftrightarrow> awaits_left (ch_phase c) = 0"
  by (cases "ch_phase c") (auto simp: settled_def)

text \<open>How many of the events of a run were awaited.\<close>

fun progress :: "'a chain \<Rightarrow> 'a chain_event list \<Rightarrow> nat" where
  "progress c [] = 0"
| "progress c (ev # evs) = (if awaited c ev then 1 else 0) + progress (chain_step c ev) evs"

lemma progress_bound: "progress c evs + awaits_left (ch_phase (chain_run c evs)) \<le> awaits_left (ch_phase c)"
proof (induction evs arbitrary: c)
  case (Cons ev evs)
  have "progress (chain_step c ev) evs + awaits_left (ch_phase (chain_run c (ev # evs))) \<le> awaits_left (ch_phase (chain_step c ev))"
    using Cons [of "chain_step c ev"] by (simp add: chain_run_def)
  then show ?case
    using awaits_decrease [of c ev] awaits_keep [of c ev] by (cases "awaited c ev") auto
qed (simp add: chain_run_def)

subsection \<open>The contract of a confirm predicate\<close>

text \<open>
  A family of endpoints supplies for every write a predicate of the rows read back, and promises
  that it holds only of rows in which the write has landed. A chain then never confirms a write
  that was not seen.
\<close>

locale confirmation =
  fixes holds :: "'w \<Rightarrow> 'rows \<Rightarrow> bool" and landed :: "'w \<Rightarrow> 'rows \<Rightarrow> bool"
  assumes holds_landed: "holds w rows \<Longrightarrow> landed w rows"
begin

lemma confirmed_landed:
  assumes "ch_phase (chain_run (new_chain \<lparr>rs_confirm = Some (holds w), rs_intervals = ds\<rparr>) evs) = Settled RConfirmed"
  shows "\<exists>rows. last (ch_reads (chain_run (new_chain \<lparr>rs_confirm = Some (holds w), rs_intervals = ds\<rparr>) evs)) = Some rows
           \<and> landed w rows"
proof -
  let ?c = "chain_run (new_chain \<lparr>rs_confirm = Some (holds w), rs_intervals = ds\<rparr>) evs"
  have "chain_ok ?c"
    by (intro chain_ok_run chain_ok_new)
  moreover have "rs_confirm (ch_spec ?c) = Some (holds w)"
    by (simp add: new_chain_def)
  ultimately show ?thesis
    using assms holds_landed unfolding chain_ok_def by blast
qed

end

subsection \<open>The invariant of the hook\<close>

definition live :: "'a call \<Rightarrow> bool" where
  "live cl \<longleftrightarrow> \<not> ch_aborted (cl_chain cl) \<and> \<not> settled (cl_chain cl)"

definition reporter_ok :: "'a reporter \<Rightarrow> bool" where
  "reporter_ok r \<longleftrightarrow>
     (\<forall>i<length (rp_calls r). chain_ok (cl_chain (rp_calls r ! i)) \<and>
        (ch_aborted (cl_chain (rp_calls r ! i)) \<or> rp_current r = Some i)) \<and>
     (\<forall>i. rp_current r = Some i \<longrightarrow> i < length (rp_calls r))"

lemma chain_step_aborted: "ev \<noteq> Abort \<Longrightarrow> ch_aborted (chain_step c ev) = ch_aborted c"
  by (cases ev; cases "ch_phase c") (auto simp: read_done_def sleep_done_def)

lemma abort_call_length [simp]: "length (abort_call cur calls) = length calls"
  by (simp add: abort_call_def split: option.splits)

lemma abort_call_nth:
  "i < length calls \<Longrightarrow> cl_chain (abort_call cur calls ! i) =
     (if cur = Some i then chain_step (cl_chain (calls ! i)) Abort else cl_chain (calls ! i))"
  by (auto simp: abort_call_def nth_list_update split: option.splits)

lemma reporter_ok_resume:
  "reporter_ok r \<Longrightarrow> i < length (rp_calls r) \<Longrightarrow> ev \<noteq> Abort \<Longrightarrow> reporter_ok (resume_call i ev r)"
  by (simp add: reporter_ok_def resume_call_def Let_def nth_list_update chain_ok_step chain_step_aborted)

lemma aborted_ok: "chain_ok c \<Longrightarrow> chain_ok (chain_step c Abort) \<and> ch_aborted (chain_step c Abort)"
  using chain_ok_step [of c Abort] by simp

lemma abort_call_ok:
  assumes "reporter_ok r" and "i < length (rp_calls r)"
  shows "chain_ok (cl_chain (abort_call (rp_current r) (rp_calls r) ! i)) \<and>
         ch_aborted (cl_chain (abort_call (rp_current r) (rp_calls r) ! i))"
proof -
  have "chain_ok (cl_chain (rp_calls r ! i))" "ch_aborted (cl_chain (rp_calls r ! i)) \<or> rp_current r = Some i"
    using assms unfolding reporter_ok_def by auto
  then show ?thesis
    by (cases "rp_current r = Some i") (simp_all only: abort_call_nth [OF assms(2)] aborted_ok if_True if_False HOL.simp_thms)
qed

lemma reporter_ok_start_call:
  assumes "reporter_ok r"
  shows "reporter_ok (start_call spec message r)"
proof -
  have "chain_ok (cl_chain (rp_calls (start_call spec message r) ! i)) \<and>
        (ch_aborted (cl_chain (rp_calls (start_call spec message r) ! i)) \<or> length (rp_calls r) = i)"
    if "i \<le> length (rp_calls r)" for i
    using that abort_call_ok [OF assms, of i] chain_ok_new [of spec]
    by (cases "i = length (rp_calls r)") (simp_all add: start_call_def nth_append)
  then show ?thesis
    by (simp add: reporter_ok_def start_call_def less_Suc_eq_le del: imp_disjL)
qed

lemma reporter_ok_unmount: "reporter_ok r \<Longrightarrow> reporter_ok (unmount r)"
  unfolding reporter_ok_def [of "unmount r"] using abort_call_ok [of r] by (simp add: unmount_def)

lemma reporter_ok_step: "reporter_step r r' \<Longrightarrow> reporter_ok r \<Longrightarrow> reporter_ok r'"
  by (induction rule: reporter_step.induct) (simp_all add: reporter_ok_start_call reporter_ok_resume reporter_ok_unmount)

lemma reporter_ok_reach: "reporter_reach r \<Longrightarrow> reporter_ok r"
proof (induction rule: reporter_reach.induct)
  case fresh
  show ?case
    by (simp add: reporter_ok_def reporter_start_def)
qed (rule reporter_ok_step)

lemma aborted_stays: "ch_aborted c \<Longrightarrow> ch_aborted (chain_step c ev)"
  by (cases ev; cases "ch_phase c") (auto simp: read_done_def sleep_done_def)

lemma aborted_step:
  "ch_aborted c \<Longrightarrow> rs_confirm (ch_spec c) = Some p \<Longrightarrow> ch_phase c \<noteq> Settled RConfirmed \<Longrightarrow>
   ch_phase (chain_step c ev) \<noteq> Settled RConfirmed"
  by (cases ev; cases "ch_phase c") (auto simp: read_done_def sleep_done_def after_read_def)

text \<open>Without a predicate a chain claims confirmation even when it was aborted and its read failed.\<close>

lemma no_predicate_confirms_blindly:
  "ch_phase (chain_run (new_chain \<lparr>rs_confirm = None, rs_intervals = ds\<rparr>) [Abort, Answer None]) = Settled RConfirmed"
  by (simp add: chain_run_def new_chain_def read_done_def after_read_def)

text \<open>Every chain that is not settled waits for something.\<close>

lemma unsettled_waits: "settled c \<or> awaited c Wake \<or> awaited c (Answer latest)"
  by (cases "ch_phase c") (auto simp: settled_def)

lemma popup_for_success:
  "PopSuccess m \<in> set (popup_for r cl) \<Longrightarrow>
   rp_mounted r \<and> cl_generation cl = rp_generation r \<and> cl_message cl = Some m \<and> ch_phase (cl_chain cl) = Settled RConfirmed"
  by (auto simp: popup_for_def split: phase.splits option.splits if_splits outcome.splits)

subsection \<open>Properties\<close>

text \<open>Confirmation is an observation: a chain with a predicate that ends confirmed has read rows
  that satisfy it, and it was its last read.\<close>

theorem confirmed_was_seen:
  assumes "ch_phase (chain_run (new_chain spec) evs) = Settled RConfirmed" and "rs_confirm spec = Some confirm"
  shows "\<exists>v. ch_reads (chain_run (new_chain spec) evs) \<noteq> [] \<and>
             last (ch_reads (chain_run (new_chain spec) evs)) = Some v \<and> confirm v"
proof -
  have "chain_ok (chain_run (new_chain spec) evs)"
    by (intro chain_ok_run chain_ok_new)
  then show ?thesis
    using assms by (auto simp: chain_ok_def new_chain_def)
qed

theorem confirmed_was_seen_witness:
  "\<exists>v. ch_reads (chain_run (new_chain \<lparr>rs_confirm = Some (\<lambda>n. n > (3::int)), rs_intervals = Some [10]\<rparr>) [Answer (Some 2), Wake, Answer (Some 5)]) \<noteq> [] \<and>
       last (ch_reads (chain_run (new_chain \<lparr>rs_confirm = Some (\<lambda>n. n > (3::int)), rs_intervals = Some [10]\<rparr>) [Answer (Some 2), Wake, Answer (Some 5)])) = Some v \<and> v > 3"
  by (rule confirmed_was_seen [where confirm = "\<lambda>n. n > 3"])
     (simp_all add: chain_run_def new_chain_def read_done_def after_read_def sleep_done_def intervals_of_def)

text \<open>C36. The poll is bounded: at most one read more than there are intervals, at most twice that many
  awaits in all, and a chain that was answered and woken that often has settled.\<close>

theorem poll_is_bounded:
  "length (ch_reads (chain_run (new_chain spec) evs)) \<le> Suc (length (intervals_of spec)) \<and>
   progress (new_chain spec) evs \<le> Suc (2 * length (intervals_of spec)) \<and>
   (settled (chain_run (new_chain spec) evs) \<or> progress (new_chain spec) evs < Suc (2 * length (intervals_of spec)))"
proof -
  have "chain_ok (chain_run (new_chain spec) evs)"
    by (intro chain_ok_run chain_ok_new)
  moreover have "ch_spec (chain_run (new_chain spec) evs) = spec"
    by (simp add: new_chain_def)
  moreover have "awaits_left (ch_phase (new_chain spec)) = Suc (2 * length (intervals_of spec))"
    by (simp add: new_chain_def)
  ultimately show ?thesis
    using progress_bound [of "new_chain spec" evs] by (auto simp: chain_ok_def settled_iff)
qed

text \<open>An abandoned chain never claims confirmation: once a chain with a predicate was superseded or
  unmounted before it settled, no later answer makes it confirmed.\<close>

theorem abandoned_never_confirms:
  assumes "ch_aborted c" and "rs_confirm (ch_spec c) = Some confirm" and "\<not> settled c"
  shows "ch_phase (chain_run c evs) \<noteq> Settled RConfirmed"
proof -
  have "ch_phase c \<noteq> Settled RConfirmed"
    using assms(3) by (auto simp: settled_def)
  with assms(1,2) show ?thesis
  proof (induction evs arbitrary: c)
    case (Cons ev evs)
    then show ?case
      using aborted_stays [of c ev] aborted_step [of c confirm ev] by (simp add: chain_run_def)
  qed (simp add: chain_run_def)
qed

theorem abandoned_never_confirms_witness:
  "ch_phase (chain_run (chain_step (new_chain \<lparr>rs_confirm = Some (\<lambda>n. n = (5::int)), rs_intervals = None\<rparr>) Abort) [Answer (Some 5)])
     \<noteq> Settled RConfirmed"
  by (rule abandoned_never_confirms) (simp_all add: new_chain_def settled_def)


definition reporter_demo :: "int reporter" where
  "reporter_demo = start_call \<lparr>rs_confirm = Some (\<lambda>n. n = 5), rs_intervals = Some []\<rparr> (Some ''Saved'') reporter_start"


end
