(* ===== verification/Quota.thy ===== *)
theory Quota
  imports JsPrelude
begin

section \<open>Rate-limit quotas of tenants, users, API keys and defaults: \<open>types/ai.ts\<close>\<close>

text \<open>
  The bodies the quota forms send. An optional number is a \<open>jsnum option\<close> (it may be NaN, the value
  of an unparsable input); the request-priority fields, which also may be null, are \<open>jsv\<close>. For each
  endpoint: the normalisation before sending and the validation, as the list of messages.
\<close>

record model_limit =
  ml_model :: "string option"
  ml_tpm :: "jsnum option"

record tenant_mod =
  tm_tenant :: string
  tm_rps :: "jsnum option"
  tm_tpm :: "jsnum option"
  tm_burst :: "jsnum option"
  tm_models :: "model_limit list option"
  tm_priority_class :: jsv
  tm_default_objective :: jsv
  tm_allowed_objectives :: jsv

record user_mod =
  um_tenant :: "string option"
  um_user :: "string option"
  um_rps :: "jsnum option"
  um_burst :: "jsnum option"
  um_tpm :: "jsnum option"
  um_models :: "model_limit list option"

datatype defaults_scope = GlobalScope | RuleScope | OtherScope string

record defaults_mod =
  dm_scope :: defaults_scope
  dm_rule :: "string option"
  dm_user_rps :: "jsnum option"
  dm_user_tpm :: "jsnum option"
  dm_tenant_rps :: "jsnum option"
  dm_tenant_tpm :: "jsnum option"
  dm_vip_rps :: "jsnum option"
  dm_vip_tpm :: "jsnum option"

record key_patch =
  kp_models :: "string list option"
  kp_enabled :: "bool option"
  kp_rps :: "jsnum option"
  kp_burst :: "jsnum option"
  kp_tpm :: "jsnum option"
  kp_priority_class :: "string option"
  kp_default_objective :: "string option"
  kp_allowed_objectives :: "string list option"

definition some_or :: "'a \<Rightarrow> 'a option \<Rightarrow> 'a" where
  "some_or d v = (case v of None \<Rightarrow> d | Some x \<Rightarrow> x)"

abbreviation zero_or :: "jsnum option \<Rightarrow> jsnum" where
  "zero_or v \<equiv> some_or (Fin 0) v"

definition isNonNegativeSafeInteger :: "jsnum option \<Rightarrow> bool" where
  "isNonNegativeSafeInteger v = (case v of None \<Rightarrow> False | Some n \<Rightarrow> is_safe_integer n \<and> num_le (Fin 0) n)"

definition limit_name :: "model_limit \<Rightarrow> string" where
  "limit_name limit = js_trim (some_or [] (ml_model limit))"

subsection \<open>Tenants\<close>

text \<open>The tombstones an edit appends: persisted models that no longer occur, each once.\<close>

fun tombstones :: "string set \<Rightarrow> string set \<Rightarrow> model_limit list \<Rightarrow> model_limit list" where
  "tombstones current seen [] = []"
| "tombstones current seen (limit # persisted) =
     (let model = limit_name limit
      in if model = [] \<or> model \<in> current \<or> model \<in> seen then tombstones current seen persisted
         else \<lparr>ml_model = Some model, ml_tpm = Some (Fin 0)\<rparr> # tombstones current (insert model seen) persisted)"

definition reconcileTenantModelLimits :: "model_limit list \<Rightarrow> model_limit list \<Rightarrow> model_limit list" where
  "reconcileTenantModelLimits current persisted =
     current @ tombstones {m \<in> limit_name ` set current. m \<noteq> []} {} persisted"

definition trim_limit :: "model_limit \<Rightarrow> model_limit" where
  "trim_limit limit = \<lparr>ml_model = map_option js_trim (ml_model limit), ml_tpm = ml_tpm limit\<rparr>"

definition normalizeTenantRateLimit :: "tenant_mod \<Rightarrow> tenant_mod" where
  "normalizeTenantRateLimit data = data\<lparr>tm_tenant := js_trim (tm_tenant data),
     tm_models := (case tm_models data of
        Some (l # ls) \<Rightarrow> Some (map trim_limit (l # ls))
      | _ \<Rightarrow> None)\<rparr>"

definition bad_count :: "jsnum option \<Rightarrow> bool" where
  "bad_count v \<longleftrightarrow> v \<noteq> None \<and> \<not> isNonNegativeSafeInteger v"

definition row_no :: "nat \<Rightarrow> string" where
  "row_no i = ''Model quota row '' @ nat_str (Suc i)"

fun tenant_row_errors :: "nat \<Rightarrow> string set \<Rightarrow> model_limit list \<Rightarrow> string list" where
  "tenant_row_errors i seen [] = []"
| "tenant_row_errors i seen (limit # rows) =
     (let model = some_or [] (ml_model limit)
      in (if model = [] then [row_no i @ '' requires a model name.'']
          else if model \<in> seen then [''Model quota '' @ model @ '' is duplicated.'']
          else [])
         @ (if \<not> isNonNegativeSafeInteger (ml_tpm limit) then [row_no i @ '' tokens per minute must be a non-negative integer.''] else [])
         @ tenant_row_errors (Suc i) (if model = [] then seen else insert model seen) rows)"

definition validateTenantRateLimit :: "tenant_mod \<Rightarrow> string list" where
  "validateTenantRateLimit data =
     (let n = normalizeTenantRateLimit data
      in (if tm_tenant n = [] then [''Tenant ID is required.''] else [])
         @ (if bad_count (tm_rps n) then [''Tenant RPS must be a non-negative integer.''] else [])
         @ (if bad_count (tm_tpm n) then [''Tenant tokens per minute must be a non-negative integer.''] else [])
         @ (if tm_burst n \<noteq> None \<and> (\<not> isNonNegativeSafeInteger (tm_burst n) \<or> num_lt (Fin 1000) (zero_or (tm_burst n)))
            then [''Tenant burst percentage must be 0 or an integer between 1 and 1000.''] else [])
         @ tenant_row_errors 0 {} (some_or [] (tm_models n)))"

subsection \<open>API keys\<close>

definition apiKeyPatchIsEmpty :: "key_patch option \<Rightarrow> bool" where
  "apiKeyPatchIsEmpty patch =
     (case patch of
        None \<Rightarrow> True
      | Some p \<Rightarrow> kp_models p = None \<and> kp_enabled p = None \<and> kp_rps p = None \<and> kp_burst p = None \<and> kp_tpm p = None \<and>
                  kp_priority_class p = None \<and> kp_default_objective p = None \<and> kp_allowed_objectives p = None)"

fun objective_errors :: "string set \<Rightarrow> string list \<Rightarrow> string list" where
  "objective_errors seen [] = []"
| "objective_errors seen (name # names) =
     (if js_trim name = [] then ''An objective name cannot be empty.'' # objective_errors seen names
      else if name \<in> seen then (''Allowed objective '' @ name @ '' is duplicated.'') # objective_errors seen names
      else objective_errors (insert name seen) names)"

fun model_errors :: "string set \<Rightarrow> string list \<Rightarrow> string list" where
  "model_errors seen [] = []"
| "model_errors seen (model # models) =
     (if js_trim model = [] then ''A model name cannot be empty.'' # model_errors seen models
      else if str_includes model '','' then ''A model name cannot contain a comma.'' # model_errors seen models
      else if model \<in> seen then (''Model '' @ model @ '' is duplicated.'') # model_errors seen models
      else model_errors (insert model seen) models)"

definition validateApiKeyPatch :: "key_patch \<Rightarrow> string list" where
  "validateApiKeyPatch p =
     (if apiKeyPatchIsEmpty (Some p) then [''Change at least one field before applying.'']
      else (if bad_count (kp_rps p) then [''Requests per second must be a non-negative integer.''] else [])
         @ (if bad_count (kp_burst p) then [''Burst size must be a non-negative integer.''] else [])
         @ (if bad_count (kp_tpm p) then [''Tokens per minute must be a non-negative integer.''] else [])
         @ (if kp_priority_class p \<notin> {None, Some [], Some ''standard'', Some ''critical'', Some ''sheddable''}
            then [''Priority class must be critical, standard or sheddable.''] else [])
         @ (case kp_default_objective p of
              Some ob \<Rightarrow> (if str_includes ob '','' then [''The default objective is one name.''] else []) | None \<Rightarrow> [])
         @ (case kp_allowed_objectives p of
              Some names \<Rightarrow> (if length names > 64 then [''At most 64 allowed objectives.''] else []) @ objective_errors {} names
            | None \<Rightarrow> [])
         @ (case kp_models p of Some models \<Rightarrow> model_errors {} models | None \<Rightarrow> []))"

subsection \<open>Users\<close>

definition RESERVED_QOS_IDENTITY_PREFIXES :: "string list" where
  "RESERVED_QOS_IDENTITY_PREFIXES = [''k:'', ''u:'', ''t:'', ''tm:'', ''uq:'', ''um:'', ''kq:'', ''v:'', ''ver:'']"

definition qosIdentityError :: "string option \<Rightarrow> string option" where
  "qosIdentityError ident =
     (let value = js_trim (some_or [] ident)
      in if value = [] then Some ''An identifier is required.''
         else if str_includes value ''|''
           then Some (''An identifier cannot contain '' @ [CHR 0x22] @ ''|'' @ [CHR 0x22] @ '', which the gateway uses to compose bucket keys.'')
         else if list_ex (starts_with value) RESERVED_QOS_IDENTITY_PREFIXES
           then Some ''An identifier cannot begin with a reserved rate-limit scope prefix (k: u: t: tm: uq: um: kq: v: ver:).''
         else None)"

definition normalizeUserRateLimit :: "user_mod \<Rightarrow> user_mod" where
  "normalizeUserRateLimit data = data\<lparr>
     um_tenant := Some (js_trim (some_or [] (um_tenant data))),
     um_user := Some (js_trim (some_or [] (um_user data))),
     um_models := Some (filter (\<lambda>m. ml_model m \<noteq> Some [])
                   (map (\<lambda>m. m\<lparr>ml_model := Some (limit_name m)\<rparr>) (some_or [] (um_models data))))\<rparr>"

definition opt_truthy :: "jsnum option \<Rightarrow> bool" where
  "opt_truthy v = (case v of None \<Rightarrow> False | Some n \<Rightarrow> num_truthy n)"

definition userRateLimitIsAllZero :: "user_mod \<Rightarrow> bool" where
  "userRateLimitIsAllZero data =
     (let n = normalizeUserRateLimit data
      in \<not> (opt_truthy (um_rps n) \<or> opt_truthy (um_burst n) \<or> opt_truthy (um_tpm n)) \<and>
         \<not> list_ex (\<lambda>m. num_lt (Fin 0) (zero_or (ml_tpm m))) (some_or [] (um_models n)))"

fun user_row_errors :: "nat \<Rightarrow> string set \<Rightarrow> model_limit list \<Rightarrow> string list" where
  "user_row_errors i seen [] = []"
| "user_row_errors i seen (limit # rows) =
     (let model = some_or [] (ml_model limit)
      in (case qosIdentityError (Some model) of
            Some e \<Rightarrow> [row_no i @ '': '' @ e]
          | None \<Rightarrow> if model \<in> seen then [''Model quota '' @ model @ '' is duplicated.''] else [])
         @ (if \<not> isNonNegativeSafeInteger (ml_tpm limit) then [row_no i @ '' tokens per minute must be a non-negative integer.''] else [])
         @ user_row_errors (Suc i) (if qosIdentityError (Some model) = None then insert model seen else seen) rows)"

definition prefixed :: "string \<Rightarrow> string option \<Rightarrow> string list" where
  "prefixed p e = (case e of None \<Rightarrow> [] | Some m \<Rightarrow> [p @ m])"

definition validateUserRateLimit :: "user_mod \<Rightarrow> string list" where
  "validateUserRateLimit data =
     (let n = normalizeUserRateLimit data;
          errors = prefixed ''Tenant: '' (qosIdentityError (um_tenant n))
            @ prefixed ''User: '' (qosIdentityError (um_user n))
            @ (if bad_count (um_rps n) then [''User requests per second must be a non-negative integer.''] else [])
            @ (if bad_count (um_burst n) then [''User burst size must be a non-negative integer.''] else [])
            @ (if bad_count (um_tpm n) then [''User tokens per minute must be a non-negative integer.''] else [])
            @ user_row_errors 0 {} (some_or [] (um_models n))
      in if errors = [] \<and> userRateLimitIsAllZero n
         then [''Set at least one non-zero limit. A zero falls through to the configured defaults, so an all-zero entry asks for nothing - delete the entry instead to fall back to the defaults.'']
         else errors)"

subsection \<open>Defaults\<close>

definition default_limits :: "defaults_mod \<Rightarrow> (string \<times> jsnum option) list" where
  "default_limits d = [(''default_user_rps'', dm_user_rps d), (''default_user_tpm'', dm_user_tpm d),
     (''default_tenant_rps'', dm_tenant_rps d), (''default_tenant_tpm'', dm_tenant_tpm d),
     (''vip_shared_rps'', dm_vip_rps d), (''vip_shared_tpm'', dm_vip_tpm d)]"

definition rateLimitDefaultsIsAllZero :: "defaults_mod \<Rightarrow> bool" where
  "rateLimitDefaultsIsAllZero d \<longleftrightarrow> \<not> list_ex (\<lambda>(f, v). num_lt (Fin 0) (zero_or v)) (default_limits d)"

definition normalizeRateLimitDefaults :: "defaults_mod \<Rightarrow> defaults_mod" where
  "normalizeRateLimitDefaults d =
     (let ident = js_trim (some_or [] (dm_rule d))
      in d\<lparr>dm_rule := (if dm_scope d = RuleScope \<and> ident \<noteq> [] then Some ident else None)\<rparr>)"

definition validateRateLimitDefaults :: "defaults_mod \<Rightarrow> string list" where
  "validateRateLimitDefaults d =
     (let n = normalizeRateLimitDefaults d;
          ident = js_trim (some_or [] (dm_rule d));
          errors = (if dm_scope n \<notin> {GlobalScope, RuleScope} then [''Scope must be either global or rule.''] else [])
            @ (if dm_scope n = RuleScope then prefixed ''Service: '' (qosIdentityError (Some ident))
               else if ident \<noteq> [] then [''A global defaults row applies everywhere and cannot name a service. Choose the rule scope to limit it to one.'']
               else [])
            @ concat (map (\<lambda>(field, v). if bad_count v then [field @ '' must be a non-negative integer.''] else []) (default_limits n))
      in if errors = [] \<and> rateLimitDefaultsIsAllZero n
         then [''Set at least one non-zero limit. A zero falls through to the next level of the ladder, so an all-zero row asks for nothing - delete the row instead.'']
         else errors)"

subsection \<open>Model quotas as a map\<close>

text \<open>
  \<open>modelQuotas\<close> of \<open>hooks/query/confirmPredicates.ts\<close>: the rows applied in order, the last one
  for a model wins, and a row that is not positive removes the model (or is kept as a zero). This is
  also how the gateway applies the rows of an upsert to what it holds.
\<close>

definition put_quota :: "bool \<Rightarrow> model_limit \<Rightarrow> (string \<Rightarrow> jsnum option) \<Rightarrow> (string \<Rightarrow> jsnum option)" where
  "put_quota keepRemovals row out =
     (let model = limit_name row; tpm = zero_or (ml_tpm row)
      in if model = [] then out
         else if num_lt (Fin 0) tpm then out(model \<mapsto> tpm)
         else if keepRemovals then out(model \<mapsto> Fin 0)
         else out(model := None))"

definition upsert_quotas :: "bool \<Rightarrow> (string \<Rightarrow> jsnum option) \<Rightarrow> model_limit list \<Rightarrow> (string \<Rightarrow> jsnum option)" where
  "upsert_quotas keepRemovals held rows = foldl (\<lambda>out row. put_quota keepRemovals row out) held rows"

definition modelQuotas :: "model_limit list \<Rightarrow> bool \<Rightarrow> (string \<Rightarrow> jsnum option)" where
  "modelQuotas rows keepRemovals = upsert_quotas keepRemovals Map.empty rows"

subsection \<open>Facts about rows and quotas\<close>

lemma some_or_simps [simp]: "some_or d None = d" "some_or d (Some x) = x"
  by (simp_all add: some_or_def)

definition rows_named :: "string \<Rightarrow> model_limit list \<Rightarrow> model_limit list" where
  "rows_named m rows = filter (\<lambda>row. limit_name row = m) rows"

definition settled_quota :: "bool \<Rightarrow> model_limit \<Rightarrow> jsnum option" where
  "settled_quota keepRemovals row =
     (if num_lt (Fin 0) (zero_or (ml_tpm row)) then Some (zero_or (ml_tpm row))
      else if keepRemovals then Some (Fin 0) else None)"

text \<open>What is held of one model after an upsert: the last row that names it decides.\<close>

lemma upsert_at:
  "upsert_quotas k held rows m =
     (if m = [] \<or> rows_named m rows = [] then held m else settled_quota k (last (rows_named m rows)))"
proof (induction rows rule: rev_induct)
  case (snoc row rows)
  then show ?case
    by (auto simp: upsert_quotas_def put_quota_def rows_named_def settled_quota_def Let_def)
qed (simp add: upsert_quotas_def rows_named_def)

lemma tombstones_sound:
  "row \<in> set (tombstones current seen persisted) \<Longrightarrow>
   limit_name row \<notin> current \<and> limit_name row \<noteq> [] \<and> ml_tpm row = Some (Fin 0) \<and> limit_name row \<in> limit_name ` set persisted"
  by (induction persisted arbitrary: seen) (auto simp: Let_def limit_name_def some_or_def split: if_splits)

lemma tombstones_complete:
  "m \<in> limit_name ` set persisted \<Longrightarrow> m \<noteq> [] \<Longrightarrow> m \<notin> current \<Longrightarrow> m \<notin> seen \<Longrightarrow>
   m \<in> limit_name ` set (tombstones current seen persisted)"
proof (induction persisted arbitrary: seen)
  case (Cons row persisted)
  show ?case
  proof (cases "limit_name row = m")
    case True
    then show ?thesis
      using Cons.prems by (auto simp: Let_def limit_name_def some_or_def)
  next
    case False
    then show ?thesis
      using Cons.prems Cons.IH [of seen] Cons.IH [of "insert (limit_name row) seen"] by (auto simp: Let_def)
  qed
qed simp

lemma rows_named_Nil: "rows_named m rows = [] \<longleftrightarrow> m \<notin> limit_name ` set rows"
  by (auto simp: rows_named_def filter_empty_conv)

lemma rows_named_append: "rows_named m (a @ b) = rows_named m a @ rows_named m b"
  by (simp add: rows_named_def)

lemma last_rows_named: "rows_named m rows \<noteq> [] \<Longrightarrow> last (rows_named m rows) \<in> set rows \<and> limit_name (last (rows_named m rows)) = m"
  using last_in_set [of "rows_named m rows"] by (simp add: rows_named_def)

lemma tenant_row_errors_Nil:
  "tenant_row_errors i seen rows = [] \<longleftrightarrow>
     (\<forall>row\<in>set rows. some_or [] (ml_model row) \<noteq> [] \<and> isNonNegativeSafeInteger (ml_tpm row)) \<and>
     (\<lambda>row. some_or [] (ml_model row)) ` set rows \<inter> seen = {} \<and>
     distinct (map (\<lambda>row. some_or [] (ml_model row)) rows)"
  by (induction i seen rows rule: tenant_row_errors.induct) (auto simp: Let_def)

lemma user_row_errors_Nil:
  "user_row_errors i seen rows = [] \<longleftrightarrow>
     (\<forall>row\<in>set rows. qosIdentityError (Some (some_or [] (ml_model row))) = None \<and> isNonNegativeSafeInteger (ml_tpm row)) \<and>
     (\<lambda>row. some_or [] (ml_model row)) ` set rows \<inter> seen = {} \<and>
     distinct (map (\<lambda>row. some_or [] (ml_model row)) rows)"
  by (induction i seen rows rule: user_row_errors.induct) (auto simp: Let_def split: option.splits)

lemma model_errors_Nil:
  "model_errors seen models = [] \<longleftrightarrow>
     (\<forall>m\<in>set models. js_trim m \<noteq> [] \<and> CHR '','' \<notin> set m \<and> m \<notin> seen) \<and> distinct models"
proof -
  have "str_includes m '','' \<longleftrightarrow> CHR '','' \<in> set m" for m
    by (auto simp: str_includes_iff in_set_conv_decomp)
  then show ?thesis
    by (induction models arbitrary: seen) auto
qed

lemma prefixed_Nil [simp]: "prefixed p e = [] \<longleftrightarrow> e = None"
  by (simp add: prefixed_def split: option.splits)

lemma trim_limit_name [simp]: "some_or [] (ml_model (trim_limit l)) = limit_name l" "ml_tpm (trim_limit l) = ml_tpm l"
  by (simp_all add: trim_limit_def limit_name_def some_or_def split: option.splits)

lemma trim_limit_idem [simp]: "trim_limit (trim_limit l) = trim_limit l"
  by (cases "ml_model l") (simp_all add: trim_limit_def)

lemma normalized_rows: "some_or [] (tm_models (normalizeTenantRateLimit d)) = map trim_limit (some_or [] (tm_models d))"
  by (simp add: normalizeTenantRateLimit_def some_or_def split: option.splits list.splits)

lemma qosIdentityError_trim [simp]: "qosIdentityError (Some (js_trim s)) = qosIdentityError (Some s)"
  by (simp add: qosIdentityError_def some_or_def)

lemma qosIdentityError_None:
  "qosIdentityError ident = None \<longleftrightarrow>
     js_trim (some_or [] ident) \<noteq> [] \<and> CHR ''|'' \<notin> set (js_trim (some_or [] ident)) \<and>
     (\<forall>p\<in>set RESERVED_QOS_IDENTITY_PREFIXES. \<not> starts_with (js_trim (some_or [] ident)) p)"
proof -
  have "str_includes m ''|'' \<longleftrightarrow> CHR ''|'' \<in> set m" for m
    by (auto simp: str_includes_iff in_set_conv_decomp)
  then show ?thesis
    by (auto simp: qosIdentityError_def Let_def list_ex_iff)
qed

subsection \<open>Properties\<close>

text \<open>C22. Editing a tenant's model quotas replaces them: applied to what the gateway held when the form
  opened, the rows the form sends (with a tombstone for each model that disappeared or was renamed)
  leave exactly the positive quotas of the rows in the form.\<close>

theorem edit_replaces_quotas:
  "upsert_quotas False (modelQuotas persisted False) (reconcileTenantModelLimits current persisted) = modelQuotas current False"
proof
  fix m
  let ?cur = "{m \<in> limit_name ` set current. m \<noteq> []}"
  let ?t = "tombstones ?cur {} persisted"
  show "upsert_quotas False (modelQuotas persisted False) (reconcileTenantModelLimits current persisted) m = modelQuotas current False m"
  proof (cases "m = [] \<or> m \<in> limit_name ` set current")
    case True
    then have "m = [] \<or> rows_named m ?t = []"
      by (auto simp: rows_named_Nil dest: tombstones_sound)
    then show ?thesis
      using True by (auto simp: modelQuotas_def upsert_at reconcileTenantModelLimits_def rows_named_append rows_named_Nil)
  next
    case False
    then have cur: "rows_named m current = []" "m \<notin> ?cur" "m \<noteq> []"
      by (auto simp: rows_named_Nil)
    show ?thesis
    proof (cases "rows_named m ?t = []")
      case True
      then have "m \<notin> limit_name ` set persisted"
        using tombstones_complete [of m persisted ?cur "{}"] cur by (auto simp: rows_named_Nil)
      then show ?thesis
        using True cur by (simp add: modelQuotas_def upsert_at reconcileTenantModelLimits_def rows_named_append rows_named_Nil)
    next
      case False
      then have "settled_quota False (last (rows_named m ?t)) = None"
        using last_rows_named [of m ?t] tombstones_sound [of "last (rows_named m ?t)" ?cur "{}" persisted]
        by (simp add: settled_quota_def some_or_def)
      then show ?thesis
        using False cur by (simp add: modelQuotas_def upsert_at reconcileTenantModelLimits_def rows_named_append)
    qed
  qed
qed

text \<open>A tenant body is accepted exactly when the tenant is named, its counts are non-negative safe
  integers, the burst is at most 1000 and the rows name distinct models with valid quotas.\<close>

theorem tenant_valid_iff:
  "validateTenantRateLimit d = [] \<longleftrightarrow>
     js_trim (tm_tenant d) \<noteq> [] \<and> \<not> bad_count (tm_rps d) \<and> \<not> bad_count (tm_tpm d) \<and> \<not> bad_count (tm_burst d) \<and>
     \<not> num_lt (Fin 1000) (zero_or (tm_burst d)) \<and>
     distinct (map limit_name (some_or [] (tm_models d))) \<and>
     (\<forall>row. row \<notin> set (some_or [] (tm_models d)) \<or> (limit_name row \<noteq> [] \<and> isNonNegativeSafeInteger (ml_tpm row)))"
proof -
  have *: "tm_tenant (normalizeTenantRateLimit d) = js_trim (tm_tenant d)" "tm_rps (normalizeTenantRateLimit d) = tm_rps d"
    "tm_tpm (normalizeTenantRateLimit d) = tm_tpm d" "tm_burst (normalizeTenantRateLimit d) = tm_burst d"
    by (simp_all add: normalizeTenantRateLimit_def)
  show ?thesis
    unfolding validateTenantRateLimit_def Let_def * normalized_rows
    by (cases "tm_burst d") (auto simp: tenant_row_errors_Nil bad_count_def comp_def num_le_def)
qed

text \<open>A user body is accepted exactly when tenant, user and models are usable identities, the counts
  are valid, the models differ, and at least one limit is set.\<close>

theorem user_valid_iff:
  "validateUserRateLimit d = [] \<longleftrightarrow>
     qosIdentityError (um_tenant d) = None \<and> qosIdentityError (um_user d) = None \<and>
     \<not> bad_count (um_rps d) \<and> \<not> bad_count (um_burst d) \<and> \<not> bad_count (um_tpm d) \<and>
     user_row_errors 0 {} (some_or [] (um_models (normalizeUserRateLimit d))) = [] \<and>
     \<not> userRateLimitIsAllZero (normalizeUserRateLimit d)"
proof -
  have *: "qosIdentityError (um_tenant (normalizeUserRateLimit d)) = qosIdentityError (um_tenant d)"
    "qosIdentityError (um_user (normalizeUserRateLimit d)) = qosIdentityError (um_user d)"
    "um_rps (normalizeUserRateLimit d) = um_rps d" "um_burst (normalizeUserRateLimit d) = um_burst d"
    "um_tpm (normalizeUserRateLimit d) = um_tpm d"
    by (simp_all add: normalizeUserRateLimit_def qosIdentityError_def some_or_def)
  show ?thesis
    unfolding validateUserRateLimit_def Let_def * by auto
qed

text \<open>The models of an accepted key patch survive the gateway's storage as comma-separated text:
  joined and split again they are the same list.\<close>

theorem patch_models_survive_storage:
  assumes "validateApiKeyPatch p = []" and "kp_models p = Some models" and "models \<noteq> []"
  shows "split_on CHR '','' (join_with '','' models) = models \<and> distinct models"
proof -
  have "model_errors {} models = []"
    using assms(1,2) by (auto simp: validateApiKeyPatch_def split: if_splits)
  then show ?thesis
    using assms(3) split_join by (auto simp: model_errors_Nil)
qed

definition demo_patch :: key_patch where
  "demo_patch = \<lparr>kp_models = Some [''gpt'', ''llama''], kp_enabled = None, kp_rps = Some (Fin 0), kp_burst = None, kp_tpm = None,
     kp_priority_class = None, kp_default_objective = None, kp_allowed_objectives = None\<rparr>"

theorem patch_models_survive_storage_witness:
  "split_on CHR '','' (join_with '','' [''gpt'', ''llama'']) = [''gpt'', ''llama''] \<and> distinct [''gpt'', ''llama'']"
proof (rule patch_models_survive_storage [of demo_patch])
  show "validateApiKeyPatch demo_patch = []"
    by code_simp
qed (simp_all add: demo_patch_def)

text \<open>A defaults row is accepted exactly when its scope is known, it names a service exactly in the
  rule scope, its six limits are valid and one of them is positive; and what is sent then carries a
  service exactly in the rule scope.\<close>

theorem defaults_valid_iff:
  "(validateRateLimitDefaults d = [] \<longleftrightarrow>
     (dm_scope d = RuleScope \<and> qosIdentityError (dm_rule d) = None \<or>
      dm_scope d = GlobalScope \<and> js_trim (some_or [] (dm_rule d)) = []) \<and>
     \<not> list_ex (\<lambda>(f, v). bad_count v) (default_limits d) \<and> \<not> rateLimitDefaultsIsAllZero d) \<and>
   (dm_rule (normalizeRateLimitDefaults d) \<noteq> None \<longleftrightarrow> dm_scope d = RuleScope \<and> js_trim (some_or [] (dm_rule d)) \<noteq> [])"
proof -
  have *: "default_limits (normalizeRateLimitDefaults d) = default_limits d"
    "dm_scope (normalizeRateLimitDefaults d) = dm_scope d"
    "rateLimitDefaultsIsAllZero (normalizeRateLimitDefaults d) = rateLimitDefaultsIsAllZero d"
    by (simp_all add: normalizeRateLimitDefaults_def default_limits_def rateLimitDefaultsIsAllZero_def Let_def)
  have i: "qosIdentityError (Some (js_trim (some_or [] (dm_rule d)))) = qosIdentityError (dm_rule d)"
    by (simp add: qosIdentityError_def some_or_def)
  show ?thesis
    unfolding validateRateLimitDefaults_def Let_def * i
    by (cases "dm_scope d") (auto simp: normalizeRateLimitDefaults_def Let_def list_ex_iff)
qed

end
