(* ===== verification/LbRules.thy ===== *)
theory LbRules
  imports Fetcher
begin

section \<open>Load-balancer rules: identity, delete address and backend TLS\<close>

text \<open>
  \<open>types/load_balancer.ts\<close> (the rule), \<open>types/lb_identity.ts\<close> (which rule it is, and the address
  that deletes it) and \<open>types/backend_tls.ts\<close>. The arguments of a rule are the JSON object the
  gateway sends: some hundred optional members that the code reads by name.
\<close>

record lb_rule =
  sc_args :: jsobj
  sc_endpoints :: "jsobj list option"
  sc_secondaryIPs :: "jsobj list option"
  sc_allowedSources :: "jsobj list option"

definition JWT_AUTH_POLICIES :: "string list" where
  "JWT_AUTH_POLICIES = [''jwt'', ''apikey-or-jwt'']"

fun requiresJwtProfile :: "jsv \<Rightarrow> bool" where
  "requiresJwtProfile (JStr policy) = (policy \<in> set JWT_AUTH_POLICIES)"
| "requiresJwtProfile _ = False"

subsection \<open>Which rule\<close>

definition lower_text :: "jsv \<Rightarrow> string" where
  "lower_text v = to_lower (str_or_empty (or_default v (JStr [])))"

definition identity_parts :: "jsobj \<Rightarrow> jsv list" where
  "identity_parts args =
     [or_default (oget args ''externalIP'') (JStr []),
      or_default (oget args ''port'') (JStr []),
      or_default (oget args ''portMax'') (JStr []),
      JStr (lower_text (oget args ''protocol'')),
      or_default (oget args ''host'') (JStr []),
      or_default (oget args ''path_prefix'') (JStr []),
      or_default (oget args ''path_match_mode'') (JStr []),
      or_default (oget args ''model_name'') (JStr []),
      or_default (oget args ''name'') (JStr [])]"

definition canonicalLBRuleIdentity :: "lb_rule \<Rightarrow> string" where
  "canonicalLBRuleIdentity rule = json_stringify (JArr (identity_parts (sc_args rule)))"

definition lbRuleRowId :: "lb_rule \<Rightarrow> string" where
  "lbRuleRowId rule =
     (let opaqueID = js_trim (str_or_empty (oget (sc_args rule) ''id''))
      in if opaqueID \<noteq> [] then ''id:'' @ opaqueID else ''key:'' @ canonicalLBRuleIdentity rule)"

record delete_key =
  dk_externalIP :: jsv
  dk_port :: jsv
  dk_portMax :: jsv
  dk_protocol :: jsv
  dk_host :: jsv
  dk_pathPrefix :: jsv
  dk_pathMatchMode :: jsv
  dk_modelName :: jsv

fun js_gt :: "jsv \<Rightarrow> jsv \<Rightarrow> bool" where
  "js_gt (JNum a) (JNum b) = num_lt b a"
| "js_gt _ _ = False"

definition truthy_or_undef :: "jsv \<Rightarrow> jsv" where
  "truthy_or_undef v = (if truthy v then v else JUndef)"

definition buildLBDeleteKey :: "lb_rule \<Rightarrow> delete_key" where
  "buildLBDeleteKey rule =
     (let args = sc_args rule
      in \<lparr>dk_externalIP = oget args ''externalIP'', dk_port = oget args ''port'',
          dk_portMax = (if oget args ''portMax'' \<noteq> JUndef \<and> js_gt (oget args ''portMax'') (oget args ''port'')
                        then oget args ''portMax'' else JUndef),
          dk_protocol = oget args ''protocol'',
          dk_host = truthy_or_undef (oget args ''host''),
          dk_pathPrefix = truthy_or_undef (oget args ''path_prefix''),
          dk_pathMatchMode = truthy_or_undef (oget args ''path_match_mode''),
          dk_modelName = truthy_or_undef (oget args ''model_name'')\<rparr>)"

definition uri_unreserved :: "char \<Rightarrow> bool" where
  "uri_unreserved c \<longleftrightarrow> is_alpha c \<or> is_digit c \<or> c \<in> set ''-_.!~*()'' \<or> c = CHR 0x27"

definition encodeURIComponent :: "string \<Rightarrow> string" where
  "encodeURIComponent s = concat (map (\<lambda>c. if uri_unreserved c then [c] else concat (map percent (utf8 c))) s)"

definition segment :: "jsv \<Rightarrow> string" where
  "segment v = encodeURIComponent (js_string v)"

definition delete_path_part :: "delete_key \<Rightarrow> string" where
  "delete_path_part key =
     ''/config/loadbalancer''
     @ (if truthy (dk_host key) then ''/hosturl/'' @ segment (dk_host key) else [])
     @ ''/externalipaddress/'' @ segment (dk_externalIP key)
     @ ''/port/'' @ segment (dk_port key)
     @ (if dk_portMax key = JUndef then [] else ''/portmax/'' @ segment (dk_portMax key))
     @ ''/protocol/'' @ segment (dk_protocol key)"

definition delete_query :: "delete_key \<Rightarrow> jsobj" where
  "delete_query key =
     (if truthy (dk_host key)
      then (if truthy (dk_pathPrefix key) then [(''path_prefix'', dk_pathPrefix key)] else [])
           @ (if truthy (dk_pathMatchMode key) then [(''path_match_mode'', dk_pathMatchMode key)] else [])
      else [])
     @ (if truthy (dk_modelName key) then [(''model_name'', dk_modelName key)] else [])"

definition buildLBDeletePath :: "delete_key \<Rightarrow> string" where
  "buildLBDeletePath key =
     (let suffix = search_params (delete_query key)
      in if suffix \<noteq> [] then delete_path_part key @ ''?'' @ suffix else delete_path_part key)"

subsection \<open>Backend TLS\<close>

datatype tls_field = CaCert | ClientCert | ServerName

record tls_issue =
  ti_field :: tls_field
  ti_message :: string

fun tls_field_name :: "tls_field \<Rightarrow> string" where
  "tls_field_name CaCert = ''backend_ca_cert_id''"
| "tls_field_name ClientCert = ''backend_client_cert_id''"
| "tls_field_name ServerName = ''backend_tls_server_name''"

definition BACKEND_TLS_STRING_FIELDS :: "string list" where
  "BACKEND_TLS_STRING_FIELDS = [''backend_ca_cert_id'', ''backend_client_cert_id'', ''backend_tls_server_name'']"

definition byte_length :: "string \<Rightarrow> nat" where
  "byte_length s = length (concat (map utf8 s))"

definition isCertId :: "string \<Rightarrow> bool" where
  "isCertId ident =
     (if js_trim ident = [] \<or> byte_length ident > 63 then False
      else \<not> list_ex (\<lambda>c. c \<in> {CHR ''/'', CHR 0x5C, CHR 0x00}) ident \<and> ident \<noteq> ''.'' \<and> \<not> str_includes ident ''..'')"

definition is_alnum :: "char \<Rightarrow> bool" where
  "is_alnum c \<longleftrightarrow> is_alpha c \<or> is_digit c"

definition dns_label :: "string \<Rightarrow> bool" where
  "dns_label l \<longleftrightarrow> l \<noteq> [] \<and> is_alnum (hd l) \<and> is_alnum (last l) \<and> list_all (\<lambda>c. is_alnum c \<or> c = CHR ''-'') l"

definition dotted_quad :: "string \<Rightarrow> bool" where
  "dotted_quad s \<longleftrightarrow> length (split_on CHR ''.'' s) = 4 \<and> list_all (\<lambda>d. all_digits d \<and> length d \<le> 3) (split_on CHR ''.'' s)"

definition tls_text :: "jsobj \<Rightarrow> string \<Rightarrow> string" where
  "tls_text args f = js_trim (str_or_empty (oget args f))"

definition backendTlsApplies :: "jsobj \<Rightarrow> bool" where
  "backendTlsApplies args \<longleftrightarrow> oget args ''mode'' = jint 4 \<and> oget args ''security'' = jint 2"

definition backendTlsDeclared :: "jsobj option \<Rightarrow> bool" where
  "backendTlsDeclared params = (case params of None \<Rightarrow> False | Some ps \<Rightarrow> oget ps ''backend_tls_server_name'' \<noteq> JUndef)"

definition verify_flag :: "jsobj \<Rightarrow> bool" where
  "verify_flag args = truthy (vget (oget args ''mtls_backend'') ''verify_server_cert'')"

definition backendTlsRequested :: "jsobj \<Rightarrow> bool" where
  "backendTlsRequested args \<longleftrightarrow> verify_flag args \<or> list_ex (\<lambda>f. tls_text args f \<noteq> []) BACKEND_TLS_STRING_FIELDS"

definition serverNameIssue :: "string \<Rightarrow> string option" where
  "serverNameIssue name =
     (if length name > 253 then Some ''The backend TLS server name is longer than 253 characters.''
      else if dotted_quad name \<or> str_includes name '':''
        then Some ''The backend TLS server name must be a DNS name, not an address. Leave it empty to match the endpoint address.''
      else if \<not> list_all (\<lambda>l. length l \<le> 63 \<and> dns_label l) (split_on CHR ''.'' name)
        then Some ''The backend TLS server name is not a DNS host name.''
      else None)"

definition tls_issue :: "tls_field \<Rightarrow> string \<Rightarrow> tls_issue" where
  "tls_issue f m = \<lparr>ti_field = f, ti_message = m\<rparr>"

definition validateBackendTls :: "jsobj \<Rightarrow> tls_issue list" where
  "validateBackendTls args =
     (if \<not> backendTlsApplies args \<or> \<not> backendTlsRequested args then []
      else (let verify = verify_flag args; ca = tls_text args ''backend_ca_cert_id'';
                client = tls_text args ''backend_client_cert_id''; name = tls_text args ''backend_tls_server_name'';
                nameIssue = (if name = [] then None else serverNameIssue name)
            in (if verify \<and> ca = [] then [tls_issue CaCert ''Backend verification needs a CA certificate ID: there is no default trust store.''] else [])
               @ (if \<not> verify \<and> ca \<noteq> [] then [tls_issue CaCert ''A backend CA certificate ID has no effect unless backend verification is on.''] else [])
               @ (if ca \<noteq> [] \<and> \<not> isCertId ca then [tls_issue CaCert ''The backend CA certificate ID is not a valid certificate ID.''] else [])
               @ (if client \<noteq> [] \<and> \<not> isCertId client then [tls_issue ClientCert ''The backend client certificate ID is not a valid certificate ID.''] else [])
               @ (case nameIssue of None \<Rightarrow> [] | Some m \<Rightarrow> [tls_issue ServerName m])))"

fun members_of :: "jsv \<Rightarrow> jsobj" where
  "members_of (JObj ob) = ob"
| "members_of _ = []"

definition put_tls_text :: "jsobj \<Rightarrow> string \<Rightarrow> jsobj \<Rightarrow> jsobj" where
  "put_tls_text args f result =
     (if \<not> backendTlsApplies args \<or> tls_text args f = [] then AList.delete f result
      else AList.update f (JStr (tls_text args f)) result)"

definition put_mtls_backend :: "jsobj \<Rightarrow> jsobj \<Rightarrow> jsobj" where
  "put_mtls_backend args result =
     (if oget args ''mtls_backend'' = JUndef then result
      else (let retired = AList.delete ''verify_server_cert'' (members_of (oget args ''mtls_backend''));
                kept = (if backendTlsApplies args \<and> verify_flag args
                        then retired @ [(''verify_server_cert'', JBool True)] else retired)
            in if kept = [] then AList.delete ''mtls_backend'' result
               else AList.update ''mtls_backend'' (JObj kept) result))"

definition serializeBackendTls :: "jsobj \<Rightarrow> jsobj" where
  "serializeBackendTls args = put_mtls_backend args (fold (put_tls_text args) BACKEND_TLS_STRING_FIELDS args)"

subsection \<open>Facts about addresses\<close>

definition url_mark :: "char \<Rightarrow> bool" where
  "url_mark c \<longleftrightarrow> c \<in> {CHR ''/'', CHR ''?'', CHR ''#'', CHR ''&''}"

lemma hex_upper_safe: "n < 16 \<Longrightarrow> \<not> url_mark (hex_upper n)"
proof -
  assume "n < 16"
  then have "n \<in> set [0..<16]"
    by simp
  moreover have "list_all (\<lambda>n. \<not> url_mark (hex_upper n)) [0..<16]"
    by code_simp
  ultimately show ?thesis
    unfolding list_all_iff by blast
qed

lemma utf8_bytes: "b \<in> set (utf8 c) \<Longrightarrow> b < 256"
proof -
  have "code_of c < 256"
    by (simp add: code_of_def)
  then show "b \<in> set (utf8 c) \<Longrightarrow> b < 256"
    by (auto simp: utf8_def Let_def split: if_splits)
qed

lemma percent_safe:
  assumes "b < 256" and "x \<in> set (percent b)"
  shows "\<not> url_mark x"
proof -
  have "b div 16 < 16" "b mod 16 < 16"
    using assms(1) by (simp_all add: less_mult_imp_div_less)
  moreover have "x = CHR ''%'' \<or> x = hex_upper (b div 16) \<or> x = hex_upper (b mod 16)"
    using assms(2) by (simp add: percent_def)
  moreover have "\<not> url_mark CHR ''%''"
    by (simp add: url_mark_def)
  ultimately show ?thesis
    using hex_upper_safe by metis
qed

lemma unreserved_safe: "uri_unreserved c \<Longrightarrow> \<not> url_mark c"
  by (auto simp: uri_unreserved_def is_alpha_def is_digit_def url_mark_def)

lemma encode_safe: "x \<in> set (encodeURIComponent s) \<Longrightarrow> \<not> url_mark x"
  using unreserved_safe percent_safe utf8_bytes by (auto simp: encodeURIComponent_def split: if_splits) blast

lemma segment_plain: "CHR ''/'' \<notin> set (segment v)" "CHR ''?'' \<notin> set (segment v)"
  using encode_safe [of "CHR ''/''" "js_string v"] encode_safe [of "CHR ''?''" "js_string v"]
  by (auto simp: segment_def url_mark_def)

definition delete_segments :: "delete_key \<Rightarrow> string list" where
  "delete_segments key =
     [[], ''config'', ''loadbalancer'']
     @ (if truthy (dk_host key) then [''hosturl'', segment (dk_host key)] else [])
     @ [''externalipaddress'', segment (dk_externalIP key), ''port'', segment (dk_port key)]
     @ (if dk_portMax key = JUndef then [] else [''portmax'', segment (dk_portMax key)])
     @ [''protocol'', segment (dk_protocol key)]"

lemma delete_path_join: "delete_path_part key = join_with ''/'' (delete_segments key)"
  by (simp add: delete_path_part_def delete_segments_def)

lemma delete_segments_plain: "w \<in> set (delete_segments key) \<Longrightarrow> CHR ''/'' \<notin> set w \<and> CHR ''?'' \<notin> set w"
  using segment_plain by (auto simp: delete_segments_def split: if_splits)

subsection \<open>Facts about the TLS part\<close>

lemma mode_kept:
  "f \<noteq> ''backend_ca_cert_id'' \<Longrightarrow> f \<noteq> ''backend_client_cert_id'' \<Longrightarrow> f \<noteq> ''backend_tls_server_name'' \<Longrightarrow>
   f \<noteq> ''mtls_backend'' \<Longrightarrow> oget (serializeBackendTls args) f = oget args f"
  by (simp add: serializeBackendTls_def put_mtls_backend_def put_tls_text_def BACKEND_TLS_STRING_FIELDS_def Let_def)

lemma applies_kept: "backendTlsApplies (serializeBackendTls args) = backendTlsApplies args"
  by (simp add: backendTlsApplies_def mode_kept)

lemma text_sent:
  "f \<in> set BACKEND_TLS_STRING_FIELDS \<Longrightarrow>
   oget (serializeBackendTls args) f =
     (if backendTlsApplies args \<and> tls_text args f \<noteq> [] then JStr (tls_text args f) else JUndef)"
  by (auto simp: serializeBackendTls_def put_mtls_backend_def put_tls_text_def BACKEND_TLS_STRING_FIELDS_def Let_def)

lemma tls_text_sent:
  "f \<in> set BACKEND_TLS_STRING_FIELDS \<Longrightarrow>
   tls_text (serializeBackendTls args) f = (if backendTlsApplies args then tls_text args f else [])"
  unfolding tls_text_def [of "serializeBackendTls args"] text_sent by (simp add: tls_text_def)

lemma mtls_after_texts:
  "oget (fold (put_tls_text args) BACKEND_TLS_STRING_FIELDS args) ''mtls_backend'' = oget args ''mtls_backend''"
  by (simp add: put_tls_text_def BACKEND_TLS_STRING_FIELDS_def)

lemma mtls_sent:
  "oget (serializeBackendTls args) ''mtls_backend'' =
     (if oget args ''mtls_backend'' = JUndef then JUndef
      else (let retired = AList.delete ''verify_server_cert'' (members_of (oget args ''mtls_backend''));
                kept = (if backendTlsApplies args \<and> verify_flag args
                        then retired @ [(''verify_server_cert'', JBool True)] else retired)
            in if kept = [] then JUndef else JObj kept))"
  by (simp add: serializeBackendTls_def put_mtls_backend_def mtls_after_texts Let_def)

lemma verify_sent: "verify_flag (serializeBackendTls args) = (backendTlsApplies args \<and> verify_flag args)"
proof -
  let ?r = "AList.delete ''verify_server_cert'' (members_of (oget args ''mtls_backend''))"
  have r: "oget ?r ''verify_server_cert'' = JUndef" "oget (?r @ [(''verify_server_cert'', JBool True)]) ''verify_server_cert'' = JBool True"
    by (simp_all add: oget_def map_add_def delete_conv)
  have "verify_flag args \<Longrightarrow> oget args ''mtls_backend'' \<noteq> JUndef"
    by (auto simp: verify_flag_def)
  then show ?thesis
    unfolding verify_flag_def [of "serializeBackendTls args"] mtls_sent
    using r by (simp add: Let_def)
qed

subsection \<open>Properties\<close>

text \<open>Backend TLS: what is validated is what is sent. Serialising does not change the verdict, and
  the body asks for backend TLS exactly when the form does and the rule re-encrypts to its backends;
  off that leg no string member is left.\<close>

theorem backend_tls_sent:
  "validateBackendTls (serializeBackendTls args) = validateBackendTls args \<and>
   (backendTlsRequested (serializeBackendTls args) \<longleftrightarrow> backendTlsApplies args \<and> backendTlsRequested args) \<and>
   (if backendTlsApplies args then True
    else list_all (\<lambda>f. oget (serializeBackendTls args) f = JUndef) BACKEND_TLS_STRING_FIELDS)"
proof -
  have fields: "''backend_ca_cert_id'' \<in> set BACKEND_TLS_STRING_FIELDS" "''backend_client_cert_id'' \<in> set BACKEND_TLS_STRING_FIELDS"
    "''backend_tls_server_name'' \<in> set BACKEND_TLS_STRING_FIELDS"
    by (simp_all add: BACKEND_TLS_STRING_FIELDS_def)
  have req: "backendTlsRequested (serializeBackendTls args) \<longleftrightarrow> backendTlsApplies args \<and> backendTlsRequested args"
    using tls_text_sent [of _ args] by (auto simp: backendTlsRequested_def verify_sent list_ex_iff)
  moreover have "validateBackendTls (serializeBackendTls args) = validateBackendTls args"
    by (cases "backendTlsApplies args")
       (simp_all add: validateBackendTls_def applies_kept req tls_text_sent [OF fields(1)] tls_text_sent [OF fields(2)]
         tls_text_sent [OF fields(3)] verify_sent)
  ultimately show ?thesis
    by (simp add: list_all_iff text_sent)
qed

text \<open>Two rules have the same canonical identity exactly when they agree on every member of it, so
  rules that differ only by host, path, range or model are never taken for one another.\<close>

theorem identity_separates:
  assumes "jsonable (JArr (identity_parts (sc_args a)))" and "jsonable (JArr (identity_parts (sc_args b)))"
  shows "canonicalLBRuleIdentity a = canonicalLBRuleIdentity b \<longleftrightarrow> identity_parts (sc_args a) = identity_parts (sc_args b)"
  using json_stringify_inj [OF assms] by (auto simp: canonicalLBRuleIdentity_def)

definition demo_rule :: "string \<Rightarrow> lb_rule" where
  "demo_rule host = \<lparr>sc_args = [(''externalIP'', JStr ''10.0.0.1''), (''port'', jint 443), (''protocol'', JStr ''TCP''), (''host'', JStr host)],
     sc_endpoints = None, sc_secondaryIPs = None, sc_allowedSources = None\<rparr>"

theorem identity_separates_witness:
  "canonicalLBRuleIdentity (demo_rule ''a'') \<noteq> canonicalLBRuleIdentity (demo_rule ''b'')"
proof -
  have "jsonable (JArr (identity_parts (sc_args (demo_rule h))))" for h
    by (simp add: demo_rule_def identity_parts_def oget_def or_default_def double_bound_def)
  then have "canonicalLBRuleIdentity (demo_rule ''a'') = canonicalLBRuleIdentity (demo_rule ''b'') \<longleftrightarrow>
      identity_parts (sc_args (demo_rule ''a'')) = identity_parts (sc_args (demo_rule ''b''))"
    by (intro identity_separates)
  then show ?thesis
    by (simp add: demo_rule_def identity_parts_def oget_def or_default_def)
qed

text \<open>A delete is addressed by its key and nothing else: whatever the values hold, the path splits
  into exactly the fixed names and the encoded values, and it holds no query of its own.\<close>

theorem delete_path_segments:
  "split_on CHR ''/'' (delete_path_part key) = delete_segments key \<and> CHR ''?'' \<notin> set (delete_path_part key)"
proof -
  have "delete_segments key \<noteq> []"
    by (simp add: delete_segments_def)
  then show ?thesis
    using split_join [of "delete_segments key" "CHR ''/''"] delete_segments_plain set_join [of "CHR ''?''" "''/''" "delete_segments key"]
    by (auto simp: delete_path_join)
qed

end
