(* ===== verification/JwtProfile.thy ===== *)
theory JwtProfile
  imports LbRules "HOL-Library.List_Lexorder" "HOL-Library.Char_ord"
begin

section \<open>JWT profiles: \<open>types/ai_jwt.ts\<close>\<close>

text \<open>
  A profile is the JSON object the gateway lists; a draft is the same object from the form. Whether
  a text is an http(s) URL is decided by the browser's URL parser, a parameter (\<open>protocol\<close>: the
  scheme of a text that parses); the order of \<open>localeCompare\<close> is a parameter as well.
  \<open>effectiveJwtProfile\<close> is the comparison of \<open>hooks/query/confirmPredicates.ts\<close>.
\<close>

definition JWT_ALG_OPTIONS :: "string list" where
  "JWT_ALG_OPTIONS = [''RS256'', ''RS384'', ''RS512'', ''ES256'', ''ES384'', ''ES512'', ''PS256'', ''PS384'', ''PS512'']"

definition DEFAULT_ALGS :: "string list" where "DEFAULT_ALGS = [''RS256'', ''ES256'']"

definition JWT_PROFILE_DEFAULTS :: jsobj where
  "JWT_PROFILE_DEFAULTS = [(''leeway_sec'', jint 30), (''refresh_sec'', jint 3600), (''tenant_claim'', JStr ''tenant_id''),
     (''user_claim'', JStr ''sub''), (''roles_claim'', JStr ''realm_access.roles''), (''model_role_prefix'', JStr ''model:''),
     (''username_claim'', JStr ''preferred_username''), (''model_authz'', JStr ''claims-required'')]"

definition JWT_PROFILE_NAME_MAX_BYTES :: nat where "JWT_PROFILE_NAME_MAX_BYTES = 63"

definition OPTIONAL_STRING_FIELDS :: "string list" where
  "OPTIONAL_STRING_FIELDS = [''jwks_url'', ''tenant_claim'', ''user_claim'', ''models_claim'', ''roles_claim'',
     ''model_role_prefix'', ''username_claim'']"

definition OPTIONAL_NUMBER_FIELDS :: "string list" where
  "OPTIONAL_NUMBER_FIELDS = [''leeway_sec'', ''refresh_sec'']"

text \<open>\<open>(v ?? '').trim()\<close>\<close>

definition trimmed_text :: "jsv \<Rightarrow> string" where
  "trimmed_text v = js_trim (str_or_empty v)"

definition put_string_field :: "string \<Rightarrow> jsobj \<Rightarrow> jsobj" where
  "put_string_field f out =
     (if trimmed_text (oget out f) = [] then AList.delete f out
      else AList.update f (JStr (trimmed_text (oget out f))) out)"

fun positive_finite :: "jsv \<Rightarrow> bool" where
  "positive_finite (JNum (Fin r)) = (r > 0)"
| "positive_finite _ = False"

definition put_number_field :: "string \<Rightarrow> jsobj \<Rightarrow> jsobj" where
  "put_number_field f out = (if positive_finite (oget out f) then out else AList.delete f out)"

definition normalizeJWTAuthProfile :: "jsobj \<Rightarrow> jsobj" where
  "normalizeJWTAuthProfile draft =
     (let named = AList.update ''issuer'' (JStr (trimmed_text (oget draft ''issuer'')))
                   (AList.update ''name'' (JStr (trimmed_text (oget draft ''name''))) draft);
          out = fold put_number_field OPTIONAL_NUMBER_FIELDS (fold put_string_field OPTIONAL_STRING_FIELDS named)
      in if oget out ''algs'' = JArr [] then AList.delete ''algs'' out else out)"

definition isHttpUrl :: "(string \<Rightarrow> string option) \<Rightarrow> string \<Rightarrow> bool" where
  "isHttpUrl protocol value =
     (case protocol value of None \<Rightarrow> False | Some scheme \<Rightarrow> scheme = ''http:'' \<or> scheme = ''https:'')"

fun string_items :: "jsv \<Rightarrow> string list" where
  "string_items (JArr vs) = map str_or_empty vs"
| "string_items _ = []"

fun negative_finite :: "jsv \<Rightarrow> bool" where
  "negative_finite (JNum (Fin r)) = (r < 0)"
| "negative_finite _ = False"

definition validateJWTAuthProfile :: "(string \<Rightarrow> string option) \<Rightarrow> jsobj \<Rightarrow> (string \<times> string) list" where
  "validateJWTAuthProfile protocol draft =
     (let name = trimmed_text (oget draft ''name''); issuer = trimmed_text (oget draft ''issuer'');
          jwks = trimmed_text (oget draft ''jwks_url'')
      in (if name = [] then [(''name'', ''Name is required.'')]
          else if byte_length name > JWT_PROFILE_NAME_MAX_BYTES
            then [(''name'', ''Name must be at most 63 bytes - an LB rule reference cannot be longer.'')] else [])
         @ (if issuer = [] then [(''issuer'', ''Issuer is required.'')]
            else if \<not> isHttpUrl protocol issuer then [(''issuer'', ''Issuer must be an http(s) URL.'')] else [])
         @ (if jwks \<noteq> [] \<and> \<not> isHttpUrl protocol jwks then [(''jwks_url'', ''JWKS URL must be an http(s) URL.'')] else [])
         @ (if filter (\<lambda>a. a \<notin> set JWT_ALG_OPTIONS) (string_items (oget draft ''algs'')) \<noteq> []
            then [(''algs'', ''Only RS, ES and PS algorithms are configurable.'')] else [])
         @ concat (map (\<lambda>f. if negative_finite (oget draft f) then [(f, ''Must be zero or greater; zero selects the default.'')] else [])
                    OPTIONAL_NUMBER_FIELDS))"

definition describeReferencingRule :: "jsobj \<Rightarrow> string" where
  "describeReferencingRule args =
     (let name = trimmed_text (oget args ''name''); vip = trimmed_text (oget args ''externalIP'')
      in if name \<noteq> [] then name
         else if vip = [] then ''(unnamed rule)'' else vip @ '':'' @ js_string (oget args ''port''))"

definition references_profile :: "string \<Rightarrow> lb_rule \<Rightarrow> bool" where
  "references_profile profile rule \<longleftrightarrow>
     requiresJwtProfile (oget (sc_args rule) ''api_key_auth'') \<and> oget (sc_args rule) ''jwt_auth_profile'' = JStr profile"

definition rulesReferencingProfile :: "(string list \<Rightarrow> string list) \<Rightarrow> lb_rule list option \<Rightarrow> string \<Rightarrow> string list" where
  "rulesReferencingProfile collate configurations profile =
     (case configurations of
        None \<Rightarrow> []
      | Some rules \<Rightarrow>
          if profile = [] then []
          else collate (map (\<lambda>r. describeReferencingRule (sc_args r)) (filter (references_profile profile) rules)))"

subsection \<open>What the gateway acts on\<close>

definition sortedList :: "jsv \<Rightarrow> string" where
  "sortedList list = json_stringify (JArr (map JStr (sort (string_items list))))"

definition text_with :: "jsv \<Rightarrow> string \<Rightarrow> string" where
  "text_with v fallback = (if trimmed_text v = [] then fallback else trimmed_text v)"

fun seconds_with :: "jsv \<Rightarrow> jsv \<Rightarrow> jsv" where
  "seconds_with (JNum n) fallback = (if num_lt (Fin 0) n then JNum n else fallback)"
| "seconds_with _ fallback = fallback"

abbreviation default_text :: "string \<Rightarrow> string" where
  "default_text f \<equiv> str_or_empty (oget JWT_PROFILE_DEFAULTS f)"

definition default_algs :: "jsv \<Rightarrow> jsv" where
  "default_algs v = (if string_items v = [] then JArr (map JStr DEFAULT_ALGS) else v)"

definition effective_parts :: "jsobj \<Rightarrow> jsv list" where
  "effective_parts p =
     [JStr (text_with (oget p ''name'') []),
      JStr (text_with (oget p ''issuer'') []),
      JStr (text_with (oget p ''jwks_url'') []),
      JStr (sortedList (oget p ''audiences'')),
      JStr (sortedList (default_algs (oget p ''algs''))),
      seconds_with (oget p ''leeway_sec'') (oget JWT_PROFILE_DEFAULTS ''leeway_sec''),
      seconds_with (oget p ''refresh_sec'') (oget JWT_PROFILE_DEFAULTS ''refresh_sec''),
      JStr (text_with (oget p ''tenant_claim'') (default_text ''tenant_claim'')),
      JStr (text_with (oget p ''user_claim'') (default_text ''user_claim'')),
      JStr (text_with (oget p ''models_claim'') []),
      JStr (text_with (oget p ''roles_claim'') (default_text ''roles_claim'')),
      JStr (text_with (oget p ''model_role_prefix'') (default_text ''model_role_prefix'')),
      JStr (text_with (oget p ''username_claim'') (default_text ''username_claim'')),
      JStr (text_with (oget p ''model_authz'') (default_text ''model_authz'')),
      or_default (oget p ''default_tenant'') (JStr []),
      JBool (oget p ''forward_identity'' = JBool True),
      JBool (oget p ''authorization_passthrough'' = JBool True),
      or_default (oget p ''priority_class'') (JStr [])]"

definition effectiveJwtProfile :: "jsobj \<Rightarrow> string" where
  "effectiveJwtProfile p = json_stringify (JArr (effective_parts p))"

subsection \<open>Facts about normalisation\<close>

lemma oget_string_fields:
  "distinct fs \<Longrightarrow> oget (fold put_string_field fs out) f =
     (if f \<in> set fs then (if trimmed_text (oget out f) = [] then JUndef else JStr (trimmed_text (oget out f))) else oget out f)"
proof (induction fs arbitrary: out)
  case (Cons g fs)
  have "oget (put_string_field g out) f =
      (if f = g then (if trimmed_text (oget out f) = [] then JUndef else JStr (trimmed_text (oget out f))) else oget out f)"
    by (auto simp: put_string_field_def)
  then show ?case
    using Cons by auto
qed simp

lemma oget_number_fields:
  "oget (fold put_number_field fs out) f = (if f \<in> set fs \<and> \<not> positive_finite (oget out f) then JUndef else oget out f)"
proof (induction fs arbitrary: out)
  case (Cons g fs)
  have "oget (put_number_field g out) f = (if f = g \<and> \<not> positive_finite (oget out f) then JUndef else oget out f)"
    by (auto simp: put_number_field_def)
  then show ?case
    using Cons by auto
qed simp

lemma normalized_get:
  "oget (normalizeJWTAuthProfile d) f =
     (if f = ''name'' \<or> f = ''issuer'' then JStr (trimmed_text (oget d f))
      else if f \<in> set OPTIONAL_STRING_FIELDS then (if trimmed_text (oget d f) = [] then JUndef else JStr (trimmed_text (oget d f)))
      else if f \<in> set OPTIONAL_NUMBER_FIELDS then (if positive_finite (oget d f) then oget d f else JUndef)
      else if f = ''algs'' \<and> oget d f = JArr [] then JUndef
      else oget d f)"
proof -
  have d: "distinct OPTIONAL_STRING_FIELDS"
    by (simp add: OPTIONAL_STRING_FIELDS_def)
  have apart: "''name'' \<notin> set OPTIONAL_STRING_FIELDS" "''issuer'' \<notin> set OPTIONAL_STRING_FIELDS" "''algs'' \<notin> set OPTIONAL_STRING_FIELDS"
    "''name'' \<notin> set OPTIONAL_NUMBER_FIELDS" "''issuer'' \<notin> set OPTIONAL_NUMBER_FIELDS" "''algs'' \<notin> set OPTIONAL_NUMBER_FIELDS"
    "set OPTIONAL_STRING_FIELDS \<inter> set OPTIONAL_NUMBER_FIELDS = {}"
    by (simp_all add: OPTIONAL_STRING_FIELDS_def OPTIONAL_NUMBER_FIELDS_def)
  define named where "named = AList.update ''issuer'' (JStr (trimmed_text (oget d ''issuer'')))
      (AList.update ''name'' (JStr (trimmed_text (oget d ''name''))) d)"
  define out where "out = fold put_number_field OPTIONAL_NUMBER_FIELDS (fold put_string_field OPTIONAL_STRING_FIELDS named)"
  have named: "oget named g = (if g = ''name'' \<or> g = ''issuer'' then JStr (trimmed_text (oget d g)) else oget d g)" for g
    by (simp add: named_def)
  have out: "oget out g = (if g \<in> set OPTIONAL_STRING_FIELDS
        then (if trimmed_text (oget named g) = [] then JUndef else JStr (trimmed_text (oget named g)))
        else if g \<in> set OPTIONAL_NUMBER_FIELDS \<and> \<not> positive_finite (oget named g) then JUndef else oget named g)" for g
    unfolding out_def oget_number_fields oget_string_fields [OF d] using apart(7) by auto
  have "normalizeJWTAuthProfile d = (if oget out ''algs'' = JArr [] then AList.delete ''algs'' out else out)"
    by (simp add: normalizeJWTAuthProfile_def named_def out_def Let_def)
  then have fin: "oget (normalizeJWTAuthProfile d) g = (if g = ''algs'' \<and> oget out g = JArr [] then JUndef else oget out g)" for g
    by auto
  consider "f = ''name''" | "f = ''issuer''" | "f = ''algs''" | "f \<noteq> ''name''" "f \<noteq> ''issuer''" "f \<noteq> ''algs''"
    by blast
  then show ?thesis
    by cases (use apart in \<open>simp_all add: fin out named\<close>)
qed

lemma default_algs_settled: "default_algs (if v = JArr [] then JUndef else v) = default_algs v"
  by (simp add: default_algs_def)

lemma trimmed_text_JStr [simp]: "trimmed_text (JStr s) = js_trim s" "trimmed_text JUndef = []"
  by (simp_all add: trimmed_text_def)

lemma trimmed_text_idem [simp]: "js_trim (trimmed_text v) = trimmed_text v"
  by (simp add: trimmed_text_def)

lemma text_with_settled:
  "text_with (if trimmed_text v = [] then JUndef else JStr (trimmed_text v)) d = text_with v d"
  "text_with (JStr (trimmed_text v)) d = text_with v d"
  by (auto simp: text_with_def)

lemma seconds_with_settled:
  "v \<noteq> JNum PosInf \<Longrightarrow> seconds_with (if positive_finite v then v else JUndef) d = seconds_with v d"
proof (cases v)
  case (JNum n)
  assume "v \<noteq> JNum PosInf"
  then show ?thesis
    using JNum by (cases n) auto
qed auto

subsection \<open>Properties\<close>

text \<open>Normalising a draft never changes what the gateway acts on: defaults left out, blanks and
  zeros mean the same profile before and after, while the audience list, the default tenant and the
  flags go through untouched.\<close>

theorem normalisation_keeps_meaning:
  assumes "oget d ''leeway_sec'' \<noteq> JNum PosInf" and "oget d ''refresh_sec'' \<noteq> JNum PosInf"
  shows "effectiveJwtProfile (normalizeJWTAuthProfile d) = effectiveJwtProfile d \<and>
         oget (normalizeJWTAuthProfile d) ''audiences'' = oget d ''audiences'' \<and>
         oget (normalizeJWTAuthProfile d) ''default_tenant'' = oget d ''default_tenant''"
proof -
  have "effective_parts (normalizeJWTAuthProfile d) = effective_parts d"
    unfolding effective_parts_def normalized_get
    by (simp add: OPTIONAL_STRING_FIELDS_def OPTIONAL_NUMBER_FIELDS_def text_with_settled seconds_with_settled assms default_algs_settled
      split del: if_split)
  then show ?thesis
    by (simp add: effectiveJwtProfile_def normalized_get OPTIONAL_STRING_FIELDS_def OPTIONAL_NUMBER_FIELDS_def)
qed

definition demo_draft :: jsobj where
  "demo_draft = [(''name'', JStr '' kc ''), (''issuer'', JStr ''https://kc''), (''leeway_sec'', jint 0), (''algs'', JArr [])]"

theorem normalisation_keeps_meaning_witness:
  "effectiveJwtProfile (normalizeJWTAuthProfile demo_draft) = effectiveJwtProfile demo_draft \<and>
   oget (normalizeJWTAuthProfile demo_draft) ''audiences'' = oget demo_draft ''audiences'' \<and>
   oget (normalizeJWTAuthProfile demo_draft) ''default_tenant'' = oget demo_draft ''default_tenant''"
  by (rule normalisation_keeps_meaning) (simp_all add: demo_draft_def oget_def)

end
