(* ===== verification/Confirm.thy ===== *)
theory Confirm
  imports OpResult Reconcile Quota JwtProfile
begin

section \<open>Did my write land: \<open>hooks/query/confirmPredicates.ts\<close>\<close>

text \<open>
  One predicate per endpoint family, of the write and the rows read back. Rows whose members the
  code reads by name are JSON objects; the quota reads are records, in which an absent and a null
  number are both \<open>None\<close> (the code reads them as \<open>?? 0\<close>) and a null model row is a row without
  members. \<open>Date.parse\<close> is written out for the ISO forms; what a browser makes of any other text is
  the parameter \<open>legacy\<close>. Each family's predicate is shown to satisfy the contract \<open>confirmation\<close>
  of the reconciler.
\<close>

subsection \<open>Rules and endpoints\<close>

definition lbRulesGone :: "lb_rule list \<Rightarrow> lb_rule list \<Rightarrow> bool" where
  "lbRulesGone deleted rows =
     (let present = map canonicalLBRuleIdentity rows
      in list_all (\<lambda>d. canonicalLBRuleIdentity d \<notin> set present) deleted)"

definition LB_DISCRIMINATORS :: "string list" where
  "LB_DISCRIMINATORS = [''name'', ''host'', ''path_prefix'', ''model_name'']"

fun nonempty_string :: "jsv \<Rightarrow> bool" where
  "nonempty_string (JStr s) = (s \<noteq> [])"
| "nonempty_string _ = False"

abbreviation or_empty :: "jsv \<Rightarrow> jsv" where
  "or_empty v \<equiv> or_default v (JStr [])"

definition lbRuleAppeared :: "lb_rule \<Rightarrow> lb_rule list \<Rightarrow> bool" where
  "lbRuleAppeared submitted rows =
     (let want = sc_args submitted; given = filter (\<lambda>f. nonempty_string (oget want f)) LB_DISCRIMINATORS
      in list_ex (\<lambda>r. let got = sc_args r in
           strict_eq (or_empty (oget got ''externalIP'')) (or_empty (oget want ''externalIP'')) \<and>
           strict_eq (oget got ''port'') (oget want ''port'') \<and>
           lower_text (oget got ''protocol'') = lower_text (oget want ''protocol'') \<and>
           list_all (\<lambda>f. strict_eq (oget got f) (oget want f)) given) rows)"

definition epIdentity :: "jsobj \<Rightarrow> string" where
  "epIdentity item = join_with ''|'' (map (\<lambda>f. js_string (or_empty (oget item f))) [''name'', ''hostName'', ''probePort'', ''probeType''])"

definition endpointsGone :: "jsobj list \<Rightarrow> jsobj list \<Rightarrow> bool" where
  "endpointsGone deleted rows =
     (let present = map epIdentity rows in list_all (\<lambda>d. epIdentity d \<notin> set present) deleted)"

definition endpointAppeared :: "string \<Rightarrow> string option \<Rightarrow> jsobj list \<Rightarrow> bool" where
  "endpointAppeared hostName name rows =
     list_ex (\<lambda>r. strict_eq (or_empty (oget r ''hostName'')) (JStr hostName) \<and>
                  (some_or [] name = [] \<or> strict_eq (oget r ''name'') (JStr (some_or [] name)))) rows"

subsection \<open>API keys\<close>

definition by_field :: "string \<Rightarrow> string \<Rightarrow> jsobj \<Rightarrow> bool" where
  "by_field f ident r \<longleftrightarrow> strict_eq (oget r f) (JStr ident)"

definition apiKeyAppeared :: "string \<Rightarrow> jsobj list \<Rightarrow> bool" where
  "apiKeyAppeared keyId rows = list_ex (by_field ''key_id'' keyId) rows"

definition apiKeysGone :: "string list \<Rightarrow> jsobj list \<Rightarrow> bool" where
  "apiKeysGone deletedKeyIds rows =
     (let present = map (\<lambda>r. oget r ''key_id'') rows in list_all (\<lambda>k. JStr k \<notin> set present) deletedKeyIds)"

text \<open>\<open>(v ?? []).join(',')\<close>\<close>

fun joined :: "jsv \<Rightarrow> string" where
  "joined (JArr vs) = join_with '','' (js_string_elems vs)"
| "joined _ = []"

record priority_fields =
  pf_class :: jsv
  pf_default :: jsv
  pf_allowed :: jsv

definition priority_of :: "jsobj \<Rightarrow> priority_fields" where
  "priority_of ob = \<lparr>pf_class = oget ob ''priority_class'', pf_default = oget ob ''default_objective'',
                     pf_allowed = oget ob ''allowed_objectives''\<rparr>"

definition samePriorityFields :: "priority_fields \<Rightarrow> priority_fields \<Rightarrow> bool" where
  "samePriorityFields asked served =
     (if pf_class asked \<noteq> JUndef \<and> \<not> strict_eq (or_empty (pf_class asked)) (or_empty (pf_class served)) then False
      else if pf_default asked \<noteq> JUndef \<and> \<not> strict_eq (or_empty (pf_default asked)) (or_empty (pf_default served)) then False
      else if pf_allowed asked \<noteq> JUndef \<and> joined (pf_allowed asked) \<noteq> joined (pf_allowed served) then False
      else True)"

text \<open>\<open>Date.parse\<close> of the ISO forms: a date, or a date and a time with \<open>Z\<close> or an offset.\<close>

fun iso_zone :: "string \<Rightarrow> int option" where
  "iso_zone z =
     (if z = ''Z'' then Some 0
      else if length z = 6 \<and> (hd z = CHR ''+'' \<or> hd z = CHR ''-'') \<and> list_all is_digit (take 2 (drop 1 z)) \<and> z ! 3 = CHR '':'' \<and>
              list_all is_digit (drop 4 z)
        then Some ((if hd z = CHR ''-'' then - 1 else 1) * (digits_val (take 2 (drop 1 z)) * 60 + digits_val (drop 4 z)) * 60000)
      else None)"

fun iso_fraction :: "string \<Rightarrow> int \<times> string" where
  "iso_fraction (CHR ''.'' # r) =
     (let (ds, z) = take_digits r in (if ds = [] then 0 else digits_val (take 3 (ds @ ''00'')), if ds = [] then CHR ''.'' # r else z))"
| "iso_fraction r = (0, r)"

definition iso_date :: "string \<Rightarrow> (string \<times> nat \<times> string) option" where
  "iso_date d =
     (if length d = 10 \<and> d ! 4 = CHR ''-'' \<and> d ! 7 = CHR ''-'' \<and> list_all is_digit (take 4 d @ take 2 (drop 5 d) @ drop 8 d) \<and>
         1 \<le> digits_val (take 2 (drop 5 d)) \<and> digits_val (take 2 (drop 5 d)) \<le> 12
      then Some (take 4 d, nat (digits_val (take 2 (drop 5 d))) - 1, drop 8 d) else None)"

text \<open>An ISO year is taken as written, also below 100.\<close>

definition iso_ms :: "string \<Rightarrow> int option" where
  "iso_ms s =
     (case iso_date (take 10 s) of
        None \<Rightarrow> None
      | Some (y, m, d) \<Rightarrow>
          (let day = digits_val d; date = (days_to_year (digits_val y) + days_to_month (digits_val y) m + day - 1) * 86400000
           in if day < 1 \<or> 31 < day then None
              else if length s = 10 then Some date
              else (let t = drop 11 s; (ms, z) = iso_fraction (drop 8 t)
                    in if 19 \<le> length s \<and> s ! 10 = CHR ''T'' \<and> t ! 2 = CHR '':'' \<and> t ! 5 = CHR '':'' \<and>
                          list_all is_digit (take 2 t @ take 2 (drop 3 t) @ take 2 (drop 6 t)) \<and>
                          digits_val (take 2 t) \<le> 23 \<and> digits_val (take 2 (drop 3 t)) \<le> 59 \<and> digits_val (take 2 (drop 6 t)) \<le> 59
                       then map_option (\<lambda>off. date + ((digits_val (take 2 t) * 60 + digits_val (take 2 (drop 3 t))) * 60
                              + digits_val (take 2 (drop 6 t))) * 1000 + ms - off) (iso_zone z)
                       else None)))"

definition date_parse :: "(string \<Rightarrow> int option) \<Rightarrow> string \<Rightarrow> int option" where
  "date_parse legacy s = (case iso_ms s of Some t \<Rightarrow> Some t | None \<Rightarrow> legacy s)"

definition apiKeyExpiry :: "(string \<Rightarrow> int option) \<Rightarrow> jsv \<Rightarrow> string option" where
  "apiKeyExpiry legacy expires_at =
     (if str_or_empty expires_at = [] then None
      else (case date_parse legacy (str_or_empty expires_at) of
              Some t \<Rightarrow> if t \<le> 0 then None else Some (str_or_empty expires_at)
            | None \<Rightarrow> Some (str_or_empty expires_at)))"

definition expirySeconds :: "(string \<Rightarrow> int option) \<Rightarrow> jsv \<Rightarrow> jsnum" where
  "expirySeconds legacy value =
     (case apiKeyExpiry legacy value of
        None \<Rightarrow> Fin 0
      | Some expiry \<Rightarrow> (case date_parse legacy expiry of None \<Rightarrow> NaN | Some t \<Rightarrow> num (t div 1000)))"

definition API_KEY_CREATE_FIELDS :: "string list" where
  "API_KEY_CREATE_FIELDS = [''tenant_id'', ''name'', ''allowed_models'', ''rate_limit_rps'', ''burst_size'', ''tokens_per_min'',
     ''expires_at'', ''enabled'', ''priority_class'', ''default_objective'', ''allowed_objectives'']"

definition create_field_same :: "(string \<Rightarrow> int option) \<Rightarrow> jsobj \<Rightarrow> jsobj \<Rightarrow> string \<Rightarrow> bool" where
  "create_field_same legacy asked served f =
     (if f \<in> {''allowed_models'', ''allowed_objectives''} then joined (oget asked f) = joined (oget served f)
      else if f \<in> {''rate_limit_rps'', ''burst_size'', ''tokens_per_min''}
        then strict_eq (or_default (oget asked f) (jint 0)) (or_default (oget served f) (jint 0))
      else if f = ''expires_at'' then num_eq (expirySeconds legacy (oget asked f)) (expirySeconds legacy (oget served f))
      else if f = ''enabled'' then strict_eq (or_default (oget asked f) (JBool True)) (JBool (oget served f \<noteq> JBool False))
      else strict_eq (or_empty (oget asked f)) (or_empty (oget served f)))"

definition apiKeyCreateDiff :: "(string \<Rightarrow> int option) \<Rightarrow> jsobj \<Rightarrow> jsobj \<Rightarrow> string list" where
  "apiKeyCreateDiff legacy asked served =
     filter (\<lambda>f. \<not> create_field_same legacy asked served f) API_KEY_CREATE_FIELDS"

definition count_matches :: "jsnum option \<Rightarrow> jsv \<Rightarrow> bool" where
  "count_matches asked served = (case asked of None \<Rightarrow> True | Some n \<Rightarrow> strict_eq (JNum n) (or_default served (jint 0)))"

definition opt_str :: "string option \<Rightarrow> jsv" where
  "opt_str v = (case v of None \<Rightarrow> JUndef | Some s \<Rightarrow> JStr s)"

definition patch_priority :: "key_patch \<Rightarrow> priority_fields" where
  "patch_priority p = \<lparr>pf_class = opt_str (kp_priority_class p), pf_default = opt_str (kp_default_objective p),
     pf_allowed = (case kp_allowed_objectives p of None \<Rightarrow> JUndef | Some names \<Rightarrow> JArr (map JStr names))\<rparr>"

definition apiKeyPatchApplied :: "string \<Rightarrow> key_patch \<Rightarrow> jsobj list \<Rightarrow> bool" where
  "apiKeyPatchApplied keyId patch rows =
     (case find (by_field ''key_id'' keyId) rows of
        None \<Rightarrow> False
      | Some row \<Rightarrow>
          if \<not> count_matches (kp_rps patch) (oget row ''rate_limit_rps'') then False
          else if \<not> count_matches (kp_burst patch) (oget row ''burst_size'') then False
          else if \<not> count_matches (kp_tpm patch) (oget row ''tokens_per_min'') then False
          else if kp_enabled patch \<noteq> None \<and> kp_enabled patch \<noteq> Some (oget row ''enabled'' \<noteq> JBool False) then False
          else if kp_models patch \<noteq> None \<and> join_with '','' (some_or [] (kp_models patch)) \<noteq> joined (oget row ''allowed_models'') then False
          else samePriorityFields (patch_priority patch) (priority_of row))"

subsection \<open>Quotas\<close>

definition sameCount :: "jsnum option \<Rightarrow> jsnum option \<Rightarrow> bool" where
  "sameCount asked served = num_eq (zero_or asked) (zero_or served)"

record served_limit =
  sv_tenant :: "string option"
  sv_user :: "string option"
  sv_rps :: "jsnum option"
  sv_tpm :: "jsnum option"
  sv_burst :: "jsnum option"
  sv_models :: "model_limit list"
  sv_priority :: priority_fields

text \<open>The entries of \<open>modelQuotas\<close>.\<close>

definition quota_entries :: "model_limit list \<Rightarrow> bool \<Rightarrow> (string \<times> jsnum) list" where
  "quota_entries rows keepRemovals =
     concat (map (\<lambda>m. case modelQuotas rows keepRemovals m of None \<Rightarrow> [] | Some v \<Rightarrow> [(m, v)]) (remdups (map limit_name rows)))"

definition tenantRateLimitApplied :: "tenant_mod \<Rightarrow> served_limit option \<Rightarrow> bool" where
  "tenantRateLimitApplied submitted served =
     (let want = normalizeTenantRateLimit submitted
      in case served of
           None \<Rightarrow> False
         | Some s \<Rightarrow>
             if sv_tenant s \<noteq> Some (tm_tenant want) then False
             else if \<not> sameCount (tm_rps want) (sv_rps s) then False
             else if \<not> sameCount (tm_tpm want) (sv_tpm s) then False
             else if \<not> sameCount (tm_burst want) (sv_burst s) then False
             else if \<not> samePriorityFields \<lparr>pf_class = tm_priority_class submitted, pf_default = tm_default_objective submitted,
                          pf_allowed = tm_allowed_objectives submitted\<rparr> (sv_priority s) then False
             else list_all (\<lambda>(model, asked). num_eq (zero_or (modelQuotas (sv_models s) False model)) asked)
                    (quota_entries (some_or [] (tm_models want)) True))"

definition userRateLimitApplied :: "user_mod \<Rightarrow> served_limit option \<Rightarrow> bool" where
  "userRateLimitApplied submitted served =
     (let want = normalizeUserRateLimit submitted
      in case served of
           None \<Rightarrow> False
         | Some s \<Rightarrow>
             if sv_user s \<noteq> um_user want \<or> sv_tenant s \<noteq> um_tenant want then False
             else if \<not> sameCount (um_rps want) (sv_rps s) then False
             else if \<not> sameCount (um_burst want) (sv_burst s) then False
             else if \<not> sameCount (um_tpm want) (sv_tpm s) then False
             else (let asked = quota_entries (some_or [] (um_models want)) False
                   in length asked = length (quota_entries (sv_models s) False) \<and>
                      list_all (\<lambda>(model, tpm). modelQuotas (sv_models s) False model = Some tpm) asked))"

definition userRateLimitGone :: "string \<Rightarrow> jsobj list \<Rightarrow> bool" where
  "userRateLimitGone userId rows = (\<not> list_ex (by_field ''user_id'' userId) rows)"

definition sameDefaultsRow :: "string \<Rightarrow> string option \<Rightarrow> jsobj \<Rightarrow> bool" where
  "sameDefaultsRow scope ruleIdent row \<longleftrightarrow>
     strict_eq (oget row ''scope'') (JStr scope) \<and> strict_eq (or_empty (oget row ''rule_ident'')) (JStr (some_or [] ruleIdent))"

fun scope_str :: "defaults_scope \<Rightarrow> string" where
  "scope_str GlobalScope = ''global''"
| "scope_str RuleScope = ''rule''"
| "scope_str (OtherScope s) = s"

definition rateLimitDefaultsApplied :: "defaults_mod \<Rightarrow> jsobj list \<Rightarrow> bool" where
  "rateLimitDefaultsApplied d rows =
     (case find (sameDefaultsRow (scope_str (dm_scope d)) (dm_rule d)) rows of
        None \<Rightarrow> False
      | Some row \<Rightarrow> list_all (\<lambda>(f, asked). strict_eq (JNum (zero_or asked)) (or_default (oget row f) (jint 0))) (default_limits d))"

definition rateLimitDefaultsGone :: "string \<Rightarrow> string option \<Rightarrow> jsobj list \<Rightarrow> bool" where
  "rateLimitDefaultsGone scope ruleIdent rows = (\<not> list_ex (sameDefaultsRow scope ruleIdent) rows)"

subsection \<open>Profiles and objectives\<close>

definition jwtProfileApplied :: "jsobj \<Rightarrow> jsobj list \<Rightarrow> bool" where
  "jwtProfileApplied submitted rows =
     (case find (by_field ''name'' (trimmed_text (oget submitted ''name''))) rows of
        None \<Rightarrow> False
      | Some row \<Rightarrow> effectiveJwtProfile row = effectiveJwtProfile submitted)"

definition jwtProfileGone :: "string \<Rightarrow> jsobj list \<Rightarrow> bool" where
  "jwtProfileGone name rows = (\<not> list_ex (by_field ''name'' name) rows)"

definition sameServiceSet :: "jsv \<Rightarrow> jsv \<Rightarrow> bool" where
  "sameServiceSet asked served \<longleftrightarrow> sortedList asked = sortedList served"

definition objectiveApplied :: "jsobj \<Rightarrow> jsobj list \<Rightarrow> bool" where
  "objectiveApplied submitted rows =
     (case find (\<lambda>r. strict_eq (oget r ''name'') (oget submitted ''name'')) rows of
        None \<Rightarrow> False
      | Some row \<Rightarrow> strict_eq (or_default (oget row ''priority'') (jint 0)) (or_default (oget submitted ''priority'') (jint 0)) \<and>
                    sameServiceSet (oget submitted ''services'') (oget row ''services''))"

definition objectiveGone :: "string \<Rightarrow> jsobj list \<Rightarrow> bool" where
  "objectiveGone name rows = (\<not> list_ex (by_field ''name'' name) rows)"

subsection \<open>Facts about quotas read back\<close>

lemma quota_entries_all:
  "list_all (\<lambda>(m, v). P m v) (quota_entries rows k) \<longleftrightarrow> (\<forall>m v. modelQuotas rows k m = Some v \<longrightarrow> P m v)"
proof -
  have "m \<in> limit_name ` set rows" if "modelQuotas rows k m = Some v" for m v
    using that by (auto simp: modelQuotas_def upsert_at rows_named_Nil split: if_splits)
  then show ?thesis
    by (fastforce simp: quota_entries_def list_all_iff split: option.splits)
qed

lemma quota_entries_map: "set (quota_entries rows k) = {(m, v). modelQuotas rows k m = Some v}"
  using quota_entries_all [of "\<lambda>m v. (m, v) \<in> set (quota_entries rows k)" rows k]
  by (auto simp: list_all_iff quota_entries_def split: option.splits)

lemma quota_entries_fst: "map fst (quota_entries rows k) = filter (\<lambda>m. modelQuotas rows k m \<noteq> None) (remdups (map limit_name rows))"
proof -
  have "map fst (concat (map (\<lambda>m. case f m of None \<Rightarrow> [] | Some v \<Rightarrow> [(m, v)]) ms)) = filter (\<lambda>m. f m \<noteq> None) ms"
    for f :: "string \<Rightarrow> jsnum option" and ms
    by (induction ms) (auto split: option.splits)
  then show ?thesis
    by (simp add: quota_entries_def)
qed

lemma quota_entries_length: "length (quota_entries rows k) = card (dom (modelQuotas rows k))"
proof -
  have "distinct (map fst (quota_entries rows k))"
    by (simp add: quota_entries_fst)
  moreover have "set (map fst (quota_entries rows k)) = dom (modelQuotas rows k)"
    by (force simp: quota_entries_map)
  ultimately show ?thesis
    by (metis distinct_card length_map)
qed

lemma modelQuotas_positive: "modelQuotas rows False m = Some v \<Longrightarrow> num_lt (Fin 0) v"
  by (auto simp: modelQuotas_def upsert_at settled_quota_def split: if_splits)

lemma positive_not_zero: "num_lt (Fin 0) v \<Longrightarrow> v \<noteq> Fin 0 \<and> v \<noteq> NaN"
  by (cases v) auto

text \<open>One model of a tenant's read agrees with what was asked exactly when asking again changes nothing.\<close>

lemma settled_agrees:
  assumes "\<And>v. held = Some v \<Longrightarrow> num_lt (Fin 0) v"
  shows "(case settled_quota True row of None \<Rightarrow> True | Some asked \<Rightarrow> num_eq (zero_or held) asked) \<longleftrightarrow> settled_quota False row = held"
  using assms by (cases held) (auto simp: settled_quota_def num_eq_def dest: positive_not_zero)

lemma asked_iff:
  "modelQuotas rows True m = Some v \<longleftrightarrow> m \<noteq> [] \<and> rows_named m rows \<noteq> [] \<and> settled_quota True (last (rows_named m rows)) = Some v"
  by (auto simp: modelQuotas_def upsert_at)

lemma tenant_models_agree:
  "list_all (\<lambda>(model, asked). num_eq (zero_or (modelQuotas held False model)) asked) (quota_entries rows True) \<longleftrightarrow>
   upsert_quotas False (modelQuotas held False) rows = modelQuotas held False"
proof -
  have *: "(\<forall>v. modelQuotas rows True m = Some v \<longrightarrow> num_eq (zero_or (modelQuotas held False m)) v) \<longleftrightarrow>
        upsert_quotas False (modelQuotas held False) rows m = modelQuotas held False m" for m
  proof (cases "m = [] \<or> rows_named m rows = []")
    case False
    obtain a where a: "settled_quota True (last (rows_named m rows)) = Some a"
      unfolding settled_quota_def by (metis (full_types))
    have "num_eq (zero_or (modelQuotas held False m)) a \<longleftrightarrow> settled_quota False (last (rows_named m rows)) = modelQuotas held False m"
      using settled_agrees [of "modelQuotas held False m" "last (rows_named m rows)"] modelQuotas_positive [of held m] a by simp
    then show ?thesis
      using False a by (auto simp: asked_iff upsert_at)
  qed (auto simp: asked_iff upsert_at)
  show ?thesis
    unfolding quota_entries_all fun_eq_iff using * by blast
qed

lemma user_models_agree:
  "(length (quota_entries rows False) = length (quota_entries held False) \<and>
    list_all (\<lambda>(m, v). modelQuotas held False m = Some v) (quota_entries rows False)) \<longleftrightarrow>
   modelQuotas rows False = modelQuotas held False"
proof
  assume *: "length (quota_entries rows False) = length (quota_entries held False) \<and>
    list_all (\<lambda>(m, v). modelQuotas held False m = Some v) (quota_entries rows False)"
  then have sub: "modelQuotas rows False \<subseteq>\<^sub>m modelQuotas held False"
    unfolding quota_entries_all by (fastforce simp: map_le_def)
  have "finite (dom (modelQuotas held False))"
    by (rule finite_subset [of _ "limit_name ` set held"]) (auto simp: modelQuotas_def upsert_at rows_named_Nil split: if_splits)
  then have "dom (modelQuotas rows False) = dom (modelQuotas held False)"
    using * sub by (auto simp: quota_entries_length map_le_implies_dom_le card_subset_eq)
  with sub show "modelQuotas rows False = modelQuotas held False"
    by (intro map_le_antisym) (simp_all add: map_le_def)
next
  assume eq: "modelQuotas rows False = modelQuotas held False"
  then show "length (quota_entries rows False) = length (quota_entries held False) \<and>
    list_all (\<lambda>(m, v). modelQuotas held False m = Some v) (quota_entries rows False)"
    unfolding quota_entries_all quota_entries_length by simp
qed

subsection \<open>The families keep the reconciler's contract\<close>

definition rules_absent :: "lb_rule list \<Rightarrow> lb_rule list \<Rightarrow> bool" where
  "rules_absent deleted rows \<longleftrightarrow> (\<forall>d\<in>set deleted. \<forall>r\<in>set rows. identity_parts (sc_args r) \<noteq> identity_parts (sc_args d))"

definition id_absent :: "string \<Rightarrow> string \<Rightarrow> jsobj list \<Rightarrow> bool" where
  "id_absent f ident rows \<longleftrightarrow> (\<forall>r\<in>set rows. oget r f \<noteq> JStr ident)"

text \<open>What a landed upsert leaves: every count as sent, and upserting the same rows again changes nothing.\<close>

definition tenant_landed :: "tenant_mod \<Rightarrow> served_limit option \<Rightarrow> bool" where
  "tenant_landed submitted served \<longleftrightarrow>
     (\<exists>s. served = Some s \<and> sv_tenant s = Some (js_trim (tm_tenant submitted)) \<and>
        sameCount (tm_rps submitted) (sv_rps s) \<and> sameCount (tm_tpm submitted) (sv_tpm s) \<and> sameCount (tm_burst submitted) (sv_burst s) \<and>
        upsert_quotas False (modelQuotas (sv_models s) False) (some_or [] (tm_models (normalizeTenantRateLimit submitted)))
          = modelQuotas (sv_models s) False)"

definition user_landed :: "user_mod \<Rightarrow> served_limit option \<Rightarrow> bool" where
  "user_landed submitted served \<longleftrightarrow>
     (\<exists>s. served = Some s \<and> sv_user s = Some (js_trim (some_or [] (um_user submitted))) \<and>
        sv_tenant s = Some (js_trim (some_or [] (um_tenant submitted))) \<and>
        sameCount (um_rps submitted) (sv_rps s) \<and> sameCount (um_burst submitted) (sv_burst s) \<and> sameCount (um_tpm submitted) (sv_tpm s) \<and>
        modelQuotas (some_or [] (um_models (normalizeUserRateLimit submitted))) False = modelQuotas (sv_models s) False)"

lemma tenant_applied:
  "tenantRateLimitApplied submitted served \<longleftrightarrow> tenant_landed submitted served \<and>
     (case served of None \<Rightarrow> False | Some s \<Rightarrow>
        samePriorityFields \<lparr>pf_class = tm_priority_class submitted, pf_default = tm_default_objective submitted,
          pf_allowed = tm_allowed_objectives submitted\<rparr> (sv_priority s))"
  by (cases served)
     (auto simp: tenantRateLimitApplied_def tenant_landed_def tenant_models_agree normalizeTenantRateLimit_def Let_def)

lemma user_applied: "userRateLimitApplied submitted served \<longleftrightarrow> user_landed submitted served"
proof -
  have "um_user (normalizeUserRateLimit submitted) = Some (js_trim (some_or [] (um_user submitted)))"
    "um_tenant (normalizeUserRateLimit submitted) = Some (js_trim (some_or [] (um_tenant submitted)))"
    "um_rps (normalizeUserRateLimit submitted) = um_rps submitted" "um_burst (normalizeUserRateLimit submitted) = um_burst submitted"
    "um_tpm (normalizeUserRateLimit submitted) = um_tpm submitted"
    by (simp_all add: normalizeUserRateLimit_def)
  then show ?thesis
    by (cases served) (auto simp: userRateLimitApplied_def user_landed_def user_models_agree Let_def)
qed

lemma gone_absent: "\<not> list_ex (by_field f ident) rows \<Longrightarrow> id_absent f ident rows"
  by (auto simp: id_absent_def by_field_def list_ex_iff)

lemma same_parts_same_identity: "identity_parts (sc_args r) = identity_parts (sc_args d) \<Longrightarrow> canonicalLBRuleIdentity r = canonicalLBRuleIdentity d"
  by (simp only: canonicalLBRuleIdentity_def)

interpretation lb_gone: confirmation lbRulesGone rules_absent
proof
  fix deleted rows
  assume "lbRulesGone deleted rows"
  then have "canonicalLBRuleIdentity r \<noteq> canonicalLBRuleIdentity d" if "d \<in> set deleted" "r \<in> set rows" for d r
    using that unfolding lbRulesGone_def Let_def list_all_iff by (metis image_eqI set_map)
  then show "rules_absent deleted rows"
    unfolding rules_absent_def using same_parts_same_identity by blast
qed

interpretation user_gone: confirmation userRateLimitGone "id_absent ''user_id''"
  by unfold_locales (auto simp: userRateLimitGone_def gone_absent)

interpretation profile_gone: confirmation jwtProfileGone "id_absent ''name''"
  by unfold_locales (auto simp: jwtProfileGone_def gone_absent)

interpretation objective_gone: confirmation objectiveGone "id_absent ''name''"
  by unfold_locales (auto simp: objectiveGone_def gone_absent)

interpretation keys_gone: confirmation apiKeysGone "\<lambda>ids rows. \<forall>k\<in>set ids. id_absent ''key_id'' k rows"
  by unfold_locales (force simp: apiKeysGone_def id_absent_def list_all_iff)

interpretation tenant_put: confirmation tenantRateLimitApplied tenant_landed
  by unfold_locales (simp add: tenant_applied)

interpretation user_put: confirmation userRateLimitApplied user_landed
  by unfold_locales (simp add: user_applied)

text \<open>Two different endpoints can share an identity, and a comma in a model name is not told from two names.\<close>

lemma epIdentity_collides:
  "epIdentity [(''name'', JStr ''a|b''), (''hostName'', JStr ''c'')] = epIdentity [(''name'', JStr ''a''), (''hostName'', JStr ''b|c'')]"
  by (simp add: epIdentity_def oget_def or_default_def)

subsection \<open>Properties\<close>

text \<open>C24. A delete is confirmed only by its absence: when the poll after deleting load-balancer rules
  ends confirmed, the last list read holds no rule with the full identity of a deleted one.\<close>

theorem confirmed_delete:
  assumes "ch_phase (chain_run (new_chain \<lparr>rs_confirm = Some (lbRulesGone deleted), rs_intervals = ds\<rparr>) evs) = Settled RConfirmed"
  shows "\<exists>rows. last (ch_reads (chain_run (new_chain \<lparr>rs_confirm = Some (lbRulesGone deleted), rs_intervals = ds\<rparr>) evs)) = Some rows \<and>
           (\<forall>d\<in>set deleted. \<forall>r\<in>set rows. identity_parts (sc_args r) \<noteq> identity_parts (sc_args d))"
  using lb_gone.confirmed_landed [OF assms] unfolding rules_absent_def .

theorem confirmed_delete_witness:
  "\<exists>rows. last (ch_reads (chain_run (new_chain \<lparr>rs_confirm = Some (lbRulesGone [demo_rule ''a'']), rs_intervals = Some []\<rparr>)
             [Answer (Some [])])) = Some rows \<and>
     (\<forall>d\<in>set [demo_rule ''a'']. \<forall>r\<in>set rows. identity_parts (sc_args r) \<noteq> identity_parts (sc_args d))"
  by (rule confirmed_delete)
     (simp add: chain_run_def new_chain_def read_done_def after_read_def intervals_of_def lbRulesGone_def)

text \<open>A tenant upsert is confirmed exactly when the tenant's own read has the three replaced counts
  as sent (absent is zero), agrees on every priority field that was sent, and would be left unchanged
  by upserting the same model rows again.\<close>

theorem tenant_upsert_applied_iff:
  "tenantRateLimitApplied submitted served \<longleftrightarrow>
     (\<exists>s. served = Some s \<and> sv_tenant s = Some (js_trim (tm_tenant submitted)) \<and>
        sameCount (tm_rps submitted) (sv_rps s) \<and> sameCount (tm_tpm submitted) (sv_tpm s) \<and> sameCount (tm_burst submitted) (sv_burst s) \<and>
        samePriorityFields \<lparr>pf_class = tm_priority_class submitted, pf_default = tm_default_objective submitted,
          pf_allowed = tm_allowed_objectives submitted\<rparr> (sv_priority s) \<and>
        upsert_quotas False (modelQuotas (sv_models s) False) (some_or [] (tm_models (normalizeTenantRateLimit submitted)))
          = modelQuotas (sv_models s) False)"
  by (cases served) (auto simp: tenant_applied tenant_landed_def)

text \<open>A user upsert replaces: when the poll after it ends confirmed, the last read is the user's own
  entry, every count is as sent, and the model quotas are exactly those sent, in any order.\<close>

theorem confirmed_user_upsert:
  assumes "ch_phase (chain_run (new_chain \<lparr>rs_confirm = Some (userRateLimitApplied submitted), rs_intervals = ds\<rparr>) evs) = Settled RConfirmed"
  shows "\<exists>s. last (ch_reads (chain_run (new_chain \<lparr>rs_confirm = Some (userRateLimitApplied submitted), rs_intervals = ds\<rparr>) evs)) = Some (Some s) \<and>
           sv_user s = Some (js_trim (some_or [] (um_user submitted))) \<and>
           sameCount (um_rps submitted) (sv_rps s) \<and> sameCount (um_burst submitted) (sv_burst s) \<and> sameCount (um_tpm submitted) (sv_tpm s) \<and>
           modelQuotas (sv_models s) False = modelQuotas (some_or [] (um_models (normalizeUserRateLimit submitted))) False"
  using user_put.confirmed_landed [OF assms] unfolding user_landed_def by force

definition demo_user :: user_mod where
  "demo_user = \<lparr>um_tenant = Some ''t'', um_user = Some ''u'', um_rps = Some (Fin 5), um_burst = None, um_tpm = None,
     um_models = Some [\<lparr>ml_model = Some ''gpt'', ml_tpm = Some (Fin 9)\<rparr>]\<rparr>"

definition demo_served :: served_limit where
  "demo_served = \<lparr>sv_tenant = Some ''t'', sv_user = Some ''u'', sv_rps = Some (Fin 5), sv_tpm = None, sv_burst = Some (Fin 0),
     sv_models = [\<lparr>ml_model = Some ''gpt'', ml_tpm = Some (Fin 9)\<rparr>],
     sv_priority = \<lparr>pf_class = JUndef, pf_default = JUndef, pf_allowed = JUndef\<rparr>\<rparr>"

theorem confirmed_user_upsert_witness:
  "\<exists>s. last (ch_reads (chain_run (new_chain \<lparr>rs_confirm = Some (userRateLimitApplied demo_user), rs_intervals = Some []\<rparr>)
             [Answer (Some (Some demo_served))])) = Some (Some s) \<and> sv_user s = Some ''u''"
proof -
  have "userRateLimitApplied demo_user (Some demo_served)"
    by code_simp
  then have "ch_phase (chain_run (new_chain \<lparr>rs_confirm = Some (userRateLimitApplied demo_user), rs_intervals = Some []\<rparr>)
      [Answer (Some (Some demo_served))]) = Settled RConfirmed"
    by (simp add: chain_run_def new_chain_def read_done_def after_read_def intervals_of_def)
  moreover have "js_trim (some_or [] (um_user demo_user)) = ''u''"
    by code_simp
  ultimately show ?thesis
    using confirmed_user_upsert [of demo_user "Some []" "[Answer (Some (Some demo_served))]"] by auto
qed

end
