(* ===== verification/JsText.thy ===== *)
theory JsText
  imports Json JsWord
begin

section \<open>Reading numbers and addresses from text\<close>

text \<open>
  What \<open>Number(text)\<close> gives on digit strings, shared by the components that read numbers, addresses
  and label values out of text.
\<close>

lemma digit_not_space: "is_digit c \<Longrightarrow> \<not> is_space c"
  by (auto simp: is_digit_def is_space_def)

lemma trim_plain: "\<forall>c\<in>set s. \<not> is_space c \<Longrightarrow> js_trim s = s"
proof -
  assume s: "\<forall>c\<in>set s. \<not> is_space c"
  then have "dropWhile is_space s = s" "dropWhile is_space (rev s) = rev s"
    by (cases s; simp) (cases "rev s"; simp; metis in_set_conv_decomp list.set_intros(1) s set_rev)
  then show ?thesis by (simp add: js_trim_def)
qed

lemma all_digitsD: "all_digits s \<Longrightarrow> c \<in> set s \<Longrightarrow> is_digit c"
  by (simp add: all_digits_def list_all_iff)

lemma all_digits_nonneg: "all_digits s \<Longrightarrow> 0 \<le> digits_val s"
proof -
  have "list_all is_digit s \<Longrightarrow> 0 \<le> n \<Longrightarrow> 0 \<le> foldl (\<lambda>n c. 10 * n + digit_val c) n s" for n
    by (induction s arbitrary: n) (auto simp: is_digit_def digit_val_def)
  then show "all_digits s \<Longrightarrow> 0 \<le> digits_val s"
    by (simp add: all_digits_def digits_val_def)
qed

lemma decimal_literal_digits:
  assumes "all_digits s"
  shows "decimal_literal False s = to_double (of_int (digits_val s))"
proof -
  have "take_digits s = (s, [])"
    using assms by (simp add: take_digits_def all_digits_def list_all_iff takeWhile_eq_all_conv dropWhile_eq_Nil_conv)
  then show ?thesis
    using assms by (simp add: decimal_literal_def exponent_part_def decimal_value_def pow10_def all_digits_def)
qed

lemma js_number_all_digits:
  assumes s: "all_digits s"
  shows "js_number s = to_double (of_int (digits_val s))"
proof -
  have d: "is_digit c" if "c \<in> set s" for c
    using s that by (rule all_digitsD)
  have nd: "\<not> is_digit CHR ''-''" "\<not> is_digit CHR ''+''" "\<not> is_digit CHR ''I''" "\<not> is_digit CHR ''x''" "\<not> is_digit CHR ''X''"
    "\<not> is_digit CHR ''o''" "\<not> is_digit CHR ''O''" "\<not> is_digit CHR ''b''" "\<not> is_digit CHR ''B''"
    by (simp_all add: is_digit_def)
  have ne: "s \<noteq> []"
    using s by (simp add: all_digits_def)
  have t: "js_trim s = s"
    by (rule trim_plain) (use d digit_not_space in blast)
  have h: "hd s \<noteq> CHR ''-''" "hd s \<noteq> CHR ''+''"
    using ne d nd hd_in_set by metis+
  have i: "s \<noteq> ''Infinity''"
    using d nd by auto
  have p: "\<not> starts_with s (CHR ''0'' # [c])" if "\<not> is_digit c" for c
    using that d by (auto simp: starts_with_iff)
  show ?thesis
    by (simp add: js_number_def t ne h i p nd Let_def decimal_literal_digits [OF s])
qed

lemma js_number_digits:
  assumes "all_digits s" "digits_val s < 9007199254740992"
  shows "js_number s = Fin (of_int (digits_val s))"
proof -
  have "\<bar>of_int (digits_val s)\<bar> < (9007199254740992 :: rat)"
    using assms all_digits_nonneg [of s] by simp
  then show ?thesis
    using assms(1) by (simp add: js_number_all_digits to_double_code)
qed

end
