(* ===== verification/AiGateway.thy ===== *)
theory AiGateway
  imports LbRules JsText
begin

section \<open>The AI options of a rule: \<open>types/ai_gateway.ts\<close>\<close>

text \<open>
  Validation and serialisation of the AI service arguments, the admission (\<open>fc_*\<close>) fields, the
  binding of model profiles, and the readiness of KV-exact enforcement. Arguments, endpoints,
  profiles and status entries are JSON objects read by name. An engine outside the four of the type
  is outside the model. A draft's text stands for itself: \<open>Number(v)\<close> is \<open>to_number\<close>.
\<close>

type_synonym ai_issue = "string \<times> string"

definition to_number :: "jsv \<Rightarrow> jsnum" where
  "to_number v = (case v of JNum n \<Rightarrow> n | JStr s \<Rightarrow> js_number s | JBool b \<Rightarrow> (if b then Fin 1 else Fin 0) | JNull \<Rightarrow> Fin 0
     | JArr _ \<Rightarrow> js_number (js_string v) | _ \<Rightarrow> NaN)"

definition AI_ENGINES :: "string list" where
  "AI_ENGINES = [''vllm'', ''sglang'', ''trtllm'', ''llamacpp'']"

definition HASHES_BY_ENGINE :: "(string \<times> string list) list" where
  "HASHES_BY_ENGINE = [(''vllm'', [''sha256_cbor'', ''xxhash_cbor'']), (''sglang'', [''sha256_sglang'']),
     (''trtllm'', [''blockhash_trtllm'']), (''llamacpp'', [])]"

definition AI_HASH_ALGORITHMS :: "string list" where
  "AI_HASH_ALGORITHMS = [''sha256_cbor'', ''xxhash_cbor'', ''sha256_sglang'', ''blockhash_trtllm'']"

subsection \<open>Admission fields\<close>

definition FC_NUMERIC_MAX :: "(string \<times> int) list" where
  "FC_NUMERIC_MAX = [(''fc_max_outstanding'', 100000), (''fc_ep_max_inflight'', 100000), (''fc_prefill_max_inflight'', 100000),
     (''fc_decode_max_inflight'', 100000), (''fc_max_queue_depth'', 65536), (''fc_max_queue_wait_ms'', 3600000),
     (''fc_telemetry_stale_ms'', 3600000), (''fc_warmup_ms'', 3600000), (''fc_ttft_target_ms'', 3600000), (''fc_tenant_max_share_pct'', 100)]"

definition FC_NUMERIC_FIELDS :: "string list" where "FC_NUMERIC_FIELDS = map fst FC_NUMERIC_MAX"
definition FC_MODES :: "string list" where "FC_MODES = [''off'', ''observe'', ''enforce'', ''inherit'']"
definition FC_ADAPTIVE :: "string list" where "FC_ADAPTIVE = [''on'', ''off'', ''inherit'']"

definition FC_CLI_ONLY_FIELDS :: "string list" where
  "FC_CLI_ONLY_FIELDS = [''fc_wake_policy'', ''fc_band_weights'', ''fc_band_min_share_pct'', ''fc_band_queue_pct'', ''fc_band_wait_ms'',
     ''fc_critical_reserve_pct'', ''fc_shed_queue'', ''fc_tenant_wake'', ''fc_llmd_headers'']"

definition AI_ADMISSION_FIELDS :: "string list" where
  "AI_ADMISSION_FIELDS = [''ai_default_reservation'', ''ai_default_max_tokens'', ''ai_objective_strict'']"

definition CLI_ONLY_SERVICE_ARGUMENTS :: "string list" where
  "CLI_ONLY_SERVICE_ARGUMENTS = FC_CLI_ONLY_FIELDS @ AI_ADMISSION_FIELDS"

definition FC_EDITABLE_FIELDS :: "string list" where
  "FC_EDITABLE_FIELDS = [''fc_mode'', ''fc_adaptive'', ''fc_expose_headers''] @ FC_NUMERIC_FIELDS"

definition FC_FIELDS :: "string list" where "FC_FIELDS = FC_EDITABLE_FIELDS @ FC_CLI_ONLY_FIELDS"

definition isCliOnlyServiceArgument :: "string \<Rightarrow> bool" where
  "isCliOnlyServiceArgument field \<longleftrightarrow> field \<in> set CLI_ONLY_SERVICE_ARGUMENTS"

definition declared_in :: "jsobj option \<Rightarrow> string \<Rightarrow> bool" where
  "declared_in params field = (case params of None \<Rightarrow> False | Some ps \<Rightarrow> oget ps field \<noteq> JUndef)"

definition declaredFcFields :: "jsobj option \<Rightarrow> string list" where
  "declaredFcFields params = filter (declared_in params) FC_EDITABLE_FIELDS"

definition FC_PD_ONLY_FIELDS :: "string list" where
  "FC_PD_ONLY_FIELDS = [''fc_prefill_max_inflight'', ''fc_decode_max_inflight'', ''fc_telemetry_stale_ms'']"

definition READ_ONLY_SERVICE_ARGUMENTS :: "string list" where
  "READ_ONLY_SERVICE_ARGUMENTS = [''fc_effective'', ''half_close_effective'', ''backend_tls_effective'']"

definition isAIService :: "jsobj \<Rightarrow> bool" where
  "isAIService args =
     (if oget args ''mode'' \<noteq> jint 4 then False
      else truthy (oget args ''sse_mode'') \<or> truthy (oget args ''pd_disagg_mode'') \<or>
           (truthy (oget args ''api_key_auth'') \<and> oget args ''api_key_auth'' \<noteq> JStr ''disabled''))"

definition isChwblSelector :: "jsv \<Rightarrow> bool" where
  "isChwblSelector sel \<longleftrightarrow> sel = jint 8 \<or> sel = jint 10"

definition CHWBL_TUNING_FIELDS :: "string list" where
  "CHWBL_TUNING_FIELDS = [''chwbl_mean_load_factor'', ''chwbl_replication'', ''chwbl_enable_cache_salt'']"

definition declaredChwblTuningFields :: "jsobj option \<Rightarrow> string list" where
  "declaredChwblTuningFields params = filter (declared_in params) CHWBL_TUNING_FIELDS"

text \<open>The pattern of three groups of digits between colons.\<close>

definition is_band_triple :: "string \<Rightarrow> bool" where
  "is_band_triple s \<longleftrightarrow> length (split_on CHR '':'' s) = 3 \<and> list_all all_digits (split_on CHR '':'' s)"

fun isResetBandTriple :: "jsv \<Rightarrow> bool" where
  "isResetBandTriple (JStr s) = (is_band_triple s \<and> list_all (\<lambda>p. js_number p = Fin 0) (split_on CHR '':'' s))"
| "isResetBandTriple _ = False"

definition canonicalBandTriple :: "jsv \<Rightarrow> string option" where
  "canonicalBandTriple value =
     (if nullish value \<or> value = JStr [] then None
      else (case value of
              JStr s \<Rightarrow> if \<not> is_band_triple s then Some s
                        else if isResetBandTriple value then None
                        else Some (join_with '':'' (map (num_str \<circ> js_number) (split_on CHR '':'' s)))
            | _ \<Rightarrow> Some (js_string value)))"

definition hasValue :: "jsv \<Rightarrow> bool" where
  "hasValue v \<longleftrightarrow> v \<noteq> JUndef \<and> v \<noteq> JNull \<and> v \<noteq> JStr []"

definition isFcBlank :: "jsv \<Rightarrow> bool" where
  "isFcBlank v \<longleftrightarrow> v = JUndef \<or> v = JNull \<or> v = JStr []"

definition AI_ONLY_FIELDS :: "string list" where
  "AI_ONLY_FIELDS = AI_ADMISSION_FIELDS @
     [''model_name'', ''api_key_auth'', ''jwt_auth_profile'', ''trace_type'', ''session_header_name'', ''chwbl_prefix_hash_level'',
      ''chwbl_prefix_hash_flags'', ''sse_mode'', ''max_stream_duration_sec'', ''backend_keepalive_interval_sec'', ''pd_disagg_mode'',
      ''pd_cache_aware_mode'', ''pd_session_ttl_sec'', ''pd_prefill_timeout_sec'', ''pd_cache_threshold'', ''pd_balance_abs_threshold'',
      ''kvExactMode'', ''kvBlockSize'', ''kvHashAlgo'', ''kvZmqPort'', ''kvWarmupSec'', ''kvEngineType'', ''kvDpRankCount'',
      ''pdBootstrapPort'', ''kvModelProfile'', ''kvExactApiMode''] @ FC_FIELDS"

definition KV_FIELDS :: "string list" where
  "KV_FIELDS = [''kvExactMode'', ''kvBlockSize'', ''kvHashAlgo'', ''kvZmqPort'', ''kvWarmupSec'', ''kvDpRankCount'']"

definition PD_TUNING_FIELDS :: "string list" where
  "PD_TUNING_FIELDS = [''pd_cache_aware_mode'', ''pd_session_ttl_sec'', ''pd_prefill_timeout_sec'', ''pd_cache_threshold'', ''pd_balance_abs_threshold'']"

subsection \<open>Engine, topology, breaker\<close>

datatype ai_topology = Plain | PrefillDecode | SingleRole

definition resolveAIEngine :: "jsv \<Rightarrow> string" where
  "resolveAIEngine engine = (if truthy engine then str_or_empty engine else ''vllm'')"

definition resolveAITopology :: "jsobj \<Rightarrow> ai_topology" where
  "resolveAITopology args =
     (if truthy (oget args ''pd_disagg_mode'') then PrefillDecode
      else if oget args ''kvExactMode'' = jint 3 then SingleRole
      else Plain)"

definition resolveCircuitBreaker :: "jsobj \<Rightarrow> bool \<Rightarrow> bool" where
  "resolveCircuitBreaker args readBack =
     (if readBack then oget args ''cb_enable'' = JBool True
      else truthy (or_default (oget args ''cb_enable'') (JBool (truthy (oget args ''pd_disagg_mode'')))))"

definition circuitBreakerEditSeed :: "jsobj option \<Rightarrow> jsobj" where
  "circuitBreakerEditSeed readBack =
     (case readBack of
        None \<Rightarrow> []
      | Some rb \<Rightarrow> if oget rb ''mode'' = jint 4 then [(''cb_enable'', JBool (resolveCircuitBreaker rb True))] else [])"

definition effectiveAIHash :: "jsv \<Rightarrow> string option" where
  "effectiveAIHash engine =
     map_of [(''vllm'', ''sha256_cbor''), (''sglang'', ''sha256_sglang''), (''trtllm'', ''blockhash_trtllm'')] (resolveAIEngine engine)"

definition allowedAIHashes :: "jsv \<Rightarrow> string list" where
  "allowedAIHashes engine = (case map_of HASHES_BY_ENGINE (resolveAIEngine engine) of None \<Rightarrow> [] | Some hs \<Rightarrow> hs)"

definition isAIEngineChange :: "jsv \<Rightarrow> jsv \<Rightarrow> bool" where
  "isAIEngineChange original incoming \<longleftrightarrow> resolveAIEngine original \<noteq> resolveAIEngine incoming"

record declared_credentials =
  dc_apiKey :: bool
  dc_jwt :: bool

definition declaredCredentials :: "lb_rule list \<Rightarrow> declared_credentials" where
  "declaredCredentials configurations =
     (let policies = map (\<lambda>c. oget (sc_args c) ''api_key_auth'') configurations
      in \<lparr>dc_apiKey = list_ex (\<lambda>p. p = JStr ''required'' \<or> p = JStr ''apikey-or-jwt'') policies,
          dc_jwt = list_ex requiresJwtProfile policies\<rparr>)"

fun int_in :: "jsv \<Rightarrow> rat \<Rightarrow> rat option \<Rightarrow> bool" where
  "int_in (JNum (Fin r)) lo hi = (of_int \<lfloor>r\<rfloor> = r \<and> lo \<le> r \<and> (case hi of None \<Rightarrow> True | Some h \<Rightarrow> r \<le> h))"
| "int_in _ lo hi = False"

definition isPositiveInteger :: "jsv \<Rightarrow> bool" where "isPositiveInteger v = int_in v 1 None"
definition isNonNegativeInteger :: "jsv \<Rightarrow> bool" where "isNonNegativeInteger v = int_in v 0 None"
definition isPort :: "jsv \<Rightarrow> bool" where "isPort v = int_in v 1 (Some 65535)"
definition isPortOrZero :: "jsv \<Rightarrow> bool" where "isPortOrZero v = int_in v 0 (Some 65535)"

subsection \<open>Validation\<close>

definition issue :: "bool \<Rightarrow> string \<Rightarrow> string \<Rightarrow> ai_issue list" where
  "issue cond field message = (if cond then [(field, message)] else [])"

definition ep_role_is :: "int \<Rightarrow> jsobj \<Rightarrow> bool" where
  "ep_role_is n ep \<longleftrightarrow> oget ep ''ep_role'' = jint n"

definition validateEndpointTopology :: "string \<Rightarrow> ai_topology \<Rightarrow> jsobj list \<Rightarrow> ai_issue list" where
  "validateEndpointTopology engine topology endpoints =
     (if topology = PrefillDecode then
        issue (\<not> list_ex (ep_role_is 1) endpoints) ''endpoints'' ''P/D topology requires at least one prefill endpoint (role 1).''
        @ issue (\<not> list_ex (ep_role_is 2) endpoints) ''endpoints'' ''P/D topology requires at least one decode endpoint (role 2).''
        @ issue (engine = ''vllm'' \<and> list_ex (\<lambda>ep. oget ep ''nixl_port'' \<noteq> JUndef \<and> \<not> isPortOrZero (oget ep ''nixl_port'')) endpoints)
            ''endpoints'' ''A vLLM NIXL port must be omitted, 0, or a valid TCP port.''
      else
        issue (list_ex (\<lambda>ep. oget ep ''ep_role'' \<noteq> JUndef \<and> oget ep ''ep_role'' \<noteq> jint 0) endpoints) ''endpoints''
          ((if topology = SingleRole then ''Single-role'' else ''Plain'') @ '' topology requires role-less endpoints.'')
        @ issue (list_ex (\<lambda>ep. oget ep ''nixl_port'' \<noteq> JUndef \<and> oget ep ''nixl_port'' \<noteq> jint 0) endpoints)
            ''endpoints'' ''NIXL ports are valid only for vLLM P/D endpoints.'')"

definition active_ai_field :: "jsobj \<Rightarrow> string \<Rightarrow> bool" where
  "active_ai_field args field =
     (let value = oget args field
      in value \<noteq> JUndef \<and> value \<noteq> JStr [] \<and> value \<noteq> JBool False \<and> value \<noteq> jint 0 \<and>
         \<not> (field = ''kvEngineType'' \<and> value = JStr ''vllm'') \<and> \<not> (field = ''kvBlockSize'' \<and> value = jint 16) \<and>
         \<not> (field = ''kvZmqPort'' \<and> value = jint 5557) \<and> \<not> (field = ''kvDpRankCount'' \<and> value = jint 1) \<and>
         \<not> ((starts_with field ''fc_'' \<or> starts_with field ''ai_'') \<and> (value = JStr ''inherit'' \<or> isResetBandTriple value)))"

definition exact_mode :: "jsobj \<Rightarrow> jsv" where
  "exact_mode args = or_default (oget args ''kvExactMode'') (jint 0)"

definition exact_mode_issues :: "jsv \<Rightarrow> ai_topology \<Rightarrow> string \<Rightarrow> ai_issue list" where
  "exact_mode_issues exactMode topology engine =
     issue (exactMode \<notin> {jint 0, jint 1, jint 3}) ''kvExactMode'' ''KV exact mode must be 0, 1, or 3; mode 2 is reserved.''
     @ issue (exactMode = jint 1 \<and> topology \<noteq> PrefillDecode) ''kvExactMode'' ''KV exact mode 1 requires P/D topology.''
     @ issue (exactMode = jint 3 \<and> topology \<noteq> SingleRole) ''kvExactMode'' ''KV exact mode 3 requires a single-role topology.''
     @ issue (topology = PrefillDecode \<and> engine = ''trtllm'' \<and> exactMode \<noteq> jint 1) ''kvExactMode'' ''TensorRT-LLM P/D requires KV exact mode 1.''
     @ issue (topology = PrefillDecode \<and> engine = ''llamacpp'') ''pd_disagg_mode'' ''llama.cpp does not support P/D disaggregation.''"

definition salt_conflict :: "jsobj \<Rightarrow> bool" where
  "salt_conflict args =
     (let flags = to_number (oget args ''chwbl_prefix_hash_flags'')
      in oget args ''chwbl_enable_cache_salt'' = JBool True \<and> hasValue (oget args ''chwbl_prefix_hash_flags'') \<and>
         flags \<noteq> Fin 0 \<and> (to_int32 flags AND 8) = 0)"

definition chwbl_issues :: "jsobj \<Rightarrow> ai_issue list" where
  "chwbl_issues args =
     (let level = oget args ''chwbl_prefix_hash_level''; flags = oget args ''chwbl_prefix_hash_flags'';
          chwblSelector = isChwblSelector (oget args ''sel'');
          loadFactor = oget args ''chwbl_mean_load_factor''; replication = oget args ''chwbl_replication''
      in issue ((hasValue level \<or> hasValue flags) \<and> \<not> chwblSelector) ''chwbl_prefix_hash_level''
           ''CHWBL prefix hash settings require the chwbl load-balancing algorithm (SEL); clear them or switch the algorithm.''
         @ issue (hasValue level \<and> to_number level \<notin> {num 1, num 2, num 3}) ''chwbl_prefix_hash_level'' ''CHWBL prefix hash level must be 1, 2, or 3.''
         @ issue (hasValue flags \<and> (\<not> isNonNegativeInteger flags \<or> num_lt (num 255) (to_number flags))) ''chwbl_prefix_hash_flags''
             ''CHWBL prefix hash flags must be an integer between 0 and 255.''
         @ (if chwblSelector then
              issue (hasValue loadFactor \<and> \<not> int_in loadFactor 100 (Some 300)) ''chwbl_mean_load_factor''
                ''CHWBL mean load factor must be an integer between 100 and 300.''
              @ issue (hasValue replication \<and> \<not> int_in replication 1 (Some 1024)) ''chwbl_replication''
                  ''CHWBL replication must be an integer between 1 and 1024.''
              @ issue (salt_conflict args) ''chwbl_enable_cache_salt''
                  ''Requiring cache_salt needs the cache_salt input (flag bit 3, value 8) in CHWBL prefix hash flags, or flags left at 0.''
            else []))"

definition bad_if_given :: "jsobj \<Rightarrow> string \<Rightarrow> rat option \<Rightarrow> bool" where
  "bad_if_given args field hi \<longleftrightarrow> oget args field \<noteq> JUndef \<and> \<not> int_in (oget args field) 0 hi"

definition tuning_issues :: "jsobj \<Rightarrow> ai_topology \<Rightarrow> ai_issue list" where
  "tuning_issues args topology =
     issue (bad_if_given args ''max_stream_duration_sec'' None) ''max_stream_duration_sec'' ''Max stream duration must be a non-negative integer.''
     @ issue (bad_if_given args ''backend_keepalive_interval_sec'' None) ''backend_keepalive_interval_sec'' ''Backend keepalive interval must be a non-negative integer.''
     @ (if topology = PrefillDecode then
          issue (bad_if_given args ''pd_session_ttl_sec'' None) ''pd_session_ttl_sec'' ''P/D session TTL must be a non-negative integer.''
          @ issue (bad_if_given args ''pd_prefill_timeout_sec'' (Some 3600)) ''pd_prefill_timeout_sec'' ''P/D prefill timeout must be an integer between 0 and 3600.''
          @ issue (bad_if_given args ''pd_cache_threshold'' (Some 100)) ''pd_cache_threshold'' ''P/D cache threshold must be an integer between 0 and 100.''
          @ issue (bad_if_given args ''pd_balance_abs_threshold'' None) ''pd_balance_abs_threshold'' ''P/D balance threshold must be a non-negative integer.''
        else [])"

definition hash_refused :: "jsobj \<Rightarrow> bool" where
  "hash_refused args =
     (let algo = oget args ''kvHashAlgo''
      in truthy algo \<and> algo \<notin> JStr ` set (allowedAIHashes (oget args ''kvEngineType'')))"

definition kv_issues :: "jsobj \<Rightarrow> jsv \<Rightarrow> ai_topology \<Rightarrow> string \<Rightarrow> ai_issue list" where
  "kv_issues args exactMode topology engine =
     issue (exactMode \<noteq> jint 0 \<and> \<not> isPositiveInteger (oget args ''kvBlockSize'')) ''kvBlockSize''
       ''KV exact routing requires a positive engine-matched block/page size.''
     @ issue (exactMode \<noteq> jint 0 \<and> bad_if_given args ''kvWarmupSec'' None) ''kvWarmupSec'' ''KV warmup must be a non-negative integer.''
     @ issue (hash_refused args) ''kvHashAlgo'' (''Hash algorithm '' @ js_string (oget args ''kvHashAlgo'') @ '' is incompatible with '' @ engine @ ''.'')
     @ issue (bad_if_given args ''pdBootstrapPort'' (Some 65535)) ''pdBootstrapPort'' ''P/D bootstrap port must be 0 or a valid TCP port.''
     @ issue (or_default (oget args ''pdBootstrapPort'') (jint 0) \<noteq> jint 0 \<and> \<not> (engine = ''sglang'' \<and> topology = PrefillDecode)) ''pdBootstrapPort''
         ''P/D bootstrap port is valid only for SGLang P/D.''"

definition uses_exact_events :: "ai_topology \<Rightarrow> jsv \<Rightarrow> bool" where
  "uses_exact_events topology exactMode \<longleftrightarrow> topology = SingleRole \<or> (topology = PrefillDecode \<and> exactMode = jint 1)"

fun num_of :: "jsv \<Rightarrow> rat" where
  "num_of (JNum (Fin r)) = r"
| "num_of _ = 0"

definition zmq_issues :: "jsobj \<Rightarrow> jsv \<Rightarrow> ai_topology \<Rightarrow> string \<Rightarrow> ai_issue list" where
  "zmq_issues args exactMode topology engine =
     (let exact = uses_exact_events topology exactMode; port = oget args ''kvZmqPort'';
          rankCount = or_default (oget args ''kvDpRankCount'') (jint 1); zmqPort = or_default port (jint 5557)
      in issue (exact \<and> (engine = ''vllm'' \<or> engine = ''sglang'') \<and> port \<noteq> JUndef \<and> \<not> isPort port) ''kvZmqPort''
           ''KV ZMQ port must be between 1 and 65535.''
         @ (if engine = ''sglang'' \<and> exact then
              (if \<not> int_in rankCount 1 (Some 8) then [(''kvDpRankCount'', ''KV DP rank count must be between 1 and 8.'')]
               else issue (isPort zmqPort \<and> num_of zmqPort + num_of rankCount - 1 > 65535) ''kvZmqPort''
                      ''KV ZMQ rank fan-out must not exceed port 65535.'')
            else [])
         @ issue (engine = ''trtllm'' \<and> port \<notin> {JUndef, jint 0, jint 5557}) ''kvZmqPort''
             ''TensorRT-LLM events use endpoint serving ports, not ZMQ.'')"

definition llamacpp_issues :: "jsobj \<Rightarrow> jsv \<Rightarrow> ai_issue list" where
  "llamacpp_issues args exactMode =
     issue (exactMode \<noteq> jint 0) ''kvExactMode'' ''llama.cpp has no KV event plane.''
     @ issue (truthy (oget args ''kvHashAlgo'')) ''kvHashAlgo'' ''llama.cpp has no block-hash contract.''
     @ issue (oget args ''kvZmqPort'' \<notin> {JUndef, jint 0, jint 5557}) ''kvZmqPort'' ''llama.cpp has no KV event transport.''
     @ issue (oget args ''kvBlockSize'' \<notin> {JUndef, jint 0, jint 16}) ''kvBlockSize'' ''llama.cpp has no gateway block table.''"

definition KV_EXACT_API_MODES :: "string list" where "KV_EXACT_API_MODES = [''completions'', ''chat'', ''both'']"

definition profile_issues :: "jsobj \<Rightarrow> jsv \<Rightarrow> ai_issue list" where
  "profile_issues args exactMode =
     issue (hasValue (oget args ''kvModelProfile'') \<and> exactMode = jint 0) ''kvModelProfile'' ''A model profile binds only to a KV-exact rule.''
     @ (if hasValue (oget args ''kvExactApiMode'') then
          issue (exactMode = jint 0) ''kvExactApiMode'' ''An API surface declaration is meaningless without KV exact routing.''
          @ issue (oget args ''kvExactApiMode'' \<notin> JStr ` set KV_EXACT_API_MODES) ''kvExactApiMode'' ''API surface must be completions, chat, or both.''
        else [])"

definition fc_bad :: "ai_topology \<Rightarrow> jsobj \<Rightarrow> string \<times> int \<Rightarrow> ai_issue list" where
  "fc_bad topology args bound =
     (let (field, hi) = bound; value = oget args field
      in if topology \<noteq> PrefillDecode \<and> field \<in> set FC_PD_ONLY_FIELDS then []
         else if isFcBlank value then []
         else issue (\<not> int_in value 0 (Some (of_int hi))) field (field @ '' must be a whole number from 0 to '' @ int_str hi @ ''.''))"

definition validateAdmissionFields :: "jsobj \<Rightarrow> ai_topology \<Rightarrow> ai_issue list" where
  "validateAdmissionFields args topology =
     (if \<not> isAIService args then []
      else issue (\<not> isFcBlank (oget args ''fc_mode'') \<and> oget args ''fc_mode'' \<notin> JStr ` set FC_MODES) ''fc_mode''
             ''Admission mode must be off, observe, enforce, or the gateway default.''
         @ issue (\<not> isFcBlank (oget args ''fc_adaptive'') \<and> oget args ''fc_adaptive'' \<notin> JStr ` set FC_ADAPTIVE) ''fc_adaptive''
             ''Adaptive ceiling must be on, off, or the gateway default.''
         @ issue (\<not> isFcBlank (oget args ''fc_expose_headers'') \<and> oget args ''fc_expose_headers'' \<notin> JStr ` set FC_ADAPTIVE) ''fc_expose_headers''
             ''Admission response headers must be on, off, or the gateway default.''
         @ concat (map (fc_bad topology args) FC_NUMERIC_MAX)
         @ issue (isPositiveInteger (oget args ''fc_max_queue_depth'') \<and> \<not> isPositiveInteger (oget args ''fc_max_queue_wait_ms'')) ''fc_max_queue_wait_ms''
             ''A queue depth needs a queue wait greater than 0 ms.'')"

definition validateAIConfiguration :: "lb_rule \<Rightarrow> ai_issue list" where
  "validateAIConfiguration configuration =
     (let args = sc_args configuration;
          endpoints = (case sc_endpoints configuration of None \<Rightarrow> [] | Some eps \<Rightarrow> eps);
          engine = resolveAIEngine (oget args ''kvEngineType'');
          topology = resolveAITopology args;
          exactMode = exact_mode args
      in if oget args ''mode'' \<noteq> jint 4
           then issue (list_ex (active_ai_field args) AI_ONLY_FIELDS) ''mode'' ''AI Gateway routing requires full-proxy mode.''
         else exact_mode_issues exactMode topology engine
              @ chwbl_issues args
              @ tuning_issues args topology
              @ kv_issues args exactMode topology engine
              @ zmq_issues args exactMode topology engine
              @ (if engine = ''llamacpp'' then llamacpp_issues args exactMode else [])
              @ profile_issues args exactMode
              @ validateAdmissionFields args topology
              @ validateEndpointTopology engine topology endpoints)"

subsection \<open>What is sent\<close>

definition omitFields :: "jsobj \<Rightarrow> string list \<Rightarrow> jsobj" where
  "omitFields args fs = without args fs"

definition drop_if :: "bool \<Rightarrow> string \<Rightarrow> jsobj \<Rightarrow> jsobj" where
  "drop_if cond field args = (if cond then AList.delete field args else args)"

definition drop_blank :: "string \<Rightarrow> jsobj \<Rightarrow> jsobj" where
  "drop_blank field args = drop_if (isFcBlank (oget args field)) field args"

definition serializeAdmissionFields :: "jsobj \<Rightarrow> ai_topology \<Rightarrow> jsobj" where
  "serializeAdmissionFields args topology =
     (if \<not> isAIService args then omitFields args (FC_FIELDS @ AI_ADMISSION_FIELDS)
      else (let result = fold drop_blank (FC_FIELDS @ AI_ADMISSION_FIELDS) args
            in if topology \<noteq> PrefillDecode then omitFields result FC_PD_ONLY_FIELDS else result))"

definition stripEndpointAI :: "jsobj \<Rightarrow> jsobj" where
  "stripEndpointAI endpoint = without endpoint [''ep_role'', ''nixl_port'']"

definition serializeStrictProfileFields :: "jsobj \<Rightarrow> jsobj" where
  "serializeStrictProfileFields args =
     (let r1 = drop_if (\<not> hasValue (oget args ''kvModelProfile'')) ''kvModelProfile'' args;
          r2 = drop_if (\<not> hasValue (oget r1 ''kvExactApiMode'')) ''kvExactApiMode'' r1
      in if exact_mode r2 = jint 0 \<or> oget r2 ''kvModelProfile'' = JUndef
         then AList.delete ''kvExactApiMode'' (AList.delete ''kvModelProfile'' r2) else r2)"

definition drop_falsy :: "string \<Rightarrow> jsobj \<Rightarrow> jsobj" where
  "drop_falsy field args = drop_if (\<not> truthy (oget args field)) field args"

definition drop_novalue :: "string \<Rightarrow> jsobj \<Rightarrow> jsobj" where
  "drop_novalue field args = drop_if (\<not> hasValue (oget args field)) field args"

definition drop_profile :: "jsobj \<Rightarrow> jsobj" where
  "drop_profile args = drop_if (\<not> requiresJwtProfile (oget args ''api_key_auth'') \<or> \<not> truthy (oget args ''jwt_auth_profile'')) ''jwt_auth_profile'' args"

definition drop_tuning :: "jsobj \<Rightarrow> jsobj" where
  "drop_tuning args =
     (if \<not> isChwblSelector (oget args ''sel'') then omitFields args CHWBL_TUNING_FIELDS
      else fold drop_novalue CHWBL_TUNING_FIELDS args)"

definition drop_unset :: "jsobj \<Rightarrow> jsobj" where
  "drop_unset args =
     drop_tuning (drop_novalue ''chwbl_prefix_hash_flags'' (drop_novalue ''chwbl_prefix_hash_level''
       (drop_falsy ''kvHashAlgo'' (drop_profile (drop_falsy ''api_key_auth'' args)))))"

definition for_topology :: "ai_topology \<Rightarrow> string \<Rightarrow> jsobj \<Rightarrow> jsobj" where
  "for_topology topology engine args =
     (case topology of
        Plain \<Rightarrow> omitFields args (KV_FIELDS @ [''pd_disagg_mode''] @ PD_TUNING_FIELDS @ [''pdBootstrapPort''])
      | SingleRole \<Rightarrow> omitFields args ([''pd_disagg_mode''] @ PD_TUNING_FIELDS @ [''pdBootstrapPort''])
      | PrefillDecode \<Rightarrow>
          (let a = (if oget args ''kvExactMode'' \<noteq> jint 1 then omitFields args KV_FIELDS else args)
           in drop_if (engine \<noteq> ''sglang'') ''pdBootstrapPort'' a))"

definition endpoint_for :: "ai_topology \<Rightarrow> string \<Rightarrow> jsobj \<Rightarrow> jsobj" where
  "endpoint_for topology engine ep =
     (if topology \<noteq> PrefillDecode then stripEndpointAI ep
      else if engine \<noteq> ''vllm'' then without ep [''nixl_port''] else ep)"

definition for_engine :: "ai_topology \<Rightarrow> string \<Rightarrow> jsobj \<Rightarrow> jsobj" where
  "for_engine topology engine args =
     (let fanOut = (engine = ''sglang'' \<and> (topology = SingleRole \<or> (topology = PrefillDecode \<and> oget args ''kvExactMode'' = jint 1)));
          a1 = drop_if (\<not> fanOut) ''kvDpRankCount'' args;
          a2 = drop_if (engine = ''trtllm'' \<or> engine = ''llamacpp'') ''kvZmqPort'' a1
      in if engine = ''llamacpp'' then omitFields a2 KV_FIELDS else a2)"

text \<open>The code maps over the endpoints first: without any it throws (\<open>None\<close>).\<close>

definition serializeAIConfiguration :: "lb_rule \<Rightarrow> lb_rule option" where
  "serializeAIConfiguration configuration =
    (case sc_endpoints configuration of None \<Rightarrow> None | Some endpoints \<Rightarrow> Some
     (let draft = sc_args configuration;
          engine = resolveAIEngine (oget draft ''kvEngineType'');
          topology = resolveAITopology draft;
          args = serializeBackendTls (omitFields draft READ_ONLY_SERVICE_ARGUMENTS)
      in if oget args ''mode'' \<noteq> jint 4
           then configuration\<lparr>sc_args := omitFields args (AI_ONLY_FIELDS @ [''cb_enable''] @ CHWBL_TUNING_FIELDS),
                              sc_endpoints := Some (map stripEndpointAI endpoints)\<rparr>
         else configuration\<lparr>
                sc_args := serializeStrictProfileFields (serializeAdmissionFields
                             (for_engine topology engine (for_topology topology engine (drop_unset args))) topology),
                sc_endpoints := Some (map (endpoint_for topology engine) endpoints)\<rparr>))"

subsection \<open>Model profiles and readiness\<close>

datatype profile_match = BaseMatch | AliasMatch

fun items_of :: "jsv \<Rightarrow> jsv list" where
  "items_of (JArr vs) = vs"
| "items_of _ = []"

definition profileAcceptsModel :: "jsobj \<Rightarrow> jsv \<Rightarrow> profile_match option" where
  "profileAcceptsModel profile modelName =
     (if \<not> hasValue modelName then None
      else if strict_eq (oget profile ''baseModel'') modelName then Some BaseMatch
      else if oget profile ''aliasPolicy'' = JStr ''list'' \<and> list_ex (strict_eq modelName) (items_of (oget profile ''allowedAliases'')) then Some AliasMatch
      else None)"

definition allowedProfileApiModes :: "jsobj \<Rightarrow> string list" where
  "allowedProfileApiModes profile =
     (let apis = items_of (oget profile ''supportedApis'')
      in filter (\<lambda>m. m \<noteq> ''both'' \<and> JStr m \<in> set apis) KV_EXACT_API_MODES
         @ (if JStr ''completions'' \<in> set apis \<and> JStr ''chat'' \<in> set apis then [''both''] else []))"

definition validateProfileSelection :: "jsobj \<Rightarrow> jsobj option \<Rightarrow> ai_issue list" where
  "validateProfileSelection args profile =
     (if \<not> hasValue (oget args ''kvModelProfile'') then []
      else issue (exact_mode args = jint 0) ''kvModelProfile'' ''A model profile binds only to a KV-exact rule.''
         @ (case profile of
              None \<Rightarrow> [(''kvModelProfile'', ''Selected profile is not in the currently published registry. Refresh the profile list.'')]
            | Some p \<Rightarrow>
                if \<not> strict_eq (oget p ''profileId'') (oget args ''kvModelProfile'')
                then [(''kvModelProfile'', ''Selected profile does not match the profile entry being validated.'')]
                else issue (hasValue (oget args ''model_name'') \<and> profileAcceptsModel p (oget args ''model_name'') = None) ''kvModelProfile''
                       (''Profile '' @ js_string (oget p ''profileId'') @ '' does not serve model '' @ js_string (oget args ''model_name'')
                        @ '' (base model or allowed alias required).'')
                   @ issue (hasValue (oget args ''kvExactApiMode'') \<and> oget args ''kvExactApiMode'' \<notin> JStr ` set (allowedProfileApiModes p)) ''kvExactApiMode''
                       (''API surface '' @ js_string (oget args ''kvExactApiMode'') @ '' is outside the profile's supported surfaces (''
                        @ join_with '', '' (js_string_elems (items_of (oget p ''supportedApis''))) @ '').'')))"

datatype readiness_kind = Legacy | PendingKind | Ready | ReadyFunctionalOnly | Degrading | Degraded | Fault | RequiresMigration | UnknownKind

definition PENDING_STATES :: "string list" where
  "PENDING_STATES = [''PROFILE_VALIDATED'', ''PENDING_DATAPLANE_CONTRACT'', ''TOKEN_PARITY_VERIFIED'',
     ''TOKEN_PARITY_NOT_AVAILABLE_WITH_APPROVED_ORACLE'', ''ENGINE_HASH_ATTESTED'']"

definition readinessKind :: "string \<Rightarrow> readiness_kind" where
  "readinessKind state =
     (if state = ''LEGACY_ACTIVE_UNATTESTED'' then Legacy
      else if state \<in> set PENDING_STATES then PendingKind
      else if state = ''READY'' then Ready
      else if state = ''READY_FUNCTIONAL_ONLY'' then ReadyFunctionalOnly
      else if state = ''DEGRADING'' then Degrading
      else if state = ''DEGRADED'' then Degraded
      else if state = ''ENFORCEMENT_FAULT'' then Fault
      else if state = ''REQUIRES_MIGRATION'' then RequiresMigration
      else UnknownKind)"

record kv_readiness =
  kr_kind :: readiness_kind
  kr_ready :: bool
  kr_warning :: bool
  kr_fenced :: jsv
  kr_rawState :: string

definition classifyKvExactReadiness :: "jsobj \<Rightarrow> kv_readiness" where
  "classifyKvExactReadiness entry =
     (let rawState = str_or_empty (or_default (oget entry ''enforcedState'') (JStr []));
          kind = readinessKind rawState;
          fenced = vget (oget entry ''enforcement'') ''goFenced''
      in \<lparr>kr_kind = kind, kr_ready = ((kind = Ready \<or> kind = ReadyFunctionalOnly) \<and> fenced = JBool False),
          kr_warning = (kind = ReadyFunctionalOnly), kr_fenced = fenced, kr_rawState = rawState\<rparr>)"

definition KV_STATUS_POLL_FAST_MS :: int where "KV_STATUS_POLL_FAST_MS = 5000"
definition KV_STATUS_POLL_STEADY_MS :: int where "KV_STATUS_POLL_STEADY_MS = 30000"

datatype status_entries = NotReadYet | NoEntries | Entries "jsobj list"

definition kvExactPollIntervalMs :: "status_entries \<Rightarrow> int" where
  "kvExactPollIntervalMs es =
     (case es of
        NotReadYet \<Rightarrow> KV_STATUS_POLL_FAST_MS
      | NoEntries \<Rightarrow> KV_STATUS_POLL_STEADY_MS
      | Entries entries \<Rightarrow>
          if entries = [] then KV_STATUS_POLL_STEADY_MS
          else if list_ex (\<lambda>e. kr_kind (classifyKvExactReadiness e) \<in> {PendingKind, Degrading, UnknownKind}) entries
            then KV_STATUS_POLL_FAST_MS else KV_STATUS_POLL_STEADY_MS)"

subsection \<open>Facts about serialisation\<close>

text \<open>One object holds no more than another.\<close>

definition trims :: "jsobj \<Rightarrow> jsobj \<Rightarrow> bool" where
  "trims r a \<longleftrightarrow> (\<forall>f. oget r f = JUndef \<or> oget r f = oget a f)"

named_theorems trimming \<open>operations that only remove fields\<close>

lemma trims_refl [trimming]: "trims a a"
  by (simp add: trims_def)

lemma trims_without [trimming]: "trims r a \<Longrightarrow> trims (without r ks) a"
  by (simp add: trims_def)

lemma trims_omit [trimming]: "trims r a \<Longrightarrow> trims (omitFields r ks) a"
  by (simp add: omitFields_def trims_without)

lemma trims_delete [trimming]: "trims r a \<Longrightarrow> trims (AList.delete k r) a"
  by (simp add: trims_def)

lemma trims_drop_if [trimming]: "trims r a \<Longrightarrow> trims (drop_if c k r) a"
  by (simp add: drop_if_def trims_delete)

lemma trims_drop_blank [trimming]: "trims r a \<Longrightarrow> trims (drop_blank k r) a"
  by (simp add: drop_blank_def trims_drop_if)

lemma trims_fold: "(\<And>x r. trims r a \<Longrightarrow> trims (g x r) a) \<Longrightarrow> trims r a \<Longrightarrow> trims (fold g xs r) a"
  by (induction xs arbitrary: r) auto

lemma trims_trans: "trims r b \<Longrightarrow> trims b a \<Longrightarrow> trims r a"
  unfolding trims_def by metis

lemma trims_UndefD: "trims r a \<Longrightarrow> oget a f = JUndef \<Longrightarrow> oget r f = JUndef"
  by (auto simp: trims_def)

lemma trims_admission: "trims (serializeAdmissionFields a t) a"
  by (auto simp: serializeAdmissionFields_def Let_def intro!: trimming trims_fold)

lemma trims_strict: "trims (serializeStrictProfileFields a) a"
  by (auto simp: serializeStrictProfileFields_def Let_def intro!: trimming)

lemma trims_unset: "trims (drop_unset a) a"
  by (simp add: drop_unset_def drop_tuning_def drop_falsy_def drop_novalue_def drop_profile_def trimming trims_fold)

lemma trims_topology: "trims (for_topology t e a) a"
  by (auto simp: for_topology_def Let_def intro!: trimming split: ai_topology.split)

lemma trims_engine: "trims (for_engine t e a) a"
  by (auto simp: for_engine_def Let_def intro!: trimming)

lemma omitted [simp]: "oget (omitFields a ks) f = (if f \<in> set ks then JUndef else oget a f)"
  by (simp add: omitFields_def)

text \<open>The stages of a fullproxy rule after the first, together.\<close>

definition later_stages :: "ai_topology \<Rightarrow> string \<Rightarrow> jsobj \<Rightarrow> jsobj" where
  "later_stages t e a = serializeStrictProfileFields (serializeAdmissionFields (for_engine t e (for_topology t e a)) t)"

lemma trims_later: "trims (later_stages t e a) a"
  unfolding later_stages_def
  by (meson trims_admission trims_engine trims_strict trims_topology trims_trans)

lemma fold_blank_kept: "f \<notin> set ks \<Longrightarrow> oget (fold drop_blank ks a) f = oget a f"
  by (induction ks arbitrary: a) (auto simp: drop_blank_def drop_if_def)

lemma policy_kept: "oget (later_stages t e a) ''api_key_auth'' = oget a ''api_key_auth''"
proof -
  have "oget (for_topology t e b) ''api_key_auth'' = oget b ''api_key_auth''" for b
    by (simp add: for_topology_def Let_def drop_if_def KV_FIELDS_def PD_TUNING_FIELDS_def split: ai_topology.split)
  moreover have "oget (for_engine t e b) ''api_key_auth'' = oget b ''api_key_auth''" for b
    by (simp add: for_engine_def Let_def drop_if_def KV_FIELDS_def)
  moreover have "''api_key_auth'' \<notin> set (FC_FIELDS @ AI_ADMISSION_FIELDS)"
    by code_simp
  then have "oget (serializeAdmissionFields b t) ''api_key_auth'' = oget b ''api_key_auth''" for b
    using fold_blank_kept [of "''api_key_auth''" "FC_FIELDS @ AI_ADMISSION_FIELDS" b]
    by (simp add: serializeAdmissionFields_def Let_def FC_PD_ONLY_FIELDS_def)
  moreover have "oget (serializeStrictProfileFields b) ''api_key_auth'' = oget b ''api_key_auth''" for b
    by (simp add: serializeStrictProfileFields_def Let_def drop_if_def)
  ultimately show ?thesis
    by (simp add: later_stages_def)
qed

lemma fold_unset_kept: "f \<notin> set ks \<Longrightarrow> oget (fold drop_novalue ks a) f = oget a f"
  by (induction ks arbitrary: a) (auto simp: drop_novalue_def drop_if_def)

lemma unset_kept:
  "f \<in> {''api_key_auth'', ''jwt_auth_profile''} \<Longrightarrow> oget (drop_unset a) f = oget (drop_profile (drop_falsy ''api_key_auth'' a)) f"
proof -
  assume f: "f \<in> {''api_key_auth'', ''jwt_auth_profile''}"
  then have "f \<notin> set CHWBL_TUNING_FIELDS"
    by (auto simp: CHWBL_TUNING_FIELDS_def)
  then have "oget (drop_tuning b) f = oget b f" for b
    by (simp add: drop_tuning_def fold_unset_kept)
  moreover have "oget (drop_novalue ''chwbl_prefix_hash_flags'' b) f = oget b f" "oget (drop_novalue ''chwbl_prefix_hash_level'' b) f = oget b f"
    "oget (drop_falsy ''kvHashAlgo'' b) f = oget b f" for b
    using f by (auto simp: drop_novalue_def drop_falsy_def drop_if_def)
  ultimately show ?thesis
    by (simp only: drop_unset_def)
qed

lemma jwt_paired: "oget (drop_unset a) ''jwt_auth_profile'' = JUndef \<or> requiresJwtProfile (oget (drop_unset a) ''api_key_auth'')"
  by (simp add: unset_kept) (simp add: drop_profile_def drop_if_def)

lemma strict_paired:
  "oget (serializeStrictProfileFields a) ''kvModelProfile'' = JUndef \<and> oget (serializeStrictProfileFields a) ''kvExactApiMode'' = JUndef \<or>
   exact_mode (serializeStrictProfileFields a) \<noteq> jint 0 \<and> oget (serializeStrictProfileFields a) ''kvModelProfile'' \<noteq> JUndef"
  by (simp add: serializeStrictProfileFields_def Let_def drop_if_def exact_mode_def)

lemma plain_sends_no_kv: "oget (for_topology Plain e a) ''kvExactMode'' = JUndef"
  by (simp add: for_topology_def KV_FIELDS_def)

lemma sent_cases:
  assumes "serializeAIConfiguration c = Some r"
  obtains (off) "oget (sc_args c) ''mode'' \<noteq> jint 4"
      "sc_args r = omitFields (serializeBackendTls (omitFields (sc_args c) READ_ONLY_SERVICE_ARGUMENTS)) (AI_ONLY_FIELDS @ [''cb_enable''] @ CHWBL_TUNING_FIELDS)"
  | (fullproxy) "oget (sc_args c) ''mode'' = jint 4"
      "sc_args r = later_stages (resolveAITopology (sc_args c)) (resolveAIEngine (oget (sc_args c) ''kvEngineType''))
         (drop_unset (serializeBackendTls (omitFields (sc_args c) READ_ONLY_SERVICE_ARGUMENTS)))"
proof -
  have "oget (serializeBackendTls (omitFields (sc_args c) READ_ONLY_SERVICE_ARGUMENTS)) ''mode'' = oget (sc_args c) ''mode''"
    by (simp add: mode_kept READ_ONLY_SERVICE_ARGUMENTS_def)
  then show ?thesis
    using assms that by (auto simp: serializeAIConfiguration_def Let_def later_stages_def split: option.splits if_splits)
qed

lemma sent_trims:
  assumes "serializeAIConfiguration c = Some r"
  shows "trims (sc_args r) (serializeBackendTls (omitFields (sc_args c) READ_ONLY_SERVICE_ARGUMENTS))"
  using assms
proof (cases rule: sent_cases)
  case off
  then show ?thesis by (simp add: trims_omit trims_refl)
next
  case fullproxy
  then show ?thesis using trims_trans [OF trims_later trims_unset] by simp
qed

subsection \<open>Properties\<close>

text \<open>The body never invents an argument: outside the backend TLS members, which have their own
  rules, every field of it is the draft's own, and no field the gateway reports read-only goes out.\<close>

theorem nothing_invented:
  assumes "serializeAIConfiguration c = Some r"
  shows "(f \<in> set (''mtls_backend'' # BACKEND_TLS_STRING_FIELDS) \<or> oget (sc_args r) f = JUndef \<or> oget (sc_args r) f = oget (sc_args c) f)
     \<and> list_all (\<lambda>g. oget (sc_args r) g = JUndef) READ_ONLY_SERVICE_ARGUMENTS"
proof -
  note tr = sent_trims [OF assms]
  have "oget (sc_args r) f = JUndef \<or> oget (sc_args r) f = oget (sc_args c) f"
    if "f \<notin> set (''mtls_backend'' # BACKEND_TLS_STRING_FIELDS)"
  proof -
    have "oget (serializeBackendTls (omitFields (sc_args c) READ_ONLY_SERVICE_ARGUMENTS)) f = oget (omitFields (sc_args c) READ_ONLY_SERVICE_ARGUMENTS) f"
      using that by (intro mode_kept) (auto simp: BACKEND_TLS_STRING_FIELDS_def)
    then show ?thesis
      using tr unfolding trims_def by (metis omitted)
  qed
  moreover have "oget (serializeBackendTls (omitFields (sc_args c) READ_ONLY_SERVICE_ARGUMENTS)) g = JUndef" if "g \<in> set READ_ONLY_SERVICE_ARGUMENTS" for g
  proof -
    have "g \<notin> {''backend_ca_cert_id'', ''backend_client_cert_id'', ''backend_tls_server_name'', ''mtls_backend''}"
      using that by (auto simp: READ_ONLY_SERVICE_ARGUMENTS_def)
    then show ?thesis
      using that by (simp add: mode_kept)
  qed
  then have "list_all (\<lambda>g. oget (sc_args r) g = JUndef) READ_ONLY_SERVICE_ARGUMENTS"
    using tr by (auto simp: list_all_iff intro: trims_UndefD)
  ultimately show ?thesis by blast
qed

definition demo_ai_rule :: "jsobj \<Rightarrow> lb_rule" where
  "demo_ai_rule args = \<lparr>sc_args = args, sc_endpoints = Some [], sc_secondaryIPs = None, sc_allowedSources = None\<rparr>"

theorem nothing_invented_witness:
  "\<exists>r. serializeAIConfiguration (demo_ai_rule [(''mode'', jint 4), (''fc_effective'', JStr ''off'')]) = Some r \<and> oget (sc_args r) ''fc_effective'' = JUndef"
proof -
  obtain r where r: "serializeAIConfiguration (demo_ai_rule [(''mode'', jint 4), (''fc_effective'', JStr ''off'')]) = Some r"
    by (simp add: serializeAIConfiguration_def demo_ai_rule_def)
  from nothing_invented [OF r, of "''fc_effective''"] show ?thesis
    using r by (auto simp: READ_ONLY_SERVICE_ARGUMENTS_def)
qed

text \<open>C35. The fields that qualify another travel with it: off full proxy no AI field is sent; a JWT
  profile only with a policy that validates JWTs; a model profile only with exact routing, and its
  API surface only with the profile.\<close>

theorem sent_fields_pair:
  assumes "serializeAIConfiguration c = Some r"
  shows "(if oget (sc_args c) ''mode'' = jint 4
          then (oget (sc_args r) ''jwt_auth_profile'' = JUndef \<or> requiresJwtProfile (oget (sc_args r) ''api_key_auth'')) \<and>
               (oget (sc_args r) ''kvModelProfile'' = JUndef \<and> oget (sc_args r) ''kvExactApiMode'' = JUndef \<or>
                exact_mode (sc_args r) \<noteq> jint 0 \<and> oget (sc_args r) ''kvModelProfile'' \<noteq> JUndef)
          else list_all (\<lambda>g. oget (sc_args r) g = JUndef) (AI_ONLY_FIELDS @ [''cb_enable''] @ CHWBL_TUNING_FIELDS))"
  using assms
proof (cases rule: sent_cases)
  case off
  then show ?thesis by (simp add: list_all_iff)
next
  case fullproxy
  let ?b = "drop_unset (serializeBackendTls (omitFields (sc_args c) READ_ONLY_SERVICE_ARGUMENTS))"
  have "trims (sc_args r) ?b" "oget (sc_args r) ''api_key_auth'' = oget ?b ''api_key_auth''"
    by (simp_all add: fullproxy trims_later policy_kept)
  then have "oget (sc_args r) ''jwt_auth_profile'' = JUndef \<or> requiresJwtProfile (oget (sc_args r) ''api_key_auth'')"
    using jwt_paired [of "serializeBackendTls (omitFields (sc_args c) READ_ONLY_SERVICE_ARGUMENTS)"]
      trims_UndefD [of "sc_args r" ?b "''jwt_auth_profile''"] by argo
  moreover have "oget (sc_args r) ''kvModelProfile'' = JUndef \<and> oget (sc_args r) ''kvExactApiMode'' = JUndef \<or>
      exact_mode (sc_args r) \<noteq> jint 0 \<and> oget (sc_args r) ''kvModelProfile'' \<noteq> JUndef"
    unfolding fullproxy later_stages_def by (rule strict_paired)
  ultimately show ?thesis
    using fullproxy by simp
qed

theorem sent_fields_pair_witness:
  "\<exists>r. serializeAIConfiguration (demo_ai_rule [(''mode'', jint 0), (''model_name'', JStr ''m'')]) = Some r \<and> oget (sc_args r) ''model_name'' = JUndef"
proof -
  obtain r where r: "serializeAIConfiguration (demo_ai_rule [(''mode'', jint 0), (''model_name'', JStr ''m'')]) = Some r"
    by (simp add: serializeAIConfiguration_def demo_ai_rule_def)
  from sent_fields_pair [OF r] show ?thesis
    using r by (simp add: demo_ai_rule_def AI_ONLY_FIELDS_def oget_def)
qed

text \<open>A status counts as ready exactly when its state is one of the two READY states and the fence
  is reported lifted; a status that reports no fence is never ready.\<close>

theorem ready_iff:
  "kr_ready (classifyKvExactReadiness entry) \<longleftrightarrow>
     (oget entry ''enforcedState'' = JStr ''READY'' \<or> oget entry ''enforcedState'' = JStr ''READY_FUNCTIONAL_ONLY'') \<and>
     vget (oget entry ''enforcement'') ''goFenced'' = JBool False"
proof -
  have r: "readinessKind s = Ready \<longleftrightarrow> s = ''READY''" "readinessKind s = ReadyFunctionalOnly \<longleftrightarrow> s = ''READY_FUNCTIONAL_ONLY''" for s
    by (auto simp: readinessKind_def PENDING_STATES_def)
  show ?thesis
    by (cases "oget entry ''enforcedState''") (auto simp: classifyKvExactReadiness_def Let_def r or_default_def)
qed

text \<open>The breaker of a rule survives an edit: a draft seeded from the read-back of a full-proxy rule
  resolves to the breaker that runs, whatever the draft holds; off full proxy the draft decides.\<close>

theorem breaker_survives_edit:
  "resolveCircuitBreaker (circuitBreakerEditSeed (Some readBack) @ draft) False =
     (if oget readBack ''mode'' = jint 4 then resolveCircuitBreaker readBack True else resolveCircuitBreaker draft False)"
  by (simp add: resolveCircuitBreaker_def circuitBreakerEditSeed_def oget_Cons or_default_def)

text \<open>A prefill/decode rule that passes validation can serve: it has an endpoint of each role, an
  engine that disaggregates, and an exact mode the gateway knows.\<close>

theorem accepted_pd_rule:
  assumes "validateAIConfiguration c = []" "oget (sc_args c) ''mode'' = jint 4" "truthy (oget (sc_args c) ''pd_disagg_mode'')"
  shows "list_ex (ep_role_is 1) (the (sc_endpoints c)) \<and> list_ex (ep_role_is 2) (the (sc_endpoints c)) \<and>
     resolveAIEngine (oget (sc_args c) ''kvEngineType'') \<noteq> ''llamacpp'' \<and>
     (exact_mode (sc_args c) = jint 1 \<or> exact_mode (sc_args c) = jint 0 \<and> resolveAIEngine (oget (sc_args c) ''kvEngineType'') \<noteq> ''trtllm'')"
proof -
  have t: "resolveAITopology (sc_args c) = PrefillDecode"
    using assms by (simp add: resolveAITopology_def)
  define e where "e = resolveAIEngine (oget (sc_args c) ''kvEngineType'')"
  define eps where "eps = (case sc_endpoints c of None \<Rightarrow> [] | Some eps \<Rightarrow> eps)"
  have ok: "exact_mode_issues (exact_mode (sc_args c)) PrefillDecode e = []" "validateEndpointTopology e PrefillDecode eps = []"
    using assms by (simp_all add: validateAIConfiguration_def Let_def t e_def eps_def)
  have i: "issue b f m = [] \<longleftrightarrow> \<not> b" for b f m
    by (simp add: issue_def)
  have "list_ex (ep_role_is 1) eps" "list_ex (ep_role_is 2) eps"
    using ok(2) by (auto simp: validateEndpointTopology_def i)
  moreover from this have "eps = the (sc_endpoints c)"
    by (auto simp: eps_def split: option.splits)
  moreover have "e \<noteq> ''llamacpp''" "exact_mode (sc_args c) = jint 1 \<or> exact_mode (sc_args c) = jint 0 \<and> e \<noteq> ''trtllm''"
    using ok(1) by (auto simp: exact_mode_issues_def i)
  ultimately show ?thesis
    by (simp add: e_def)
qed

definition demo_pd_rule :: lb_rule where
  "demo_pd_rule = \<lparr>sc_args = [(''mode'', jint 4), (''pd_disagg_mode'', JBool True)],
     sc_endpoints = Some [[(''ep_role'', jint 1)], [(''ep_role'', jint 2)]], sc_secondaryIPs = None, sc_allowedSources = None\<rparr>"

theorem accepted_pd_rule_witness:
  "validateAIConfiguration demo_pd_rule = [] \<and> list_ex (ep_role_is 2) (the (sc_endpoints demo_pd_rule))"
proof -
  have v: "validateAIConfiguration demo_pd_rule = []"
    by code_simp
  show ?thesis
    using accepted_pd_rule [OF v] v by (simp add: demo_pd_rule_def oget_def)
qed

subsection \<open>Band triples\<close>

lemma band_parts:
  assumes "is_band_triple s" "\<forall>p\<in>set (split_on CHR '':'' s). digits_val p < 9007199254740992"
  shows "\<forall>p\<in>set (split_on CHR '':'' s). js_number p = Fin (of_int (digits_val p)) \<and> 0 \<le> digits_val p"
  using assms by (auto simp: is_band_triple_def list_all_iff js_number_digits all_digits_nonneg)

lemma reset_iff:
  assumes "is_band_triple s" "\<forall>p\<in>set (split_on CHR '':'' s). digits_val p < 9007199254740992"
  shows "isResetBandTriple (JStr s) \<longleftrightarrow> (\<forall>n\<in>set (map digits_val (split_on CHR '':'' s)). n = 0)"
  using assms(1) band_parts [OF assms] by (simp add: list_all_iff)

lemma canonical_text:
  assumes "is_band_triple s" "\<forall>p\<in>set (split_on CHR '':'' s). digits_val p < 9007199254740992"
  shows "canonicalBandTriple (JStr s) =
     (if \<forall>n\<in>set (map digits_val (split_on CHR '':'' s)). n = 0 then None
      else Some (join_with '':'' (map (nat_str \<circ> nat) (map digits_val (split_on CHR '':'' s)))))"
proof -
  have ne: "s \<noteq> []"
    using assms(1) by (auto simp: is_band_triple_def)
  have "map (num_str \<circ> js_number) (split_on CHR '':'' s) = map (nat_str \<circ> nat) (map digits_val (split_on CHR '':'' s))"
    using band_parts [OF assms] by (auto simp: rat_str_def int_str_def)
  then show ?thesis
    using assms(1) reset_iff [OF assms] ne by (simp add: canonicalBandTriple_def nullish_def del: isResetBandTriple.simps map_map map_eq_conv)
qed

lemma nat_str_no_colon: "CHR '':'' \<notin> set (nat_str n)"
  using nat_str_digits [of "CHR '':''" n] by (auto simp: is_digit_def)

text \<open>Band triples compare as the gateway reads them: two triples are the same setting exactly when
  their three numbers agree, whatever leading zeros they are written with, the reset triple included.\<close>

theorem band_triples_compare:
  assumes "is_band_triple s" "is_band_triple t"
    and bs: "\<forall>p\<in>set (split_on CHR '':'' s). digits_val p < 9007199254740992"
    and bt: "\<forall>p\<in>set (split_on CHR '':'' t). digits_val p < 9007199254740992"
  shows "canonicalBandTriple (JStr s) = canonicalBandTriple (JStr t) \<longleftrightarrow>
     map digits_val (split_on CHR '':'' s) = map digits_val (split_on CHR '':'' t)"
proof -
  let ?m = "\<lambda>s. map digits_val (split_on CHR '':'' s)"
  have pos: "\<forall>n\<in>set (?m s). 0 \<le> n" "\<forall>n\<in>set (?m t). 0 \<le> n"
    using band_parts [OF assms(1) bs] band_parts [OF assms(2) bt] by force+
  have len: "length (?m s) = 3" "length (?m t) = 3"
    using assms by (simp_all add: is_band_triple_def)
  have zeros: "?m s = ?m t" if "\<forall>n\<in>set (?m s). n = 0" "\<forall>n\<in>set (?m t). n = 0"
    using that len by (metis replicate_length_same)
  have texts: "?m s = ?m t" if "join_with '':'' (map (nat_str \<circ> nat) (?m s)) = join_with '':'' (map (nat_str \<circ> nat) (?m t))"
  proof -
    have "map (nat_str \<circ> nat) (?m s) = map (nat_str \<circ> nat) (?m t)"
      using that by (intro join_inj [where d = "CHR '':''"]) (use nat_str_no_colon in auto)
    then have "map nat (?m s) = map nat (?m t)"
      by (metis (no_types, lifting) map_map inj_map_eq_map injI nat_str_inj)
    then have "map int (map nat (?m s)) = map int (map nat (?m t))"
      by simp
    moreover have "map int (map nat xs) = xs" if "\<forall>n\<in>set xs. 0 \<le> n" for xs
      using that by (induction xs) auto
    ultimately show ?thesis
      using pos by metis
  qed
  show ?thesis
    unfolding canonical_text [OF assms(1) bs] canonical_text [OF assms(2) bt]
    using zeros texts by (metis option.distinct(1) option.inject)
qed

theorem band_triples_compare_witness:
  "canonicalBandTriple (JStr ''01:2:0'') = canonicalBandTriple (JStr ''1:02:00'')"
proof -
  have b: "is_band_triple ''01:2:0''" "is_band_triple ''1:02:00''"
    "\<forall>p\<in>set (split_on CHR '':'' ''01:2:0''). digits_val p < 9007199254740992"
    "\<forall>p\<in>set (split_on CHR '':'' ''1:02:00''). digits_val p < 9007199254740992"
    by code_simp+
  have "map digits_val (split_on CHR '':'' ''01:2:0'') = map digits_val (split_on CHR '':'' ''1:02:00'')"
    by code_simp
  then show ?thesis
    using band_triples_compare [OF b] by blast
qed

end
