(* ===== verification/LbApplied.thy ===== *)
theory LbApplied
  imports AiGateway Confirm
begin

section \<open>Did the rule write land: \<open>hooks/query/lbRuleApplied.ts\<close>\<close>

text \<open>
  The value predicate of the inference gateway's rule writes: which rule, which of its fields are
  compared and how, its endpoints, sources and secondary addresses. A read-back list that is
  \<open>null\<close> or absent is \<open>None\<close>. A member is looked up among the own properties.
\<close>

subsection \<open>How each field takes part\<close>

datatype lb_confirmation =
    Identity
  | Echo "string option" bool
  | Nonzero
  | Members "string list"
  | PatchOnly
  | Triple
  | Skip string

definition WRITE_ONLY :: string where "WRITE_ONLY = ''accepted but never returned by the rule read''"
definition SERVER_OWNED :: string where "SERVER_OWNED = ''set or derived by the gateway, not by the request''"
definition READ_ONLY :: string where "READ_ONLY = ''read-only observation of the data plane''"
definition UNVERIFIED :: string where "UNVERIFIED = ''read-back behaviour not verified in the gateway source''"

abbreviation echo :: lb_confirmation where "echo \<equiv> Echo None False"
abbreviation echo_as :: "string \<Rightarrow> lb_confirmation" where "echo_as v \<equiv> Echo (Some v) False"
abbreviation echo_fullproxy :: "string \<Rightarrow> lb_confirmation" where "echo_fullproxy v \<equiv> Echo (Some v) True"

definition all_as :: "lb_confirmation \<Rightarrow> string list \<Rightarrow> (string \<times> lb_confirmation) list" where
  "all_as c fs = map (\<lambda>f. (f, c)) fs"

definition LB_FIELD_CONFIRMATION :: "(string \<times> lb_confirmation) list" where
  "LB_FIELD_CONFIRMATION =
     all_as Identity [''externalIP'', ''port'', ''portMax'', ''protocol'', ''host'', ''path_prefix'', ''path_match_mode'',
       ''model_name'', ''name'', ''block'']
   @ all_as echo [''sel'', ''mode'', ''security'', ''connectionLimit'', ''monitor'', ''probetype'', ''probeport'', ''probereq'',
       ''proberesp'', ''probeTimeout'', ''probeRetries'', ''proxyprotocolv2'', ''egress'', ''trace_type'', ''sse_mode'',
       ''api_key_auth'', ''jwt_auth_profile'', ''mcp_protocol_version'']
   @ all_as Nonzero [''eppEndpoint'', ''eppFailureMode'', ''eppTimeoutMs'', ''eppPlaintext'']
   @ all_as echo [''max_stream_duration_sec'', ''backend_keepalive_interval_sec'', ''cb_enable'', ''pd_disagg_mode'',
       ''pd_cache_aware_mode'', ''pd_session_ttl_sec'', ''pd_prefill_timeout_sec'', ''pd_cache_threshold'',
       ''pd_balance_abs_threshold'', ''fc_max_queue_depth'', ''fc_max_queue_wait_ms'', ''fc_max_outstanding'',
       ''fc_ep_max_inflight'', ''fc_prefill_max_inflight'', ''fc_decode_max_inflight'', ''fc_telemetry_stale_ms'',
       ''fc_warmup_ms'', ''fc_ttft_target_ms'', ''fc_tenant_max_share_pct'', ''fc_critical_reserve_pct'',
       ''ai_default_max_tokens'', ''ai_objective_strict'', ''backend_ca_cert_id'', ''backend_client_cert_id'',
       ''backend_tls_server_name'', ''timeoutMemberConnect'', ''timeoutMemberData'', ''timeoutTcpInspect'',
       ''alpn_protocols'', ''tls_ciphers'', ''tls_versions'', ''hsts_max_age'', ''hsts_include_subdomains'', ''hsts_preload'']
   @ all_as (echo_as ''inherit'') [''fc_mode'', ''fc_adaptive'', ''fc_expose_headers'', ''fc_wake_policy'', ''fc_shed_queue'',
       ''fc_tenant_wake'', ''fc_llmd_headers'', ''ai_default_reservation'']
   @ all_as Triple [''fc_band_weights'', ''fc_band_min_share_pct'', ''fc_band_queue_pct'', ''fc_band_wait_ms'']
   @ [(''backend_protocol'', echo_fullproxy ''http1''), (''sockMapMode'', echo_fullproxy ''off''),
      (''half_close_mode'', echo_fullproxy ''inherit''), (''inactiveTimeOut'', Nonzero),
      (''mtls_frontend'', Members [''client_cert_mode'', ''client_ca_path'', ''client_ca_cert_data'', ''require_client_cn'',
         ''client_cn_pattern'', ''client_crl_path'']),
      (''mtls_backend'', Members [''verify_server_cert'']), (''adminStateUp'', PatchOnly)]
   @ all_as (Skip SERVER_OWNED) [''id'', ''snat'', ''managed'']
   @ [(''bgp'', Skip ''stored on create only; a replace does not change it''),
      (''projectId'', Skip ''an empty value on a replace does not clear it''),
      (''annotations'', Skip ''truncated by the gateway to a bounded set of keys and value length''),
      (''session_header_name'', Skip ''returned only for the round-robin selectors'')]
   @ all_as (Skip WRITE_ONLY) [''privateIP'', ''oper'', ''vip_qos_policy_id'']
   @ all_as (Skip READ_ONLY) [''fc_effective'', ''half_close_effective'', ''backend_tls_effective'']
   @ all_as (Skip UNVERIFIED) [''kvExactMode'', ''kvBlockSize'', ''kvHashAlgo'', ''kvZmqPort'', ''kvWarmupSec'', ''kvEngineType'',
       ''kvDpRankCount'', ''kvExactApiMode'', ''kvModelProfile'', ''pdBootstrapPort'', ''chwbl_prefix_hash_level'',
       ''chwbl_prefix_hash_flags'', ''chwbl_mean_load_factor'', ''chwbl_replication'', ''chwbl_enable_cache_salt'']"

definition ENDPOINT_FIELDS :: "string list" where
  "ENDPOINT_FIELDS = [''weight'', ''ep_role'', ''nixl_port'', ''backup'']"

subsection \<open>Values\<close>

function (sequential) isZero :: "jsv \<Rightarrow> bool" and zero_members :: "jsobj \<Rightarrow> bool" where
  "isZero JUndef = True"
| "isZero JNull = True"
| "isZero (JBool b) = (\<not> b)"
| "isZero (JNum n) = (n = Fin 0)"
| "isZero (JStr s) = (s = [])"
| "isZero (JArr vs) = (vs = [])"
| "isZero (JObj ob) = zero_members ob"
| "zero_members [] = True"
| "zero_members ((k, v) # ob) = (isZero v \<and> zero_members ob)"
  by pat_completeness auto
termination
  by (relation "measure (\<lambda>s. case s of Inl v \<Rightarrow> 2 * size v | Inr ob \<Rightarrow> 2 * size_list (size_prod (\<lambda>_. 0) size) ob + 1)") auto

text \<open>\<open>v[key]\<close> of an object or an array: an array has its indices and its length.\<close>

fun member_at :: "jsv \<Rightarrow> string \<Rightarrow> jsv" where
  "member_at (JObj ob) k = oget ob k"
| "member_at (JArr vs) k = (if k = ''length'' then jint (int (length vs)) else oget (zip (map nat_str [0..<length vs]) vs) k)"
| "member_at _ k = JUndef"

function (sequential) sameValue :: "jsv \<Rightarrow> jsv \<Rightarrow> bool" and same_items :: "jsv list \<Rightarrow> jsv list \<Rightarrow> bool"
  and same_members :: "jsobj \<Rightarrow> jsv \<Rightarrow> bool" where
  "sameValue asked served =
     (if isZero asked then isZero served
      else (case asked of
              JArr vs \<Rightarrow> (case served of JArr ws \<Rightarrow> length vs = length ws \<and> same_items vs ws | _ \<Rightarrow> False)
            | JObj ob \<Rightarrow> (case served of JArr _ \<Rightarrow> same_members ob served | JObj _ \<Rightarrow> same_members ob served | _ \<Rightarrow> False)
            | _ \<Rightarrow> strict_eq asked served))"
| "same_items (v # vs) (w # ws) = (sameValue v w \<and> same_items vs ws)"
| "same_items [] ws = True"
| "same_items vs [] = list_all isZero vs"
| "same_members [] served = True"
| "same_members ((k, v) # ob) served = (sameValue v (member_at served k) \<and> same_members ob served)"
  by pat_completeness auto
termination
  by (relation "measure (\<lambda>s. case s of Inl (v, w) \<Rightarrow> 2 * size v
       | Inr (Inl (vs, ws)) \<Rightarrow> 2 * size_list size vs + 1
       | Inr (Inr (ob, w)) \<Rightarrow> 2 * size_list (size_prod (\<lambda>_. 0) size) ob + 1)") auto

declare sameValue.simps [simp del]

subsection \<open>Which rule\<close>

definition text_of :: "jsv \<Rightarrow> string" where "text_of v = str_or_empty v"

definition portMaxOf :: "jsobj \<Rightarrow> jsnum" where
  "portMaxOf args =
     (case (oget args ''portMax'', oget args ''port'') of
        (JNum m, JNum p) \<Rightarrow> if num_lt p m then m else num 0
      | _ \<Rightarrow> num 0)"

definition match_mode :: "jsobj \<Rightarrow> string" where
  "match_mode args = (if text_of (oget args ''path_match_mode'') = ''disabled'' then [] else text_of (oget args ''path_match_mode''))"

definition block_of :: "jsobj \<Rightarrow> jsnum" where
  "block_of args = (case oget args ''block'' of JNum n \<Rightarrow> n | _ \<Rightarrow> num 0)"

definition sameRule :: "jsobj \<Rightarrow> jsobj \<Rightarrow> bool" where
  "sameRule want got =
     (if text_of (oget got ''externalIP'') \<noteq> text_of (oget want ''externalIP'') then False
      else if \<not> strict_eq (oget got ''port'') (oget want ''port'') then False
      else if \<not> num_eq (portMaxOf got) (portMaxOf want) then False
      else if to_lower (text_of (oget got ''protocol'')) \<noteq> to_lower (text_of (oget want ''protocol'')) then False
      else if text_of (oget got ''host'') \<noteq> text_of (oget want ''host'') then False
      else if text_of (oget got ''path_prefix'') \<noteq> text_of (oget want ''path_prefix'') then False
      else if text_of (oget got ''model_name'') \<noteq> text_of (oget want ''model_name'') then False
      else if match_mode got \<noteq> match_mode want then False
      else if text_of (oget want ''name'') \<noteq> [] \<and> \<not> strict_eq (oget got ''name'') (oget want ''name'') then False
      else num_eq (block_of want) (block_of got))"

subsection \<open>Its values\<close>

datatype lb_write = PostWrite | PatchWrite

fun has_member :: "jsv \<Rightarrow> string \<Rightarrow> bool" where
  "has_member (JObj ob) m = ohas ob m"
| "has_member (JArr vs) m = (m = ''length'' \<or> m \<in> set (map nat_str [0..<length vs]))"
| "has_member _ m = False"

definition settle :: "string \<Rightarrow> jsv \<Rightarrow> jsv" where
  "settle absentAs v = (if isZero v then JStr absentAs else v)"

definition same_field :: "bool \<Rightarrow> lb_write \<Rightarrow> lb_confirmation \<Rightarrow> jsv \<Rightarrow> jsv \<Rightarrow> bool" where
  "same_field fullproxy write rule asked served =
     (case rule of
        Identity \<Rightarrow> True
      | Skip _ \<Rightarrow> True
      | PatchOnly \<Rightarrow> write \<noteq> PatchWrite \<or> sameValue asked served
      | Nonzero \<Rightarrow> isZero asked \<or> strict_eq asked served
      | Members ms \<Rightarrow> (case asked of
            JObj _ \<Rightarrow> list_all (\<lambda>m. \<not> has_member asked m \<or> sameValue (member_at asked m) (member_at served m)) ms
          | JArr _ \<Rightarrow> list_all (\<lambda>m. \<not> has_member asked m \<or> sameValue (member_at asked m) (member_at served m)) ms
          | _ \<Rightarrow> True)
      | Triple \<Rightarrow> canonicalBandTriple asked = canonicalBandTriple served
      | Echo absentAs only \<Rightarrow>
          if only \<and> \<not> fullproxy then True
          else (case absentAs of None \<Rightarrow> sameValue asked served | Some a \<Rightarrow> strict_eq (settle a asked) (settle a served)))"

definition sameArguments :: "jsobj \<Rightarrow> jsobj \<Rightarrow> lb_write \<Rightarrow> bool" where
  "sameArguments want got write =
     (let fullproxy = strict_eq (or_default (oget want ''mode'') (oget got ''mode'')) (jint 4)
      in list_all (\<lambda>(field, asked).
           case map_of LB_FIELD_CONFIRMATION field of
             None \<Rightarrow> True
           | Some rule \<Rightarrow> same_field fullproxy write rule asked (oget got field)) want)"

subsection \<open>Its lists\<close>

definition endpointKey :: "jsobj \<Rightarrow> string" where
  "endpointKey ep = text_of (oget ep ''endpointIP'') @ ''|'' @ js_string (or_default (oget ep ''targetPort'') (JStr []))"

definition keyed :: "jsobj list \<Rightarrow> (string \<times> jsobj) list" where
  "keyed eps = fold (\<lambda>ep m. AList.update (endpointKey ep) ep m) eps []"

definition rows_of :: "jsobj list option \<Rightarrow> jsobj list" where
  "rows_of served = (case served of None \<Rightarrow> [] | Some rows \<Rightarrow> rows)"

definition sameEndpoints :: "jsobj list \<Rightarrow> jsobj list option \<Rightarrow> bool" where
  "sameEndpoints asked served =
     (let want = keyed asked; got = keyed (rows_of served)
      in if length want \<noteq> length got then False
         else list_all (\<lambda>(key, ep). case map_of got key of
                None \<Rightarrow> False
              | Some row \<Rightarrow> list_all (\<lambda>f. \<not> ohas ep f \<or> sameValue (oget ep f) (oget row f)) ENDPOINT_FIELDS) want)"

text \<open>The parts of \<open>a.b.c.d/n\<close>, with one to three digits in an octet and one or two in the length.\<close>

definition digits_upto :: "nat \<Rightarrow> string \<Rightarrow> bool" where
  "digits_upto n s \<longleftrightarrow> all_digits s \<and> length s \<le> n"

fun prefix_parts :: "string \<Rightarrow> (string \<times> string \<times> string \<times> string \<times> string) option" where
  "prefix_parts s =
     (case split_on CHR ''/'' s of
        [addr, len] \<Rightarrow> (case split_on CHR ''.'' addr of
            [a, b, c, d] \<Rightarrow> if list_all (digits_upto 3) [a, b, c, d] \<and> digits_upto 2 len then Some (a, b, c, d, len) else None
          | _ \<Rightarrow> None)
      | _ \<Rightarrow> None)"

definition octets_word :: "int \<Rightarrow> int \<Rightarrow> int \<Rightarrow> int \<Rightarrow> 32 word" where
  "octets_word a b c d =
     push_bit 24 (word_of_int a) OR push_bit 16 (word_of_int b) OR push_bit 8 (word_of_int c) OR word_of_int d"

definition prefix_mask :: "nat \<Rightarrow> 32 word" where
  "prefix_mask bits = (if bits = 0 then 0 else push_bit (32 - bits) (- 1))"

definition word_text :: "32 word \<Rightarrow> string" where
  "word_text w = join_with ''.'' (map (nat_str \<circ> unat) [drop_bit 24 w, drop_bit 16 w AND 255, drop_bit 8 w AND 255, w AND 255])"

definition canonicalSourcePrefix :: "string \<Rightarrow> string" where
  "canonicalSourcePrefix prefix =
     (case prefix_parts (js_trim prefix) of
        None \<Rightarrow> to_lower (js_trim prefix)
      | Some (a, b, c, d, len) \<Rightarrow>
          if digits_val len > 32 \<or> list_ex (\<lambda>p. digits_val p > 255) [a, b, c, d] then js_trim prefix
          else word_text (octets_word (digits_val a) (digits_val b) (digits_val c) (digits_val d) AND prefix_mask (nat (digits_val len)))
               @ ''/'' @ nat_str (nat (digits_val len)))"

definition sortedTexts :: "string list \<Rightarrow> string" where
  "sortedTexts values = json_stringify (JArr (map JStr (sort values)))"

definition sameSources :: "jsobj list \<Rightarrow> jsobj list option \<Rightarrow> bool" where
  "sameSources asked served \<longleftrightarrow>
     sortedTexts (map (\<lambda>s. canonicalSourcePrefix (text_of (oget s ''prefix''))) asked) =
     sortedTexts (map (\<lambda>s. canonicalSourcePrefix (text_of (oget s ''prefix''))) (rows_of served))"

definition sameSecondaryIPs :: "jsobj list \<Rightarrow> jsobj list option \<Rightarrow> bool" where
  "sameSecondaryIPs asked served \<longleftrightarrow>
     sortedTexts (map (\<lambda>s. text_of (oget s ''secondaryIP'')) asked) =
     sortedTexts (map (\<lambda>s. text_of (oget s ''secondaryIP'')) (rows_of served))"

definition lbRuleIdentityArguments :: "jsobj \<Rightarrow> jsobj" where
  "lbRuleIdentityArguments args = filter (\<lambda>(field, _). map_of LB_FIELD_CONFIRMATION field = Some Identity) args"

definition row_applied :: "lb_rule \<Rightarrow> lb_write \<Rightarrow> lb_rule \<Rightarrow> bool" where
  "row_applied submitted write row =
     (let want = sc_args submitted; got = sc_args row
      in if \<not> sameRule want got then False
         else if \<not> sameArguments want got write then False
         else if (case sc_endpoints submitted of None \<Rightarrow> False | Some eps \<Rightarrow> \<not> sameEndpoints eps (sc_endpoints row)) then False
         else if (case sc_allowedSources submitted of None \<Rightarrow> False | Some ss \<Rightarrow> \<not> sameSources ss (sc_allowedSources row)) then False
         else \<not> (case sc_secondaryIPs submitted of None \<Rightarrow> False
                  | Some ips \<Rightarrow> to_lower (text_of (oget want ''protocol'')) = ''sctp'' \<and> \<not> sameSecondaryIPs ips (sc_secondaryIPs row)))"

definition lbRuleApplied :: "lb_rule \<times> lb_write \<Rightarrow> lb_rule list \<Rightarrow> bool" where
  "lbRuleApplied submitted rows = list_ex (row_applied (fst submitted) (snd submitted)) rows"

subsection \<open>Facts about source prefixes\<close>

lemma lower_space [simp]: "is_space (lower_char c) = is_space c"
  by (auto simp: lower_char_def is_space_def)

lemma lower_digit [simp]: "is_digit (lower_char c) = is_digit c"
  by (auto simp: lower_char_def is_digit_def)

lemma lower_fixed: "code_of d < 65 \<Longrightarrow> lower_char c = d \<longleftrightarrow> c = d"
  by (auto simp: lower_char_def code_of_def)

lemma lower_idem [simp]: "lower_char (lower_char c) = lower_char c"
  by (auto simp: lower_char_def)

lemma to_lower_idem [simp]: "to_lower (to_lower s) = to_lower s"
  by (simp add: to_lower_def)

lemma split_lower: "code_of d < 65 \<Longrightarrow> split_on d (to_lower s) = map to_lower (split_on d s)"
proof (induction s)
  case Nil
  then show ?case by (simp add: to_lower_def)
next
  case (Cons c s)
  then show ?case
    by (cases "split_on d s") (auto simp: to_lower_def lower_fixed)
qed

lemma digits_lower: "digits_upto n (to_lower s) = digits_upto n s"
  by (auto simp: digits_upto_def all_digits_def to_lower_def list_all_iff)

lemma trim_lower: "js_trim (to_lower (js_trim s)) = to_lower (js_trim s)"
proof -
  have d: "dropWhile is_space (map lower_char t) = map lower_char (dropWhile is_space t)" for t
    by (induction t) auto
  have "js_trim (to_lower t) = to_lower (js_trim t)" for t
    by (simp add: js_trim_def to_lower_def d rev_map)
  then show ?thesis by simp
qed

lemma parts_iff:
  "prefix_parts s \<noteq> None \<longleftrightarrow>
     length (split_on CHR ''/'' s) = 2 \<and> length (split_on CHR ''.'' (hd (split_on CHR ''/'' s))) = 4 \<and>
     list_all (digits_upto 3) (split_on CHR ''.'' (hd (split_on CHR ''/'' s))) \<and> digits_upto 2 (last (split_on CHR ''/'' s))"
  by (auto simp: numeral_eq_Suc length_Suc_conv split: list.splits)

declare prefix_parts.simps [simp del]

lemma parts_lower: "prefix_parts (to_lower s) = None \<longleftrightarrow> prefix_parts s = None"
proof -
  have c: "code_of CHR ''/'' < 65" "code_of CHR ''.'' < 65"
    by simp_all
  have "prefix_parts (to_lower s) \<noteq> None \<longleftrightarrow> prefix_parts s \<noteq> None"
    unfolding parts_iff split_lower [OF c(1)]
    by (auto simp: hd_map last_map split_lower [OF c(2)] list_all_iff digits_lower)
  then show ?thesis by blast
qed

lemma nat_str_length: "n < 10 \<Longrightarrow> length (nat_str n) = 1" "n < 100 \<Longrightarrow> length (nat_str n) \<le> 2" "n < 1000 \<Longrightarrow> length (nat_str n) \<le> 3"
proof -
  have a: "length (nat_str n) = 1" if "n < 10" for n
    using that by (subst nat_str.simps) simp
  have b: "length (nat_str n) \<le> 2" if "n < 100" for n
    using that a [of "n div 10"] by (subst nat_str.simps) auto
  show "n < 10 \<Longrightarrow> length (nat_str n) = 1" "n < 100 \<Longrightarrow> length (nat_str n) \<le> 2"
    using a b by blast+
  show "n < 1000 \<Longrightarrow> length (nat_str n) \<le> 3"
    using b [of "n div 10"] by (subst nat_str.simps) auto
qed

lemma nat_str_free: "\<not> is_digit c \<Longrightarrow> c \<notin> set (nat_str n)"
  using nat_str_digits by blast

lemma octets_of_word:
  "octets_word (uint (drop_bit 24 w)) (uint (drop_bit 16 w AND 255)) (uint (drop_bit 8 w AND 255)) (uint (w AND 255)) = w"
proof -
  have m: "(255 :: 32 word) = mask 8"
    by code_simp
  show ?thesis
    unfolding octets_word_def word_of_int_uint
  proof (rule bit_word_eqI)
    fix n assume "n < LENGTH(32)"
    then consider "n < 8" | "8 \<le> n" "n < 16" | "16 \<le> n" "n < 24" | "24 \<le> n" "n < 32"
      by fastforce
    then show "bit (push_bit 24 (drop_bit 24 w) OR push_bit 16 (drop_bit 16 w AND 255) OR push_bit 8 (drop_bit 8 w AND 255) OR w AND 255) n = bit w n"
      by cases (auto simp: bit_simps m)
  qed
qed

definition quad :: "int \<Rightarrow> int \<Rightarrow> int \<Rightarrow> int \<Rightarrow> string" where
  "quad a b c d = join_with ''.'' (map (nat_str \<circ> nat) [a, b, c, d])"

lemma word_text_quad:
  "word_text w = quad (uint (drop_bit 24 w)) (uint (drop_bit 16 w AND 255)) (uint (drop_bit 8 w AND 255)) (uint (w AND 255))"
  by (simp add: word_text_def quad_def)

lemma word_parts_small:
  "uint (drop_bit 24 (w :: 32 word)) < 256" "uint (drop_bit 16 w AND 255) < 256" "uint (drop_bit 8 w AND 255) < 256" "uint (w AND 255) < 256"
proof -
  have a: "uint (v AND 255) < 256" for v :: "32 word"
    by (simp add: uint_and AND_upper2')
  have "drop_bit 24 w = drop_bit 24 w AND 255"
  proof -
    have m: "(255 :: 32 word) = mask 8"
      by code_simp
    show ?thesis
      by (rule bit_word_eqI) (auto simp: bit_simps m dest: bit_imp_le_length)
  qed
  then show "uint (drop_bit 24 w) < 256"
    using a by metis
qed (simp_all add: uint_and AND_upper2')

lemma prefix_text_parts:
  assumes "0 \<le> a" "a < 256" "0 \<le> b" "b < 256" "0 \<le> c" "c < 256" "0 \<le> d" "d < 256" "n \<le> 32"
  shows "prefix_parts (js_trim (quad a b c d @ CHR ''/'' # nat_str n)) = Some (nat_str (nat a), nat_str (nat b), nat_str (nat c), nat_str (nat d), nat_str n)"
proof -
  have nd: "\<not> is_digit CHR ''/''" "\<not> is_digit CHR ''.''"
    by (simp_all add: is_digit_def)
  let ?ws = "map (nat_str \<circ> nat) [a, b, c, d]"
  have f: "\<forall>w\<in>set ?ws. CHR ''.'' \<notin> set w" "\<forall>w\<in>set ?ws. CHR ''/'' \<notin> set w"
    using nat_str_free nd by auto
  have slash: "CHR ''/'' \<notin> set (quad a b c d)"
    using set_join [of "CHR ''/''" "''.''" ?ws] f(2) unfolding quad_def by auto
  have "\<not> is_space x" if "x \<in> set (quad a b c d @ CHR ''/'' # nat_str n)" for x
  proof -
    have "x = CHR ''.'' \<or> x = CHR ''/'' \<or> is_digit x"
      using that set_join [of x "''.''" ?ws] nat_str_digits unfolding quad_def by auto
    then show ?thesis
      using digit_not_space by (auto simp: is_space_def)
  qed
  then have t: "js_trim (quad a b c d @ CHR ''/'' # nat_str n) = quad a b c d @ CHR ''/'' # nat_str n"
    by (intro trim_plain) blast
  have s1: "split_on CHR ''/'' (quad a b c d @ CHR ''/'' # nat_str n) = [quad a b c d, nat_str n]"
    using slash nat_str_free [OF nd(1), of n] by (simp add: split_on_append split_on_plain)
  have s2: "split_on CHR ''.'' (quad a b c d) = ?ws"
    unfolding quad_def using f(1) by (intro split_join) auto
  have "digits_upto 3 (nat_str k)" if "k < 256" for k
    using that nat_str_length(3) [of k] by (simp add: digits_upto_def)
  moreover have "digits_upto 2 (nat_str n)"
    using assms(9) nat_str_length(2) [of n] by (simp add: digits_upto_def)
  ultimately show ?thesis
    using assms by (simp add: prefix_parts.simps t s1 s2)
qed

lemma prefix_text_read:
  assumes "n \<le> 32"
  shows "canonicalSourcePrefix (word_text w @ ''/'' @ nat_str n) = word_text (w AND prefix_mask n) @ ''/'' @ nat_str n"
proof -
  let ?a = "uint (drop_bit 24 w)" and ?b = "uint (drop_bit 16 w AND 255)" and ?c = "uint (drop_bit 8 w AND 255)" and ?d = "uint (w AND 255)"
  have "prefix_parts (js_trim (word_text w @ ''/'' @ nat_str n)) = Some (nat_str (nat ?a), nat_str (nat ?b), nat_str (nat ?c), nat_str (nat ?d), nat_str n)"
    unfolding word_text_quad append_Cons append_Nil using word_parts_small [of w] assms by (intro prefix_text_parts) auto
  then show ?thesis
    using word_parts_small [of w] assms
    by (simp add: canonicalSourcePrefix_def octets_of_word not_less del: unsigned_and_eq uint_nat)
qed

lemma source_prefix_idem: "canonicalSourcePrefix (canonicalSourcePrefix p) = canonicalSourcePrefix p"
proof (cases "prefix_parts (js_trim p)")
  case None
  moreover from None have "prefix_parts (to_lower (js_trim p)) = None"
    using parts_lower by blast
  ultimately show ?thesis
    by (simp add: canonicalSourcePrefix_def trim_lower)
next
  case (Some parts)
  obtain a b c d len where parts: "parts = (a, b, c, d, len)"
    by (cases parts) auto
  show ?thesis
  proof (cases "digits_val len > 32 \<or> list_ex (\<lambda>p. digits_val p > 255) [a, b, c, d]")
    case True
    then have "canonicalSourcePrefix p = js_trim p"
      using Some parts by (simp add: canonicalSourcePrefix_def)
    moreover have "canonicalSourcePrefix (js_trim p) = canonicalSourcePrefix p"
      by (simp only: canonicalSourcePrefix_def js_trim_idem)
    ultimately show ?thesis by simp
  next
    case False
    let ?w = "octets_word (digits_val a) (digits_val b) (digits_val c) (digits_val d) AND prefix_mask (nat (digits_val len))"
    have c: "canonicalSourcePrefix p = word_text ?w @ ''/'' @ nat_str (nat (digits_val len))"
      using False Some parts by (simp add: canonicalSourcePrefix_def)
    have "nat (digits_val len) \<le> 32"
      using False by (simp add: nat_le_iff)
    then show ?thesis
      unfolding c prefix_text_read [OF \<open>nat (digits_val len) \<le> 32\<close>] by (simp add: and.assoc)
  qed
qed

subsection \<open>Facts about values\<close>

text \<open>A JSON value: no NaN, and an object holds each member once.\<close>

function (sequential) json_value :: "jsv \<Rightarrow> bool" and json_values :: "jsv list \<Rightarrow> bool" and json_object :: "jsobj \<Rightarrow> bool" where
  "json_value (JNum n) = (n \<noteq> NaN)"
| "json_value (JArr vs) = json_values vs"
| "json_value (JObj ob) = json_object ob"
| "json_value _ = True"
| "json_values [] = True"
| "json_values (v # vs) = (json_value v \<and> json_values vs)"
| "json_object [] = True"
| "json_object ((k, v) # ob) = (k \<notin> fst ` set ob \<and> json_value v \<and> json_object ob)"
  by pat_completeness auto
termination
  by (relation "measure (\<lambda>s. case s of Inl v \<Rightarrow> 2 * size v
       | Inr (Inl vs) \<Rightarrow> 2 * size_list size vs + 1
       | Inr (Inr ob) \<Rightarrow> 2 * size_list (size_prod (\<lambda>_. 0) size) ob + 1)") auto

lemma json_object_distinct: "json_object ob \<Longrightarrow> distinct (map fst ob)"
  by (induction ob) (auto, force)

lemma json_object_mem: "json_object ob \<Longrightarrow> (k, v) \<in> set ob \<Longrightarrow> json_value v"
  by (induction ob) auto

lemma oget_mem: "distinct (map fst ob) \<Longrightarrow> (k, v) \<in> set ob \<Longrightarrow> oget ob k = v"
  by (simp add: oget_def)

lemma sameValue_refl:
  "json_value v \<Longrightarrow> sameValue v v"
  "json_values vs \<Longrightarrow> same_items vs vs"
  "json_object ob \<Longrightarrow> \<forall>ob'. (\<forall>(k, w)\<in>set ob. oget ob' k = w) \<longrightarrow> same_members ob (JObj ob')"
proof (induction v and vs and ob rule: json_value_json_values_json_object.induct)
  case (1 n)
  then show ?case by (subst sameValue.simps) (auto simp: num_eq_def)
next
  case (2 vs)
  then show ?case by (subst sameValue.simps) auto
next
  case (3 ob)
  have "\<forall>(k, w)\<in>set ob. oget ob k = w"
    using oget_mem [OF json_object_distinct] 3 by auto
  then have "same_members ob (JObj ob)"
    using 3 by simp
  then show ?case
    by (subst sameValue.simps) auto
qed ((auto; fail) | (subst sameValue.simps, auto))+

lemma sameValue_zero: "isZero v \<Longrightarrow> isZero w \<Longrightarrow> sameValue v w"
  by (subst sameValue.simps) simp

lemma zero_member: "isZero (JObj ob) \<Longrightarrow> isZero (oget ob k)"
  by (induction ob) (auto simp: oget_Cons)

subsection \<open>What the gateway reads back\<close>

text \<open>
  The read-back the table documents: the arguments without their zero values (those that say which
  rule it is stay), the endpoints in any order, the sources as their networks in any order.
\<close>

definition kept_argument :: "string \<times> jsv \<Rightarrow> bool" where
  "kept_argument kv \<longleftrightarrow> map_of LB_FIELD_CONFIRMATION (fst kv) = Some Identity \<or> \<not> isZero (snd kv)"

definition as_network :: "jsobj \<Rightarrow> jsobj" where
  "as_network s = [(''prefix'', JStr (canonicalSourcePrefix (text_of (oget s ''prefix''))))]"

definition reads_back :: "lb_rule \<Rightarrow> lb_rule \<Rightarrow> bool" where
  "reads_back c r \<longleftrightarrow>
     sc_args r = filter kept_argument (sc_args c) \<and>
     (case sc_endpoints c of None \<Rightarrow> True | Some eps \<Rightarrow> mset (rows_of (sc_endpoints r)) = mset eps) \<and>
     (case sc_allowedSources c of None \<Rightarrow> True | Some ss \<Rightarrow> mset (rows_of (sc_allowedSources r)) = mset (map as_network ss)) \<and>
     (case sc_secondaryIPs c of None \<Rightarrow> True | Some ips \<Rightarrow> mset (rows_of (sc_secondaryIPs r)) = mset ips)"

text \<open>A body as the serializer types it.\<close>

fun scalar :: "jsv \<Rightarrow> bool" where
  "scalar (JArr _) = False"
| "scalar (JObj _) = False"
| "scalar _ = True"

fun is_text :: "jsv \<Rightarrow> bool" where
  "is_text (JStr _) = True"
| "is_text _ = False"

definition typed_argument :: "string \<times> jsv \<Rightarrow> bool" where
  "typed_argument kv =
     (case map_of LB_FIELD_CONFIRMATION (fst kv) of
        Some Triple \<Rightarrow> is_text (snd kv)
      | Some (Members _) \<Rightarrow> True
      | Some (Echo None _) \<Rightarrow> True
      | _ \<Rightarrow> scalar (snd kv))"

definition typed_body :: "lb_rule \<Rightarrow> bool" where
  "typed_body c \<longleftrightarrow> json_object (sc_args c) \<and> list_all typed_argument (sc_args c) \<and>
     (case sc_endpoints c of None \<Rightarrow> True | Some eps \<Rightarrow> list_all json_object eps \<and> distinct (map endpointKey eps))"

lemma keyed_distinct:
  "distinct (map endpointKey eps) \<Longrightarrow> keyed eps = map (\<lambda>ep. (endpointKey ep, ep)) eps"
proof -
  have "fold (\<lambda>ep m. AList.update (endpointKey ep) ep m) eps m = m @ map (\<lambda>ep. (endpointKey ep, ep)) eps"
    if "distinct (map fst m @ map endpointKey eps)" for m
    using that
  proof (induction eps arbitrary: m)
    case Nil
    then show ?case by simp
  next
    case (Cons ep eps)
    have "AList.update k v m = m @ [(k, v)]" if "k \<notin> fst ` set m" for k and v :: jsobj and m
      using that by (induction m) auto
    then have "AList.update (endpointKey ep) ep m = m @ [(endpointKey ep, ep)]"
      using Cons.prems by auto
    then show ?case
      using Cons.IH [of "m @ [(endpointKey ep, ep)]"] Cons.prems by simp
  qed
  from this [of "[]"] show "distinct (map endpointKey eps) \<Longrightarrow> keyed eps = map (\<lambda>ep. (endpointKey ep, ep)) eps"
    by (simp add: keyed_def)
qed

lemma endpoints_read_back:
  assumes "distinct (map endpointKey eps)" "list_all json_object eps" "mset (rows_of served) = mset eps"
  shows "sameEndpoints eps served"
proof -
  let ?k = "\<lambda>ep. (endpointKey ep, ep)"
  have d: "distinct (map endpointKey (rows_of served))"
    using assms(1,3) by (metis mset_eq_imp_distinct_iff mset_map)
  have len: "length (rows_of served) = length eps"
    using assms(3) by (metis size_mset)
  have "map_of (map ?k (rows_of served)) (endpointKey ep) = Some ep" if "ep \<in> set eps" for ep
    using d that assms(3) by (intro map_of_is_SomeI) (auto simp: comp_def simp flip: mset_eq_setD [OF assms(3)])
  moreover have "sameValue (oget ep f) (oget ep f)" if "ep \<in> set eps" "ohas ep f" for ep f
  proof -
    have "json_object ep"
      using assms(2) that by (simp add: list_all_iff)
    moreover have h: "ohas ep f"
      using that by simp
    moreover obtain v where v: "map_of ep f = Some v"
      using h by (auto simp: ohas_def)
    ultimately have "json_value (oget ep f)"
      using json_object_mem [OF _ map_of_SomeD [OF v]] by (simp add: oget_def)
    then show ?thesis by (rule sameValue_refl)
  qed
  ultimately show ?thesis
    using len by (auto simp: sameEndpoints_def Let_def keyed_distinct [OF assms(1)] keyed_distinct [OF d] list_all_iff)
qed

lemma sort_mset: "mset xs = mset ys \<Longrightarrow> sort xs = sort (ys :: string list)"
  by (metis properties_for_sort mset_sort sorted_sort)

lemma mset_map_cong: "mset xs = mset ys \<Longrightarrow> mset (map f xs) = mset (map f ys)"
  by simp

lemma sources_read_back:
  assumes "mset (rows_of served) = mset (map as_network ss)"
  shows "sameSources ss served"
proof -
  let ?p = "\<lambda>s. canonicalSourcePrefix (text_of (oget s ''prefix''))"
  have "?p (as_network s) = ?p s" for s
    by (simp add: as_network_def text_of_def source_prefix_idem oget_def)
  then have m: "map ?p (map as_network ss) = map ?p ss"
    by simp
  have "mset (map ?p (rows_of served)) = mset (map ?p ss)"
    unfolding m [symmetric] by (rule mset_map_cong [OF assms])
  then show ?thesis
    by (simp only: sameSources_def sortedTexts_def sort_mset [OF \<open>mset (map ?p (rows_of served)) = mset (map ?p ss)\<close>])
qed

lemma secondary_read_back:
  assumes "mset (rows_of served) = mset ips"
  shows "sameSecondaryIPs ips served"
  by (simp only: sameSecondaryIPs_def sortedTexts_def sort_mset [OF mset_map_cong [OF assms]])

lemma oget_filter:
  assumes "distinct (map fst ob)"
  shows "oget (filter P ob) k = (if P (k, oget ob k) \<and> ohas ob k then oget ob k else JUndef)"
proof -
  have "map_of (filter P ob) k = (case map_of ob k of None \<Rightarrow> None | Some v \<Rightarrow> if P (k, v) then Some v else None)"
    using assms
  proof (induction ob)
    case Nil
    then show ?case by simp
  next
    case (Cons kv ob)
    then have "map_of ob (fst kv) = None"
      by (simp add: map_of_eq_None_iff)
    then show ?case
      using Cons by (cases kv) auto
  qed
  then show ?thesis
    by (simp add: oget_def ohas_def split: option.split)
qed

lemma json_values_mem: "json_values vs \<Longrightarrow> v \<in> set vs \<Longrightarrow> json_value v"
  by (induction vs) auto

lemma json_oget:
  assumes "\<And>v. v \<in> snd ` set ob \<Longrightarrow> json_value v"
  shows "json_value (oget ob k)"
proof (cases "map_of ob k")
  case (Some v)
  then have "v \<in> snd ` set ob"
    using map_of_SomeD by force
  then show ?thesis
    using assms Some by (simp add: oget_def)
qed (simp add: oget_def)

lemma json_member: "json_value v \<Longrightarrow> json_value (member_at v k)"
proof (cases v)
  case (JArr vs)
  then show "json_value v \<Longrightarrow> json_value (member_at v k)"
    by (auto intro!: json_oget json_values_mem dest: set_zip_rightD)
next
  case (JObj ob)
  then show "json_value v \<Longrightarrow> json_value (member_at v k)"
    by (auto intro!: json_oget dest: json_object_mem)
qed auto

lemma argument_read_back:
  assumes "json_object (sc_args c)" "list_all typed_argument (sc_args c)" "(f, v) \<in> set (sc_args c)" "map_of LB_FIELD_CONFIRMATION f = Some rule"
  shows "same_field fullproxy write rule v (oget (filter kept_argument (sc_args c)) f)"
proof -
  have d: "distinct (map fst (sc_args c))" and jv: "json_value v"
    using assms json_object_distinct json_object_mem by blast+
  have o: "oget (sc_args c) f = v" "ohas (sc_args c) f"
    using oget_mem [OF d assms(3)] assms(3) d by (simp_all add: ohas_def)
  have t: "typed_argument (f, v)"
    using assms(2,3) by (auto simp: list_all_iff)
  define s where "s = oget (filter kept_argument (sc_args c)) f"
  have s: "s = (if rule = Identity \<or> \<not> isZero v then v else JUndef)"
    using assms(4) unfolding s_def oget_filter [OF d] by (simp add: o kept_argument_def)
  have same: "sameValue v s"
    using sameValue_refl(1) [OF jv] sameValue_zero [of v JUndef] s by auto
  have scal: "strict_eq v v" if "scalar v"
    using that jv by (cases v) (auto simp: num_eq_def)
  have "same_field fullproxy write rule v s"
  proof (cases rule)
    case (Echo a only)
    then show ?thesis
      using same s t scal assms(4)
      by (cases a) (auto simp: same_field_def settle_def typed_argument_def)
  next
    case (Members ms)
    have m: "sameValue (member_at v k) (member_at s k)" if "has_member v k" for k
    proof (cases "isZero v")
      case True
      then have "isZero (member_at v k)"
        by (cases v) (auto simp: zero_member)
      moreover have "isZero (member_at s k)"
        using True s Members by simp
      ultimately show ?thesis by (rule sameValue_zero)
    next
      case False
      then show ?thesis
        using s json_member [OF jv] sameValue_refl(1) by simp
    qed
    then show ?thesis
      using Members unfolding same_field_def
      by (cases v) (auto simp: list_all_iff simp del: member_at.simps has_member.simps)
  next
    case Triple
    then show ?thesis
      using s t assms(4) by (cases v) (auto simp: same_field_def typed_argument_def canonicalBandTriple_def nullish_def)
  qed (use same s t scal assms(4) in \<open>auto simp: same_field_def typed_argument_def\<close>)
  then show ?thesis
    by (simp add: s_def)
qed

definition RULE_FIELDS :: "string list" where
  "RULE_FIELDS = [''externalIP'', ''port'', ''portMax'', ''protocol'', ''host'', ''path_prefix'', ''path_match_mode'', ''model_name'', ''name'', ''block'']"

lemma rule_fields_identity: "list_all (\<lambda>f. map_of LB_FIELD_CONFIRMATION f = Some Identity) RULE_FIELDS"
  by code_simp

lemma num_lt_NaN [simp]: "\<not> num_lt x NaN"
  by (cases x) auto

lemma same_rule_read_back:
  assumes j: "json_object (sc_args c)" and ty: "list_all typed_argument (sc_args c)"
    and kept: "\<And>f. map_of LB_FIELD_CONFIRMATION f = Some Identity \<Longrightarrow> oget got f = oget (sc_args c) f"
  shows "sameRule (sc_args c) got"
proof -
  let ?w = "sc_args c"
  have i: "map_of LB_FIELD_CONFIRMATION f = Some Identity"
    if "f \<in> set RULE_FIELDS" for f
    using that rule_fields_identity by (simp add: list_all_iff)
  have g: "oget got f = oget ?w f"
    if "f \<in> set RULE_FIELDS" for f
    using kept i that by blast
  have sc: "strict_eq (oget ?w f) (oget ?w f) \<and> oget ?w f \<noteq> JNum NaN" if "map_of LB_FIELD_CONFIRMATION f = Some Identity" for f
  proof (cases "map_of ?w f")
    case (Some v)
    then have m: "(f, v) \<in> set ?w" by (rule map_of_SomeD)
    then have "json_value v" "scalar v"
      using json_object_mem [OF j] ty that by (auto simp: list_all_iff typed_argument_def)
    then show ?thesis
      using Some by (cases v) (auto simp: oget_def num_eq_def)
  qed (simp add: oget_def)
  have "num_eq (portMaxOf ?w) (portMaxOf ?w)"
    by (auto simp: portMaxOf_def num_eq_def split: jsv.split)
  moreover have "num_eq (block_of ?w) (block_of ?w)"
    using sc [OF i, of "''block''"] by (auto simp: RULE_FIELDS_def block_of_def num_eq_def split: jsv.split)
  moreover have gs: "oget got ''externalIP'' = oget ?w ''externalIP''" "oget got ''port'' = oget ?w ''port''" "oget got ''portMax'' = oget ?w ''portMax''"
    "oget got ''protocol'' = oget ?w ''protocol''" "oget got ''host'' = oget ?w ''host''"
    "oget got ''path_prefix'' = oget ?w ''path_prefix''" "oget got ''path_match_mode'' = oget ?w ''path_match_mode''" "oget got ''model_name'' = oget ?w ''model_name''"
    "oget got ''name'' = oget ?w ''name''" "oget got ''block'' = oget ?w ''block''"
    by (rule g, simp add: RULE_FIELDS_def)+
  moreover have "portMaxOf got = portMaxOf ?w" "block_of got = block_of ?w" "match_mode got = match_mode ?w"
    by (simp_all only: portMaxOf_def block_of_def match_mode_def gs)
  moreover have "strict_eq (oget ?w ''port'') (oget ?w ''port'')" "strict_eq (oget ?w ''name'') (oget ?w ''name'')"
    using sc [OF i, of "''port''"] sc [OF i, of "''name''"] by (simp_all add: RULE_FIELDS_def)
  ultimately show ?thesis
    unfolding sameRule_def by argo
qed


text \<open>The network form of a source is final: reducing a prefix to its network and reducing that again
  gives the same text, for every text, so what the gateway reads back compares equal to itself.\<close>

theorem source_prefix_settles: "canonicalSourcePrefix (canonicalSourcePrefix p) = canonicalSourcePrefix p"
  by (rule source_prefix_idem)

subsection \<open>Siblings\<close>

text \<open>What makes a rule this rule and no other, as the gateway keys it.\<close>

definition rule_key :: "jsobj \<Rightarrow> string \<times> jsv \<times> jsnum \<times> string \<times> string \<times> string \<times> string \<times> string \<times> jsnum" where
  "rule_key args = (text_of (oget args ''externalIP''), oget args ''port'', portMaxOf args, to_lower (text_of (oget args ''protocol'')),
     text_of (oget args ''host''), text_of (oget args ''path_prefix''), text_of (oget args ''model_name''), match_mode args, block_of args)"

lemma same_rule_key: "sameRule want got \<Longrightarrow> rule_key got = rule_key want"
  unfolding sameRule_def rule_key_def by (auto split: if_splits dest: strict_eq_imp_eq simp: num_eq_def)

lemma applied_row: "lbRuleApplied (c, write) rows \<Longrightarrow> \<exists>row\<in>set rows. row_applied c write row"
  by (auto simp: lbRuleApplied_def list_ex_iff)

lemma applied_same_rule: "row_applied c write row \<Longrightarrow> sameRule (sc_args c) (sc_args row)"
  by (auto simp: row_applied_def Let_def split: if_splits)

lemma applied_key: "lbRuleApplied (c, write) [row] \<Longrightarrow> rule_key (sc_args row) = rule_key (sc_args c)"
  by (simp add: lbRuleApplied_def) (rule same_rule_key, rule applied_same_rule)

interpretation lb_applied: confirmation lbRuleApplied "\<lambda>c rows. \<exists>row\<in>set rows. rule_key (sc_args row) = rule_key (sc_args (fst c))"
proof
  fix c rows
  assume "lbRuleApplied c rows"
  then obtain row where "row \<in> set rows" "row_applied (fst c) (snd c) row"
    using applied_row [of "fst c" "snd c" rows] by auto
  then show "\<exists>row\<in>set rows. rule_key (sc_args row) = rule_key (sc_args (fst c))"
    using applied_same_rule same_rule_key by blast
qed

lemma confirmed_rule_write:
  assumes "ch_phase (chain_run (new_chain \<lparr>rs_confirm = Some (lbRuleApplied (c, write)), rs_intervals = ds\<rparr>) evs) = Settled RConfirmed"
  shows "\<exists>rows. last (ch_reads (chain_run (new_chain \<lparr>rs_confirm = Some (lbRuleApplied (c, write)), rs_intervals = ds\<rparr>) evs)) = Some rows
           \<and> (\<exists>row\<in>set rows. rule_key (sc_args row) = rule_key (sc_args c))"
  using lb_applied.confirmed_landed [OF assms] by simp

text \<open>C25. A sibling never confirms a write: one row of the list confirms two submissions only if they name
  the same rule, by address, port range, protocol, host, path and its mode, model and block.\<close>

theorem sibling_never_confirms:
  assumes "lbRuleApplied (a, v) [row]" "lbRuleApplied (b, w) [row]"
  shows "rule_key (sc_args a) = rule_key (sc_args b)"
  using applied_key [OF assms(1)] applied_key [OF assms(2)] by simp

definition demo_write :: "string \<Rightarrow> lb_rule" where
  "demo_write prefix = \<lparr>sc_args = [(''externalIP'', JStr ''10.0.0.1''), (''port'', jint 443), (''protocol'', JStr ''tcp''), (''sel'', jint 0), (''fc_mode'', JStr [])],
     sc_endpoints = Some [[(''endpointIP'', JStr ''10.1.0.1''), (''targetPort'', jint 80)], [(''endpointIP'', JStr ''10.1.0.2''), (''targetPort'', jint 80)]],
     sc_secondaryIPs = None, sc_allowedSources = Some [[(''prefix'', JStr prefix)]]\<rparr>"

definition demo_row :: lb_rule where
  "demo_row = \<lparr>sc_args = [(''externalIP'', JStr ''10.0.0.1''), (''port'', jint 443), (''protocol'', JStr ''tcp'')],
     sc_endpoints = Some [[(''endpointIP'', JStr ''10.1.0.2''), (''targetPort'', jint 80)], [(''endpointIP'', JStr ''10.1.0.1''), (''targetPort'', jint 80)]],
     sc_secondaryIPs = None, sc_allowedSources = Some [[(''prefix'', JStr ''10.1.2.0/24'')]]\<rparr>"


theorem sibling_never_confirms_witness:
  "rule_key (sc_args (demo_write ''10.1.2.3/24'')) = rule_key (sc_args (demo_write ''10.1.2.9/24''))"
proof (rule sibling_never_confirms)
  show "lbRuleApplied (demo_write ''10.1.2.3/24'', PostWrite) [demo_row]" "lbRuleApplied (demo_write ''10.1.2.9/24'', PostWrite) [demo_row]"
    by code_simp+
qed

end
