(* ===== verification/LbConnector.thy ===== *)
theory LbConnector
  imports LbApplied
begin

section \<open>Writing load balancer rules: capabilities and the last steps before the wire\<close>

text \<open>
  \<open>src/src/api/capabilities.ts\<close> (what a backend flavor may be sent),
  \<open>src/src/hooks/query/flavorHook.ts\<close> (the flavor a session acts on),
  \<open>src/src/types/listener_limits.ts\<close> and \<open>src/src/connector/instance/load_balancer.ts\<close> (the body
  of a create, the patch and the deletes). The capability map is generated from the two API
  specifications and is a parameter.
\<close>

subsection \<open>Capabilities\<close>

datatype flavor = Loxilb | InferenceGateway

record capability_map =
  gatewayOnlyPaths :: "string list"
  gatewayOnlyMethods :: "(string \<times> string list) list"
  gatewayOnlyFields :: "(string \<times> string list) list"
  gatewayOnlyEnumValues :: "(string \<times> jsv list) list"

definition GATEWAY_PRODUCT :: string where
  "GATEWAY_PRODUCT = ''loxilb-inference-gateway''"

definition detectFlavor :: "jsv \<Rightarrow> flavor" where
  "detectFlavor version = (if vget version ''product'' = JStr GATEWAY_PRODUCT then InferenceGateway else Loxilb)"

definition FEATURE_PATHS :: "(string \<times> string list) list" where
  "FEATURE_PATHS =
     [(''ai'', [''/config/ai'']), (''ipsec'', [''/config/ipsec'']), (''sniCerts'', [''/config/cert'', ''/sni'']),
      (''ipfilter'', [''/config/ipfilter'']), (''securityrate'', [''/config/securityrate'']),
      (''ipv6'', [''/config/ipv6address'']), (''trace'', [''/config/trace'']), (''l7policy'', [''/config/l7policy''])]"

definition listed :: "(string \<times> 'a list) list \<Rightarrow> string \<Rightarrow> 'a list" where
  "listed m k = (case map_of m k of Some xs \<Rightarrow> xs | None \<Rightarrow> [])"

definition under_prefix :: "string \<Rightarrow> string \<Rightarrow> bool" where
  "under_prefix prefix p \<longleftrightarrow> p = prefix \<or> starts_with p (prefix @ ''/'')"

definition hasFeature :: "capability_map \<Rightarrow> flavor \<Rightarrow> string \<Rightarrow> bool" where
  "hasFeature m flavor feature =
     (if flavor = InferenceGateway then True
      else \<not> list_ex (\<lambda>prefix. list_ex (under_prefix prefix) (gatewayOnlyPaths m)) (listed FEATURE_PATHS feature))"

definition hasMethod :: "capability_map \<Rightarrow> flavor \<Rightarrow> string \<Rightarrow> string \<Rightarrow> bool" where
  "hasMethod m flavor meth pathTemplate =
     (if flavor = InferenceGateway then True else to_lower meth \<notin> set (listed (gatewayOnlyMethods m) pathTemplate))"

definition hasField :: "capability_map \<Rightarrow> flavor \<Rightarrow> string \<Rightarrow> string \<Rightarrow> bool" where
  "hasField m flavor ctx field =
     (if flavor = InferenceGateway then True else field \<notin> set (listed (gatewayOnlyFields m) ctx))"

definition stripGatewayOnlyFields :: "capability_map \<Rightarrow> flavor \<Rightarrow> string \<Rightarrow> jsobj \<Rightarrow> jsobj" where
  "stripGatewayOnlyFields m flavor ctx ob =
     (if flavor = InferenceGateway then ob else fold AList.delete (listed (gatewayOnlyFields m) ctx) ob)"

definition allowedEnumValues :: "capability_map \<Rightarrow> flavor \<Rightarrow> string \<Rightarrow> jsv list \<Rightarrow> jsv list" where
  "allowedEnumValues m flavor ctx values =
     (if flavor = InferenceGateway then values
      else filter (\<lambda>v. \<not> list_ex (strict_eq v) (listed (gatewayOnlyEnumValues m) ctx)) values)"

text \<open>The probe of the version: until it has answered, the session acts on the narrower flavor.\<close>

datatype flavor_resolution = FLoading | FDenied int | FUnavailable | FResolved flavor

definition resolve_flavor :: "jsv option \<Rightarrow> js_error option \<Rightarrow> flavor_resolution" where
  "resolve_flavor data err =
     (case data of
        Some version \<Rightarrow> FResolved (detectFlavor version)
      | None \<Rightarrow>
          (case err of
             None \<Rightarrow> FLoading
           | Some (ApiErr e) \<Rightarrow>
               (if e_status e = jint 401 then FDenied 401 else if e_status e = jint 403 then FDenied 403 else FUnavailable)
           | Some _ \<Rightarrow> FUnavailable))"

definition effective_flavor :: "flavor_resolution \<Rightarrow> flavor" where
  "effective_flavor r = (case r of FResolved f \<Rightarrow> f | _ \<Rightarrow> Loxilb)"

subsection \<open>Cleaning a body\<close>

fun negative_number :: "jsv \<Rightarrow> bool" where
  "negative_number (JNum n) = num_lt n (num 0)"
| "negative_number _ = False"

function (sequential) cleanNegativeNumbers :: "jsv \<Rightarrow> jsv" and clean_items :: "jsv list \<Rightarrow> jsv list"
  and clean_members :: "jsobj \<Rightarrow> jsobj" where
  "cleanNegativeNumbers (JArr vs) = JArr (clean_items vs)"
| "cleanNegativeNumbers (JObj ob) = JObj (clean_members ob)"
| "cleanNegativeNumbers v = v"
| "clean_items [] = []"
| "clean_items (v # vs) = cleanNegativeNumbers v # clean_items vs"
| "clean_members [] = []"
| "clean_members ((k, v) # ob) =
     (if negative_number v then clean_members ob else (k, cleanNegativeNumbers v) # clean_members ob)"
  by pat_completeness auto
termination
  by (relation "measure (case_sum size (case_sum (size_list size) (size_list (size_prod (\<lambda>_. 0) size))))")
    auto

definition clean_rule :: "lb_rule \<Rightarrow> lb_rule" where
  "clean_rule c =
     \<lparr>sc_args = clean_members (sc_args c), sc_endpoints = map_option (map clean_members) (sc_endpoints c),
      sc_secondaryIPs = map_option (map clean_members) (sc_secondaryIPs c),
      sc_allowedSources = map_option (map clean_members) (sc_allowedSources c)\<rparr>"

text \<open>The inline private key is dropped from a rule where it is read.\<close>

definition withoutBackendKey :: "lb_rule \<Rightarrow> lb_rule" where
  "withoutBackendKey rule =
     (case oget (sc_args rule) ''mtls_backend'' of
        JObj backend \<Rightarrow>
          (if ohas backend ''client_key_data''
           then rule\<lparr>sc_args := AList.update ''mtls_backend'' (JObj (without backend [''client_key_data''])) (sc_args rule)\<rparr>
           else rule)
      | _ \<Rightarrow> rule)"

text \<open>The members a rule has beside its arguments are stripped as the map says; the arguments always stay.\<close>

definition strip_member :: "capability_map \<Rightarrow> string \<Rightarrow> 'a option \<Rightarrow> 'a option" where
  "strip_member m field v = (if field \<in> set (listed (gatewayOnlyFields m) ''LoadbalanceEntry'') then None else v)"

definition projectOntoFlavor :: "capability_map \<Rightarrow> flavor \<Rightarrow> lb_rule \<Rightarrow> lb_rule" where
  "projectOntoFlavor m flavor body =
     (if flavor = InferenceGateway then body
      else \<lparr>sc_args = stripGatewayOnlyFields m flavor ''LoadbalanceEntry.serviceArguments'' (sc_args body),
            sc_endpoints = map_option (map (stripGatewayOnlyFields m flavor ''LoadbalanceEntry.endpoints[]''))
                             (strip_member m ''endpoints'' (sc_endpoints body)),
            sc_secondaryIPs = strip_member m ''secondaryIPs'' (sc_secondaryIPs body),
            sc_allowedSources = strip_member m ''allowedSources'' (sc_allowedSources body)\<rparr>)"

definition PROBE_FIELDS :: "string list" where
  "PROBE_FIELDS = [''probetype'', ''probeport'', ''probereq'', ''proberesp'', ''probeTimeout'', ''probeRetries'']"

definition drop_probe :: "jsobj \<Rightarrow> jsobj" where
  "drop_probe args = (if truthy (oget args ''monitor'') then args else without args PROBE_FIELDS)"

definition drop_mtls_frontend :: "jsobj \<Rightarrow> jsobj" where
  "drop_mtls_frontend args =
     (let mf = oget args ''mtls_frontend'' 
      in if truthy mf \<and> (\<not> truthy (vget mf ''client_cert_mode'') \<or> vget mf ''client_cert_mode'' = JStr ''disabled'')
         then without args [''mtls_frontend''] else args)"

definition serializeLBCreateBody :: "lb_rule \<Rightarrow> lb_rule option" where
  "serializeLBCreateBody projected =
     map_option (\<lambda>r. let c = clean_rule r in c\<lparr>sc_args := drop_mtls_frontend (drop_probe (sc_args c))\<rparr>)
       (serializeAIConfiguration projected)"

definition buildLBCreateBody :: "capability_map \<Rightarrow> flavor \<Rightarrow> lb_rule \<Rightarrow> lb_rule option" where
  "buildLBCreateBody m flavor data = serializeLBCreateBody (projectOntoFlavor m flavor data)"

subsection \<open>The calls\<close>

definition LISTENER_LIMIT_FIELDS :: "string list" where
  "LISTENER_LIMIT_FIELDS = [''connectionLimit'', ''timeoutTcpInspect'']"

fun listener_limit_ok :: "jsv \<Rightarrow> bool" where
  "listener_limit_ok JUndef = True"
| "listener_limit_ok (JNum n) = (is_integer n \<and> num_le (num 0) n \<and> num_le n (num 4294967295))"
| "listener_limit_ok _ = False"

definition validateListenerLimits :: "jsobj \<Rightarrow> string list" where
  "validateListenerLimits sa = filter (\<lambda>field. \<not> listener_limit_ok (oget sa field)) LISTENER_LIMIT_FIELDS"

definition create_issues :: "lb_rule \<Rightarrow> string list" where
  "create_issues projected =
     map snd (validateAIConfiguration projected) @ map ti_message (validateBackendTls (sc_args projected)) @
     map (\<lambda>_. ''Enter an integer from 0 to 4294967295, or leave blank.'') (validateListenerLimits (sc_args projected))"

text \<open>A create is refused before it is sent, or sends a body; without endpoints it throws (\<open>None\<close>).\<close>

definition request_create_load_balancer_config :: "capability_map \<Rightarrow> flavor \<Rightarrow> lb_rule \<Rightarrow> (op_result + lb_rule) option" where
  "request_create_load_balancer_config m flavor data =
     (let projected = projectOntoFlavor m flavor data; issues = create_issues projected
      in if issues \<noteq> []
         then Some (Inl ((bare_result Invalid ''lb.create.client_invalid'' (STATUS_LOCALE_KEYS Invalid) False)
                           \<lparr>op_rawDetail := Some (join_with '' '' issues)\<rparr>))
         else map_option Inr (serializeLBCreateBody projected))"

definition patch_path :: "jsv \<Rightarrow> jsv \<Rightarrow> jsv \<Rightarrow> string" where
  "patch_path ip port proto =
     ''/config/loadbalancer/externalipaddress/'' @ js_string ip @ ''/port/'' @ js_string port @ ''/protocol/'' @ js_string proto"

definition request_delete_lb_by_name :: "jsv \<Rightarrow> op_result + string" where
  "request_delete_lb_by_name name =
     (if unsendableInPath [name] then Inl (pathRefusal ''lb.delete'')
      else Inr (''/config/loadbalancer/name/'' @ encodeURIComponent (js_string name)))"

definition request_delete_lb_by_full_key :: "lb_rule \<Rightarrow> string" where
  "request_delete_lb_by_full_key configuration = buildLBDeletePath (buildLBDeleteKey configuration)"

definition query_get_load_balancer_config_by_id :: "string \<Rightarrow> string option" where
  "query_get_load_balancer_config_by_id ident =
     (if ident = [] \<or> unsendableInPath [JStr ident] then None else Some (''/config/loadbalancer/id/'' @ encodeURIComponent ident))"

subsection \<open>Facts about cleaning\<close>

text \<open>No object of the value has a member that is a negative number.\<close>

function (sequential) no_negative :: "jsv \<Rightarrow> bool" and no_negative_items :: "jsv list \<Rightarrow> bool"
  and no_negative_members :: "jsobj \<Rightarrow> bool" where
  "no_negative (JArr vs) = no_negative_items vs"
| "no_negative (JObj ob) = no_negative_members ob"
| "no_negative v = True"
| "no_negative_items [] = True"
| "no_negative_items (v # vs) = (no_negative v \<and> no_negative_items vs)"
| "no_negative_members [] = True"
| "no_negative_members ((k, v) # ob) = (\<not> negative_number v \<and> no_negative v \<and> no_negative_members ob)"
  by pat_completeness auto
termination
  by (relation "measure (case_sum size (case_sum (size_list size) (size_list (size_prod (\<lambda>_. 0) size))))")
    auto

lemma negative_clean [simp]: "negative_number (cleanNegativeNumbers v) = negative_number v"
  by (cases v) auto

lemma clean_no_negative:
  "no_negative (cleanNegativeNumbers v)" "no_negative_items (clean_items vs)" "no_negative_members (clean_members ob)"
  by (induction v and vs and ob rule: cleanNegativeNumbers_clean_items_clean_members.induct) auto

lemma clean_id:
  "no_negative v \<Longrightarrow> cleanNegativeNumbers v = v" "no_negative_items vs \<Longrightarrow> clean_items vs = vs"
  "no_negative_members ob \<Longrightarrow> clean_members ob = ob"
  by (induction v and vs and ob rule: no_negative_no_negative_items_no_negative_members.induct) auto

text \<open>Cleaning is idempotent: a body sent again is the body.\<close>

lemma clean_idem [simp]: "cleanNegativeNumbers (cleanNegativeNumbers v) = cleanNegativeNumbers v"
  "clean_members (clean_members ob) = clean_members ob"
  by (simp_all add: clean_id clean_no_negative)

lemma clean_undef: "oget ob k = JUndef \<Longrightarrow> oget (clean_members ob) k = JUndef"
  by (induction ob) (auto simp: oget_Cons split: if_splits)

lemma no_negative_filter: "no_negative_members ob \<Longrightarrow> no_negative_members (filter P ob)"
  by (induction ob) auto

lemma no_negative_without: "no_negative_members ob \<Longrightarrow> no_negative_members (without ob ks)"
  by (simp add: without_def no_negative_filter)

lemma no_negative_probe: "no_negative_members ob \<Longrightarrow> no_negative_members (drop_probe ob)"
  by (simp add: drop_probe_def no_negative_without)

lemma no_negative_mtls: "no_negative_members ob \<Longrightarrow> no_negative_members (drop_mtls_frontend ob)"
  by (simp add: drop_mtls_frontend_def Let_def no_negative_without)

subsection \<open>Facts about stripping\<close>

lemma oget_fold_delete [simp]: "oget (fold AList.delete ks ob) k = (if k \<in> set ks then JUndef else oget ob k)"
  by (induction ks arbitrary: ob) auto

lemma oget_strip:
  "oget (stripGatewayOnlyFields m fl ctx ob) k = (if hasField m fl ctx k then oget ob k else JUndef)"
  by (auto simp: stripGatewayOnlyFields_def hasField_def)

lemma put_tls_undef: "tls_text a f = [] \<Longrightarrow> oget (put_tls_text a f r) k = (if k = f then JUndef else oget r k)"
  by (simp add: put_tls_text_def)

lemma put_tls_other: "k \<noteq> f \<Longrightarrow> oget (put_tls_text a f r) k = oget r k"
  by (simp add: put_tls_text_def)

lemma backend_tls_undef:
  assumes "oget a k = JUndef"
  shows "oget (serializeBackendTls a) k = JUndef"
proof -
  have put: "oget (put_tls_text a f r) k = JUndef" if "oget r k = JUndef" for f r
  proof (cases "k = f")
    case True
    have "tls_text a f = []"
      using assms True by (simp add: tls_text_def)
    then show ?thesis
      using that by (simp add: put_tls_undef)
  qed (simp add: put_tls_other that)
  have "oget (fold (put_tls_text a) fs r) k = JUndef" if "oget r k = JUndef" for fs r
    using that by (induction fs arbitrary: r) (auto simp: put)
  from this [OF assms, of BACKEND_TLS_STRING_FIELDS] show ?thesis
    using assms by (auto simp: serializeBackendTls_def put_mtls_backend_def Let_def)
qed

lemma sent_undef:
  assumes "serializeAIConfiguration c = Some r" and "oget (sc_args c) k = JUndef"
  shows "oget (sc_args r) k = JUndef"
proof -
  have "oget (omitFields (sc_args c) READ_ONLY_SERVICE_ARGUMENTS) k = JUndef"
    using assms(2) by (simp add: omitFields_def)
  then have "oget (serializeBackendTls (omitFields (sc_args c) READ_ONLY_SERVICE_ARGUMENTS)) k = JUndef"
    by (rule backend_tls_undef)
  with sent_trims [OF assms(1)] show ?thesis
    by (rule trims_UndefD)
qed

lemma drop_undef: "oget ob k = JUndef \<Longrightarrow> oget (drop_mtls_frontend (drop_probe ob)) k = JUndef"
  by (auto simp: drop_mtls_frontend_def drop_probe_def Let_def)

lemma body_undef:
  assumes "serializeLBCreateBody c = Some r" and "oget (sc_args c) k = JUndef"
  shows "oget (sc_args r) k = JUndef"
  using assms sent_undef [of c _ k]
  by (auto simp: serializeLBCreateBody_def clean_rule_def Let_def intro!: drop_undef clean_undef)

lemma endpoint_undef:
  assumes "serializeAIConfiguration c = Some r" "sc_endpoints c = Some eps"
  obtains g where "sc_endpoints r = Some (map g eps)" "\<And>ep k. oget ep k = JUndef \<Longrightarrow> oget (g ep) k = JUndef"
proof (cases "oget (serializeBackendTls (omitFields (sc_args c) READ_ONLY_SERVICE_ARGUMENTS)) ''mode'' \<noteq> jint 4")
  case True
  then have "sc_endpoints r = Some (map stripEndpointAI eps)"
    using assms by (auto simp: serializeAIConfiguration_def Let_def)
  then show ?thesis
    by (rule that) (simp add: stripEndpointAI_def)
next
  case False
  let ?g = "endpoint_for (resolveAITopology (sc_args c)) (resolveAIEngine (oget (sc_args c) ''kvEngineType''))"
  have "sc_endpoints r = Some (map ?g eps)"
    using assms False by (auto simp: serializeAIConfiguration_def Let_def)
  then show ?thesis
    by (rule that) (auto simp: endpoint_for_def stripEndpointAI_def)
qed

subsection \<open>What goes on the wire\<close>

text \<open>C13. A body for upstream loxilb carries nothing the capability map reserves to the gateway: no
  such member among the arguments and none on any endpoint, whatever the form held, for every map.
\<close>

theorem loxilb_body_stays_inside:
  assumes "buildLBCreateBody m Loxilb rule = Some body"
  shows "list_all (\<lambda>f. oget (sc_args body) f = JUndef) (listed (gatewayOnlyFields m) ''LoadbalanceEntry.serviceArguments'') \<and>
         list_all (\<lambda>ep. list_all (\<lambda>f. oget ep f = JUndef) (listed (gatewayOnlyFields m) ''LoadbalanceEntry.endpoints[]''))
           (rows_of (sc_endpoints body))"
proof -
  let ?c = "projectOntoFlavor m Loxilb rule"
  have b: "serializeLBCreateBody ?c = Some body"
    using assms by (simp add: buildLBCreateBody_def)
  have args: "oget (sc_args body) f = JUndef" if "f \<in> set (listed (gatewayOnlyFields m) ''LoadbalanceEntry.serviceArguments'')" for f
    using that by (intro body_undef [OF b]) (simp add: projectOntoFlavor_def oget_strip hasField_def)
  obtain r where r: "serializeAIConfiguration ?c = Some r" and eb: "sc_endpoints body = map_option (map clean_members) (sc_endpoints r)"
    using b by (auto simp: serializeLBCreateBody_def clean_rule_def Let_def)
  obtain eps where eps: "sc_endpoints ?c = Some eps"
    using r by (auto simp: serializeAIConfiguration_def split: option.splits)
  obtain g where g: "sc_endpoints r = Some (map g eps)" "\<And>ep k. oget ep k = JUndef \<Longrightarrow> oget (g ep) k = JUndef"
    using endpoint_undef [OF r eps] by blast
  have "oget ep f = JUndef" if "ep \<in> set eps" "f \<in> set (listed (gatewayOnlyFields m) ''LoadbalanceEntry.endpoints[]'')" for ep f
    using eps that by (auto simp: projectOntoFlavor_def oget_strip hasField_def)
  then show ?thesis
    using args g eb by (auto simp: list_all_iff rows_of_def clean_undef)
qed

definition demo_map :: capability_map where
  "demo_map = \<lparr>gatewayOnlyPaths = [''/config/ai/keys''], gatewayOnlyMethods = [],
     gatewayOnlyFields = [(''LoadbalanceEntry.serviceArguments'', [''model_name'', ''cb_enable'']), (''LoadbalanceEntry.endpoints[]'', [''ep_role''])],
     gatewayOnlyEnumValues = []\<rparr>"

definition demo_draft :: lb_rule where
  "demo_draft = \<lparr>sc_args = [(''externalIP'', JStr ''10.0.0.1''), (''port'', jint 80), (''mode'', jint 1), (''model_name'', JStr ''m''), (''block'', jint (-1))],
     sc_endpoints = Some [[(''endpointIP'', JStr ''10.1.0.1''), (''ep_role'', jint 0)]], sc_secondaryIPs = None, sc_allowedSources = None\<rparr>"

definition demo_body :: lb_rule where
  "demo_body = \<lparr>sc_args = [(''externalIP'', JStr ''10.0.0.1''), (''port'', jint 80), (''mode'', jint 1)],
     sc_endpoints = Some [[(''endpointIP'', JStr ''10.1.0.1'')]], sc_secondaryIPs = None, sc_allowedSources = None\<rparr>"

lemma demo_body: "buildLBCreateBody demo_map Loxilb demo_draft = Some demo_body"
  by code_simp

theorem loxilb_body_stays_inside_witness:
  "list_all (\<lambda>f. oget (sc_args demo_body) f = JUndef) (listed (gatewayOnlyFields demo_map) ''LoadbalanceEntry.serviceArguments'') \<and>
   length (rows_of (sc_endpoints demo_body)) = 1"
  using loxilb_body_stays_inside [OF demo_body] by (simp add: demo_body_def rows_of_def)

text \<open>
  The body of a create, of any flavor, holds no negative number in any object, no probe field
  unless the rule is monitored, and no front-end mutual TLS that would be off.
\<close>

lemma wire_body_is_clean:
  assumes "buildLBCreateBody m fl rule = Some body"
  shows "no_negative_members (sc_args body) \<and> list_all no_negative_members (rows_of (sc_endpoints body)) \<and>
         (if truthy (oget (sc_args body) ''monitor'') then True
          else list_all (\<lambda>f. oget (sc_args body) f = JUndef) PROBE_FIELDS) \<and>
         oget (sc_args body) ''mtls_frontend'' \<noteq> JObj [(''client_cert_mode'', JStr ''disabled'')]"
proof -
  obtain r where "serializeAIConfiguration (projectOntoFlavor m fl rule) = Some r"
    and b: "sc_args body = drop_mtls_frontend (drop_probe (clean_members (sc_args r)))"
    and e: "sc_endpoints body = map_option (map clean_members) (sc_endpoints r)"
    using assms by (auto simp: buildLBCreateBody_def serializeLBCreateBody_def clean_rule_def Let_def)
  have mon: "oget (drop_mtls_frontend a) k = oget a k" if "k \<noteq> ''mtls_frontend''" for a k
    using that by (simp add: drop_mtls_frontend_def Let_def)
  have "oget (drop_probe a) ''monitor'' = oget a ''monitor''" for a
    by (simp add: drop_probe_def PROBE_FIELDS_def)
  moreover have "oget (drop_mtls_frontend a) ''mtls_frontend'' \<noteq> JObj [(''client_cert_mode'', JStr ''disabled'')]" for a
    by (auto simp: drop_mtls_frontend_def Let_def oget_Cons)
  moreover have "list_all (\<lambda>f. oget (drop_probe a) f = JUndef) PROBE_FIELDS" if "\<not> truthy (oget a ''monitor'')" for a
    using that by (simp add: drop_probe_def list_all_iff)
  moreover have "\<forall>f\<in>set PROBE_FIELDS. f \<noteq> ''mtls_frontend''"
    by (simp add: PROBE_FIELDS_def)
  ultimately show ?thesis
    unfolding b e
    by (auto simp: rows_of_def list_all_iff clean_no_negative no_negative_probe no_negative_mtls mon
        split: option.splits)
qed

end
