(* ===== verification/LbEdit.thy ===== *)
theory LbEdit
  imports LbConnector
begin

section \<open>Editing a load balancer rule\<close>

text \<open>
  \<open>src/src/types/lb_fullproxy_replace.ts\<close> and the update handler of
  \<open>src/src/pages/traffic/LBRulePage.tsx\<close>: which write an edit turns into, what a replace of a
  fullproxy rule carries, and the calls the handler makes. \<open>edit_calls\<close> is the handler with the
  answers it awaits (the rows read before the write, whether a delete was confirmed, what the
  operator answers to the rebuild question) as arguments.
\<close>

subsection \<open>Change detection\<close>

datatype edit_strategy = CreateRule | MergePatch | ReconcileRule | ReplaceFullproxy | BlockFullproxy

definition selectLBEditStrategy :: "bool \<Rightarrow> bool \<Rightarrow> jsv \<Rightarrow> bool \<Rightarrow> edit_strategy" where
  "selectLBEditStrategy keyChanged hasCompositeKey mode canMergePatch =
     (if keyChanged \<or> \<not> hasCompositeKey then CreateRule
      else if mode = jint 4 then (if canMergePatch then ReplaceFullproxy else BlockFullproxy)
      else if canMergePatch then MergePatch else ReconcileRule)"

definition LB_IMMUTABLE_SERVICE_ARGUMENTS :: "string list" where
  "LB_IMMUTABLE_SERVICE_ARGUMENTS = [''externalIP'', ''port'', ''protocol'', ''mode'', ''security'', ''egress'', ''oper'', ''managed'']"

definition zero_value :: "jsv \<Rightarrow> bool" where
  "zero_value v \<longleftrightarrow> v = JUndef \<or> v = JNull \<or> v = jint 0 \<or> v = JStr [] \<or> v = JBool False"

definition LB_FORM_DEFAULTS :: jsobj where
  "LB_FORM_DEFAULTS =
     [(''probeTimeout'', jint 1800), (''path_match_mode'', JStr ''disabled''), (''backend_protocol'', JStr ''http1''),
      (''chwbl_prefix_hash_level'', jint 1)]"

definition isFormDefault :: "string \<Rightarrow> jsv \<Rightarrow> bool" where
  "isFormDefault key v =
     (if strict_eq v (oget LB_FORM_DEFAULTS key) then True
      else if key = ''mtls_frontend'' then
        (case v of
           JObj mtls \<Rightarrow> oget mtls ''client_cert_mode'' = JStr ''disabled'' \<and>
             list_all (\<lambda>(field, nested). field = ''client_cert_mode'' \<or> zero_value nested) mtls
         | _ \<Rightarrow> False)
      else False)"

text \<open>\<open>JSON.stringify\<close> of undefined is undefined.\<close>

definition json_text :: "jsv \<Rightarrow> string option" where
  "json_text v = (if v = JUndef then None else Some (json_stringify v))"

definition edited_member :: "jsobj \<Rightarrow> string \<times> jsv \<Rightarrow> bool" where
  "edited_member readBack kv =
     (let k = fst kv; v = snd kv; prev = oget readBack k
      in if k \<in> set LB_IMMUTABLE_SERVICE_ARGUMENTS then False
         else if prev = JUndef \<and> (zero_value v \<or> isFormDefault k v) then False
         else json_text v \<noteq> json_text prev)"

definition lbServiceArgumentsPatch :: "jsobj \<Rightarrow> jsobj \<Rightarrow> jsobj" where
  "lbServiceArgumentsPatch edited readBack = filter (edited_member readBack) edited"

subsection \<open>The replace of a fullproxy rule\<close>

definition FULLPROXY_IN_PLACE_FIELDS :: "string list" where
  "FULLPROXY_IN_PLACE_FIELDS =
     [''fc_mode'', ''fc_adaptive'', ''fc_expose_headers'', ''fc_max_outstanding'', ''fc_ep_max_inflight'',
      ''fc_prefill_max_inflight'', ''fc_decode_max_inflight'', ''fc_telemetry_stale_ms'', ''fc_warmup_ms'',
      ''fc_ttft_target_ms'', ''fc_tenant_max_share_pct'', ''fc_max_queue_depth'', ''fc_max_queue_wait_ms'',
      ''half_close_mode'', ''backend_ca_cert_id'', ''backend_client_cert_id'', ''backend_tls_server_name'', ''mtls_backend'']"

definition FULLPROXY_IDENTITY_FIELDS :: "string list" where
  "FULLPROXY_IDENTITY_FIELDS =
     [''externalIP'', ''port'', ''portMax'', ''protocol'', ''host'', ''path_prefix'', ''path_match_mode'', ''model_name'']"

definition identityValue :: "string \<Rightarrow> jsobj \<Rightarrow> string" where
  "identityValue field args =
     (if field = ''port'' then js_string (or_default (oget args ''port'') (JStr []))
      else if field = ''portMax'' then
        (case (oget args ''portMax'', oget args ''port'') of
           (JNum m, JNum p) \<Rightarrow> (if num_lt p m then js_string (JNum m) else [])
         | _ \<Rightarrow> [])
      else if field = ''protocol'' then to_lower (str_or_empty (oget args ''protocol''))
      else if field = ''path_match_mode'' then
        (if str_or_empty (oget args ''path_match_mode'') = ''disabled'' then [] else str_or_empty (oget args ''path_match_mode''))
      else str_or_empty (oget args field))"

definition changedFullproxyIdentity :: "jsobj \<Rightarrow> jsobj \<Rightarrow> string list" where
  "changedFullproxyIdentity edited original =
     filter (\<lambda>field. identityValue field edited \<noteq> identityValue field original) FULLPROXY_IDENTITY_FIELDS"

datatype replace_plan = PlanNone | PlanApply "string list" | PlanRecreate "string list" | PlanRefused "string list"

record change_set =
  cs_changedArguments :: "string list"
  cs_endpointsChanged :: bool
  cs_secondaryChanged :: bool
  cs_allowedChanged :: bool
  cs_selectors :: "jsv list"

definition changed_fields :: "change_set \<Rightarrow> string list" where
  "changed_fields change =
     map (\<lambda>field. ''serviceArguments.'' @ field) (cs_changedArguments change)
     @ (if cs_endpointsChanged change then [''endpoints''] else [])
     @ (if cs_secondaryChanged change then [''secondaryIPs''] else [])
     @ (if cs_allowedChanged change then [''allowedSources''] else [])"

definition planFullproxyReplace :: "change_set \<Rightarrow> replace_plan" where
  "planFullproxyReplace change =
     (let fields = changed_fields change
      in if fields = [] then PlanNone
         else if cs_secondaryChanged change then PlanRefused fields
         else (let inPlaceOnly = \<not> cs_endpointsChanged change \<and> \<not> cs_allowedChanged change \<and>
                     list_all (\<lambda>f. f \<in> set FULLPROXY_IN_PLACE_FIELDS) (cs_changedArguments change);
                   consistentHash = list_ex isChwblSelector (cs_selectors change)
               in if inPlaceOnly \<or> consistentHash then PlanApply fields else PlanRecreate fields))"

definition INHERITABLE_FIELDS :: "string list" where
  "INHERITABLE_FIELDS = [''fc_mode'', ''fc_adaptive'', ''fc_expose_headers'']"

definition isBlank :: "jsv \<Rightarrow> bool" where
  "isBlank v \<longleftrightarrow> v = JUndef \<or> v = JNull \<or> v = JStr []"

definition replaceable_member :: "string \<times> jsv \<Rightarrow> jsobj" where
  "replaceable_member kv =
     (if \<not> starts_with (fst kv) ''fc_'' \<or> \<not> isBlank (snd kv) then [kv]
      else if fst kv \<in> set INHERITABLE_FIELDS then [(fst kv, JStr ''inherit'')]
      else [])"

definition fullproxyReplaceableChanges :: "jsobj \<Rightarrow> jsobj" where
  "fullproxyReplaceableChanges patch = concat (map replaceable_member patch)"

record fullproxy_edit =
  fe_argumentsPatch :: jsobj
  fe_endpoints :: "jsobj list option"
  fe_secondaryIPs :: "jsobj list option"
  fe_allowedSources :: "jsobj list option"

text \<open>\<open>{...kept, ...patch}\<close>: the members of the second win.\<close>

definition spread :: "jsobj \<Rightarrow> jsobj \<Rightarrow> jsobj" where
  "spread kept patch = fold (\<lambda>(k, v). AList.update k v) patch kept"

definition strip_read_fields :: "jsobj \<Rightarrow> jsobj" where
  "strip_read_fields ep = without ep [''state'', ''counter'']"

definition or_else :: "'a option \<Rightarrow> 'a option \<Rightarrow> 'a option" where
  "or_else a b = (case a of None \<Rightarrow> b | Some x \<Rightarrow> Some x)"

definition buildFullproxyReplaceBody :: "lb_rule \<Rightarrow> fullproxy_edit \<Rightarrow> lb_rule" where
  "buildFullproxyReplaceBody fresh edit =
     (let kept = without (sc_args fresh) (''managed'' # ''id'' # READ_ONLY_SERVICE_ARGUMENTS)
      in \<lparr>sc_args = spread kept (fe_argumentsPatch edit),
          sc_endpoints = or_else (fe_endpoints edit) (Some (map strip_read_fields (rows_of (sc_endpoints fresh)))),
          sc_secondaryIPs = or_else (fe_secondaryIPs edit) (Some (rows_of (sc_secondaryIPs fresh))),
          sc_allowedSources = or_else (fe_allowedSources edit) (Some (rows_of (sc_allowedSources fresh)))\<rparr>)"

subsection \<open>The update handler\<close>

record lb_patch =
  pt_args :: "jsobj option"
  pt_endpoints :: "jsobj list option"
  pt_secondaryIPs :: "jsobj list option"
  pt_allowedSources :: "jsobj list option"

datatype lb_call =
    ReadRules
  | PostRule lb_rule
  | PatchRule jsv jsv jsv lb_patch
  | DeleteByName jsv
  | DeleteByKey lb_rule

record edit_answers =
  a_rows :: "lb_rule list option"
  a_deleted :: bool
  a_rebuild :: bool

definition rows_json :: "jsobj list option \<Rightarrow> string option" where
  "rows_json rows = map_option (\<lambda>l. json_stringify (JArr (map JObj l))) rows"

definition endpoints_changed :: "lb_rule \<Rightarrow> lb_rule \<Rightarrow> bool" where
  "endpoints_changed form selected \<longleftrightarrow>
     rows_json (sc_endpoints form) \<noteq> rows_json (Some (map strip_read_fields (rows_of (sc_endpoints selected))))"

definition list_changed :: "jsobj list option \<Rightarrow> jsobj list option \<Rightarrow> bool" where
  "list_changed a b \<longleftrightarrow> rows_json (Some (rows_of a)) \<noteq> rows_json (Some (rows_of b))"

definition key_changed :: "bool \<Rightarrow> jsobj \<Rightarrow> jsobj \<Rightarrow> bool" where
  "key_changed canMergePatch sa osa \<longleftrightarrow>
     \<not> strict_eq (oget sa ''externalIP'') (oget osa ''externalIP'') \<or> \<not> strict_eq (oget sa ''port'') (oget osa ''port'') \<or>
     \<not> strict_eq (oget sa ''protocol'') (oget osa ''protocol'') \<or>
     (oget osa ''mode'' = jint 4 \<and> canMergePatch \<and> changedFullproxyIdentity sa osa \<noteq> [])"

definition has_composite_key :: "jsobj \<Rightarrow> bool" where
  "has_composite_key osa \<longleftrightarrow> truthy (oget osa ''externalIP'') \<and> \<not> nullish (oget osa ''port'') \<and> truthy (oget osa ''protocol'')"

definition edit_strategy_of :: "bool \<Rightarrow> lb_rule \<Rightarrow> lb_rule \<Rightarrow> edit_strategy" where
  "edit_strategy_of canMergePatch selected form =
     selectLBEditStrategy (key_changed canMergePatch (sc_args form) (sc_args selected)) (has_composite_key (sc_args selected))
       (oget (sc_args selected) ''mode'') canMergePatch"

definition arguments_patch :: "edit_strategy \<Rightarrow> lb_rule \<Rightarrow> lb_rule \<Rightarrow> jsobj" where
  "arguments_patch strategy selected form =
     (let formPatch = lbServiceArgumentsPatch (sc_args form) (sc_args selected)
      in if strategy = ReplaceFullproxy then fullproxyReplaceableChanges formPatch else formPatch)"

definition change_of :: "lb_rule \<Rightarrow> lb_rule \<Rightarrow> jsobj \<Rightarrow> change_set" where
  "change_of selected form saPatch =
     \<lparr>cs_changedArguments = map fst saPatch, cs_endpointsChanged = endpoints_changed form selected,
      cs_secondaryChanged = list_changed (sc_secondaryIPs form) (sc_secondaryIPs selected),
      cs_allowedChanged = list_changed (sc_allowedSources form) (sc_allowedSources selected),
      cs_selectors = [oget (sc_args selected) ''sel'', oget (sc_args form) ''sel'']\<rparr>"

definition when_changed :: "bool \<Rightarrow> 'a option \<Rightarrow> 'a option" where
  "when_changed changed v = (if changed then v else None)"

definition replace_upsert :: "lb_rule \<Rightarrow> lb_rule \<Rightarrow> jsobj \<Rightarrow> lb_rule \<Rightarrow> lb_rule" where
  "replace_upsert selected form saPatch fresh =
     (let ch = change_of selected form saPatch
      in buildFullproxyReplaceBody fresh
           \<lparr>fe_argumentsPatch = saPatch, fe_endpoints = when_changed (cs_endpointsChanged ch) (sc_endpoints form),
            fe_secondaryIPs = None, fe_allowedSources = when_changed (cs_allowedChanged ch) (sc_allowedSources form)\<rparr>)"

definition replace_calls :: "edit_answers \<Rightarrow> lb_rule \<Rightarrow> lb_rule \<Rightarrow> jsobj \<Rightarrow> lb_call list" where
  "replace_calls ans selected form saPatch =
     (case planFullproxyReplace (change_of selected form saPatch) of
        PlanNone \<Rightarrow> []
      | PlanRefused _ \<Rightarrow> []
      | plan \<Rightarrow>
          (case a_rows ans of
             None \<Rightarrow> [ReadRules]
           | Some rows \<Rightarrow>
               (case find (\<lambda>lb. lbRuleRowId lb = lbRuleRowId selected) rows of
                  None \<Rightarrow> [ReadRules]
                | Some fresh \<Rightarrow>
                    (if (case plan of PlanRecreate _ \<Rightarrow> a_rebuild ans | _ \<Rightarrow> True)
                     then [ReadRules, PostRule (replace_upsert selected form saPatch fresh)]
                     else [ReadRules]))))"

definition merge_patch :: "lb_rule \<Rightarrow> lb_rule \<Rightarrow> jsobj \<Rightarrow> lb_patch" where
  "merge_patch selected form saPatch =
     (let ch = change_of selected form saPatch
      in \<lparr>pt_args = (if saPatch \<noteq> [] then Some saPatch else None),
          pt_endpoints = when_changed (cs_endpointsChanged ch) (sc_endpoints form),
          pt_secondaryIPs = when_changed (cs_secondaryChanged ch) (sc_secondaryIPs form),
          pt_allowedSources = when_changed (cs_allowedChanged ch) (sc_allowedSources form)\<rparr>)"

definition same_tuple :: "jsobj \<Rightarrow> jsobj \<Rightarrow> bool" where
  "same_tuple a b \<longleftrightarrow>
     strict_eq (oget a ''externalIP'') (oget b ''externalIP'') \<and> strict_eq (oget a ''port'') (oget b ''port'') \<and>
     strict_eq (oget a ''protocol'') (oget b ''protocol'')"

definition reconcile_upsert :: "lb_rule \<Rightarrow> lb_rule \<Rightarrow> jsobj \<Rightarrow> lb_rule \<Rightarrow> lb_rule" where
  "reconcile_upsert selected form saPatch base =
     (let ch = change_of selected form saPatch
      in \<lparr>sc_args = spread (sc_args base) saPatch,
          sc_endpoints = (if cs_endpointsChanged ch then sc_endpoints form
                          else Some (map strip_read_fields (rows_of (sc_endpoints base)))),
          sc_secondaryIPs = Some (rows_of (if cs_secondaryChanged ch then sc_secondaryIPs form else sc_secondaryIPs base)),
          sc_allowedSources = Some (rows_of (if cs_allowedChanged ch then sc_allowedSources form else sc_allowedSources base))\<rparr>)"

definition delete_call :: "lb_rule \<Rightarrow> lb_call" where
  "delete_call selected =
     (if truthy (oget (sc_args selected) ''name'') then DeleteByName (oget (sc_args selected) ''name'') else DeleteByKey selected)"

definition reconcile_calls :: "edit_answers \<Rightarrow> lb_rule \<Rightarrow> lb_rule \<Rightarrow> jsobj \<Rightarrow> lb_call list" where
  "reconcile_calls ans selected form saPatch =
     (case a_rows ans of
        None \<Rightarrow> [ReadRules]
      | Some rows \<Rightarrow>
          (let base = (case find (\<lambda>lb. same_tuple (sc_args lb) (sc_args selected)) rows of Some fresh \<Rightarrow> fresh | None \<Rightarrow> selected);
               ch = change_of selected form saPatch;
               post = PostRule (reconcile_upsert selected form saPatch base)
           in if saPatch \<noteq> [] \<or> cs_secondaryChanged ch \<or> cs_allowedChanged ch
              then (if a_deleted ans then [ReadRules, delete_call selected, post] else [ReadRules, delete_call selected])
              else [ReadRules, post]))"

definition edit_calls :: "bool \<Rightarrow> edit_answers \<Rightarrow> lb_rule \<Rightarrow> lb_rule \<Rightarrow> lb_call list" where
  "edit_calls canMergePatch ans selected form =
     (let strategy = edit_strategy_of canMergePatch selected form;
          saPatch = arguments_patch strategy selected form
      in if strategy = CreateRule then [PostRule form]
         else if changed_fields (change_of selected form saPatch) = [] then []
         else (case strategy of
                 BlockFullproxy \<Rightarrow> []
               | ReplaceFullproxy \<Rightarrow> replace_calls ans selected form saPatch
               | MergePatch \<Rightarrow>
                   [PatchRule (oget (sc_args selected) ''externalIP'') (oget (sc_args selected) ''port'')
                      (oget (sc_args selected) ''protocol'') (merge_patch selected form saPatch)]
               | _ \<Rightarrow> reconcile_calls ans selected form saPatch))"

subsection \<open>What the read-back is held to\<close>

definition confirmRuleWritten :: "capability_map \<Rightarrow> flavor \<Rightarrow> lb_rule \<Rightarrow> lb_rule list \<Rightarrow> bool" where
  "confirmRuleWritten m flavor written rows =
     (if flavor = InferenceGateway
      then (case buildLBCreateBody m flavor written of None \<Rightarrow> False | Some body \<Rightarrow> lbRuleApplied (body, PostWrite) rows)
      else lbRuleAppeared written rows)"

text \<open>A patch names the rule by its tuple and is held to the members it carries.\<close>

definition patched_rule :: "lb_rule \<Rightarrow> lb_patch \<Rightarrow> jsobj \<Rightarrow> lb_rule" where
  "patched_rule selected patch saPatch =
     \<lparr>sc_args = spread (lbRuleIdentityArguments (sc_args selected)) saPatch, sc_endpoints = pt_endpoints patch,
      sc_secondaryIPs = pt_secondaryIPs patch, sc_allowedSources = pt_allowedSources patch\<rparr>"

definition observedRuleText ::
  "(string \<Rightarrow> jsobj \<Rightarrow> string) \<Rightarrow> lb_rule list option \<Rightarrow> (lb_rule list \<Rightarrow> bool) \<Rightarrow> (lb_rule list \<Rightarrow> bool) \<Rightarrow> string" where
  "observedRuleText tr rows listed_pred applied =
     (case rows of
        None \<Rightarrow> tr ''The rule could not be read back, so its current state is unknown.'' []
      | Some rs \<Rightarrow>
          (if applied rs then tr ''The rule reads back with the submitted values even though the gateway reported a failure.'' []
           else if listed_pred rs then tr ''The rule is still listed and does not hold the submitted values.'' []
           else tr ''The rule is no longer listed on the gateway.'' []))"

subsection \<open>Facts about patches\<close>

lemma map_of_spread: "map_of (spread kept patch) k = (case map_of (rev patch) k of Some v \<Rightarrow> Some v | None \<Rightarrow> map_of kept k)"
  unfolding spread_def
  by (induction patch arbitrary: kept) (auto simp: map_add_def update_conv split: option.splits)

lemma oget_spread:
  assumes "distinct (map fst patch)"
  shows "oget (spread kept patch) k = (if k \<in> set (map fst patch) then oget patch k else oget kept k)"
proof -
  have "map_of (rev patch) = map_of patch"
    using assms by (metis distinct_rev map_of_eqI map_of_inject_set rev_map set_map set_rev)
  then show ?thesis
    by (auto simp: oget_def map_of_spread map_of_eq_None_iff split: option.splits)
      (metis map_of_eq_None_iff option.distinct(1) set_map list.set_map)+
qed

lemma patch_distinct: "distinct (map fst edited) \<Longrightarrow> distinct (map fst (lbServiceArgumentsPatch edited readBack))"
  by (simp add: lbServiceArgumentsPatch_def distinct_map_filter)

lemma patch_mutable: "k \<in> set (map fst (lbServiceArgumentsPatch edited readBack)) \<Longrightarrow> k \<notin> set LB_IMMUTABLE_SERVICE_ARGUMENTS"
  by (auto simp: lbServiceArgumentsPatch_def edited_member_def Let_def split: if_splits)

lemma oget_in: "distinct (map fst ob) \<Longrightarrow> (k, v) \<in> set ob \<Longrightarrow> oget ob k = v"
  by (simp add: oget_def)

lemma replaceable_keys:
  "map fst (fullproxyReplaceableChanges patch) = map fst (filter (\<lambda>kv. replaceable_member kv \<noteq> []) patch)"
  by (induction patch) (auto simp: fullproxyReplaceableChanges_def replaceable_member_def)

lemma replaceable_distinct: "distinct (map fst patch) \<Longrightarrow> distinct (map fst (fullproxyReplaceableChanges patch))"
  by (simp add: replaceable_keys distinct_map_filter)

lemma replaceable_subset: "set (map fst (fullproxyReplaceableChanges patch)) \<subseteq> set (map fst patch)"
  unfolding replaceable_keys by auto

lemma replaceable_mem: "(k, v) \<in> set (fullproxyReplaceableChanges patch) \<Longrightarrow> \<not> starts_with k ''fc_'' \<Longrightarrow> (k, v) \<in> set patch"
  by (auto simp: fullproxyReplaceableChanges_def replaceable_member_def split: if_splits)

lemma arguments_patch_distinct:
  "distinct (map fst (sc_args form)) \<Longrightarrow> distinct (map fst (arguments_patch st selected form))"
  by (simp add: arguments_patch_def Let_def patch_distinct replaceable_distinct)

lemma arguments_patch_mutable:
  assumes "k \<in> set (map fst (arguments_patch st selected form))"
  shows "k \<notin> set LB_IMMUTABLE_SERVICE_ARGUMENTS"
proof (rule patch_mutable)
  show "k \<in> set (map fst (lbServiceArgumentsPatch (sc_args form) (sc_args selected)))"
    using assms replaceable_subset by (auto simp only: arguments_patch_def Let_def split: if_splits)
qed

lemma spread_immutable:
  assumes "distinct (map fst (sc_args form))" "k \<in> set LB_IMMUTABLE_SERVICE_ARGUMENTS"
  shows "oget (spread kept (arguments_patch st selected form)) k = oget kept k"
  using assms arguments_patch_mutable [of k st selected form] by (simp only: oget_spread arguments_patch_distinct) auto

lemma immutable_members [simp]:
  "''externalIP'' \<in> set LB_IMMUTABLE_SERVICE_ARGUMENTS" "''port'' \<in> set LB_IMMUTABLE_SERVICE_ARGUMENTS"
  "''protocol'' \<in> set LB_IMMUTABLE_SERVICE_ARGUMENTS" "''mode'' \<in> set LB_IMMUTABLE_SERVICE_ARGUMENTS"
  by (simp_all add: LB_IMMUTABLE_SERVICE_ARGUMENTS_def)

subsection \<open>The edit as a whole\<close>

fun is_delete :: "lb_call \<Rightarrow> bool" where
  "is_delete (DeleteByName _) = True"
| "is_delete (DeleteByKey _) = True"
| "is_delete _ = False"

lemma delete_call_is_delete [simp]: "is_delete (delete_call selected)"
  by (simp add: delete_call_def)

lemma strict_eq_trans: "strict_eq a b \<Longrightarrow> strict_eq b c \<Longrightarrow> strict_eq a c"
  by (metis strict_eq_imp_eq)

lemma strict_eq_self: "strict_eq a b \<Longrightarrow> strict_eq b b"
  by (metis strict_eq_imp_eq)

lemma replace_calls_no_delete: "d \<in> set (replace_calls ans selected form p) \<Longrightarrow> \<not> is_delete d"
  by (auto simp: replace_calls_def split: replace_plan.splits option.splits if_splits)

lemma delete_cases:
  assumes "d \<in> set (edit_calls cmp ans selected form)" "is_delete d"
  obtains rows where "edit_strategy_of cmp selected form = ReconcileRule" "a_rows ans = Some rows" "d = delete_call selected"
    "edit_calls cmp ans selected form = ReadRules # delete_call selected #
       (if a_deleted ans
        then [PostRule (reconcile_upsert selected form (arguments_patch ReconcileRule selected form)
                (case find (\<lambda>lb. same_tuple (sc_args lb) (sc_args selected)) rows of Some fresh \<Rightarrow> fresh | None \<Rightarrow> selected))]
        else [])"
proof (cases "edit_strategy_of cmp selected form")
  case ReconcileRule
  then have calls: "edit_calls cmp ans selected form = reconcile_calls ans selected form (arguments_patch ReconcileRule selected form)"
    using assms(1) by (auto simp: edit_calls_def Let_def split: if_splits)
  with assms show thesis
    using ReconcileRule that unfolding calls reconcile_calls_def
    by (auto simp: Let_def split: option.splits if_splits)
qed (use assms replace_calls_no_delete in \<open>auto simp: edit_calls_def Let_def split: if_splits\<close>)

text \<open>C11. An edit deletes a rule only to create it again. A delete is among the calls of an edit only
  on a backend without a merge patch, for a rule that is not fullproxy and an edit that keeps its
  address, port and protocol; it is the rule that was selected; and once the delete is confirmed
  the next and last call creates a rule under the same address, port and protocol.
\<close>

theorem edit_deletes_only_to_recreate:
  assumes "distinct (map fst (sc_args form))"
    and "d \<in> set (edit_calls cmp ans selected form)" and "is_delete d"
  shows "\<not> cmp \<and> oget (sc_args selected) ''mode'' \<noteq> jint 4 \<and> same_tuple (sc_args form) (sc_args selected) \<and>
         d = delete_call selected \<and>
         (if a_deleted ans
          then \<exists>r. edit_calls cmp ans selected form = [ReadRules, d, PostRule r] \<and> same_tuple (sc_args r) (sc_args selected)
          else edit_calls cmp ans selected form = [ReadRules, d])"
  using assms(2,3)
proof (cases rule: delete_cases)
  case (1 rows)
  from 1(1) have s: "\<not> cmp" "oget (sc_args selected) ''mode'' \<noteq> jint 4" "same_tuple (sc_args form) (sc_args selected)"
    by (auto simp: edit_strategy_of_def selectLBEditStrategy_def key_changed_def same_tuple_def split: if_splits)
  let ?base = "case find (\<lambda>lb. same_tuple (sc_args lb) (sc_args selected)) rows of Some fresh \<Rightarrow> fresh | None \<Rightarrow> selected"
  have "same_tuple (sc_args ?base) (sc_args selected)"
    using s(3) by (auto simp: same_tuple_def find_Some_iff split: option.splits intro: strict_eq_self)
  then have "same_tuple (sc_args (reconcile_upsert selected form (arguments_patch ReconcileRule selected form) ?base)) (sc_args selected)"
    by (simp add: reconcile_upsert_def Let_def same_tuple_def spread_immutable [OF assms(1)])
  then show ?thesis
    using 1 s by auto
qed

lemma identity_unchanged:
  "changedFullproxyIdentity a b = [] \<longleftrightarrow> list_all (\<lambda>f. identityValue f a = identityValue f b) FULLPROXY_IDENTITY_FIELDS"
  by (auto simp: changedFullproxyIdentity_def filter_empty_conv list_all_iff)

text \<open>Keys of the identity are no admission members, so a replace carries them as the form has them.\<close>

lemma identity_not_fc: "list_all (\<lambda>f. \<not> starts_with f ''fc_'') FULLPROXY_IDENTITY_FIELDS"
  by code_simp

lemma identity_kept: "list_all (\<lambda>f. f \<notin> set (''managed'' # ''id'' # READ_ONLY_SERVICE_ARGUMENTS)) FULLPROXY_IDENTITY_FIELDS"
  by code_simp

lemma identityValue_cong:
  assumes "oget a ''port'' = oget b ''port''" and "oget a f = oget b f"
  shows "identityValue f a = identityValue f b"
proof -
  consider "f = ''port''" | "f = ''portMax''" | "f = ''protocol''" | "f = ''path_match_mode''"
    | "f \<noteq> ''port''" "f \<noteq> ''portMax''" "f \<noteq> ''protocol''" "f \<noteq> ''path_match_mode''"
    by blast
  then show ?thesis
    by cases (use assms in \<open>simp_all add: identityValue_def\<close>)
qed

lemma upsert_args:
  "sc_args (replace_upsert selected form p fresh) =
     spread (without (sc_args fresh) (''managed'' # ''id'' # READ_ONLY_SERVICE_ARGUMENTS)) p"
  by (simp add: replace_upsert_def buildFullproxyReplaceBody_def Let_def)

lemma arguments_patch_replace:
  "arguments_patch ReplaceFullproxy selected form =
     fullproxyReplaceableChanges (lbServiceArgumentsPatch (sc_args form) (sc_args selected))"
  by (simp add: arguments_patch_def Let_def)

text \<open>A value the edit changed is the form's; any other is the one just read.\<close>

lemma upsert_member:
  assumes d: "distinct (map fst (sc_args form))" and f: "f \<in> set FULLPROXY_IDENTITY_FIELDS"
  shows "oget (sc_args (replace_upsert selected form (arguments_patch ReplaceFullproxy selected form) fresh)) f = oget (sc_args form) f
       \<or> oget (sc_args (replace_upsert selected form (arguments_patch ReplaceFullproxy selected form) fresh)) f = oget (sc_args fresh) f"
proof (cases "f \<in> set (map fst (arguments_patch ReplaceFullproxy selected form))")
  case False
  then show ?thesis
    using identity_kept f by (simp add: upsert_args oget_spread arguments_patch_distinct [OF d] list_all_iff)
next
  case True
  let ?p = "arguments_patch ReplaceFullproxy selected form"
  obtain v where v: "(f, v) \<in> set ?p"
    using True by auto
  have "\<not> starts_with f ''fc_''"
    using identity_not_fc f by (simp add: list_all_iff)
  then have "(f, v) \<in> set (lbServiceArgumentsPatch (sc_args form) (sc_args selected))"
    using v replaceable_mem unfolding arguments_patch_replace by blast
  then have "(f, v) \<in> set (sc_args form)"
    by (simp add: lbServiceArgumentsPatch_def)
  then have "oget (sc_args form) f = v" "oget ?p f = v"
    using d v arguments_patch_distinct [OF d, of ReplaceFullproxy selected] by (simp_all add: oget_in)
  then show ?thesis
    using True by (simp add: upsert_args oget_spread arguments_patch_distinct [OF d])
qed

text \<open>A replace hits the rule it was built from. When the edit leaves the identity of the selected
  fullproxy rule alone and the rule just read still has that identity and port, the body that is sent
  names the rule that was read, in every member the gateway keys a fullproxy rule by: the write
  replaces that rule and never creates a sibling.
\<close>

theorem replace_hits_the_same_rule:
  assumes "distinct (map fst (sc_args form))"
    and "changedFullproxyIdentity (sc_args form) (sc_args selected) = []"
    and "changedFullproxyIdentity (sc_args fresh) (sc_args selected) = []"
    and "oget (sc_args fresh) ''port'' = oget (sc_args selected) ''port''"
    and "oget (sc_args form) ''port'' = oget (sc_args selected) ''port''"
  shows "changedFullproxyIdentity
           (sc_args (replace_upsert selected form (arguments_patch ReplaceFullproxy selected form) fresh)) (sc_args fresh) = []"
proof -
  let ?u = "sc_args (replace_upsert selected form (arguments_patch ReplaceFullproxy selected form) fresh)"
  have port: "oget ?u ''port'' = oget (sc_args fresh) ''port''"
    using upsert_member [OF assms(1), of "''port''" selected fresh] assms(4,5) by (auto simp: FULLPROXY_IDENTITY_FIELDS_def)
  have "identityValue f ?u = identityValue f (sc_args fresh)" if f: "f \<in> set FULLPROXY_IDENTITY_FIELDS" for f
  proof -
    have same: "identityValue f (sc_args form) = identityValue f (sc_args fresh)"
      using assms(2,3) f by (simp add: identity_unchanged list_all_iff)
    consider "oget ?u f = oget (sc_args form) f" | "oget ?u f = oget (sc_args fresh) f"
      using upsert_member [OF assms(1) f] by blast
    then show ?thesis
    proof cases
      case 1
      then have "identityValue f ?u = identityValue f (sc_args form)"
        using port assms(4,5) by (intro identityValue_cong) simp_all
      with same show ?thesis by simp
    next
      case 2
      then show ?thesis
        using port by (intro identityValue_cong) simp_all
    qed
  qed
  then show ?thesis
    by (simp add: identity_unchanged list_all_iff)
qed


text \<open>
  A replace loses nothing that was changed elsewhere in between: every argument the edit did not
  touch, and every list it left alone, is the one just read.
\<close>

lemma replace_keeps_the_rule:
  assumes "distinct (map fst (fe_argumentsPatch edit))"
  shows "oget (sc_args (buildFullproxyReplaceBody fresh edit)) f =
      (if f \<in> set (map fst (fe_argumentsPatch edit)) then oget (fe_argumentsPatch edit) f
       else if f \<in> set (''managed'' # ''id'' # READ_ONLY_SERVICE_ARGUMENTS) then JUndef
       else oget (sc_args fresh) f)"
    "fe_secondaryIPs edit = None \<Longrightarrow> sc_secondaryIPs (buildFullproxyReplaceBody fresh edit) = Some (rows_of (sc_secondaryIPs fresh))"
    "fe_allowedSources edit = None \<Longrightarrow> sc_allowedSources (buildFullproxyReplaceBody fresh edit) = Some (rows_of (sc_allowedSources fresh))"
  using oget_spread [OF assms] by (simp_all add: buildFullproxyReplaceBody_def Let_def or_else_def)

text \<open>What the plan warns of: the listening rule is applied in place, rebuilt, or the change refused.\<close>

lemma plan_iff:
  "planFullproxyReplace ch = PlanNone \<longleftrightarrow> changed_fields ch = []"
  "planFullproxyReplace ch = PlanRefused fs \<longleftrightarrow> fs = changed_fields ch \<and> cs_secondaryChanged ch"
  by (auto simp: planFullproxyReplace_def changed_fields_def Let_def)

subsection \<open>A rule edited\<close>

definition demo_selected :: lb_rule where
  "demo_selected =
     \<lparr>sc_args = [(''externalIP'', JStr ''10.0.0.1''), (''port'', jint 443), (''protocol'', JStr ''tcp''), (''mode'', jint 4),
        (''host'', JStr ''a.example''), (''fc_mode'', JStr ''observe''), (''id'', JStr ''r1'')],
      sc_endpoints = Some [[(''endpointIP'', JStr ''10.1.0.1''), (''state'', JStr ''up'')]], sc_secondaryIPs = None, sc_allowedSources = None\<rparr>"

definition demo_form :: lb_rule where
  "demo_form =
     \<lparr>sc_args = [(''externalIP'', JStr ''10.0.0.1''), (''port'', jint 443), (''protocol'', JStr ''tcp''), (''mode'', jint 4),
        (''host'', JStr ''a.example''), (''fc_mode'', JStr []), (''path_match_mode'', JStr ''disabled''), (''probeTimeout'', jint 30)],
      sc_endpoints = Some [[(''endpointIP'', JStr ''10.1.0.1'')]], sc_secondaryIPs = Some [], sc_allowedSources = Some []\<rparr>"

definition demo_fresh :: lb_rule where
  "demo_fresh =
     \<lparr>sc_args = [(''externalIP'', JStr ''10.0.0.1''), (''port'', jint 443), (''protocol'', JStr ''TCP''), (''mode'', jint 4),
        (''host'', JStr ''a.example''), (''fc_mode'', JStr ''observe''), (''inactiveTimeOut'', jint 90), (''id'', JStr ''r1'')],
      sc_endpoints = Some [[(''endpointIP'', JStr ''10.1.0.1''), (''state'', JStr ''up'')]], sc_secondaryIPs = None, sc_allowedSources = None\<rparr>"

definition demo_l4 :: "lb_rule \<Rightarrow> lb_rule" where
  "demo_l4 rule = rule\<lparr>sc_args := AList.update ''mode'' (jint 1) (sc_args rule)\<rparr>"

theorem replace_hits_the_same_rule_witness:
  "changedFullproxyIdentity
     (sc_args (replace_upsert demo_selected demo_form (arguments_patch ReplaceFullproxy demo_selected demo_form) demo_fresh))
     (sc_args demo_fresh) = []"
proof (rule replace_hits_the_same_rule)
  show "distinct (map fst (sc_args demo_form))" "changedFullproxyIdentity (sc_args demo_form) (sc_args demo_selected) = []"
    "changedFullproxyIdentity (sc_args demo_fresh) (sc_args demo_selected) = []"
    "oget (sc_args demo_fresh) ''port'' = oget (sc_args demo_selected) ''port''"
    "oget (sc_args demo_form) ''port'' = oget (sc_args demo_selected) ''port''"
    by code_simp+
qed

lemma demo_replace_calls:
  "edit_calls True \<lparr>a_rows = Some [demo_fresh], a_deleted = False, a_rebuild = True\<rparr> demo_selected demo_form =
     [ReadRules, PostRule \<lparr>sc_args = [(''externalIP'', JStr ''10.0.0.1''), (''port'', jint 443), (''protocol'', JStr ''TCP''), (''mode'', jint 4),
        (''host'', JStr ''a.example''), (''fc_mode'', JStr ''inherit''), (''inactiveTimeOut'', jint 90), (''probeTimeout'', jint 30)],
      sc_endpoints = Some [[(''endpointIP'', JStr ''10.1.0.1'')]], sc_secondaryIPs = Some [], sc_allowedSources = Some []\<rparr>]"
  by code_simp


lemma demo_reconcile_calls:
  "length (edit_calls False \<lparr>a_rows = Some [], a_deleted = True, a_rebuild = True\<rparr> (demo_l4 demo_selected) (demo_l4 demo_form)) = 3 \<and>
   edit_calls False \<lparr>a_rows = Some [], a_deleted = True, a_rebuild = True\<rparr> (demo_l4 demo_selected) (demo_l4 demo_form) ! 1 =
     delete_call (demo_l4 demo_selected)"
  by code_simp

theorem edit_deletes_only_to_recreate_witness:
  "\<exists>r. edit_calls False \<lparr>a_rows = Some [], a_deleted = True, a_rebuild = True\<rparr> (demo_l4 demo_selected) (demo_l4 demo_form)
         = [ReadRules, delete_call (demo_l4 demo_selected), PostRule r] \<and> same_tuple (sc_args r) (sc_args (demo_l4 demo_selected))"
proof -
  have d: "distinct (map fst (sc_args (demo_l4 demo_form)))"
    by code_simp
  have m: "delete_call (demo_l4 demo_selected) \<in> set (edit_calls False \<lparr>a_rows = Some [], a_deleted = True, a_rebuild = True\<rparr>
      (demo_l4 demo_selected) (demo_l4 demo_form))"
    using demo_reconcile_calls nth_mem [of 1 "edit_calls False \<lparr>a_rows = Some [], a_deleted = True, a_rebuild = True\<rparr>
      (demo_l4 demo_selected) (demo_l4 demo_form)"] by simp
  show ?thesis
    using edit_deletes_only_to_recreate [OF d m delete_call_is_delete] by simp
qed

end
