(* ===== verification/Restore.thy ===== *)
theory Restore
  imports OpResult
begin

section \<open>Restoring a snapshot: what is sent and what the answers mean\<close>

text \<open>
  \<open>src/src/components/snapshot/wizardLogic.ts\<close> (the decisions of the restore wizard),
  \<open>src/src/components/snapshot/snapshotOpError.ts\<close> and, of
  \<open>src/src/connector/oam/snapshotApi.ts\<close>, \<open>request_restore_snapshot\<close> and the check of the
  answers to the other changes.

  The gateway's answer travels through the management service as opaque JSON, so an outcome is a
  dynamic value. Its member \<open>components\<close> is the service's own and is an array or missing.
\<close>

subsection \<open>Reading an outcome\<close>

definition asRestoreResult :: "jsv \<Rightarrow> jsv option" where
  "asRestoreResult body =
     (case body of
        JObj _ \<Rightarrow> (if vget body ''mode'' = JStr ''dry-run'' \<or> vget body ''mode'' = JStr ''commit'' then Some body else None)
      | _ \<Rightarrow> None)"

text \<open>\<open>v?.length\<close> as a value: of an array, of a string, and the member of an object.\<close>

fun length_of :: "jsv \<Rightarrow> jsv" where
  "length_of (JArr vs) = jint (int (length vs))"
| "length_of (JStr s) = jint (int (length s))"
| "length_of (JObj ob) = oget ob ''length''"
| "length_of _ = JUndef"

fun above_zero :: "jsv \<Rightarrow> bool" where
  "above_zero (JNum n) = num_lt (Fin 0) n"
| "above_zero (JStr s) = num_lt (Fin 0) (js_number s)"
| "above_zero (JBool b) = b"
| "above_zero v = num_lt (Fin 0) (js_number (js_string v))"

definition hasErrors :: "jsv \<Rightarrow> bool" where
  "hasErrors gw = above_zero (or_default (length_of (vget gw ''errors'')) (jint 0))"

definition isBusyStatus :: "jsv \<Rightarrow> bool" where
  "isBusyStatus status \<longleftrightarrow> status = jint 409 \<or> status = jint 503"

datatype dry_run_verdict = VPending | VOamError | VPass | VRefused | VBusy | VUnreadable | VOtherDomains

subsection \<open>The domains of a plan and the selection\<close>

text \<open>A set as the list of its members in insertion order: adding is \<open>List.insert\<close> at the end.\<close>


fun domain_name :: "jsv \<Rightarrow> string option" where
  "domain_name item = (case vget item ''domain'' of JStr name \<Rightarrow> (if name \<noteq> [] then Some name else None) | _ \<Rightarrow> None)"

definition add_domain :: "jsv \<Rightarrow> string list \<Rightarrow> string list" where
  "add_domain item seen = (case domain_name item of Some name \<Rightarrow> set_add name seen | None \<Rightarrow> seen)"

definition planDomains :: "jsv option \<Rightarrow> string list" where
  "planDomains outcome =
     (case outcome of
        None \<Rightarrow> []
      | Some out \<Rightarrow>
          (case asRestoreResult (vget out ''gateway_response'') of
             None \<Rightarrow> []
           | Some gw \<Rightarrow> (case vget gw ''plan'' of JArr items \<Rightarrow> fold add_domain items [] | _ \<Rightarrow> [])))"

datatype restore_selection = SelectAll | SelectSome "string list" | SelectNone

definition restoreSelection :: "string list \<Rightarrow> string list \<Rightarrow> restore_selection" where
  "restoreSelection domains checked =
     (if domains = [] then SelectAll
      else (let components = filter (\<lambda>d. d \<in> set checked) domains
            in if components = [] then SelectNone
               else if length components = length domains then SelectAll
               else SelectSome components))"

definition sameSet :: "jsv list \<Rightarrow> string list \<Rightarrow> bool" where
  "sameSet a b \<longleftrightarrow> length a = length b \<and> list_all (\<lambda>x. list_ex (\<lambda>y. strict_eq x (JStr y)) b) a"

definition outcome_components :: "jsv option \<Rightarrow> jsv list" where
  "outcome_components outcome =
     (case outcome of None \<Rightarrow> [] | Some out \<Rightarrow> (case vget out ''components'' of JArr vs \<Rightarrow> vs | _ \<Rightarrow> []))"

definition answersSelection :: "jsv option \<Rightarrow> string list option \<Rightarrow> bool" where
  "answersSelection outcome sent =
     (case sent of
        None \<Rightarrow> True
      | Some ds \<Rightarrow> sameSet (outcome_components outcome) ds \<and> sameSet (map JStr (planDomains outcome)) ds)"

subsection \<open>Judging a dry-run and a commit\<close>

fun is_array :: "jsv \<Rightarrow> bool" where
  "is_array (JArr _) = True"
| "is_array _ = False"

definition classifyDryRun :: "jsv option \<Rightarrow> string option \<Rightarrow> string list option \<Rightarrow> dry_run_verdict" where
  "classifyDryRun outcome oamError sent =
     (if oamError \<noteq> None then VOamError
      else (case outcome of
              None \<Rightarrow> VPending
            | Some out \<Rightarrow>
                (case asRestoreResult (vget out ''gateway_response'') of
                   None \<Rightarrow>
                     (if isBusyStatus (vget out ''gateway_status'') then VBusy
                      else if vget out ''gateway_status'' = jint 200 then VUnreadable else VRefused)
                 | Some gw \<Rightarrow>
                     (if vget out ''gateway_status'' \<noteq> jint 200 \<or> vget gw ''compatible'' = JBool False \<or> hasErrors gw
                        then VRefused
                      else if \<not> (vget gw ''mode'' = JStr ''dry-run'' \<and> vget gw ''compatible'' = JBool True \<and>
                                 vget gw ''result'' = JStr ''ok'' \<and> is_array (vget gw ''plan''))
                        then VUnreadable
                      else if answersSelection outcome sent then VPass
                      else VOtherDomains))))"

definition canContinueToCommit :: "jsv option \<Rightarrow> string option \<Rightarrow> bool \<Rightarrow> string list option \<Rightarrow> bool" where
  "canContinueToCommit outcome oamError loading sent \<longleftrightarrow> \<not> loading \<and> classifyDryRun outcome oamError sent = VPass"

datatype commit_branch =
    COamError | COk | COkNotDurable | COkDurabilityUnreported | CRolledBack | CRollbackFailed | CIncomplete | CUnconfirmed

definition commitChangedInstance :: "commit_branch \<Rightarrow> bool" where
  "commitChangedInstance branch \<longleftrightarrow> branch = COk \<or> branch = COkNotDurable \<or> branch = COkDurabilityUnreported \<or> branch = CRollbackFailed"

definition outcome_get :: "jsv option \<Rightarrow> string \<Rightarrow> jsv" where
  "outcome_get outcome k = (case outcome of None \<Rightarrow> JUndef | Some out \<Rightarrow> vget out k)"

definition classifyCommitResult :: "jsv option \<Rightarrow> string option \<Rightarrow> commit_branch" where
  "classifyCommitResult outcome oamError =
     (if oamError \<noteq> None then COamError
      else (let status = outcome_get outcome ''gateway_status''
            in (case asRestoreResult (outcome_get outcome ''gateway_response'') of
                  None \<Rightarrow> (if status = jint 400 \<or> isBusyStatus status then CIncomplete else CUnconfirmed)
                | Some gw \<Rightarrow>
                    (if vget gw ''result'' = JStr ''ROLLBACK-FAILED'' then CRollbackFailed
                     else if vget gw ''mode'' \<noteq> JStr ''commit'' then CUnconfirmed
                     else if vget gw ''result'' = JStr ''ok'' \<and> status = jint 200 then
                       (if vget gw ''persisted'' = JBool True then COk
                        else if vget gw ''persisted'' = JBool False then COkNotDurable
                        else COkDurabilityUnreported)
                     else if vget gw ''result'' = JStr ''rolled-back'' \<and> status = jint 500 then CRolledBack
                     else if \<not> truthy (vget gw ''result'') \<and> status = jint 400 then CIncomplete
                     else CUnconfirmed))))"

definition gatewayRefusalText :: "jsv \<Rightarrow> string option" where
  "gatewayRefusalText body =
     (case body of
        JStr s \<Rightarrow> (if js_trim s = [] then None else Some (js_trim s))
      | JObj _ \<Rightarrow>
          (if asRestoreResult body \<noteq> None then None
           else (case textOf (vget body ''result'') of
                   Some s \<Rightarrow> Some s
                 | None \<Rightarrow> textOf (vget body ''message'')))
      | _ \<Rightarrow> None)"

subsection \<open>The request and its result\<close>

datatype restore_mode = DryRun | Commit

fun mode_name :: "restore_mode \<Rightarrow> string" where
  "mode_name DryRun = ''dry-run''"
| "mode_name Commit = ''commit''"

definition call_kind :: "restore_mode \<Rightarrow> op_kind" where
  "call_kind mode = (if mode = DryRun then ReadOp else Mutation)"

text \<open>The request the call makes, if it makes one, and what its answer (or a thrown error) becomes.\<close>

record restore_request =
  q_snapshot :: string
  q_body :: jsobj

definition restore_request_for :: "string \<Rightarrow> restore_mode \<Rightarrow> int option \<Rightarrow> string list option \<Rightarrow> restore_request option" where
  "restore_request_for sid mode target components =
     (if components = Some [] then None
      else Some \<lparr>q_snapshot = sid,
                 q_body = [(''mode'', JStr (mode_name mode))]
                   @ (case target of None \<Rightarrow> [] | Some n \<Rightarrow> [(''target_instance_id'', jint n)])
                   @ (case components of None \<Rightarrow> [] | Some ds \<Rightarrow> [(''components'', JArr (map JStr ds))])\<rparr>)"

definition restore_result ::
  "int \<Rightarrow> restore_mode \<Rightarrow> string list option \<Rightarrow> js_error + simple_response option \<Rightarrow> op_result" where
  "restore_result now mode components call =
     (if components = Some []
      then bare_result Invalid ''snapshot.restore.client_empty_selection'' (STATUS_LOCALE_KEYS Invalid) False
      else (case call of
              Inl err \<Rightarrow> fromNetworkError ''snapshot.restore'' err (call_kind mode)
            | Inr answer \<Rightarrow>
                (let res = fromSimpleResponse now answer ''snapshot.restore'' (call_kind mode)
                 in if op_status res = Confirmed \<and> \<not> truthy (op_data res)
                    then res\<lparr>op_status := Failed, op_code := ''snapshot.restore.malformed_response'', op_data := JUndef\<rparr>
                    else res)))"

text \<open>The identity check of the answers to the other snapshot changes.\<close>

definition isSnapshot :: "jsv \<Rightarrow> bool" where
  "isSnapshot v \<longleftrightarrow> (case v of JObj _ \<Rightarrow> textOf (vget v ''id'') \<noteq> None | _ \<Rightarrow> False)"

definition snapshotResult :: "op_result \<Rightarrow> string \<Rightarrow> string option \<Rightarrow> bool option \<Rightarrow> op_result" where
  "snapshotResult res operation expectedId expectedPinned =
     (if op_status res \<noteq> Confirmed \<or>
         (isSnapshot (op_data res) \<and>
          (expectedId = None \<or> vget (op_data res) ''id'' = JStr (the expectedId)) \<and>
          (expectedPinned = None \<or> vget (op_data res) ''pinned'' = JBool (the expectedPinned)))
      then res
      else res\<lparr>op_status := Unknown, op_code := operation @ ''.malformed_response'',
                op_localeKey := STATUS_LOCALE_KEYS Unknown, op_retryable := False, op_data := JUndef\<rparr>)"

definition snapshotOpErrorText :: "(string \<Rightarrow> jsobj \<Rightarrow> string) \<Rightarrow> op_result \<Rightarrow> string" where
  "snapshotOpErrorText tr res =
     (case map_option js_trim (op_rawDetail res) of
        Some (c # d) \<Rightarrow> tr (op_localeKey res) [] @ '' '' @ c # d
      | _ \<Rightarrow> tr (op_localeKey res) [])"

subsection \<open>Facts about plans and selections\<close>


lemma domain_name_nonempty: "domain_name item = Some name \<Longrightarrow> name \<noteq> []"
  by (auto split: jsv.splits if_splits)

declare domain_name.simps [simp del]

lemma fold_add_domain:
  "distinct seen \<Longrightarrow> [] \<notin> set seen \<Longrightarrow>
   distinct (fold add_domain items seen) \<and> [] \<notin> set (fold add_domain items seen)"
  by (induction items arbitrary: seen)
    (auto simp: add_domain_def dest: domain_name_nonempty split: option.splits)

lemma planDomains_ok: "distinct (planDomains out)" "[] \<notin> set (planDomains out)"
  using fold_add_domain [of "[]"] by (auto simp: planDomains_def split: option.splits jsv.splits)

lemma set_fold_add_domain: "set (fold add_domain items seen) = set seen \<union> {n. \<exists>i\<in>set items. domain_name i = Some n}"
  by (induction items arbitrary: seen) (auto simp: add_domain_def split: option.splits)

lemma filter_same_length: "length (filter P xs) = length xs \<longleftrightarrow> filter P xs = xs"
  by (metis filter_True filter_id_conv length_filter_less less_irrefl)

lemma restoreSelection_some:
  assumes "restoreSelection domains checked = SelectSome cs"
  shows "cs = filter (\<lambda>d. d \<in> set checked) domains" "cs \<noteq> []" "set cs \<subset> set domains" "set cs \<subseteq> set checked"
proof -
  from assms show cs: "cs = filter (\<lambda>d. d \<in> set checked) domains" and "cs \<noteq> []"
    by (auto simp: restoreSelection_def Let_def split: if_splits)
  have "cs \<noteq> domains"
    using assms cs by (auto simp: restoreSelection_def Let_def split: if_splits)
  then show "set cs \<subset> set domains"
    using cs by (auto simp: filter_id_conv)
  show "set cs \<subseteq> set checked"
    using cs by auto
qed

lemma restoreSelection_all: "restoreSelection domains checked = SelectAll \<longleftrightarrow> set domains \<subseteq> set checked"
proof (cases "domains = []")
  case False
  have "filter (\<lambda>d. d \<in> set checked) domains = domains \<longleftrightarrow> set domains \<subseteq> set checked"
    by (auto simp: filter_id_conv)
  then show ?thesis
    using False by (auto simp: restoreSelection_def Let_def filter_same_length)
qed (simp add: restoreSelection_def)

lemma restoreSelection_none:
  "restoreSelection domains checked = SelectNone \<longleftrightarrow> domains \<noteq> [] \<and> set domains \<inter> set checked = {}"
  by (auto simp: restoreSelection_def Let_def filter_empty_conv)

text \<open>An accepted answer names exactly the domains that were sent.\<close>

lemma sameSet_texts:
  assumes "sameSet (map JStr xs) ys" and "distinct xs"
  shows "set xs = set ys"
proof -
  have len: "length xs = length ys" and sub: "set xs \<subseteq> set ys"
    using assms(1) by (auto simp: sameSet_def list_all_iff list_ex_iff)
  have "card (set ys) \<le> card (set xs)"
    using len distinct_card [OF assms(2)] card_length [of ys] by simp
  with sub show ?thesis
    by (metis List.finite_set card_seteq)
qed

lemma answersSelection_domains:
  "answersSelection outcome (Some ds) \<Longrightarrow> set (planDomains outcome) = set ds"
  by (auto simp: answersSelection_def dest!: sameSet_texts [OF _ planDomains_ok(1)])

lemma asRestoreResult_Some: "asRestoreResult body = Some gw \<Longrightarrow> gw = body"
  by (auto simp: asRestoreResult_def split: jsv.splits if_splits)

subsection \<open>The verdicts\<close>

text \<open>
  A dry-run passes exactly when the gateway answered 200 with a dry-run result that says
  compatible and ok, has a plan and no errors, for the domains that were sent.
\<close>

lemma dry_run_pass_iff:
  "classifyDryRun (Some out) None sent = VPass \<longleftrightarrow>
     (let gw = vget out ''gateway_response''
      in asRestoreResult gw \<noteq> None \<and> vget out ''gateway_status'' = jint 200 \<and>
         vget gw ''mode'' = JStr ''dry-run'' \<and> vget gw ''compatible'' = JBool True \<and>
         vget gw ''result'' = JStr ''ok'' \<and> is_array (vget gw ''plan'') \<and> \<not> hasErrors gw \<and>
         answersSelection (Some out) sent)"
  by (auto simp: classifyDryRun_def Let_def split: option.splits dest: asRestoreResult_Some)

text \<open>The commit verdict claims exactly what the gateway's status and body say together. Success
  is shown only for a commit result that says ok with status 200 and says it was persisted; the
  two qualified successes are the same answer with persisted false or not said; a rollback needs
  its own 500; a failed rollback is never hidden by the status it came with; and the instance
  counts as changed exactly for the answers that may have changed it.
\<close>

theorem commit_verdict:
  "let gw = vget out ''gateway_response''; res = vget gw ''result''; verdict = classifyCommitResult (Some out) None;
       ok = (asRestoreResult gw \<noteq> None \<and> vget gw ''mode'' = JStr ''commit'' \<and> res = JStr ''ok'' \<and>
             vget out ''gateway_status'' = jint 200);
       failed = (asRestoreResult gw \<noteq> None \<and> res = JStr ''ROLLBACK-FAILED'')
   in (verdict = COk) = (ok \<and> vget gw ''persisted'' = JBool True) \<and>
      (verdict = COkNotDurable) = (ok \<and> vget gw ''persisted'' = JBool False) \<and>
      (verdict = CRolledBack) = (asRestoreResult gw \<noteq> None \<and> vget gw ''mode'' = JStr ''commit'' \<and>
          res = JStr ''rolled-back'' \<and> vget out ''gateway_status'' = jint 500) \<and>
      (verdict = CRollbackFailed) = failed \<and>
      commitChangedInstance verdict = (if failed then True else ok)"
proof (cases "asRestoreResult (vget out ''gateway_response'')")
  case None
  then show ?thesis
    by (simp add: classifyCommitResult_def outcome_get_def Let_def commitChangedInstance_def)
next
  case (Some gw)
  then have "gw = vget out ''gateway_response''"
    by (rule asRestoreResult_Some)
  with Some show ?thesis
    by (simp add: classifyCommitResult_def outcome_get_def Let_def commitChangedInstance_def)
qed

end
