(* ===== verification/RestoreWizard.thy ===== *)
theory RestoreWizard
  imports Restore
begin

section \<open>The restore wizard as a state machine\<close>

text \<open>
  \<open>src/src/components/snapshot/RestoreWizard.tsx\<close>: the dialog that dry-runs a snapshot, lets the
  operator choose its domains, and commits. The page mounts it for one snapshot and unmounts it when
  it closes (\<open>src/src/pages/maintenance/SnapshotPage.tsx\<close>).

  A \<open>view\<close> holds the state variables of the component. What the screen shows and what the handlers
  close over is the view of the last render, \<open>w_rendered\<close>; the handlers write to the current view,
  \<open>w_cur\<close>, and two clicks may run before the next render. The refs are read and written at once.
  \<open>Render\<close> also runs the effect of the step when the target changed, and the render that the
  effect's own updates schedule. A request in flight is a continuation in \<open>w_pending\<close>; its answer
  may come at any later time, in any order, also after the dialog closed. \<open>w_trace\<close> records the
  requests sent and the dry-run answers read, newest first; no definition of the code reads it.
\<close>

datatype restore_step = StepDryRun | StepConfirm | StepCommitting | StepResult

record snapshot =
  sn_id :: "string option"
  sn_name :: string

text \<open>What an undo carries: the components of the restore it undoes, themselves maybe undefined.\<close>

record restore_target =
  t_snapshot :: snapshot
  t_undo :: "string list option option"

record picked_dry_run =
  pk_ident :: nat
  pk_components :: "string list"
  pk_loading :: bool
  pk_outcome :: "jsv option"
  pk_error :: "string option"

record view =
  v_target :: restore_target
  v_step :: restore_step
  v_dryLoading :: bool
  v_dryOutcome :: "jsv option"
  v_dryError :: "string option"
  v_checked :: "string list"
  v_picked :: "picked_dry_run option"
  v_confirmText :: string
  v_commitOutcome :: "jsv option"
  v_commitError :: "string option"
  v_commitUnknown :: bool
  v_sent :: "string list option"
  v_undoLoading :: bool
  v_undoError :: "string option"

text \<open>The continuations: what each awaited call closes over.\<close>

datatype pending =
    DryPending nat string "string list option option"
  | PickedPending nat string nat "string list"
  | CommitPending nat string "string list option"
  | UndoPending string "string list option"

datatype trace_item =
    Sent restore_mode string "string list option"
  | Verified string "string list option" jsv

record wizard =
  w_cur :: view
  w_rendered :: view
  w_renders :: nat
  w_due :: bool
  w_mounted :: bool
  w_committed :: bool
  w_inFlight :: bool
  w_run :: nat
  w_pending :: "pending list"
  w_trace :: "trace_item list"

definition AUDIT_SINK_DOMAIN :: string where
  "AUDIT_SINK_DOMAIN = ''auditsink''"

subsection \<open>What a render derives from the state\<close>

definition truthy_id :: "snapshot \<Rightarrow> string option" where
  "truthy_id s = (case sn_id s of Some (c # i) \<Rightarrow> Some (c # i) | _ \<Rightarrow> None)"

definition fullPass :: "view \<Rightarrow> bool" where
  "fullPass v = canContinueToCommit (v_dryOutcome v) (v_dryError v) (v_dryLoading v) None"

definition domains_of :: "view \<Rightarrow> string list" where
  "domains_of v = (if fullPass v then planDomains (v_dryOutcome v) else [])"

definition selection_of :: "view \<Rightarrow> restore_selection" where
  "selection_of v = restoreSelection (domains_of v) (v_checked v)"

definition components_of :: "view \<Rightarrow> string list option" where
  "components_of v = (case selection_of v of SelectSome cs \<Rightarrow> Some cs | _ \<Rightarrow> None)"

definition pickedNow :: "view \<Rightarrow> picked_dry_run option" where
  "pickedNow v =
     (case (components_of v, v_picked v) of
        (Some cs, Some p) \<Rightarrow> (if join_with '','' (pk_components p) = join_with '','' cs then Some p else None)
      | _ \<Rightarrow> None)"

definition needsPickedDryRun :: "view \<Rightarrow> bool" where
  "needsPickedDryRun v \<longleftrightarrow> fullPass v \<and> components_of v \<noteq> None \<and> pickedNow v = None"

definition canContinue :: "view \<Rightarrow> bool" where
  "canContinue v =
     (if selection_of v = SelectAll then fullPass v
      else (case pickedNow v of
              None \<Rightarrow> False
            | Some p \<Rightarrow> canContinueToCommit (pk_outcome p) (pk_error p) (pk_loading p) (Some (pk_components p))))"

definition undoMissing :: "view \<Rightarrow> string list" where
  "undoMissing v =
     (if fullPass v
      then filter (\<lambda>d. d \<notin> set (domains_of v)) (case t_undo (v_target v) of Some (Some cs) \<Rightarrow> cs | _ \<Rightarrow> [])
      else [])"

definition restoresAuditSinks :: "view \<Rightarrow> bool" where
  "restoresAuditSinks v \<longleftrightarrow> AUDIT_SINK_DOMAIN \<in> set (case components_of v of Some cs \<Rightarrow> cs | None \<Rightarrow> domains_of v)"

definition preRestoreId :: "view \<Rightarrow> string option" where
  "preRestoreId v =
     (case outcome_get (v_commitOutcome v) ''pre_restore_snapshot_id'' of JStr (c # i) \<Rightarrow> Some (c # i) | _ \<Rightarrow> None)"

definition canUndo :: "view \<Rightarrow> bool" where
  "canUndo v \<longleftrightarrow> preRestoreId v \<noteq> None \<and> commitChangedInstance (classifyCommitResult (v_commitOutcome v) (v_commitError v))"

subsection \<open>Opening and the effect of the step\<close>

definition start_view :: "snapshot \<Rightarrow> view" where
  "start_view s =
     \<lparr>v_target = \<lparr>t_snapshot = s, t_undo = None\<rparr>, v_step = StepDryRun, v_dryLoading = False, v_dryOutcome = None,
      v_dryError = None, v_checked = [], v_picked = None, v_confirmText = [], v_commitOutcome = None,
      v_commitError = None, v_commitUnknown = False, v_sent = None, v_undoLoading = False, v_undoError = None\<rparr>"

definition open_wizard :: "snapshot \<Rightarrow> wizard" where
  "open_wizard s =
     \<lparr>w_cur = start_view s, w_rendered = start_view s, w_renders = 0, w_due = True, w_mounted = True,
      w_committed = False, w_inFlight = False, w_run = 0, w_pending = [], w_trace = []\<rparr>"

definition reset_view :: "view \<Rightarrow> view" where
  "reset_view v =
     v\<lparr>v_step := StepDryRun, v_dryLoading := True, v_dryOutcome := None, v_dryError := None, v_checked := [],
       v_picked := None, v_confirmText := [], v_commitOutcome := None, v_commitError := None,
       v_commitUnknown := False, v_sent := None, v_undoError := None\<rparr>"

text \<open>A call of \<open>request_restore_snapshot\<close>: an empty selection is answered without a request.\<close>

definition send_restore :: "restore_mode \<Rightarrow> string \<Rightarrow> string list option \<Rightarrow> wizard \<Rightarrow> wizard" where
  "send_restore mode sid components w =
     (case restore_request_for sid mode None components of
        None \<Rightarrow> w
      | Some _ \<Rightarrow> w\<lparr>w_trace := Sent mode sid components # w_trace w\<rparr>)"

definition await :: "pending \<Rightarrow> wizard \<Rightarrow> wizard" where
  "await p w = w\<lparr>w_pending := w_pending w @ [p]\<rparr>"

definition run_effect :: "wizard \<Rightarrow> wizard" where
  "run_effect w =
     (let w1 = w\<lparr>w_run := w_run w + 1, w_due := False\<rparr>; target = v_target (w_cur w)
      in (case truthy_id (t_snapshot target) of
            None \<Rightarrow> w1
          | Some sid \<Rightarrow>
              await (DryPending (w_run w1) sid (t_undo target))
                (send_restore DryRun sid None (w1\<lparr>w_cur := reset_view (w_cur w1), w_inFlight := False\<rparr>))))"

definition render :: "wizard \<Rightarrow> wizard" where
  "render w =
     (let w1 = (if w_due w then run_effect w else w)
      in w1\<lparr>w_rendered := w_cur w1, w_renders := w_renders w1 + 1\<rparr>)"

subsection \<open>The handlers\<close>

definition set_toggle :: "string \<Rightarrow> string list \<Rightarrow> string list" where
  "set_toggle d xs = (if d \<in> set xs then remove1 d xs else xs @ [d])"

text \<open>The check boxes are there once the whole dry-run passed, in its step.\<close>

definition choosing :: "view \<Rightarrow> bool" where
  "choosing v \<longleftrightarrow> v_step v = StepDryRun \<and> v_dryOutcome v \<noteq> None \<and> classifyDryRun (v_dryOutcome v) None None = VPass"

definition handleToggle :: "string \<Rightarrow> wizard \<Rightarrow> wizard" where
  "handleToggle d w =
     (if choosing (w_rendered w) \<and> d \<in> set (planDomains (v_dryOutcome (w_rendered w)))
      then w\<lparr>w_cur := (w_cur w)\<lparr>v_checked := set_toggle d (v_checked (w_cur w))\<rparr>\<rparr> else w)"

definition handleSelectAll :: "bool \<Rightarrow> wizard \<Rightarrow> wizard" where
  "handleSelectAll selected w =
     (if choosing (w_rendered w)
      then w\<lparr>w_cur := (w_cur w)\<lparr>v_checked := (if selected then domains_of (w_rendered w) else [])\<rparr>\<rparr>
      else w)"

definition handlePickedDryRun :: "wizard \<Rightarrow> wizard" where
  "handlePickedDryRun w =
     (let v = w_rendered w
      in if v_step v \<noteq> StepDryRun \<or> \<not> needsPickedDryRun v then w
         else (case (truthy_id (t_snapshot (v_target v)), components_of v) of
                 (Some sid, Some mine) \<Rightarrow>
                   await (PickedPending (w_run w) sid (w_renders w) mine)
                     (send_restore DryRun sid (Some mine)
                        (w\<lparr>w_cur := (w_cur w)\<lparr>v_picked := Some \<lparr>pk_ident = w_renders w, pk_components = mine,
                             pk_loading = True, pk_outcome = None, pk_error = None\<rparr>\<rparr>\<rparr>))
               | _ \<Rightarrow> w))"

definition handleContinue :: "wizard \<Rightarrow> wizard" where
  "handleContinue w =
     (let v = w_rendered w
      in if v_step v = StepDryRun \<and> \<not> needsPickedDryRun v \<and> canContinue v
         then w\<lparr>w_cur := (w_cur w)\<lparr>v_step := StepConfirm\<rparr>\<rparr> else w)"

definition handleConfirmText :: "string \<Rightarrow> wizard \<Rightarrow> wizard" where
  "handleConfirmText s w =
     (if v_step (w_rendered w) = StepConfirm then w\<lparr>w_cur := (w_cur w)\<lparr>v_confirmText := s\<rparr>\<rparr> else w)"

definition handleCommit :: "string \<Rightarrow> wizard \<Rightarrow> wizard" where
  "handleCommit instanceName w =
     (let v = w_rendered w
      in if v_step v \<noteq> StepConfirm \<or> v_confirmText v \<noteq> instanceName \<or> \<not> canContinue v then w
         else (case truthy_id (t_snapshot (v_target v)) of
                 None \<Rightarrow> w
               | Some sid \<Rightarrow>
                   (if w_inFlight w then w
                    else await (CommitPending (w_run w) sid (components_of v))
                           (send_restore Commit sid (components_of v)
                              (w\<lparr>w_inFlight := True, w_committed := True,
                                 w_cur := (w_cur w)\<lparr>v_step := StepCommitting, v_sent := components_of v\<rparr>\<rparr>)))))"

definition handleUndo :: "wizard \<Rightarrow> wizard" where
  "handleUndo w =
     (let v = w_rendered w
      in if v_step v \<noteq> StepResult \<or> \<not> canUndo v \<or> v_undoLoading v then w
         else (case preRestoreId v of
                 None \<Rightarrow> w
               | Some pre \<Rightarrow>
                   await (UndoPending pre (v_sent v))
                     (w\<lparr>w_cur := (w_cur w)\<lparr>v_undoLoading := True, v_undoError := None\<rparr>\<rparr>)))"

definition handleDialogClose :: "wizard \<Rightarrow> wizard" where
  "handleDialogClose w = (if v_step (w_rendered w) = StepCommitting then w else w\<lparr>w_mounted := False\<rparr>)"

subsection \<open>The answers\<close>

definition usable :: "op_result \<Rightarrow> bool" where
  "usable res \<longleftrightarrow> op_status res = Confirmed \<and> truthy (op_data res)"

definition on_dry_run :: "(string \<Rightarrow> jsobj \<Rightarrow> string) \<Rightarrow> op_result \<Rightarrow> nat \<Rightarrow> string \<Rightarrow> string list option option \<Rightarrow> wizard \<Rightarrow> wizard" where
  "on_dry_run tr res run sid undo w =
     (if run \<noteq> w_run w then w
      else if usable res then
        (let listed = planDomains (Some (op_data res))
         in w\<lparr>w_cur := (w_cur w)\<lparr>v_dryLoading := False, v_dryOutcome := Some (op_data res),
                v_checked := (case undo of Some (Some wanted) \<Rightarrow> filter (\<lambda>d. d \<in> set wanted) listed | _ \<Rightarrow> listed)\<rparr>,
              w_trace := Verified sid None (op_data res) # w_trace w\<rparr>)
      else w\<lparr>w_cur := (w_cur w)\<lparr>v_dryLoading := False, v_dryError := Some (snapshotOpErrorText tr res)\<rparr>\<rparr>)"

definition on_picked :: "(string \<Rightarrow> jsobj \<Rightarrow> string) \<Rightarrow> op_result \<Rightarrow> nat \<Rightarrow> string \<Rightarrow> nat \<Rightarrow> string list \<Rightarrow> wizard \<Rightarrow> wizard" where
  "on_picked tr res run sid ident mine w =
     (if run \<noteq> w_run w then w
      else (case v_picked (w_cur w) of
              None \<Rightarrow> w
            | Some p \<Rightarrow>
                (if pk_ident p \<noteq> ident then w
                 else if usable res
                 then w\<lparr>w_cur := (w_cur w)\<lparr>v_picked := Some \<lparr>pk_ident = ident, pk_components = mine, pk_loading = False,
                             pk_outcome = Some (op_data res), pk_error = None\<rparr>\<rparr>,
                        w_trace := Verified sid (Some mine) (op_data res) # w_trace w\<rparr>
                 else w\<lparr>w_cur := (w_cur w)\<lparr>v_picked := Some \<lparr>pk_ident = ident, pk_components = mine, pk_loading = False,
                             pk_outcome = None, pk_error = Some (snapshotOpErrorText tr res)\<rparr>\<rparr>\<rparr>)))"

definition on_commit :: "(string \<Rightarrow> jsobj \<Rightarrow> string) \<Rightarrow> op_result \<Rightarrow> nat \<Rightarrow> wizard \<Rightarrow> wizard" where
  "on_commit tr res run w =
     (if run \<noteq> w_run w then w
      else if usable res
      then w\<lparr>w_cur := (w_cur w)\<lparr>v_commitOutcome := Some (op_data res), v_step := StepResult\<rparr>\<rparr>
      else w\<lparr>w_cur := (w_cur w)\<lparr>v_commitUnknown := (op_status res = Unknown),
               v_commitError := Some (snapshotOpErrorText tr res), v_step := StepResult\<rparr>\<rparr>)"

text \<open>The read of the pre-restore snapshot throws, or answers a snapshot or nothing.\<close>

definition undo_failed :: "(string \<Rightarrow> jsobj \<Rightarrow> string) \<Rightarrow> string \<Rightarrow> string" where
  "undo_failed tr message = tr ''The pre-restore snapshot could not be read: {{error}}'' [(''error'', JStr message)]"

definition on_undo :: "(string \<Rightarrow> jsobj \<Rightarrow> string) \<Rightarrow> string + snapshot option \<Rightarrow> string list option \<Rightarrow> wizard \<Rightarrow> wizard" where
  "on_undo tr res sent w =
     (let fail = (\<lambda>m. w\<lparr>w_cur := (w_cur w)\<lparr>v_undoError := Some (undo_failed tr m), v_undoLoading := False\<rparr>\<rparr>)
      in (case res of
            Inl m \<Rightarrow> fail m
          | Inr None \<Rightarrow> fail (tr ''The answer holds no snapshot.'' [])
          | Inr (Some pre) \<Rightarrow>
              (if truthy_id pre = None then fail (tr ''The answer holds no snapshot.'' [])
               else w\<lparr>w_cur := (w_cur w)\<lparr>v_target := \<lparr>t_snapshot = pre, t_undo = Some sent\<rparr>, v_undoLoading := False\<rparr>,
                      w_due := True\<rparr>)))"

text \<open>An answer is that of a restore call or of the read an undo makes.\<close>

datatype answer = CallAnswer int "js_error + simple_response option" | ReadAnswer "string + snapshot option"

fun resume :: "(string \<Rightarrow> jsobj \<Rightarrow> string) \<Rightarrow> pending \<Rightarrow> answer \<Rightarrow> wizard \<Rightarrow> wizard" where
  "resume tr (DryPending run sid undo) (CallAnswer now call) w =
     on_dry_run tr (restore_result now DryRun None call) run sid undo w"
| "resume tr (PickedPending run sid ident mine) (CallAnswer now call) w =
     on_picked tr (restore_result now DryRun (Some mine) call) run sid ident mine w"
| "resume tr (CommitPending run sid components) (CallAnswer now call) w =
     on_commit tr (restore_result now Commit components call) run w"
| "resume tr (UndoPending pre sent) (ReadAnswer res) w = on_undo tr res sent w"
| "resume tr p a w = w"

fun answers :: "answer \<Rightarrow> pending \<Rightarrow> bool" where
  "answers (ReadAnswer _) (UndoPending _ _) = True"
| "answers (CallAnswer _ _) (UndoPending _ _) = False"
| "answers (CallAnswer _ _) p = True"
| "answers (ReadAnswer _) p = False"

subsection \<open>The steps\<close>

datatype wizard_event =
    Render
  | Toggle string
  | ToggleAll bool
  | ClickPickedDryRun
  | ClickContinue
  | TypeText string
  | ClickCommit
  | ClickUndo
  | ClickClose
  | Answer nat answer

definition remove_nth :: "nat \<Rightarrow> 'a list \<Rightarrow> 'a list" where
  "remove_nth n xs = take n xs @ drop (Suc n) xs"

fun wizard_step :: "(string \<Rightarrow> jsobj \<Rightarrow> string) \<Rightarrow> string \<Rightarrow> wizard_event \<Rightarrow> wizard \<Rightarrow> wizard" where
  "wizard_step tr name Render w = render w"
| "wizard_step tr name (Toggle d) w = handleToggle d w"
| "wizard_step tr name (ToggleAll b) w = handleSelectAll b w"
| "wizard_step tr name ClickPickedDryRun w = handlePickedDryRun w"
| "wizard_step tr name ClickContinue w = handleContinue w"
| "wizard_step tr name (TypeText s) w = handleConfirmText s w"
| "wizard_step tr name ClickCommit w = handleCommit name w"
| "wizard_step tr name ClickUndo w = handleUndo w"
| "wizard_step tr name ClickClose w = handleDialogClose w"
| "wizard_step tr name (Answer n a) w =
     (if n < length (w_pending w) \<and> answers a (w_pending w ! n)
      then resume tr (w_pending w ! n) a (w\<lparr>w_pending := remove_nth n (w_pending w)\<rparr>) else w)"

text \<open>An unmounted component ignores what still reaches it.\<close>

definition step_if_mounted :: "(string \<Rightarrow> jsobj \<Rightarrow> string) \<Rightarrow> string \<Rightarrow> wizard_event \<Rightarrow> wizard \<Rightarrow> wizard" where
  "step_if_mounted tr name e w = (if w_mounted w then wizard_step tr name e w else w)"

definition run_wizard :: "(string \<Rightarrow> jsobj \<Rightarrow> string) \<Rightarrow> string \<Rightarrow> snapshot \<Rightarrow> wizard_event list \<Rightarrow> wizard" where
  "run_wizard tr name s es = fold (step_if_mounted tr name) es (open_wizard s)"

subsection \<open>Evidence: what the trace says was verified\<close>

definition id_of :: "view \<Rightarrow> string option" where
  "id_of v = truthy_id (t_snapshot (v_target v))"

definition no_comma :: "string list \<Rightarrow> bool" where
  "no_comma ds \<longleftrightarrow> list_all (\<lambda>d. CHR '','' \<notin> set d) ds"

text \<open>The domains a whole dry-run lists carry no comma.\<close>

fun plain_item :: "trace_item \<Rightarrow> bool" where
  "plain_item (Verified sid None out) = no_comma (planDomains (Some out))"
| "plain_item _ = True"

definition passed :: "trace_item list \<Rightarrow> string \<Rightarrow> string list option \<Rightarrow> bool" where
  "passed t sid cs \<longleftrightarrow>
     list_ex (\<lambda>i. case i of Verified s c out \<Rightarrow> s = sid \<and> c = cs \<and> classifyDryRun (Some out) None cs = VPass | _ \<Rightarrow> False) t"

lemma passed_iff: "passed t sid cs \<longleftrightarrow> (\<exists>out. Verified sid cs out \<in> set t \<and> classifyDryRun (Some out) None cs = VPass)"
proof -
  have "list_ex (\<lambda>i. case i of Verified s c out \<Rightarrow> s = sid \<and> c = cs \<and> classifyDryRun (Some out) None cs = VPass | _ \<Rightarrow> False) t \<longleftrightarrow>
      (\<exists>out. Verified sid cs out \<in> set t \<and> classifyDryRun (Some out) None cs = VPass)"
  proof (induction t)
    case (Cons i t)
    then show ?case
      by (cases i) auto
  qed simp
  then show ?thesis
    by (simp add: passed_def)
qed

text \<open>Read from the newest item: every commit follows a passed dry-run of the same snapshot and domains.\<close>

primrec commits_earned :: "trace_item list \<Rightarrow> bool" where
  "commits_earned [] = True"
| "commits_earned (i # t) =
     (commits_earned t \<and> (case i of Sent Commit sid cs \<Rightarrow> passed t sid cs | _ \<Rightarrow> True))"

definition from_plan :: "trace_item list \<Rightarrow> string list \<Rightarrow> bool" where
  "from_plan t cs \<longleftrightarrow> cs \<noteq> [] \<and> (\<exists>sid out. Verified sid None out \<in> set t \<and> set cs \<subseteq> set (planDomains (Some out)))"

definition grounded :: "string option \<Rightarrow> trace_item list \<Rightarrow> view \<Rightarrow> bool" where
  "grounded i t v \<longleftrightarrow>
     (\<forall>out. v_dryOutcome v = Some out \<longrightarrow> (\<exists>sid. i = Some sid \<and> Verified sid None out \<in> set t)) \<and>
     (\<forall>p. v_picked v = Some p \<longrightarrow> from_plan t (pk_components p) \<and>
        (\<forall>out. pk_outcome p = Some out \<longrightarrow> (\<exists>sid. i = Some sid \<and> Verified sid (Some (pk_components p)) out \<in> set t)))"

fun pending_ok :: "nat \<Rightarrow> string option \<Rightarrow> trace_item list \<Rightarrow> pending \<Rightarrow> bool" where
  "pending_ok r i t (DryPending run sid u) = (run \<le> r \<and> (run = r \<longrightarrow> i = Some sid))"
| "pending_ok r i t (PickedPending run sid ident mine) = (run \<le> r \<and> (run = r \<longrightarrow> i = Some sid) \<and> from_plan t mine)"
| "pending_ok r i t (CommitPending run sid cs) = (run \<le> r)"
| "pending_ok r i t (UndoPending pre sent) = True"

definition wizard_inv :: "wizard \<Rightarrow> bool" where
  "wizard_inv w \<longleftrightarrow>
     grounded (id_of (w_rendered w)) (w_trace w) (w_rendered w) \<and>
     grounded (id_of (w_rendered w)) (w_trace w) (w_cur w) \<and>
     (\<not> w_due w \<longrightarrow> v_target (w_cur w) = v_target (w_rendered w)) \<and>
     (id_of (w_cur w) = None \<longrightarrow> id_of (w_rendered w) = None \<and> v_picked (w_cur w) = None) \<and>
     list_all (pending_ok (w_run w) (id_of (w_rendered w)) (w_trace w)) (w_pending w)"

definition earned :: "wizard \<Rightarrow> bool" where
  "earned w \<longleftrightarrow> (list_all plain_item (w_trace w) \<longrightarrow> commits_earned (w_trace w))"

lemma from_plan_mono: "from_plan t cs \<Longrightarrow> set t \<subseteq> set u \<Longrightarrow> from_plan u cs"
  by (auto simp: from_plan_def)

lemma grounded_mono: "grounded i t v \<Longrightarrow> set t \<subseteq> set u \<Longrightarrow> grounded i u v"
  unfolding grounded_def by (meson from_plan_mono subset_iff)

lemma pending_ok_mono: "pending_ok r i t p \<Longrightarrow> set t \<subseteq> set u \<Longrightarrow> pending_ok r i u p"
  by (cases p) (auto intro: from_plan_mono)

lemma grounded_keeps:
  "grounded i t v \<Longrightarrow> v_dryOutcome v' = v_dryOutcome v \<Longrightarrow> v_picked v' = v_picked v \<Longrightarrow> grounded i t v'"
  by (simp add: grounded_def)

lemma grounded_fresh: "v_dryOutcome v = None \<Longrightarrow> v_picked v = None \<Longrightarrow> grounded i t v"
  by (simp add: grounded_def)

lemma trace_send [simp]: "set (w_trace w) \<subseteq> set (w_trace (send_restore m sid cs w))"
  by (auto simp: send_restore_def split: option.splits)

lemma send_restore_sel [simp]:
  "w_cur (send_restore m sid cs w) = w_cur w" "w_rendered (send_restore m sid cs w) = w_rendered w"
  "w_due (send_restore m sid cs w) = w_due w" "w_run (send_restore m sid cs w) = w_run w"
  "w_pending (send_restore m sid cs w) = w_pending w" "w_inFlight (send_restore m sid cs w) = w_inFlight w"
  "w_renders (send_restore m sid cs w) = w_renders w" "w_mounted (send_restore m sid cs w) = w_mounted w"
  by (auto simp: send_restore_def split: option.splits)

lemma await_sel [simp]:
  "w_cur (await p w) = w_cur w" "w_rendered (await p w) = w_rendered w" "w_due (await p w) = w_due w"
  "w_run (await p w) = w_run w" "w_pending (await p w) = w_pending w @ [p]" "w_trace (await p w) = w_trace w"
  "w_inFlight (await p w) = w_inFlight w" "w_renders (await p w) = w_renders w" "w_mounted (await p w) = w_mounted w"
  by (simp_all add: await_def)

lemma send_restore_trace:
  "w_trace (send_restore m sid cs w) = (if cs = Some [] then w_trace w else Sent m sid cs # w_trace w)"
  by (simp add: send_restore_def restore_request_for_def)

text \<open>A step that leaves the run, the render and the targets alone and adds to the trace.\<close>

lemma wizard_inv_step:
  assumes "wizard_inv w"
    and same: "w_rendered w' = w_rendered w" "w_due w' = w_due w" "w_run w' = w_run w"
      "v_target (w_cur w') = v_target (w_cur w)"
    and sub: "set (w_trace w) \<subseteq> set (w_trace w')"
    and cur: "grounded (id_of (w_rendered w)) (w_trace w') (w_cur w')"
    and pick: "id_of (w_cur w) = None \<Longrightarrow> v_picked (w_cur w') = None"
    and pend: "list_all (pending_ok (w_run w) (id_of (w_rendered w)) (w_trace w')) (w_pending w')"
  shows "wizard_inv w'"
proof -
  have "grounded (id_of (w_rendered w)) (w_trace w') (w_rendered w)"
    using assms(1) sub by (auto simp: wizard_inv_def intro: grounded_mono)
  moreover have "id_of (w_cur w') = id_of (w_cur w)"
    using same by (simp add: id_of_def)
  ultimately show ?thesis
    using assms(1) same cur pick pend by (simp add: wizard_inv_def)
qed

lemma pending_mono: "list_all (pending_ok r i t) ps \<Longrightarrow> set t \<subseteq> set u \<Longrightarrow> list_all (pending_ok r i u) ps"
  by (auto simp: list_all_iff intro: pending_ok_mono)

text \<open>The usual case: nothing about the dry-runs changes.\<close>

lemma wizard_inv_quiet:
  assumes "wizard_inv w" "w_rendered w' = w_rendered w" "w_due w' = w_due w" "w_run w' = w_run w"
      "v_target (w_cur w') = v_target (w_cur w)" "v_dryOutcome (w_cur w') = v_dryOutcome (w_cur w)"
      "v_picked (w_cur w') = v_picked (w_cur w)" "set (w_trace w) \<subseteq> set (w_trace w')"
      "list_all (pending_ok (w_run w) (id_of (w_rendered w)) (w_trace w')) (w_pending w')"
  shows "wizard_inv w'"
proof -
  have "grounded (id_of (w_rendered w)) (w_trace w') (w_cur w')"
    using assms(1,6,7,8) by (auto simp: wizard_inv_def intro: grounded_mono grounded_keeps)
  then show ?thesis
    using assms by (intro wizard_inv_step [OF assms(1)]) (auto simp: wizard_inv_def)
qed

lemma wizard_inv_open: "wizard_inv (open_wizard s)"
  by (simp add: wizard_inv_def open_wizard_def start_view_def grounded_def id_of_def)

lemma wizard_inv_render: "wizard_inv w \<Longrightarrow> wizard_inv (render w)"
proof -
  assume inv: "wizard_inv w"
  show "wizard_inv (render w)"
  proof (cases "w_due w")
    case False
    then have "id_of (w_cur w) = id_of (w_rendered w)"
      using inv by (simp add: wizard_inv_def id_of_def)
    then show ?thesis
      using inv False by (simp add: wizard_inv_def render_def Let_def)
  next
    case due: True
    have old: "list_all (pending_ok (Suc (w_run w)) i t) (w_pending w)" if "set (w_trace w) \<subseteq> set t" for i t
    proof (unfold list_all_iff, rule ballI)
      fix p
      assume "p \<in> set (w_pending w)"
      then have "pending_ok (w_run w) (id_of (w_rendered w)) (w_trace w) p"
        using inv by (auto simp: wizard_inv_def list_all_iff)
      then show "pending_ok (Suc (w_run w)) i t p"
        using that by (cases p) (auto intro: from_plan_mono)
    qed
    show ?thesis
    proof (cases "id_of (w_cur w)")
      case None
      then have i: "id_of (w_rendered w) = None"
        using inv by (simp add: wizard_inv_def)
      have "grounded (id_of (w_rendered w)) (w_trace w) (w_cur w)"
        using inv by (simp add: wizard_inv_def)
      then have "grounded None (w_trace w) (w_cur w)"
        by (simp add: i)
      then show ?thesis
        using None due old [of "w_trace w"] inv
        by (simp add: wizard_inv_def render_def run_effect_def Let_def id_of_def)
    next
      case (Some sid)
      let ?w = "send_restore DryRun sid None (w\<lparr>w_run := Suc (w_run w), w_due := False, w_cur := reset_view (w_cur w), w_inFlight := False\<rparr>)"
      have r: "render w = (await (DryPending (Suc (w_run w)) sid (t_undo (v_target (w_cur w)))) ?w)
                 \<lparr>w_rendered := reset_view (w_cur w), w_renders := Suc (w_renders w)\<rparr>"
        using Some due by (simp add: render_def run_effect_def Let_def id_of_def)
      have tgt: "id_of (reset_view (w_cur w)) = Some sid"
        using Some by (simp add: id_of_def reset_view_def)
      have "grounded i t (reset_view (w_cur w))" for i t
        by (rule grounded_fresh) (simp_all add: reset_view_def)
      then show ?thesis
        using old [of "w_trace ?w"] by (simp add: r wizard_inv_def tgt send_restore_trace subset_insertI)
    qed
  qed
qed

subsection \<open>The handlers keep the evidence\<close>

lemma pending_snoc:
  "list_all (pending_ok r i t) ps \<Longrightarrow> set t \<subseteq> set u \<Longrightarrow> pending_ok r i u p \<Longrightarrow> list_all (pending_ok r i u) (ps @ [p])"
  by (simp add: pending_mono)

lemma inv_pending: "wizard_inv w \<Longrightarrow> list_all (pending_ok (w_run w) (id_of (w_rendered w)) (w_trace w)) (w_pending w)"
  by (simp add: wizard_inv_def)

lemma components_of_Some:
  assumes "components_of v = Some cs"
  shows "fullPass v" "cs \<noteq> []" "set cs \<subset> set (planDomains (v_dryOutcome v))" "set cs \<subseteq> set (v_checked v)"
    "cs = filter (\<lambda>d. d \<in> set (v_checked v)) (planDomains (v_dryOutcome v))"
proof -
  have s: "restoreSelection (domains_of v) (v_checked v) = SelectSome cs"
    using assms by (auto simp: components_of_def selection_of_def split: restore_selection.splits)
  show "fullPass v"
    using restoreSelection_some(3) [OF s] by (auto simp: domains_of_def split: if_splits)
  then have "domains_of v = planDomains (v_dryOutcome v)"
    by (simp add: domains_of_def)
  then show "cs \<noteq> []" "set cs \<subset> set (planDomains (v_dryOutcome v))" "set cs \<subseteq> set (v_checked v)"
    "cs = filter (\<lambda>d. d \<in> set (v_checked v)) (planDomains (v_dryOutcome v))"
    using restoreSelection_some [OF s] by simp_all
qed

lemma fullPass_outcome:
  assumes "fullPass v"
  obtains out where "v_dryOutcome v = Some out" "classifyDryRun (Some out) None None = VPass"
  using assms by (auto simp: fullPass_def canContinueToCommit_def classifyDryRun_def split: if_splits option.splits)

lemma components_from_plan:
  assumes g: "grounded i t v" and c: "components_of v = Some cs"
  shows "from_plan t cs"
proof -
  obtain out where "v_dryOutcome v = Some out"
    using components_of_Some(1) [OF c] by (rule fullPass_outcome)
  with g components_of_Some(2,3) [OF c] show ?thesis
    by (auto simp: from_plan_def grounded_def)
qed

lemma pass_Some: "canContinueToCommit (Some out) e l cs \<Longrightarrow> classifyDryRun (Some out) None cs = VPass"
  by (auto simp: canContinueToCommit_def classifyDryRun_def split: if_splits)

lemma pass_outcome: "canContinueToCommit oc e l cs \<Longrightarrow> \<exists>out. oc = Some out"
  by (auto simp: canContinueToCommit_def classifyDryRun_def split: if_splits option.splits)

lemma from_plan_no_comma:
  "list_all plain_item t \<Longrightarrow> from_plan t cs \<Longrightarrow> no_comma cs"
  by (auto simp: from_plan_def list_all_iff no_comma_def dest!: bspec)

text \<open>A screen that lets the operator go on shows a verified dry-run of what it would send.\<close>

lemma canContinue_passed:
  assumes g: "grounded i t v" and go: "canContinue v" and plain: "list_all plain_item t"
  obtains sid where "i = Some sid" "passed t sid (components_of v)"
proof (cases "selection_of v = SelectAll")
  case True
  then have c: "components_of v = None" and "fullPass v"
    using go by (simp_all add: components_of_def canContinue_def)
  then obtain out where "v_dryOutcome v = Some out" "classifyDryRun (Some out) None None = VPass"
    by (auto elim: fullPass_outcome)
  then show ?thesis
    using that g unfolding passed_iff c grounded_def by metis
next
  case False
  then obtain p where p: "pickedNow v = Some p"
    and cc: "canContinueToCommit (pk_outcome p) (pk_error p) (pk_loading p) (Some (pk_components p))"
    using go by (auto simp: canContinue_def split: option.splits)
  then obtain cs where c: "components_of v = Some cs" and vp: "v_picked v = Some p"
    and j: "join_with '','' (pk_components p) = join_with '','' cs"
    by (auto simp: pickedNow_def split: option.splits if_splits)
  have fp: "from_plan t (pk_components p)" "from_plan t cs"
    using g vp components_from_plan [OF g c] by (auto simp: grounded_def)
  then have "pk_components p = cs"
    using j from_plan_no_comma [OF plain]
    by (intro join_inj) (auto simp: from_plan_def no_comma_def list_all_iff)
  then show ?thesis
    using that g vp cc pass_outcome [OF cc] pass_Some c unfolding passed_iff grounded_def by metis
qed

lemma inv_toggle: "wizard_inv w \<Longrightarrow> wizard_inv (handleToggle d w)"
  by (frule inv_pending, erule wizard_inv_quiet) (auto simp: handleToggle_def wizard_inv_def)

lemma inv_select_all: "wizard_inv w \<Longrightarrow> wizard_inv (handleSelectAll b w)"
  by (frule inv_pending, erule wizard_inv_quiet) (auto simp: handleSelectAll_def wizard_inv_def)

lemma inv_continue: "wizard_inv w \<Longrightarrow> wizard_inv (handleContinue w)"
  by (frule inv_pending, erule wizard_inv_quiet) (auto simp: handleContinue_def Let_def wizard_inv_def)

lemma inv_text: "wizard_inv w \<Longrightarrow> wizard_inv (handleConfirmText s w)"
  by (frule inv_pending, erule wizard_inv_quiet) (auto simp: handleConfirmText_def wizard_inv_def)

lemma inv_close: "wizard_inv w \<Longrightarrow> wizard_inv (handleDialogClose w)"
  by (frule inv_pending, erule wizard_inv_quiet) (auto simp: handleDialogClose_def wizard_inv_def)

lemma inv_commit: "wizard_inv w \<Longrightarrow> wizard_inv (handleCommit name w)"
  by (frule inv_pending, erule wizard_inv_quiet)
    (auto simp: handleCommit_def Let_def send_restore_trace intro: pending_mono split: option.splits)

lemma inv_undo: "wizard_inv w \<Longrightarrow> wizard_inv (handleUndo w)"
  by (frule inv_pending, erule wizard_inv_quiet) (auto simp: handleUndo_def Let_def split: option.splits)

lemma inv_picked:
  assumes inv: "wizard_inv w"
  shows "wizard_inv (handlePickedDryRun w)"
proof (cases "v_step (w_rendered w) \<noteq> StepDryRun \<or> \<not> needsPickedDryRun (w_rendered w) \<or>
    id_of (w_rendered w) = None \<or> components_of (w_rendered w) = None")
  case True
  then show ?thesis
    using inv by (auto simp: handlePickedDryRun_def Let_def id_of_def split: option.splits)
next
  case False
  then obtain sid mine where i: "id_of (w_rendered w) = Some sid" and c: "components_of (w_rendered w) = Some mine"
    by auto
  let ?w = "handlePickedDryRun w"
  have w: "w_trace ?w = Sent DryRun sid (Some mine) # w_trace w"
    "w_pending ?w = w_pending w @ [PickedPending (w_run w) sid (w_renders w) mine]"
    "v_dryOutcome (w_cur ?w) = v_dryOutcome (w_cur w)" "v_target (w_cur ?w) = v_target (w_cur w)"
    "v_picked (w_cur ?w) = Some \<lparr>pk_ident = w_renders w, pk_components = mine, pk_loading = True, pk_outcome = None, pk_error = None\<rparr>"
    "w_rendered ?w = w_rendered w" "w_due ?w = w_due w" "w_run ?w = w_run w"
    using False i c components_of_Some(2) [OF c]
    by (auto simp: handlePickedDryRun_def Let_def id_of_def send_restore_trace)
  have g: "grounded (Some sid) (w_trace w) (w_rendered w)" "grounded (Some sid) (w_trace w) (w_cur w)"
    using inv i by (simp_all add: wizard_inv_def)
  then have fp: "from_plan (w_trace w) mine"
    using c by (blast intro: components_from_plan)
  then have fp': "from_plan (w_trace ?w) mine"
    by (rule from_plan_mono) (auto simp: w)
  moreover have "grounded (Some sid) (w_trace ?w) (w_cur w)"
    using g(2) by (rule grounded_mono) (auto simp: w)
  ultimately have "grounded (Some sid) (w_trace ?w) (w_cur ?w)"
    by (simp add: grounded_def w(3,5))
  then show ?thesis
    using inv i fp' pending_snoc [OF inv_pending [OF inv], of "w_trace ?w" "PickedPending (w_run w) sid (w_renders w) mine"]
    by (intro wizard_inv_step [OF inv]) (auto simp: w wizard_inv_def)
qed

lemma list_all_remove_nth: "list_all P xs \<Longrightarrow> list_all P (remove_nth n xs)"
  by (auto simp: remove_nth_def list_all_iff dest: in_set_takeD in_set_dropD)

lemma inv_remove: "wizard_inv w \<Longrightarrow> wizard_inv (w\<lparr>w_pending := remove_nth n (w_pending w)\<rparr>)"
  by (simp add: wizard_inv_def list_all_remove_nth)

lemma inv_dry_run:
  assumes inv: "wizard_inv w" and p: "pending_ok (w_run w) (id_of (w_rendered w)) (w_trace w) (DryPending run sid u)"
  shows "wizard_inv (on_dry_run tr res run sid u w)"
proof (cases "run = w_run w \<and> usable res")
  case False
  then show ?thesis
    using inv by (auto simp: on_dry_run_def intro!: wizard_inv_quiet [OF inv] inv_pending)
next
  case True
  let ?w = "on_dry_run tr res run sid u w"
  have w: "w_trace ?w = Verified sid None (op_data res) # w_trace w" "v_dryOutcome (w_cur ?w) = Some (op_data res)"
    "v_picked (w_cur ?w) = v_picked (w_cur w)" "v_target (w_cur ?w) = v_target (w_cur w)" "w_rendered ?w = w_rendered w"
    "w_due ?w = w_due w" "w_run ?w = w_run w" "w_pending ?w = w_pending w"
    using True by (simp_all add: on_dry_run_def Let_def)
  have i: "id_of (w_rendered w) = Some sid"
    using p True by simp
  then have "grounded (Some sid) (w_trace ?w) (w_cur w)"
    using inv by (auto simp: wizard_inv_def w intro: grounded_mono)
  then have "grounded (Some sid) (w_trace ?w) (w_cur ?w)"
    by (simp add: grounded_def w)
  then show ?thesis
    using inv i pending_mono [OF inv_pending [OF inv], of "w_trace ?w"]
    by (intro wizard_inv_step [OF inv]) (auto simp: w wizard_inv_def)
qed

lemma inv_on_picked:
  assumes inv: "wizard_inv w" and p: "pending_ok (w_run w) (id_of (w_rendered w)) (w_trace w) (PickedPending run sid ident mine)"
  shows "wizard_inv (on_picked tr res run sid ident mine w)"
proof (cases "run = w_run w \<and> (\<exists>q. v_picked (w_cur w) = Some q \<and> pk_ident q = ident)")
  case False
  then show ?thesis
    using inv by (auto simp: on_picked_def split: option.splits)
next
  case True
  let ?w = "on_picked tr res run sid ident mine w"
  have i: "id_of (w_rendered w) = Some sid" and fp: "from_plan (w_trace w) mine"
    using p True by auto
  have w: "set (w_trace w) \<subseteq> set (w_trace ?w)" "v_dryOutcome (w_cur ?w) = v_dryOutcome (w_cur w)"
    "v_target (w_cur ?w) = v_target (w_cur w)" "w_rendered ?w = w_rendered w"
    "w_due ?w = w_due w" "w_run ?w = w_run w" "w_pending ?w = w_pending w"
    and pk: "\<exists>q. v_picked (w_cur ?w) = Some q \<and> pk_components q = mine \<and>
       (\<forall>out. pk_outcome q = Some out \<longrightarrow> Verified sid (Some mine) out \<in> set (w_trace ?w))"
    using True by (auto simp: on_picked_def)
  have "grounded (Some sid) (w_trace ?w) (w_cur w)"
    using inv i w(1) by (auto simp: wizard_inv_def intro: grounded_mono)
  then have "grounded (Some sid) (w_trace ?w) (w_cur ?w)"
    using pk w(1,2) from_plan_mono [OF fp w(1)] by (auto simp: grounded_def)
  moreover have "v_picked (w_cur w) \<noteq> None"
    using True by auto
  ultimately show ?thesis
    using inv i pending_mono [OF inv_pending [OF inv] w(1)]
    by (intro wizard_inv_step [OF inv]) (auto simp: w wizard_inv_def)
qed

lemma inv_on_commit: "wizard_inv w \<Longrightarrow> wizard_inv (on_commit tr res run w)"
  by (frule inv_pending, erule wizard_inv_quiet) (auto simp: on_commit_def)

lemma inv_on_undo:
  assumes "wizard_inv w"
  shows "wizard_inv (on_undo tr res sent w)"
proof (cases "\<exists>pre. res = Inr (Some pre) \<and> truthy_id pre \<noteq> None")
  case False
  then show ?thesis
    using assms inv_pending [OF assms]
    by (auto simp: on_undo_def Let_def split: sum.splits option.splits intro!: wizard_inv_quiet [OF assms])
next
  case True
  then obtain pre sid where r: "res = Inr (Some pre)" "truthy_id pre = Some sid"
    by auto
  have "grounded (id_of (w_rendered w)) (w_trace w)
      ((w_cur w)\<lparr>v_target := \<lparr>t_snapshot = pre, t_undo = Some sent\<rparr>, v_undoLoading := False\<rparr>)"
    by (rule grounded_keeps [of _ _ "w_cur w"]) (use assms in \<open>simp_all add: wizard_inv_def\<close>)
  then show ?thesis
    using assms r by (simp add: on_undo_def Let_def wizard_inv_def id_of_def)
qed

lemma inv_resume:
  assumes "wizard_inv w" "pending_ok (w_run w) (id_of (w_rendered w)) (w_trace w) p"
  shows "wizard_inv (resume tr p a w)"
  using assms by (cases p; cases a) (auto intro: inv_dry_run inv_on_picked inv_on_commit inv_on_undo)

lemma inv_wizard_step: "wizard_inv w \<Longrightarrow> wizard_inv (wizard_step tr name e w)"
proof (cases e)
  case (Answer n a)
  assume inv: "wizard_inv w"
  have "pending_ok (w_run w) (id_of (w_rendered w)) (w_trace w) (w_pending w ! n)" if "n < length (w_pending w)"
    using inv_pending [OF inv] that by (simp add: list_all_length)
  then show ?thesis
    using Answer inv inv_remove [OF inv, of n] by (auto intro!: inv_resume)
qed (auto intro: wizard_inv_render inv_toggle inv_select_all inv_picked inv_continue inv_text inv_commit inv_undo inv_close)

subsection \<open>The trace under a step\<close>

text \<open>What one step adds: at most one item, and a commit only out of the commit handler.\<close>

lemma render_trace:
  "w_trace (render w) =
     (case (w_due w, id_of (w_cur w)) of (True, Some sid) \<Rightarrow> Sent DryRun sid None # w_trace w | _ \<Rightarrow> w_trace w)"
  by (auto simp: render_def run_effect_def Let_def id_of_def send_restore_trace split: option.splits)

lemma commit_trace:
  "w_trace (handleCommit name w) = w_trace w \<or>
   (\<exists>sid. id_of (w_rendered w) = Some sid \<and> canContinue (w_rendered w) \<and> \<not> w_inFlight w \<and>
      w_inFlight (handleCommit name w) \<and>
      w_trace (handleCommit name w) = Sent Commit sid (components_of (w_rendered w)) # w_trace w)"
  using components_of_Some(2)
  by (fastforce simp: handleCommit_def Let_def send_restore_trace id_of_def split: option.splits)

lemma picked_trace:
  "w_trace (handlePickedDryRun w) = w_trace w \<or> (\<exists>sid cs. w_trace (handlePickedDryRun w) = Sent DryRun sid (Some cs) # w_trace w)"
  by (auto simp: handlePickedDryRun_def Let_def send_restore_trace split: option.splits)

lemma answer_trace:
  "w_trace (resume tr p a w) = w_trace w \<or> (\<exists>sid cs out. w_trace (resume tr p a w) = Verified sid cs out # w_trace w)"
  by (cases p; cases a)
    (auto simp: on_dry_run_def on_picked_def on_commit_def on_undo_def Let_def split: option.splits sum.splits)

lemma quiet_trace [simp]:
  "w_trace (handleToggle d w) = w_trace w" "w_trace (handleSelectAll b w) = w_trace w"
  "w_trace (handleContinue w) = w_trace w" "w_trace (handleConfirmText s w) = w_trace w"
  "w_trace (handleUndo w) = w_trace w" "w_trace (handleDialogClose w) = w_trace w"
  by (auto simp: handleToggle_def handleSelectAll_def handleContinue_def handleConfirmText_def handleUndo_def
      handleDialogClose_def Let_def split: option.splits)

text \<open>The five shapes of a step on the trace.\<close>

lemma step_trace:
  obtains (same) "w_trace (wizard_step tr name e w) = w_trace w"
  | (whole) sid where "w_trace (wizard_step tr name e w) = Sent DryRun sid None # w_trace w"
  | (part) sid cs where "w_trace (wizard_step tr name e w) = Sent DryRun sid (Some cs) # w_trace w"
  | (verified) sid cs out where "w_trace (wizard_step tr name e w) = Verified sid cs out # w_trace w"
  | (commit) sid where "e = ClickCommit" "id_of (w_rendered w) = Some sid" "canContinue (w_rendered w)" "\<not> w_inFlight w"
      "w_inFlight (handleCommit name w)"
      "w_trace (wizard_step tr name e w) = Sent Commit sid (components_of (w_rendered w)) # w_trace w"
proof (cases e)
  case Render
  then show thesis
    using that(1,2) render_trace [of w] by (fastforce split: bool.splits option.splits)
next
  case ClickPickedDryRun
  then show thesis
    using that(1,3) picked_trace [of w] by auto
next
  case ClickCommit
  then show thesis
    using that(1,5) commit_trace [of name w] by auto
next
  case (Answer n a)
  let ?v = "w\<lparr>w_pending := remove_nth n (w_pending w)\<rparr>"
  have "w_trace (wizard_step tr name e w) = w_trace w \<or>
      (\<exists>sid cs out. w_trace (wizard_step tr name e w) = Verified sid cs out # w_trace w)"
    using Answer answer_trace [of tr "w_pending w ! n" a ?v] by simp
  then show thesis
    using that(1,4) by blast
qed (use that(1) in simp_all)

lemma earned_step:
  assumes "wizard_inv w" "earned w"
  shows "earned (wizard_step tr name e w)"
proof (cases rule: step_trace [of tr name e w])
  case (commit sid)
  have g: "grounded (id_of (w_rendered w)) (w_trace w) (w_rendered w)"
    using assms(1) by (simp add: wizard_inv_def)
  show ?thesis
    unfolding earned_def commit(6)
  proof
    assume plain: "list_all plain_item (Sent Commit sid (components_of (w_rendered w)) # w_trace w)"
    then obtain sid' where "id_of (w_rendered w) = Some sid'" "passed (w_trace w) sid' (components_of (w_rendered w))"
      using canContinue_passed [OF g commit(3)] by auto
    then show "commits_earned (Sent Commit sid (components_of (w_rendered w)) # w_trace w)"
      using assms(2) plain commit(2) by (simp add: earned_def)
  qed
qed (use assms(2) in \<open>simp_all add: earned_def\<close>)

lemma wizard_run_inv: "wizard_inv (run_wizard tr name s es) \<and> earned (run_wizard tr name s es)"
proof (induction es rule: rev_induct)
  case Nil
  then show ?case
    by (simp add: run_wizard_def wizard_inv_open earned_def) (simp add: open_wizard_def)
next
  case (snoc e es)
  have "run_wizard tr name s (es @ [e]) = step_if_mounted tr name e (run_wizard tr name s es)"
    by (simp add: run_wizard_def)
  then show ?case
    using snoc by (simp add: step_if_mounted_def inv_wizard_step earned_step)
qed

subsection \<open>One commit for each dry-run of the whole document\<close>

primrec open_commits :: "trace_item list \<Rightarrow> nat" where
  "open_commits [] = 0"
| "open_commits (i # t) =
     (case i of
        Sent Commit _ _ \<Rightarrow> Suc (open_commits t)
      | Sent DryRun _ None \<Rightarrow> 0
      | _ \<Rightarrow> open_commits t)"

primrec never_doubled :: "trace_item list \<Rightarrow> bool" where
  "never_doubled [] = True"
| "never_doubled (i # t) =
     (never_doubled t \<and> (case i of Sent Commit _ _ \<Rightarrow> open_commits t = 0 | _ \<Rightarrow> True))"

lemma quiet_inFlight [simp]:
  "w_inFlight (handleToggle d w) = w_inFlight w" "w_inFlight (handleSelectAll b w) = w_inFlight w"
  "w_inFlight (handleContinue w) = w_inFlight w" "w_inFlight (handleConfirmText s w) = w_inFlight w"
  "w_inFlight (handleUndo w) = w_inFlight w" "w_inFlight (handleDialogClose w) = w_inFlight w"
  "w_inFlight (handlePickedDryRun w) = w_inFlight w"
  by (auto simp: handleToggle_def handleSelectAll_def handleContinue_def handleConfirmText_def handleUndo_def
      handleDialogClose_def handlePickedDryRun_def Let_def split: option.splits)

lemma answer_inFlight [simp]: "w_inFlight (resume tr p a w) = w_inFlight w"
  by (cases p; cases a)
    (auto simp: on_dry_run_def on_picked_def on_commit_def on_undo_def Let_def split: option.splits sum.splits)

lemma commit_inFlight: "w_inFlight w \<Longrightarrow> w_inFlight (handleCommit name w)"
  by (auto simp: handleCommit_def Let_def split: option.splits)

lemma render_inFlight:
  "w_inFlight (render w) = w_inFlight w \<or> (\<exists>sid. w_trace (render w) = Sent DryRun sid None # w_trace w)"
  by (auto simp: render_def run_effect_def Let_def send_restore_trace split: option.splits)

lemma step_inFlight:
  "w_inFlight w \<Longrightarrow> w_inFlight (wizard_step tr name e w) \<or>
     (\<exists>sid. w_trace (wizard_step tr name e w) = Sent DryRun sid None # w_trace w)"
  using render_inFlight [of w] by (cases e) (auto intro: commit_inFlight)

definition single :: "wizard \<Rightarrow> bool" where
  "single w \<longleftrightarrow> never_doubled (w_trace w) \<and> (if open_commits (w_trace w) = 0 then True else w_inFlight w)"

lemma single_step:
  assumes "single w"
  shows "single (wizard_step tr name e w)"
proof (cases rule: step_trace [of tr name e w])
  case (commit sid)
  then show ?thesis
    using assms by (simp add: single_def split: if_splits)
qed (use assms step_inFlight [of w tr name e] in \<open>auto simp: single_def split: if_splits\<close>)

text \<open>An invariant of the steps holds in every run.\<close>

lemma wizard_run_induct:
  assumes "I (open_wizard s)" and "\<And>w e. I w \<Longrightarrow> I (wizard_step tr name e w)"
  shows "I (run_wizard tr name s es)"
proof (induction es rule: rev_induct)
  case (snoc e es)
  have "run_wizard tr name s (es @ [e]) = step_if_mounted tr name e (run_wizard tr name s es)"
    by (simp add: run_wizard_def)
  then show ?case
    using snoc assms(2) by (simp add: step_if_mounted_def)
qed (use assms(1) in \<open>simp add: run_wizard_def\<close>)

lemma single_run: "single (run_wizard tr name s es)"
proof (rule wizard_run_induct)
  show "single (open_wizard s)"
    by (simp add: single_def open_wizard_def)
qed (rule single_step)

subsection \<open>The committing screen is left\<close>

definition awaited :: "wizard \<Rightarrow> bool" where
  "awaited w \<longleftrightarrow>
     (v_step (w_cur w) = StepCommitting \<longrightarrow>
        id_of (w_cur w) \<noteq> None \<and> (\<exists>sid cs. CommitPending (w_run w) sid cs \<in> set (w_pending w)))"

lemma in_remove_nth: "x \<in> set xs \<Longrightarrow> n < length xs \<Longrightarrow> x \<noteq> xs ! n \<Longrightarrow> x \<in> set (remove_nth n xs)"
  by (metis Un_iff append_take_drop_id Cons_nth_drop_Suc remove_nth_def set_ConsD set_append)

lemma awaited_keeps:
  assumes "awaited w" "v_step (w_cur w') = v_step (w_cur w)" "id_of (w_cur w) \<noteq> None \<Longrightarrow> id_of (w_cur w') \<noteq> None"
    "w_run w' = w_run w" "set (w_pending w) \<subseteq> set (w_pending w')"
  shows "awaited w'"
  using assms by (auto simp: awaited_def)

lemma awaited_other: "v_step (w_cur w) \<noteq> StepCommitting \<Longrightarrow> awaited w"
  by (simp add: awaited_def)

lemma awaited_resume:
  assumes "awaited (w\<lparr>w_pending := p # w_pending w\<rparr>)" and "answers a p"
  shows "awaited (resume tr p a w)"
proof (cases p)
  case (CommitPending run sid cs)
  then show ?thesis
    using assms by (cases a) (auto simp: on_commit_def awaited_def)
next
  case (DryPending run sid u)
  with assms show ?thesis
    by (cases a) (auto simp: on_dry_run_def awaited_def id_of_def Let_def)
next
  case (PickedPending run sid ident mine)
  with assms show ?thesis
    by (cases a) (auto simp: on_picked_def awaited_def id_of_def split: option.splits)
next
  case (UndoPending pre sent)
  with assms show ?thesis
    by (cases a) (auto simp: on_undo_def awaited_def id_of_def Let_def split: option.splits sum.splits)
qed

lemma awaited_render: "awaited w \<Longrightarrow> awaited (render w)"
  by (auto simp: awaited_def render_def run_effect_def Let_def id_of_def reset_view_def split: option.splits)

lemma awaited_commit:
  assumes inv: "wizard_inv w" and a: "awaited w"
  shows "awaited (handleCommit name w)"
proof -
  have "id_of (w_rendered w) = None \<or> id_of (w_cur w) \<noteq> None"
    using inv by (auto simp: wizard_inv_def)
  then show ?thesis
    using a by (auto simp: awaited_def handleCommit_def Let_def id_of_def split: option.splits)
qed

lemma awaited_step:
  assumes inv: "wizard_inv w" and a: "awaited w"
  shows "awaited (wizard_step tr name e w)"
proof (cases e)
  case (Answer n an)
  have "awaited (w\<lparr>w_pending := w_pending w ! n # remove_nth n (w_pending w)\<rparr>)" if "n < length (w_pending w)"
    using a in_remove_nth [OF _ that] by (fastforce simp: awaited_def)
  then show ?thesis
    using Answer a awaited_resume [of "w_pending w ! n" "w\<lparr>w_pending := remove_nth n (w_pending w)\<rparr>" an tr] by simp
next
  case ClickCommit
  then show ?thesis
    using inv a by (simp add: awaited_commit)
next
  case Render
  then show ?thesis
    using a by (simp add: awaited_render)
qed (use a in \<open>auto simp: awaited_def id_of_def handleToggle_def handleSelectAll_def handlePickedDryRun_def handleContinue_def
      handleConfirmText_def handleUndo_def handleDialogClose_def Let_def split: option.splits\<close>)

lemma awaited_run: "awaited (run_wizard tr name s es)"
proof -
  have "wizard_inv (run_wizard tr name s es) \<and> awaited (run_wizard tr name s es)"
    by (rule wizard_run_induct)
      (auto simp: wizard_inv_open awaited_step inv_wizard_step, simp add: awaited_def open_wizard_def start_view_def)
  then show ?thesis ..
qed

subsection \<open>A restore of some domains\<close>

definition demo_snapshot :: snapshot where
  "demo_snapshot = \<lparr>sn_id = Some ''s1'', sn_name = ''nightly''\<rparr>"

definition demo_answer :: "string \<Rightarrow> string list \<Rightarrow> string list option \<Rightarrow> answer" where
  "demo_answer m ds cs =
     CallAnswer 0 (Inr (Some \<lparr>r_code = jint 200,
       r_data = JObj ([(''gateway_status'', jint 200),
                       (''gateway_response'', JObj [(''mode'', JStr m), (''compatible'', JBool True), (''result'', JStr ''ok''),
                          (''persisted'', JBool True), (''plan'', JArr (map (\<lambda>d. JObj [(''domain'', JStr d)]) ds))])]
                      @ (case cs of None \<Rightarrow> [] | Some xs \<Rightarrow> [(''components'', JArr (map JStr xs))])),
       r_message = JUndef, r_headers = [], r_parse_failed = False\<rparr>))"

definition demo_choice :: "wizard_event list" where
  "demo_choice =
     [Render, Answer 0 (demo_answer ''dry-run'' [''lb'', ''bgp''] None), Render, Toggle ''bgp'', Render,
      ClickPickedDryRun, Render, Answer 0 (demo_answer ''dry-run'' [''lb''] (Some [''lb''])), Render,
      ClickContinue, Render, TypeText ''gw1'', Render]"

definition demo_run :: "wizard_event list \<Rightarrow> wizard" where
  "demo_run es = run_wizard (\<lambda>s ps. s) ''gw1'' demo_snapshot es"

lemma demo_choice_trace:
  "w_trace (demo_run demo_choice) =
     [Verified ''s1'' (Some [''lb'']) (JObj [(''gateway_status'', jint 200),
        (''gateway_response'', JObj [(''mode'', JStr ''dry-run''), (''compatible'', JBool True), (''result'', JStr ''ok''),
           (''persisted'', JBool True), (''plan'', JArr [JObj [(''domain'', JStr ''lb'')]])]),
        (''components'', JArr [JStr ''lb''])]),
      Sent DryRun ''s1'' (Some [''lb'']),
      Verified ''s1'' None (JObj [(''gateway_status'', jint 200),
        (''gateway_response'', JObj [(''mode'', JStr ''dry-run''), (''compatible'', JBool True), (''result'', JStr ''ok''),
           (''persisted'', JBool True), (''plan'', JArr [JObj [(''domain'', JStr ''lb'')], JObj [(''domain'', JStr ''bgp'')]])])]),
      Sent DryRun ''s1'' None]"
  by code_simp

subsection \<open>What the wizard promises\<close>

text \<open>C3. A commit is always earned. Whatever the operator clicks, however stale the screen is when a
  click lands, and whatever order answers arrive in, every commit request the wizard sends was
  preceded by a dry-run answer for the same snapshot and the same list of domains (none for the
  whole document), and that answer positively passed and was about exactly that selection. The
  one hypothesis is that no domain name of a plan holds a comma, the character the selections are
  compared by.
\<close>

theorem commits_are_dry_run_first:
  assumes "list_all plain_item (w_trace (run_wizard tr name s es))"
  shows "commits_earned (w_trace (run_wizard tr name s es))"
  using assms wizard_run_inv [of tr name s es] by (simp add: earned_def)

definition demo_commit :: "wizard_event list" where
  "demo_commit = demo_choice @ [ClickCommit, ClickCommit]"

lemma demo_commit_plain: "list_all plain_item (w_trace (demo_run demo_commit))"
  by code_simp

lemma demo_commit_sent: "hd (w_trace (demo_run demo_commit)) = Sent Commit ''s1'' (Some [''lb''])"
  by code_simp

theorem commits_are_dry_run_first_witness:
  "commits_earned (w_trace (demo_run demo_commit)) \<and>
   hd (w_trace (demo_run demo_commit)) = Sent Commit ''s1'' (Some [''lb''])"
  using commits_are_dry_run_first [OF demo_commit_plain [unfolded demo_run_def], folded demo_run_def] demo_commit_sent
  by simp

text \<open>C4. A double click is one restore. In every run, between two dry-runs of the whole document (the
  wizard opening, or an undo) at most one commit request is sent, even when several clicks on
  "Restore Now" run before the screen is drawn again.
\<close>

theorem never_commits_twice: "never_doubled (w_trace (run_wizard tr name s es))"
  using single_run [of tr name s es] by (simp add: single_def)

text \<open>C5. The committing screen, which cannot be dismissed, is always left: while a mounted wizard
  shows it, a commit call is outstanding, and whatever that call comes to (a restore result, a
  refusal, an answer that cannot be read, a lost connection), the next screen is the result, with
  an outcome or an error on it.
\<close>

theorem committing_is_left:
  assumes "v_step (w_cur (run_wizard tr name s es)) = StepCommitting"
    and "w_mounted (run_wizard tr name s es)"
  shows "\<exists>n < length (w_pending (run_wizard tr name s es)). \<forall>now call.
           (let v = w_cur (step_if_mounted tr name (Answer n (CallAnswer now call)) (run_wizard tr name s es))
            in v_step v = StepResult \<and> (v_commitOutcome v \<noteq> None \<or> v_commitError v \<noteq> None))"
proof -
  let ?w = "run_wizard tr name s es"
  obtain sid cs where "CommitPending (w_run ?w) sid cs \<in> set (w_pending ?w)"
    using awaited_run [of tr name s es] assms(1) by (auto simp: awaited_def)
  then obtain n where n: "n < length (w_pending ?w)" "w_pending ?w ! n = CommitPending (w_run ?w) sid cs"
    by (auto simp: in_set_conv_nth)
  show ?thesis
    using assms(2) by (intro exI [of _ n]) (simp add: n step_if_mounted_def on_commit_def Let_def)
qed

lemma demo_committing:
  "v_step (w_cur (demo_run demo_commit)) = StepCommitting \<and> w_mounted (demo_run demo_commit) \<and>
   length (w_pending (demo_run demo_commit)) = 1"
  by code_simp

theorem committing_is_left_witness:
  "v_step (w_cur (step_if_mounted (\<lambda>s ps. s) ''gw1'' (Answer 0 (CallAnswer 5 (Inl (PlainErr ''Failed to fetch''))))
     (demo_run demo_commit))) = StepResult"
proof -
  have "v_step (w_cur (run_wizard (\<lambda>s ps. s) ''gw1'' demo_snapshot demo_commit)) = StepCommitting"
    "w_mounted (run_wizard (\<lambda>s ps. s) ''gw1'' demo_snapshot demo_commit)"
    "length (w_pending (run_wizard (\<lambda>s ps. s) ''gw1'' demo_snapshot demo_commit)) = 1"
    using demo_committing by (simp_all add: demo_run_def)
  then show ?thesis
    using committing_is_left [of "\<lambda>s ps. s" "''gw1''" demo_snapshot demo_commit]
    by (auto simp: Let_def demo_run_def)
qed

text \<open>
  What a commit restores is what was ticked on the screen that was confirmed: no list is the whole
  document and then every domain of the plan is ticked; a list is the ticked domains of the plan
  and never empty, so clearing every box never turns into a restore of everything.
\<close>

lemma restores_what_is_ticked:
  assumes "w_trace (handleCommit name w) = Sent Commit sid cs # w_trace w"
  shows "case cs of
      None \<Rightarrow> set (planDomains (v_dryOutcome (w_rendered w))) \<subseteq> set (v_checked (w_rendered w))
    | Some ds \<Rightarrow> ds \<noteq> [] \<and> set ds = set (planDomains (v_dryOutcome (w_rendered w))) \<inter> set (v_checked (w_rendered w))"
proof -
  let ?v = "w_rendered w"
  have go: "canContinue ?v" and cs: "cs = components_of ?v"
    using commit_trace [of name w] assms by auto
  show ?thesis
  proof (cases cs)
    case None
    have "pickedNow ?v = None"
      using None cs by (simp add: pickedNow_def)
    then have "selection_of ?v = SelectAll" "fullPass ?v"
      using go by (auto simp: canContinue_def split: if_splits)
    then show ?thesis
      using None by (simp add: selection_of_def restoreSelection_all domains_of_def)
  next
    case (Some ds)
    with cs have "components_of ?v = Some ds"
      by simp
    then show ?thesis
      using components_of_Some(2,5) [of ?v ds] Some by auto
  qed
qed

text \<open>
  The comma hypothesis is needed: the code compares two selections by their joined text. Were there
  a domain \<open>a,b\<close> beside \<open>a\<close> and \<open>b\<close>, its dry-run would let the other two be committed.
\<close>

definition comma_run :: "wizard_event list" where
  "comma_run =
     [Render, Answer 0 (demo_answer ''dry-run'' [''a'', ''b'', ''a,b''] None), Render, Toggle ''a'', Toggle ''b'', Render,
      ClickPickedDryRun, Render, Answer 0 (demo_answer ''dry-run'' [''a,b''] (Some [''a,b''])), Render,
      Toggle ''a'', Toggle ''b'', Toggle ''a,b'', Render, ClickContinue, Render, TypeText ''gw1'', Render, ClickCommit]"

lemma comma_confuses:
  "hd (w_trace (demo_run comma_run)) = Sent Commit ''s1'' (Some [''a'', ''b'']) \<and>
   \<not> commits_earned (w_trace (demo_run comma_run))"
  by code_simp

end
