(* ===== verification/Regex.thy ===== *)
theory Regex
  imports JsText
begin

section \<open>Regular expressions\<close>

text \<open>
  The patterns of the code that are anchored at both ends and use classes, sequence, alternatives,
  groups and counted or unbounded repetition, so that \<open>test\<close> is membership in a regular language.
  \<open>rx_test\<close> decides it by derivatives; \<open>rx_lang\<close> is the language a pattern denotes, and
  \<open>rx_test_iff\<close> their equivalence.
\<close>

datatype rx =
    RNone
  | REps
  | RCls "(nat \<times> nat) list"
  | RSeq rx rx
  | RAlt rx rx
  | RStar rx

definition in_cls :: "(nat \<times> nat) list \<Rightarrow> char \<Rightarrow> bool" where
  "in_cls ranges c \<longleftrightarrow> list_ex (\<lambda>(lo, hi). lo \<le> code_of c \<and> code_of c \<le> hi) ranges"

subsection \<open>The language\<close>

inductive_set rx_star :: "string set \<Rightarrow> string set" for L where
  star_nil: "[] \<in> rx_star L"
| star_app: "u \<in> L \<Longrightarrow> v \<in> rx_star L \<Longrightarrow> u @ v \<in> rx_star L"

primrec rx_lang :: "rx \<Rightarrow> string set" where
  "rx_lang RNone = {}"
| "rx_lang REps = {[]}"
| "rx_lang (RCls rs) = {[c] | c. in_cls rs c}"
| "rx_lang (RSeq r s) = {u @ v | u v. u \<in> rx_lang r \<and> v \<in> rx_lang s}"
| "rx_lang (RAlt r s) = rx_lang r \<union> rx_lang s"
| "rx_lang (RStar r) = rx_star (rx_lang r)"

subsection \<open>The test\<close>

primrec nullable :: "rx \<Rightarrow> bool" where
  "nullable RNone = False"
| "nullable REps = True"
| "nullable (RCls rs) = False"
| "nullable (RSeq r s) = (nullable r \<and> nullable s)"
| "nullable (RAlt r s) = (nullable r \<or> nullable s)"
| "nullable (RStar r) = True"

text \<open>Sequence and alternative without dead branches.\<close>

definition rseq :: "rx \<Rightarrow> rx \<Rightarrow> rx" where
  "rseq r s = (if r = RNone \<or> s = RNone then RNone else if r = REps then s else RSeq r s)"

definition ralt :: "rx \<Rightarrow> rx \<Rightarrow> rx" where
  "ralt r s = (if r = RNone then s else if s = RNone \<or> r = s then r else RAlt r s)"

primrec deriv :: "char \<Rightarrow> rx \<Rightarrow> rx" where
  "deriv c RNone = RNone"
| "deriv c REps = RNone"
| "deriv c (RCls rs) = (if in_cls rs c then REps else RNone)"
| "deriv c (RSeq r s) = (if nullable r then ralt (rseq (deriv c r) s) (deriv c s) else rseq (deriv c r) s)"
| "deriv c (RAlt r s) = ralt (deriv c r) (deriv c s)"
| "deriv c (RStar r) = rseq (deriv c r) (RStar r)"

definition rx_test :: "rx \<Rightarrow> string \<Rightarrow> bool" where
  "rx_test r s = nullable (fold deriv s r)"

subsection \<open>The test decides the language\<close>

lemma rseq_lang [simp]: "rx_lang (rseq r s) = rx_lang (RSeq r s)"
  by (auto simp: rseq_def)

lemma ralt_lang [simp]: "rx_lang (ralt r s) = rx_lang r \<union> rx_lang s"
  by (auto simp: ralt_def)

lemma nullable_iff: "nullable r \<longleftrightarrow> [] \<in> rx_lang r"
  by (induction r) (auto intro: star_nil)

lemma star_ConsD:
  assumes "w \<in> rx_star L" "w = c # s"
  shows "\<exists>u v. s = u @ v \<and> c # u \<in> L \<and> v \<in> rx_star L"
  using assms
proof (induction arbitrary: s)
  case (star_app u v)
  then show ?case
    by (cases u) auto
qed simp

lemma star_Cons: "c # u \<in> L \<Longrightarrow> v \<in> rx_star L \<Longrightarrow> c # u @ v \<in> rx_star L"
  using star_app [of "c # u" L v] by simp

lemma seq_Cons:
  "c # s \<in> {u @ v | u v. u \<in> A \<and> v \<in> B} \<longleftrightarrow>
   (\<exists>u v. s = u @ v \<and> c # u \<in> A \<and> v \<in> B) \<or> ([] \<in> A \<and> c # s \<in> B)"
proof
  assume "c # s \<in> {u @ v | u v. u \<in> A \<and> v \<in> B}"
  then obtain u v where uv: "c # s = u @ v" "u \<in> A" "v \<in> B"
    by blast
  then show "(\<exists>u v. s = u @ v \<and> c # u \<in> A \<and> v \<in> B) \<or> ([] \<in> A \<and> c # s \<in> B)"
    by (cases u) auto
next
  assume "(\<exists>u v. s = u @ v \<and> c # u \<in> A \<and> v \<in> B) \<or> ([] \<in> A \<and> c # s \<in> B)"
  then show "c # s \<in> {u @ v | u v. u \<in> A \<and> v \<in> B}"
  proof
    assume "\<exists>u v. s = u @ v \<and> c # u \<in> A \<and> v \<in> B"
    then obtain u v where "c # s = (c # u) @ v" "c # u \<in> A" "v \<in> B"
      by auto
    then show ?thesis by blast
  next
    assume "[] \<in> A \<and> c # s \<in> B"
    then have "c # s = [] @ (c # s)" "[] \<in> A" "c # s \<in> B"
      by auto
    then show ?thesis by blast
  qed
qed

lemma deriv_lang: "s \<in> rx_lang (deriv c r) \<longleftrightarrow> c # s \<in> rx_lang r"
proof (induction r arbitrary: s)
  case (RSeq r1 r2)
  have "s \<in> {u @ v | u v. u \<in> rx_lang (deriv c r1) \<and> v \<in> rx_lang r2} \<longleftrightarrow>
      (\<exists>u v. s = u @ v \<and> c # u \<in> rx_lang r1 \<and> v \<in> rx_lang r2)"
    using RSeq.IH(1) by auto
  note seq = this
  have right: "s \<in> rx_lang (deriv c r2) \<longleftrightarrow> c # s \<in> rx_lang r2"
    by (rule RSeq.IH(2))
  show ?case
  proof (cases "nullable r1")
    case True
    then have "s \<in> rx_lang (deriv c (RSeq r1 r2)) \<longleftrightarrow>
        s \<in> {u @ v | u v. u \<in> rx_lang (deriv c r1) \<and> v \<in> rx_lang r2} \<or> s \<in> rx_lang (deriv c r2)"
      by (simp only: deriv.simps if_True ralt_lang rseq_lang rx_lang.simps Un_iff)
    then show ?thesis
      unfolding rx_lang.simps(4) seq_Cons seq right using True by (simp only: nullable_iff) blast
  next
    case False
    then have "s \<in> rx_lang (deriv c (RSeq r1 r2)) \<longleftrightarrow> s \<in> {u @ v | u v. u \<in> rx_lang (deriv c r1) \<and> v \<in> rx_lang r2}"
      by (simp only: deriv.simps if_False rseq_lang rx_lang.simps)
    then show ?thesis
      unfolding rx_lang.simps(4) seq_Cons seq using False by (simp only: nullable_iff) blast
  qed
next
  case (RStar r)
  show ?case
  proof -
    have "s \<in> rx_lang (deriv c (RStar r)) \<longleftrightarrow> s \<in> {u @ v | u v. u \<in> rx_lang (deriv c r) \<and> v \<in> rx_star (rx_lang r)}"
      by (simp only: deriv.simps rseq_lang rx_lang.simps)
    also have "\<dots> \<longleftrightarrow> (\<exists>u v. s = u @ v \<and> c # u \<in> rx_lang r \<and> v \<in> rx_star (rx_lang r))"
      using RStar by blast
    also have "\<dots> \<longleftrightarrow> c # s \<in> rx_star (rx_lang r)"
      using star_ConsD [of "c # s" "rx_lang r" c s] star_Cons [of c _ "rx_lang r"] by blast
    finally show ?thesis
      by (simp only: rx_lang.simps)
  qed
qed auto

theorem rx_test_iff: "rx_test r s \<longleftrightarrow> s \<in> rx_lang r"
proof -
  have "nullable (fold deriv s r) \<longleftrightarrow> s \<in> rx_lang r" for r
    by (induction s arbitrary: r) (simp_all add: nullable_iff deriv_lang)
  then show ?thesis
    by (simp add: rx_test_def)
qed

subsection \<open>Building patterns\<close>

definition rplus :: "rx \<Rightarrow> rx" where
  "rplus r = RSeq r (RStar r)"

definition ropt :: "rx \<Rightarrow> rx" where
  "ropt r = RAlt REps r"

text \<open>Up to a number of times, exactly, and between two numbers.\<close>

primrec rupto :: "nat \<Rightarrow> rx \<Rightarrow> rx" where
  "rupto 0 r = REps"
| "rupto (Suc n) r = RAlt REps (RSeq r (rupto n r))"

primrec rexact :: "nat \<Rightarrow> rx \<Rightarrow> rx" where
  "rexact 0 r = REps"
| "rexact (Suc n) r = RSeq r (rexact n r)"

definition rbetween :: "nat \<Rightarrow> nat \<Rightarrow> rx \<Rightarrow> rx" where
  "rbetween m n r = RSeq (rexact m r) (rupto (n - m) r)"

definition rchar :: "char \<Rightarrow> rx" where
  "rchar c = RCls [(code_of c, code_of c)]"

fun rtext :: "string \<Rightarrow> rx" where
  "rtext [] = REps"
| "rtext (c # s) = RSeq (rchar c) (rtext s)"

text \<open>The classes \<open>[0-9]\<close>, \<open>[a-z]\<close>, \<open>[A-Z]\<close>.\<close>

abbreviation digits_cls :: "(nat \<times> nat) list" where "digits_cls \<equiv> [(48, 57)]"
abbreviation lower_cls :: "(nat \<times> nat) list" where "lower_cls \<equiv> [(97, 122)]"
abbreviation upper_cls :: "(nat \<times> nat) list" where "upper_cls \<equiv> [(65, 90)]"

definition one_of :: "string \<Rightarrow> (nat \<times> nat) list" where
  "one_of s = map (\<lambda>c. (code_of c, code_of c)) s"

lemma code_of_inj [simp]: "code_of c = code_of d \<longleftrightarrow> c = d"
  by (simp add: code_of_def)

lemma in_cls_append [simp]: "in_cls (a @ b) c \<longleftrightarrow> in_cls a c \<or> in_cls b c"
  by (simp add: in_cls_def)

lemma in_one_of [simp]: "in_cls (one_of s) c \<longleftrightarrow> c \<in> set s"
proof -
  have "code_of d \<le> code_of c \<and> code_of c \<le> code_of d \<longleftrightarrow> c = d" for d
    by (auto simp flip: code_of_inj)
  then show ?thesis
    by (auto simp: in_cls_def one_of_def list_ex_iff)
qed

lemma in_digits [simp]: "in_cls digits_cls c \<longleftrightarrow> is_digit c"
  by (simp add: in_cls_def is_digit_def)

lemma in_alpha: "in_cls upper_cls c \<or> in_cls lower_cls c \<longleftrightarrow> is_alpha c"
  by (auto simp: in_cls_def is_alpha_def)

lemma lang_char [simp]: "rx_lang (rchar c) = {[c]}"
  using in_one_of [of "[c]"] by (auto simp: rchar_def one_of_def)

lemma lang_text [simp]: "rx_lang (rtext s) = {s}"
  by (induction s) auto

text \<open>Repetitions of a class are words over the class of that length.\<close>

lemma cls_Cons:
  "[] \<notin> rx_lang (RSeq (RCls rs) r)" "c # s \<in> rx_lang (RSeq (RCls rs) r) \<longleftrightarrow> in_cls rs c \<and> s \<in> rx_lang r"
proof -
  show "[] \<notin> rx_lang (RSeq (RCls rs) r)"
    by auto
  have "c # s \<in> rx_lang (RSeq (RCls rs) r)" if "in_cls rs c" "s \<in> rx_lang r"
  proof -
    have "c # s = [c] @ s" "[c] \<in> rx_lang (RCls rs)" "s \<in> rx_lang r"
      using that by auto
    then show ?thesis
      unfolding rx_lang.simps(4) by blast
  qed
  then show "c # s \<in> rx_lang (RSeq (RCls rs) r) \<longleftrightarrow> in_cls rs c \<and> s \<in> rx_lang r"
    by auto
qed

lemma star_cls: "rx_lang (RStar (RCls rs)) = {s. list_all (in_cls rs) s}"
proof -
  have "s \<in> rx_star {[c] | c. in_cls rs c} \<Longrightarrow> list_all (in_cls rs) s" for s
    by (induction rule: rx_star.induct) auto
  moreover have "list_all (in_cls rs) s \<Longrightarrow> s \<in> rx_star {[c] | c. in_cls rs c}" for s
  proof (induction s)
    case (Cons c s)
    then show ?case
      using star_app [of "[c]" "{[c] | c. in_cls rs c}" s] by auto
  qed (rule star_nil)
  ultimately show ?thesis by auto
qed

lemma plus_cls: "rx_lang (rplus (RCls rs)) = {s. s \<noteq> [] \<and> list_all (in_cls rs) s}"
proof -
  have "s \<in> rx_lang (RSeq (RCls rs) (RStar (RCls rs))) \<longleftrightarrow> s \<noteq> [] \<and> list_all (in_cls rs) s" for s
  proof (cases s)
    case Nil
    then show ?thesis
      using cls_Cons(1) by blast
  next
    case (Cons c t)
    then show ?thesis
      unfolding Cons cls_Cons star_cls by simp
  qed
  then show ?thesis
    unfolding rplus_def by blast
qed

lemma upto_cls: "rx_lang (rupto n (RCls rs)) = {s. length s \<le> n \<and> list_all (in_cls rs) s}"
proof (induction n)
  case (Suc n)
  have "s \<in> rx_lang (rupto (Suc n) (RCls rs)) \<longleftrightarrow> length s \<le> Suc n \<and> list_all (in_cls rs) s" for s
  proof (cases s)
    case (Cons c t)
    have "s \<in> rx_lang (rupto (Suc n) (RCls rs)) \<longleftrightarrow> s \<in> rx_lang (RSeq (RCls rs) (rupto n (RCls rs)))"
      using Cons by simp
    then show ?thesis
      unfolding Cons cls_Cons Suc by auto
  qed simp
  then show ?case by blast
qed auto

lemma exact_cls: "rx_lang (rexact n (RCls rs)) = {s. length s = n \<and> list_all (in_cls rs) s}"
proof (induction n)
  case (Suc n)
  have "s \<in> rx_lang (rexact (Suc n) (RCls rs)) \<longleftrightarrow> length s = Suc n \<and> list_all (in_cls rs) s" for s
  proof (cases s)
    case (Cons c t)
    then show ?thesis
      unfolding Cons rexact.simps cls_Cons Suc by auto
  qed simp
  then show ?case by blast
qed auto

lemma between_cls:
  assumes "m \<le> n"
  shows "rx_lang (rbetween m n (RCls rs)) = {s. m \<le> length s \<and> length s \<le> n \<and> list_all (in_cls rs) s}"
proof -
  have "s \<in> rx_lang (rbetween m n (RCls rs)) \<longleftrightarrow> m \<le> length s \<and> length s \<le> n \<and> list_all (in_cls rs) s" for s
  proof
    assume "m \<le> length s \<and> length s \<le> n \<and> list_all (in_cls rs) s"
    then have "length (take m s) = m" "length (drop m s) \<le> n - m"
      "list_all (in_cls rs) (take m s)" "list_all (in_cls rs) (drop m s)"
      by (auto simp: list_all_iff dest: in_set_takeD in_set_dropD)
    then show "s \<in> rx_lang (rbetween m n (RCls rs))"
      unfolding rbetween_def rx_lang.simps(4) upto_cls exact_cls by (metis (mono_tags, lifting) append_take_drop_id mem_Collect_eq)
  qed (use assms in \<open>auto simp: rbetween_def upto_cls exact_cls\<close>)
  then show ?thesis by blast
qed

text \<open>The letters of a word of a language are letters of its classes.\<close>

primrec rx_alphabet :: "rx \<Rightarrow> (nat \<times> nat) list" where
  "rx_alphabet RNone = []"
| "rx_alphabet REps = []"
| "rx_alphabet (RCls rs) = rs"
| "rx_alphabet (RSeq r s) = rx_alphabet r @ rx_alphabet s"
| "rx_alphabet (RAlt r s) = rx_alphabet r @ rx_alphabet s"
| "rx_alphabet (RStar r) = rx_alphabet r"

lemma lang_alphabet: "s \<in> rx_lang r \<Longrightarrow> c \<in> set s \<Longrightarrow> in_cls (rx_alphabet r) c"
proof (induction r arbitrary: s)
  case (RSeq r1 r2)
  then obtain u v where uv: "s = u @ v" "u \<in> rx_lang r1" "v \<in> rx_lang r2"
    by auto
  then have "c \<in> set u \<or> c \<in> set v"
    using RSeq.prems by auto
  then show ?case
    using uv RSeq.IH by auto
next
  case (RStar r)
  have "s \<in> rx_star (rx_lang r) \<Longrightarrow> c \<in> set s \<Longrightarrow> in_cls (rx_alphabet r) c" for s
    by (induction rule: rx_star.induct) (auto dest: RStar.IH)
  then show ?case
    using RStar.prems by simp
qed auto

end
