(* ===== verification/InstanceForm.thy ===== *)
theory InstanceForm
  imports Regex OpResult
begin

section \<open>Registering an instance: the form's validation\<close>

text \<open>
  \<open>src/src/components/input/instanceFormLogic.ts\<close>: the grammars of the fields that become parts of
  the instance's URL, the validation of the whole form with its two uniqueness rules, and the text
  for a refusal of the server. The dash of four messages is outside the modelled characters and is
  written \<open>-\<close>.
\<close>

subsection \<open>Field grammars\<close>

abbreviation alnum_cls :: "(nat \<times> nat) list" where
  "alnum_cls \<equiv> upper_cls @ lower_cls @ digits_cls"

definition NAME_RE :: rx where
  "NAME_RE = RSeq (RCls alnum_cls) (RStar (RCls (alnum_cls @ one_of ''._-'')))"

definition NAME_MAX :: nat where "NAME_MAX = 63"

definition DNS_LABEL_RE :: rx where
  "DNS_LABEL_RE = RSeq (RCls alnum_cls) (ropt (RSeq (rupto 61 (RCls (alnum_cls @ one_of ''-''))) (RCls alnum_cls)))"

definition VERSION_RE :: rx where
  "VERSION_RE = RSeq (rchar CHR ''v'') (rbetween 1 3 (RCls digits_cls))"

definition IMAGE_PATH_COMPONENT :: rx where
  "IMAGE_PATH_COMPONENT =
     (let word = rplus (RCls (lower_cls @ digits_cls))
      in RSeq word (RStar (RSeq (RAlt (RCls (one_of ''._'')) (RAlt (rtext ''__'') (rplus (rchar CHR ''-'')))) word)))"

definition IMAGE_REGISTRY :: rx where
  "IMAGE_REGISTRY =
     (let label = RSeq (RCls alnum_cls) (ropt (RSeq (RStar (RCls (alnum_cls @ one_of ''-''))) (RCls alnum_cls)))
      in RSeq label (RSeq (RStar (RSeq (rchar CHR ''.'') label))
           (ropt (RSeq (rchar CHR '':'') (rbetween 1 5 (RCls digits_cls))))))"

definition IMAGE_RE :: rx where
  "IMAGE_RE =
     RSeq (ropt (RSeq IMAGE_REGISTRY (rchar CHR ''/'')))
       (RSeq IMAGE_PATH_COMPONENT (RStar (RSeq (rchar CHR ''/'') IMAGE_PATH_COMPONENT)))"

definition IMAGE_MAX :: nat where "IMAGE_MAX = 255"

definition TAG_RE :: rx where
  "TAG_RE = RSeq (RCls (alnum_cls @ one_of ''_'')) (rupto 127 (RCls (alnum_cls @ one_of ''._-'')))"

definition DESCRIPTION_MAX :: nat where "DESCRIPTION_MAX = 1024"
definition HOST_MAX :: nat where "HOST_MAX = 253"
definition PROTOCOLS :: "string list" where "PROTOCOLS = [''http'', ''https'']"

subsection \<open>Primitive validators\<close>

text \<open>The patterns \<open>[0-9]{m,n}\<close> and \<open>[0-9A-Fa-f]{1,4}\<close>.\<close>

definition digits_between :: "nat \<Rightarrow> nat \<Rightarrow> string \<Rightarrow> bool" where
  "digits_between m n s \<longleftrightarrow> m \<le> length s \<and> length s \<le> n \<and> list_all is_digit s"

definition is_hex :: "char \<Rightarrow> bool" where
  "is_hex c \<longleftrightarrow> is_digit c \<or> (65 \<le> code_of c \<and> code_of c \<le> 70) \<or> (97 \<le> code_of c \<and> code_of c \<le> 102)"

definition is_valid_octet :: "string \<Rightarrow> bool" where
  "is_valid_octet part =
     (if \<not> digits_between 1 3 part then False
      else if length part > 1 \<and> starts_with part ''0'' then False
      else num_le (js_number part) (num 255))"

definition is_valid_ipv4 :: "string \<Rightarrow> bool" where
  "is_valid_ipv4 v =
     (let parts = split_on CHR ''.'' v in if length parts \<noteq> 4 then False else list_all is_valid_octet parts)"

text \<open>The matches of \<open>/::/g\<close>, and the split at them.\<close>

fun count_elisions :: "string \<Rightarrow> nat" where
  "count_elisions (c # d # s) = (if c = CHR '':'' \<and> d = CHR '':'' then Suc (count_elisions s) else count_elisions (d # s))"
| "count_elisions _ = 0"

fun split_elision :: "string \<Rightarrow> string list" where
  "split_elision (c # d # s) =
     (if c = CHR '':'' \<and> d = CHR '':'' then [] # split_elision s
      else (case split_elision (d # s) of [] \<Rightarrow> [[c]] | w # ws \<Rightarrow> (c # w) # ws))"
| "split_elision s = [s]"

text \<open>The text before the last colon and the one after it.\<close>

definition after_last :: "char \<Rightarrow> string \<Rightarrow> string" where
  "after_last c s = rev (takeWhile (\<lambda>x. x \<noteq> c) (rev s))"

definition before_last :: "char \<Rightarrow> string \<Rightarrow> string" where
  "before_last c s = take (length s - Suc (length (after_last c s))) s"

definition groups_of :: "string \<Rightarrow> string list" where
  "groups_of seg = (if seg = [] then [] else split_on CHR '':'' seg)"

definition is_group :: "string \<Rightarrow> bool" where
  "is_group g \<longleftrightarrow> 1 \<le> length g \<and> length g \<le> 4 \<and> list_all is_hex g"

definition ipv6_groups_ok :: "string \<Rightarrow> nat \<Rightarrow> bool" where
  "ipv6_groups_ok head tail_groups =
     (let elided = str_includes head ''::'';
          parts = (if elided then split_elision head else [head]);
          lefts = groups_of (hd parts);
          rights = groups_of (case parts of _ # r # _ \<Rightarrow> r | _ \<Rightarrow> []);
          groups = length lefts + length rights + tail_groups
      in list_all is_group (lefts @ rights) \<and> (if elided then groups \<le> 7 else groups = 8))"

definition is_valid_ipv6 :: "string \<Rightarrow> bool" where
  "is_valid_ipv6 v =
     (if v = [] \<or> CHR '':'' \<notin> set v then False
      else if \<not> list_all (\<lambda>c. is_hex c \<or> c = CHR '':'' \<or> c = CHR ''.'') v then False
      else if count_elisions v > 1 then False
      else (let tail = after_last CHR '':'' v
            in if CHR ''.'' \<in> set tail
               then (if \<not> is_valid_ipv4 tail then False
                     else if before_last CHR '':'' v = [] then False
                     else ipv6_groups_ok (before_last CHR '':'' v) 2)
               else ipv6_groups_ok v 0))"

definition is_valid_hostname :: "string \<Rightarrow> bool" where
  "is_valid_hostname v =
     (if v = [] \<or> length v > HOST_MAX then False
      else if ends_with v ''.'' then False
      else (let labels = split_on CHR ''.'' v
            in if \<not> list_all (rx_test DNS_LABEL_RE) labels then False
               else \<not> (length labels > 1 \<and> all_digits (last labels))))"

definition is_valid_host :: "string \<Rightarrow> bool" where
  "is_valid_host v =
     (if starts_with v ''['' \<and> ends_with v '']'' then is_valid_ipv6 (butlast (tl v))
      else is_valid_ipv4 v \<or> is_valid_hostname v)"

definition is_valid_port :: "string \<Rightarrow> bool" where
  "is_valid_port v =
     (if \<not> digits_between 1 5 v then False
      else if length v > 1 \<and> starts_with v ''0'' then False
      else num_le (num 1) (js_number v) \<and> num_le (js_number v) (num 65535))"

definition is_valid_protocol :: "string \<Rightarrow> bool" where
  "is_valid_protocol v \<longleftrightarrow> v \<in> set PROTOCOLS"

definition build_api_endpoint :: "string \<Rightarrow> string \<Rightarrow> string \<Rightarrow> string \<Rightarrow> string" where
  "build_api_endpoint protocol host port version = protocol @ ''://'' @ host @ '':'' @ port @ ''/netlox/'' @ version"

subsection \<open>Fields\<close>

definition form_text :: "jsv \<Rightarrow> string" where
  "form_text v = (if nullish v then [] else js_trim (js_string v))"

definition has_space :: "string \<Rightarrow> bool" where
  "has_space s \<longleftrightarrow> list_ex is_space s"

definition validate_name :: "string \<Rightarrow> string option" where
  "validate_name raw =
     (if raw = [] then Some ''Required''
      else if length raw > NAME_MAX then Some ''Name must be at most 63 characters.''
      else if \<not> rx_test NAME_RE raw
        then Some ''Name may contain letters, digits, dot, dash and underscore, and must start with a letter or digit.''
      else None)"

text \<open>The pattern \<open>[^[\]]+:[0-9]+\<close>: no bracket before a last part of digits.\<close>

definition host_with_port :: "string \<Rightarrow> bool" where
  "host_with_port raw \<longleftrightarrow>
     CHR '':'' \<in> set raw \<and> all_digits (after_last CHR '':'' raw) \<and> before_last CHR '':'' raw \<noteq> [] \<and>
     list_all (\<lambda>c. c \<noteq> CHR ''['' \<and> c \<noteq> CHR '']'') (before_last CHR '':'' raw)"

definition validate_host :: "string \<Rightarrow> string option" where
  "validate_host raw =
     (if raw = [] then Some ''Required''
      else if str_includes raw ''://'' then Some ''Enter the host only - no scheme (http:// or https://).''
      else if CHR ''/'' \<in> set raw then Some ''Enter the host only - no path.''
      else if has_space raw then Some ''Host must not contain spaces.''
      else if \<not> starts_with raw ''['' \<and> is_valid_ipv6 raw
        then Some ''Wrap an IPv6 address in brackets, e.g. [2001:db8::1].''
      else if host_with_port raw then Some ''Enter the host only - put the port in the Port field.''
      else if length raw > HOST_MAX then Some ''Host must be at most 253 characters.''
      else if \<not> is_valid_host raw then Some ''Enter a valid hostname, IPv4 address, or bracketed IPv6 address.''
      else None)"

definition validate_port :: "string \<Rightarrow> string option" where
  "validate_port raw =
     (if raw = [] then Some ''Required''
      else if \<not> all_digits raw then Some ''Port must be a number.''
      else if \<not> is_valid_port raw then Some ''Invalid port number.''
      else None)"

definition validate_version :: "string \<Rightarrow> string option" where
  "validate_version raw =
     (if raw = [] then Some ''Required''
      else if \<not> rx_test VERSION_RE raw then Some (''API version must look like '' @ [CHR 0x27] @ ''v1'' @ [CHR 0x27] @ ''.'')
      else None)"

definition validate_cimage :: "string \<Rightarrow> string option" where
  "validate_cimage raw =
     (if raw = [] then Some ''Required''
      else if length raw > IMAGE_MAX then Some ''Container image must be at most 255 characters.''
      else if has_space raw then Some ''Container image must not contain spaces.''
      else if CHR '':'' \<in> set (last (split_on CHR ''/'' raw))
        then Some (''Put the tag in the Tag field - the image must not include '' @ [CHR 0x22] @ '':tag'' @ [CHR 0x22] @ ''.'')
      else if raw \<noteq> to_lower raw then Some ''Container image must be lowercase.''
      else if \<not> rx_test IMAGE_RE raw then Some ''Enter a valid image reference, e.g. ghcr.io/loxilb-io/loxilb.''
      else None)"

definition validate_ctag :: "string \<Rightarrow> string option" where
  "validate_ctag raw =
     (if raw = [] then Some ''Required''
      else if \<not> rx_test TAG_RE raw
        then Some (''Tag may contain letters, digits, dot, dash and underscore (e.g. '' @ [CHR 0x27] @ ''latest'' @ [CHR 0x27] @ '').'')
      else None)"

definition validate_description :: "string \<Rightarrow> string option" where
  "validate_description raw =
     (if length raw > DESCRIPTION_MAX then Some ''Description must be at most 1024 characters.'' else None)"

subsection \<open>The form\<close>

record instance_values =
  iv_name :: string
  iv_host :: string
  iv_port :: string
  iv_protocol :: string
  iv_version :: string
  iv_cimage :: string
  iv_ctag :: string
  iv_description :: string

definition form_values :: "jsobj \<Rightarrow> instance_values" where
  "form_values form =
     \<lparr>iv_name = form_text (oget form ''name''), iv_host = form_text (oget form ''host''),
      iv_port = form_text (oget form ''port''), iv_protocol = form_text (oget form ''protocol''),
      iv_version = form_text (oget form ''version''), iv_cimage = form_text (oget form ''cimage''),
      iv_ctag = form_text (oget form ''ctag''), iv_description = form_text (oget form ''description'')\<rparr>"

type_synonym form_errors = "(string \<times> string) list"

definition set_error :: "string \<Rightarrow> string option \<Rightarrow> form_errors" where
  "set_error field message = (case message of None \<Rightarrow> [] | Some m \<Rightarrow> [(field, m)])"

definition field_errors :: "instance_values \<Rightarrow> form_errors" where
  "field_errors v =
     set_error ''name'' (validate_name (iv_name v)) @ set_error ''host'' (validate_host (iv_host v))
     @ set_error ''port'' (validate_port (iv_port v))
     @ set_error ''protocol'' (if is_valid_protocol (iv_protocol v) then None else Some ''Select http or https.'')
     @ set_error ''version'' (validate_version (iv_version v)) @ set_error ''cimage'' (validate_cimage (iv_cimage v))
     @ set_error ''ctag'' (validate_ctag (iv_ctag v)) @ set_error ''description'' (validate_description (iv_description v))"

definition values_endpoint :: "instance_values \<Rightarrow> string" where
  "values_endpoint v = build_api_endpoint (iv_protocol v) (iv_host v) (iv_port v) (iv_version v)"

definition item_endpoint :: "jsobj \<Rightarrow> string" where
  "item_endpoint item =
     (if form_text (oget item ''api_endpoint'') \<noteq> [] then form_text (oget item ''api_endpoint'')
      else build_api_endpoint (js_string (oget item ''protocol'')) (js_string (oget item ''host''))
             (js_string (oget item ''port'')) (js_string (oget item ''version'')))"

definition same_name :: "instance_values \<Rightarrow> jsobj \<Rightarrow> bool" where
  "same_name v item \<longleftrightarrow> to_lower (form_text (oget item ''name'')) = to_lower (iv_name v)"

definition same_endpoint :: "instance_values \<Rightarrow> jsobj \<Rightarrow> bool" where
  "same_endpoint v item \<longleftrightarrow> to_lower (item_endpoint item) = to_lower (values_endpoint v)"

definition others_of :: "jsobj list \<Rightarrow> jsv \<Rightarrow> jsobj list" where
  "others_of existing editing_id = filter (\<lambda>item. \<not> strict_eq (oget item ''id'') editing_id) existing"

definition name_clash :: "instance_values \<Rightarrow> jsobj list \<Rightarrow> form_errors \<Rightarrow> form_errors" where
  "name_clash v others errors =
     (if map_of errors ''name'' = None \<and> list_ex (same_name v) others
      then [(''name'', ''An instance named '' @ [CHR 0x27] @ iv_name v @ [CHR 0x27] @ '' already exists.'')] else [])"

definition endpoint_clash :: "instance_values \<Rightarrow> jsobj list \<Rightarrow> form_errors \<Rightarrow> form_errors" where
  "endpoint_clash v others errors =
     (if list_all (\<lambda>f. map_of errors f = None) [''host'', ''port'', ''protocol'', ''version'']
      then (case find (same_endpoint v) others of
              None \<Rightarrow> []
            | Some clash \<Rightarrow> [(''form'', ''Instance '' @ [CHR 0x27] @ js_string (oget clash ''name'') @ [CHR 0x27]
                               @ '' is already registered at '' @ values_endpoint v @ ''.'')])
      else [])"

definition validate_instance_form :: "jsobj \<Rightarrow> jsobj list \<Rightarrow> jsv \<Rightarrow> form_errors" where
  "validate_instance_form form existing editing_id =
     (let v = form_values form; errors = field_errors v; others = others_of existing editing_id
      in errors @ name_clash v others errors @ endpoint_clash v others errors)"

definition is_instance_form_valid :: "jsobj \<Rightarrow> jsobj list \<Rightarrow> jsv \<Rightarrow> bool" where
  "is_instance_form_valid form existing editing_id \<longleftrightarrow> validate_instance_form form existing editing_id = []"

subsection \<open>Refusals of the server\<close>

definition DUPLICATE_ENDPOINT :: string where
  "DUPLICATE_ENDPOINT = ''Another instance is already registered at this protocol/host/port/version.''"
definition DUPLICATE_NAME :: string where "DUPLICATE_NAME = ''An instance with this name already exists.''"
definition ROLE_REFUSED :: string where "ROLE_REFUSED = ''Your role does not permit managing instances.''"

definition describe_instance_error :: "jsv \<Rightarrow> string" where
  "describe_instance_error raw =
     (let message = form_text raw; lower = to_lower message
      in if message = [] then ''The server rejected the request.''
         else if str_includes lower ''duplicate'' \<and> str_includes lower ''api_endpoint'' then DUPLICATE_ENDPOINT
         else if str_includes lower ''duplicate'' \<and> str_includes lower ''name'' then DUPLICATE_NAME
         else if str_includes lower ''forbidden'' then ROLE_REFUSED
         else message)"

definition describe_instance_op_error :: "op_result \<Rightarrow> string" where
  "describe_instance_op_error res =
     (let lower = to_lower (case op_rawDetail res of Some d \<Rightarrow> d | None \<Rightarrow> [])
      in if str_includes lower ''duplicate'' \<and> str_includes lower ''api_endpoint'' then DUPLICATE_ENDPOINT
         else if str_includes lower ''duplicate'' \<and> str_includes lower ''name'' then DUPLICATE_NAME
         else if op_status res = Denied then ROLE_REFUSED
         else op_localeKey res)"

subsection \<open>Facts about the grammars\<close>

lemma after_last_app: "c \<notin> set b \<Longrightarrow> after_last c (a @ c # b) = b"
proof -
  assume "c \<notin> set b"
  then have "takeWhile (\<lambda>x. x \<noteq> c) (rev b @ c # rev a) = rev b"
    by (subst takeWhile_append2) auto
  then show ?thesis
    by (simp add: after_last_def)
qed

lemma before_last_app: "c \<notin> set b \<Longrightarrow> before_last c (a @ c # b) = a"
  by (simp add: before_last_def after_last_app)

lemma after_last_none: "c \<notin> set (after_last c s)"
  by (auto simp: after_last_def dest: set_takeWhileD)

lemma split_last:
  assumes "c \<in> set s"
  shows "s = before_last c s @ c # after_last c s"
proof -
  obtain a b where ab: "s = a @ c # b" "c \<notin> set b"
    using split_list_last [OF assms] by blast
  then show ?thesis
    by (simp add: after_last_app before_last_app)
qed

definition host_char :: "char \<Rightarrow> bool" where
  "host_char c \<longleftrightarrow> is_alpha c \<or> is_digit c \<or> c = CHR ''-'' \<or> c = CHR ''.''"

lemma label_chars: "rx_test DNS_LABEL_RE s \<Longrightarrow> c \<in> set s \<Longrightarrow> is_alpha c \<or> is_digit c \<or> c = CHR ''-''"
proof -
  assume "rx_test DNS_LABEL_RE s" "c \<in> set s"
  then have "in_cls (rx_alphabet DNS_LABEL_RE) c"
    by (simp add: rx_test_iff lang_alphabet)
  moreover have "set (rx_alphabet DNS_LABEL_RE) \<subseteq> set (upper_cls @ lower_cls @ digits_cls @ one_of ''-'')"
    by code_simp
  ultimately have "in_cls (upper_cls @ lower_cls @ digits_cls @ one_of ''-'') c"
    by (fastforce simp: in_cls_def list_ex_iff)
  then show ?thesis
    unfolding in_cls_append in_digits in_one_of using in_alpha [of c] by auto
qed

lemma set_split: "c \<in> set s \<Longrightarrow> c = d \<or> (\<exists>w\<in>set (split_on d s). c \<in> set w)"
  using set_join [of c "[d]" "split_on d s"] by auto

lemma hostname_chars: "is_valid_hostname v \<Longrightarrow> c \<in> set v \<Longrightarrow> host_char c"
  using set_split [of c v "CHR ''.''"] label_chars
  by (auto simp: is_valid_hostname_def Let_def host_char_def list_all_iff split: if_splits)

lemma ipv4_chars: "is_valid_ipv4 v \<Longrightarrow> c \<in> set v \<Longrightarrow> is_digit c \<or> c = CHR ''.''"
  using set_split [of c v "CHR ''.''"]
  by (auto simp: is_valid_ipv4_def is_valid_octet_def digits_between_def Let_def list_all_iff split: if_splits)

lemma ipv6_chars: "is_valid_ipv6 v \<Longrightarrow> c \<in> set v \<Longrightarrow> is_hex c \<or> c = CHR '':'' \<or> c = CHR ''.''"
  by (auto simp: is_valid_ipv6_def list_all_iff split: if_splits)

lemma brackets:
  assumes "starts_with v ''[''" "ends_with v '']''" "v \<noteq> ''[''"
  shows "v = CHR ''['' # butlast (tl v) @ '']''"
proof -
  obtain r where r: "v = CHR ''['' # r"
    using assms(1) by (auto simp: starts_with_iff)
  moreover obtain q where "v = q @ '']''"
    using assms(2) by (auto simp: ends_with_iff)
  ultimately have "r \<noteq> []" "last r = CHR '']''"
    using assms(3) by (cases q; auto)+
  then show ?thesis
    using r append_butlast_last_id [of r] by simp
qed

text \<open>An accepted host is a bracketed address, or has no colon; it never has a slash.\<close>

lemma host_shape:
  assumes "is_valid_host v"
  shows "(\<exists>a. v = CHR ''['' # a @ '']'' \<and> is_valid_ipv6 a) \<or> list_all host_char v"
proof (cases "starts_with v ''['' \<and> ends_with v '']''")
  case True
  then have a: "is_valid_ipv6 (butlast (tl v))"
    using assms by (simp add: is_valid_host_def)
  then have "v \<noteq> ''[''"
    by (auto simp: is_valid_ipv6_def)
  then show ?thesis
    using True a brackets by blast
next
  case False
  then have "is_valid_ipv4 v \<or> is_valid_hostname v"
    using assms by (simp add: is_valid_host_def)
  then show ?thesis
    using ipv4_chars hostname_chars by (auto simp: list_all_iff host_char_def)
qed

definition url_host_char :: "char \<Rightarrow> bool" where
  "url_host_char c \<longleftrightarrow> host_char c \<or> c = CHR '':'' \<or> c = CHR ''['' \<or> c = CHR '']''"

lemma host_chars: "is_valid_host v \<Longrightarrow> list_all url_host_char v"
  using host_shape [of v] ipv6_chars
  by (fastforce simp: url_host_char_def host_char_def is_hex_def is_alpha_def list_all_iff)

lemma host_no_slash: "is_valid_host v \<Longrightarrow> CHR ''/'' \<notin> set v"
  using host_chars [of v]
  by (auto simp: list_all_iff url_host_char_def host_char_def is_alpha_def is_digit_def)

lemma digits_no_mark: "list_all is_digit s \<Longrightarrow> \<not> is_digit c \<Longrightarrow> c \<notin> set s"
  by (auto simp: list_all_iff)

lemma version_shape: "rx_test VERSION_RE v \<Longrightarrow> \<exists>n. v = CHR ''v'' # n \<and> 1 \<le> length n \<and> length n \<le> 3 \<and> list_all is_digit n"
proof -
  assume "rx_test VERSION_RE v"
  then have "v \<in> rx_lang VERSION_RE"
    by (simp only: rx_test_iff)
  then obtain u n where "v = u @ n" "u \<in> rx_lang (rchar CHR ''v'')" "n \<in> rx_lang (rbetween 1 3 (RCls digits_cls))"
    unfolding VERSION_RE_def rx_lang.simps(4) by blast
  moreover have "rx_lang (rbetween 1 3 (RCls digits_cls)) = {s. 1 \<le> length s \<and> length s \<le> 3 \<and> list_all (in_cls digits_cls) s}"
    by (rule between_cls) simp
  ultimately show ?thesis
    by (auto simp: list_all_iff)
qed

subsection \<open>What the form accepts\<close>

lemma field_errors_none:
  assumes "field_errors v = []"
  shows "validate_name (iv_name v) = None" "validate_host (iv_host v) = None" "validate_port (iv_port v) = None"
    "is_valid_protocol (iv_protocol v)" "validate_version (iv_version v) = None" "validate_cimage (iv_cimage v) = None"
    "validate_ctag (iv_ctag v) = None" "validate_description (iv_description v) = None"
  using assms by (auto simp: field_errors_def set_error_def split: option.splits if_splits)

lemma host_accepted: "validate_host h = None \<Longrightarrow> is_valid_host h"
  by (auto simp: validate_host_def split: if_splits)

lemma port_accepted: "validate_port p = None \<Longrightarrow> is_valid_port p"
  by (auto simp: validate_port_def split: if_splits)

lemma version_accepted: "validate_version p = None \<Longrightarrow> rx_test VERSION_RE p"
  by (auto simp: validate_version_def split: if_splits)

lemma digits_val_bound: "list_all is_digit s \<Longrightarrow> digits_val s < 10 ^ length s"
proof (induction s rule: rev_induct)
  case (snoc c s)
  then have "digits_val s < 10 ^ length s" "digit_val c \<le> 9"
    by (auto simp: digit_val_def is_digit_def)
  then show ?case by simp
qed simp

lemma port_value:
  assumes "is_valid_port p"
  shows "js_number p = num (digits_val p)"
proof (rule js_number_digits)
  have d: "p \<noteq> []" "list_all is_digit p" "length p \<le> 5"
    using assms by (auto simp: is_valid_port_def digits_between_def split: if_splits)
  then show "all_digits p"
    by (simp add: all_digits_def)
  have "digits_val p < 10 ^ length p"
    by (rule digits_val_bound [OF d(2)])
  also have "\<dots> \<le> 10 ^ 5"
    using d(3) by (intro power_increasing) simp_all
  finally show "digits_val p < 9007199254740992"
    by simp
qed

text \<open>A port in one spelling only.\<close>

lemma port_digits: "is_valid_port p \<Longrightarrow> p \<noteq> [] \<and> list_all is_digit p"
  by (auto simp: is_valid_port_def digits_between_def split: if_splits)

text \<open>How a URL of this shape is read: scheme, authority and path at the slashes, host and port at the last colon.\<close>

definition read_endpoint :: "string \<Rightarrow> (string \<times> string \<times> string \<times> string) option" where
  "read_endpoint url =
     (case split_on CHR ''/'' url of
        [scheme, [], authority, path, version] \<Rightarrow>
          (if last scheme = CHR '':'' \<and> path = ''netlox''
           then Some (butlast scheme, before_last CHR '':'' authority, after_last CHR '':'' authority, version) else None)
      | _ \<Rightarrow> None)"

lemma read_endpoint_build:
  assumes "CHR ''/'' \<notin> set protocol" "CHR ''/'' \<notin> set host" "list_all is_digit port" "CHR ''/'' \<notin> set version"
  shows "read_endpoint (build_api_endpoint protocol host port version) = Some (protocol, host, port, version)"
proof -
  have "\<not> is_digit CHR ''/''" "\<not> is_digit CHR '':''"
    by code_simp+
  then have p: "CHR ''/'' \<notin> set port" "CHR '':'' \<notin> set port"
    using assms(3) digits_no_mark by blast+
  have e: "build_api_endpoint protocol host port version =
      (protocol @ '':'') @ CHR ''/'' # [] @ CHR ''/'' # (host @ CHR '':'' # port) @ CHR ''/'' # ''netlox'' @ CHR ''/'' # version"
    by (simp add: build_api_endpoint_def)
  have "split_on CHR ''/'' (build_api_endpoint protocol host port version) =
      [protocol @ '':'', [], host @ CHR '':'' # port, ''netlox'', version]"
    unfolding e by (subst split_on_append, use assms p in simp)+ (use assms p in \<open>simp_all add: split_on_plain\<close>)
  then show ?thesis
    by (simp add: read_endpoint_def before_last_app after_last_app p)
qed


text \<open>An accepted instance is nobody else's. Of the instances the page knows, none but the one
  being edited has the same name or the same endpoint, in any spelling of upper and lower case, and
  every field of the form passed its own rule.
\<close>

theorem accepted_instance_is_unique:
  assumes "is_instance_form_valid form existing editing_id"
  shows "field_errors (form_values form) = [] \<and>
         list_all (\<lambda>item. if strict_eq (oget item ''id'') editing_id then True
                          else \<not> same_name (form_values form) item \<and> \<not> same_endpoint (form_values form) item) existing"
proof -
  let ?v = "form_values form" and ?o = "others_of existing editing_id"
  have e: "field_errors ?v = []" and n: "name_clash ?v ?o [] = []" and c: "endpoint_clash ?v ?o [] = []"
    using assms by (auto simp: is_instance_form_valid_def validate_instance_form_def Let_def)
  have "\<not> list_ex (same_name ?v) ?o"
    using n by (auto simp: name_clash_def split: if_splits)
  moreover have "find (same_endpoint ?v) ?o = None"
    using c by (auto simp: endpoint_clash_def split: option.splits)
  ultimately show ?thesis
    using e by (auto simp: others_of_def list_all_iff list_ex_iff find_None_iff)
qed

definition demo_instance :: "string \<Rightarrow> string \<Rightarrow> jsobj" where
  "demo_instance name host =
     [(''id'', jint 7), (''name'', JStr name), (''host'', JStr host), (''port'', JStr '' 8091 ''), (''protocol'', JStr ''https''),
      (''version'', JStr ''v1''), (''cimage'', JStr ''ghcr.io/loxilb-io/loxilb''), (''ctag'', JStr ''latest'')]"

lemma demo_instance_ok: "field_errors (form_values (demo_instance ''gw-1'' ''[2001:db8::1]'')) = []"
  by code_simp


lemma demo_form_ok:
  "is_instance_form_valid (demo_instance ''gw-2'' ''gw.example'') [demo_instance ''GW-1'' ''[2001:db8::1]''] JUndef"
  by code_simp

lemma demo_form_clash:
  "map fst (validate_instance_form (demo_instance ''gw-1'' ''GW.example'') [AList.update ''port'' (JStr ''8091'') (demo_instance ''GW-1'' ''gw.example'')] JUndef) = [''name'', ''form'']"
  by code_simp

theorem accepted_instance_is_unique_witness:
  "\<not> same_endpoint (form_values (demo_instance ''gw-2'' ''gw.example'')) (demo_instance ''GW-1'' ''[2001:db8::1]'')"
proof -
  have "\<not> strict_eq (oget (demo_instance ''GW-1'' ''[2001:db8::1]'') ''id'') JUndef"
    by code_simp
  then show ?thesis
    using accepted_instance_is_unique [OF demo_form_ok] unfolding list_all_iff by (metis list.set_intros(1))
qed

text \<open>
  An IPv4 address embedded right after the elision is refused although the textual form is valid:
  the text before the last colon then ends in the first colon of the elision only.
\<close>

lemma elided_embedded_ipv4_refused:
  "\<not> is_valid_ipv6 ''64:ff9b::192.0.2.33'' \<and> is_valid_ipv6 ''::ffff:192.0.2.1'' \<and> is_valid_ipv6 ''64:ff9b::c000:221''"
  by code_simp

end
