(* ===== verification/Exposition.thy ===== *)
theory Exposition
  imports JsText "HOL-Library.List_Lexorder" "HOL-Library.Char_ord"
begin

section \<open>The metrics exposition: \<open>observability/parser.ts\<close>\<close>

text \<open>
  The Prometheus text format as the client reads it: one state, one step per line, and the loop that
  stops at the first breached limit. Label sets are objects (\<open>labels[name] = value\<close>, an assignment
  to \<open>__proto__\<close> has no effect), the families a \<open>Map\<close> in insertion order. Lengths are counted in
  characters.
\<close>

definition bodyBytes :: nat where "bodyBytes = 8 * 1024 * 1024"
definition sampleCount :: nat where "sampleCount = 200000"
definition labelLength :: nat where "labelLength = 4096"
definition lineLength :: nat where "lineLength = 64 * 1024"
definition MAX_WARNINGS :: nat where "MAX_WARNINGS = 20"

datatype metric_type = Counter | Gauge | Histogram | Summary | Untyped | UnknownType

type_synonym labels = "(string \<times> string) list"

record metric_sample =
  ms_name :: string
  ms_labels :: labels
  ms_key :: string
  ms_value :: jsnum
  ms_timestamp :: "jsnum option"

record metric_family =
  mf_name :: string
  mf_type :: metric_type
  mf_rawType :: "string option"
  mf_help :: "string option"
  mf_samples :: "metric_sample list"
  mf_seen :: "string list"

datatype limit_kind = BodyBytes | SampleCount | LabelLength | LineLength

type_synonym limit_error = "limit_kind \<times> nat \<times> nat"

subsection \<open>Tokens\<close>

definition name_start :: "char \<Rightarrow> bool" where "name_start c \<longleftrightarrow> is_alpha c \<or> c = CHR ''_'' \<or> c = CHR '':''"
definition name_char :: "char \<Rightarrow> bool" where "name_char c \<longleftrightarrow> name_start c \<or> is_digit c"
definition label_char :: "char \<Rightarrow> bool" where "label_char c \<longleftrightarrow> is_alpha c \<or> is_digit c \<or> c = CHR ''_''"

definition NAME_RE :: "string \<Rightarrow> bool" where
  "NAME_RE s \<longleftrightarrow> s \<noteq> [] \<and> name_start (hd s) \<and> list_all name_char (tl s)"

definition unsigned :: "string \<Rightarrow> string" where
  "unsigned s = (if s \<noteq> [] \<and> (hd s = CHR ''+'' \<or> hd s = CHR ''-'') then tl s else s)"

definition number_literal :: "string \<Rightarrow> bool" where
  "number_literal s =
     (let (ip, r1) = take_digits s;
          point = (r1 \<noteq> [] \<and> hd r1 = CHR ''.'');
          (fp, r2) = (if point then take_digits (tl r1) else ([], r1))
      in (ip \<noteq> [] \<or> fp \<noteq> []) \<and> (case exponent_part r2 of Some (e, []) \<Rightarrow> True | _ \<Rightarrow> False))"

definition is_inf :: "string \<Rightarrow> bool" where
  "is_inf s \<longleftrightarrow> s \<in> {''inf'', ''Inf'', ''infinity'', ''Infinity''}"

definition is_nan_token :: "string \<Rightarrow> bool" where
  "is_nan_token s \<longleftrightarrow> to_lower s = ''nan''"

definition VALUE_RE :: "string \<Rightarrow> bool" where
  "VALUE_RE s \<longleftrightarrow> number_literal (unsigned s) \<or> is_inf (unsigned s) \<or> is_nan_token s"

definition KNOWN_TYPES :: "(string \<times> metric_type) list" where
  "KNOWN_TYPES = [(''counter'', Counter), (''gauge'', Gauge), (''histogram'', Histogram), (''summary'', Summary), (''untyped'', Untyped)]"

definition isDependencyFamily :: "string \<Rightarrow> bool" where
  "isDependencyFamily name \<longleftrightarrow> starts_with name ''go_'' \<or> starts_with name ''process_'' \<or> starts_with name ''promhttp_''"

definition parseValue :: "string \<Rightarrow> jsnum option" where
  "parseValue token =
     (if \<not> VALUE_RE token then None
      else if str_includes token ''Inf'' \<or> str_includes token ''inf'' then Some (if starts_with token ''-'' then NegInf else PosInf)
      else if is_nan_token token then Some NaN
      else (let n = js_number token in if n = NaN then None else Some n))"

fun unescapeText :: "string \<Rightarrow> string" where
  "unescapeText [] = []"
| "unescapeText [c] = [c]"
| "unescapeText (c # n # r) =
     (if c \<noteq> CHR 0x5C then c # unescapeText (n # r)
      else (if n = CHR ''n'' then CHR 0x0A else n) # unescapeText r)"

subsection \<open>Labels\<close>

datatype label_parse = LabelsRead labels string | LabelsMalformed | LabelsBreach nat

text \<open>A quoted value after its opening quote: the raw text and what follows the closing quote.\<close>

fun quoted_value :: "string \<Rightarrow> (string \<times> string) option" where
  "quoted_value [] = None"
| "quoted_value (c # r) =
     (if c = CHR 0x5C then (case r of
          [] \<Rightarrow> None
        | n # r' \<Rightarrow> map_option (\<lambda>(raw, rest). (c # n # raw, rest)) (quoted_value r'))
      else if c = CHR 0x22 then Some ([], r)
      else map_option (\<lambda>(raw, rest). (c # raw, rest)) (quoted_value r))"

definition set_label :: "string \<Rightarrow> string \<Rightarrow> labels \<Rightarrow> labels" where
  "set_label name v ls = (if name = ''__proto__'' then ls else AList.update name v ls)"

definition label_gap :: "char \<Rightarrow> bool" where
  "label_gap c \<longleftrightarrow> c = CHR '' '' \<or> c = CHR '',''"

lemma quoted_value_shorter: "quoted_value s = Some (raw, rest) \<Longrightarrow> length rest < length s"
  by (induction s arbitrary: raw rule: quoted_value.induct) (auto split: if_splits list.splits, fastforce+)

text \<open>\<open>parseLabels\<close> from just after the opening brace.\<close>

function parseLabels :: "labels \<Rightarrow> string \<Rightarrow> label_parse" where
  "parseLabels labels str =
     (let s = dropWhile label_gap str
      in if s \<noteq> [] \<and> hd s = CHR ''}'' then LabelsRead labels (tl s)
         else (let name = takeWhile label_char s; r = dropWhile label_char s
               in if name = [] \<or> \<not> starts_with r [CHR ''='', CHR 0x22] then LabelsMalformed
                  else (case quoted_value (drop 2 r) of
                          None \<Rightarrow> LabelsMalformed
                        | Some (raw, rest) \<Rightarrow>
                            if length (unescapeText raw) > labelLength then LabelsBreach (length (unescapeText raw))
                            else parseLabels (set_label name (unescapeText raw) labels) rest)))"
  by pat_completeness auto

lemma parse_labels_progress:
  assumes "quoted_value (drop 2 (dropWhile label_char (dropWhile label_gap str))) = Some (raw, rest)"
  shows "length rest < length str"
proof -
  have "length rest < length (drop 2 (dropWhile label_char (dropWhile label_gap str)))"
    using assms by (rule quoted_value_shorter)
  also have "\<dots> \<le> length (dropWhile label_char (dropWhile label_gap str))"
    by simp
  also have "\<dots> \<le> length (dropWhile label_gap str)"
    by (rule length_dropWhile_le)
  also have "\<dots> \<le> length str"
    by (rule length_dropWhile_le)
  finally show ?thesis .
qed

termination parseLabels
  by (relation "measure (\<lambda>(labels, str). length str)") (auto simp: parse_labels_progress)

declare parseLabels.simps [simp del]

definition escape_label :: "string \<Rightarrow> string" where
  "escape_label v = concat (map (\<lambda>c. if c = CHR 0x5C then [CHR 0x5C, CHR 0x5C]
      else if c = CHR 0x22 then [CHR 0x5C, CHR 0x22] else if c = CHR 0x0A then [CHR 0x5C, CHR ''n''] else [c]) v)"

definition label_text :: "labels \<Rightarrow> string \<Rightarrow> string" where
  "label_text ls k = k @ [CHR ''='', CHR 0x22] @ escape_label (the (map_of ls k)) @ [CHR 0x22]"

definition labelKeyOf :: "labels \<Rightarrow> string" where
  "labelKeyOf ls = join_with '','' (map (label_text ls) (sort (map fst ls)))"

definition typed_as :: "(string \<times> string) list \<Rightarrow> string \<Rightarrow> string \<Rightarrow> bool" where
  "typed_as typed name t \<longleftrightarrow> map_of typed name = Some t"

definition without_suffix :: "string \<Rightarrow> string \<Rightarrow> string" where
  "without_suffix s suffix = take (length s - length suffix) s"

fun family_by_suffix :: "(string \<times> string) list \<Rightarrow> string \<Rightarrow> string list \<Rightarrow> string" where
  "family_by_suffix typed name [] = name"
| "family_by_suffix typed name (suffix # others) =
     (if \<not> ends_with name suffix then family_by_suffix typed name others
      else (let base = without_suffix name suffix
            in if typed_as typed base ''histogram'' then base
               else if typed_as typed base ''summary'' \<and> (suffix = ''_sum'' \<or> suffix = ''_count'') then base
               else family_by_suffix typed name others))"

definition familyNameOf :: "string \<Rightarrow> (string \<times> string) list \<Rightarrow> string" where
  "familyNameOf name typed = family_by_suffix typed name [''_bucket'', ''_sum'', ''_count'']"

subsection \<open>The parser's state\<close>

record parse_state =
  p_families :: "(string \<times> metric_family) list"
  p_typed :: "(string \<times> string) list"
  p_warnings :: "string list"
  p_skipped :: nat
  p_total :: nat
  p_limit :: "limit_error option"

definition parse_init :: parse_state where
  "parse_init = \<lparr>p_families = [], p_typed = [], p_warnings = [], p_skipped = 0, p_total = 0, p_limit = None\<rparr>"

definition warn :: "string \<Rightarrow> parse_state \<Rightarrow> parse_state" where
  "warn msg st =
     (if length (p_warnings st) < MAX_WARNINGS then st\<lparr>p_warnings := p_warnings st @ [msg]\<rparr>
      else if length (p_warnings st) = MAX_WARNINGS then st\<lparr>p_warnings := p_warnings st @ [''further warnings suppressed'']\<rparr>
      else st)"

definition skip_line :: "string \<Rightarrow> parse_state \<Rightarrow> parse_state" where
  "skip_line msg st = warn msg (st\<lparr>p_skipped := p_skipped st + 1\<rparr>)"

definition type_of_token :: "string \<Rightarrow> metric_type" where
  "type_of_token t = (case map_of KNOWN_TYPES t of Some ty \<Rightarrow> ty | None \<Rightarrow> UnknownType)"

definition raw_of_token :: "string \<Rightarrow> string option" where
  "raw_of_token t = (if map_of KNOWN_TYPES t = None then Some t else None)"

definition new_family :: "(string \<times> string) list \<Rightarrow> string \<Rightarrow> metric_family" where
  "new_family typed name =
     \<lparr>mf_name = name, mf_type = (case map_of typed name of None \<Rightarrow> Untyped | Some t \<Rightarrow> type_of_token t),
      mf_rawType = (case map_of typed name of None \<Rightarrow> None | Some t \<Rightarrow> raw_of_token t),
      mf_help = None, mf_samples = [], mf_seen = []\<rparr>"

definition familyOf :: "parse_state \<Rightarrow> string \<Rightarrow> metric_family" where
  "familyOf st name = (case map_of (p_families st) name of None \<Rightarrow> new_family (p_typed st) name | Some f \<Rightarrow> f)"

definition put_family :: "metric_family \<Rightarrow> parse_state \<Rightarrow> parse_state" where
  "put_family f st = st\<lparr>p_families := AList.update (mf_name f) f (p_families st)\<rparr>"

text \<open>The parts of a comment line the pattern takes: the keyword, the name and the rest.\<close>

definition header_parts :: "string \<Rightarrow> (string \<times> string \<times> string) option" where
  "header_parts line =
     (let s0 = tl line; s1 = dropWhile is_space s0;
          keyword = take 4 s1; s2 = drop 4 s1; s3 = dropWhile is_space s2;
          name = takeWhile name_char s3; rest = dropWhile is_space (dropWhile name_char s3)
      in if s0 = s1 \<or> keyword \<notin> {''HELP'', ''TYPE''} \<or> s2 = s3 \<or> \<not> NAME_RE name \<or> CHR 0x0D \<in> set rest then None
         else Some (keyword, name, rest))"

definition header_line :: "string \<Rightarrow> parse_state \<Rightarrow> parse_state" where
  "header_line line st =
     (case header_parts line of
        None \<Rightarrow> st
      | Some (keyword, name, rest) \<Rightarrow>
          if keyword = ''HELP'' then put_family ((familyOf st name)\<lparr>mf_help := Some (unescapeText rest)\<rparr>) st
          else (let token = js_trim rest; st1 = st\<lparr>p_typed := AList.update name token (p_typed st)\<rparr>
                in put_family ((familyOf st1 name)\<lparr>mf_type := type_of_token token, mf_rawType := raw_of_token token\<rparr>) st1))"

subsection \<open>Sample lines\<close>

definition blank :: "char \<Rightarrow> bool" where
  "blank c \<longleftrightarrow> c = CHR '' '' \<or> c = CHR 0x09"

text \<open>\<open>s.trim().split(/[ \t]+/)\<close>\<close>

fun split_blanks :: "string \<Rightarrow> string list" where
  "split_blanks [] = [[]]"
| "split_blanks (c # s) =
     (if blank c then (case split_blanks s of [] \<Rightarrow> [[]] | w # ws \<Rightarrow> if w = [] \<and> ws \<noteq> [] then w # ws else [] # w # ws)
      else (case split_blanks s of [] \<Rightarrow> [[c]] | w # ws \<Rightarrow> (c # w) # ws))"

datatype line_head = HeadBreach nat | HeadBad string | HeadOk string labels string

definition line_head_of :: "string \<Rightarrow> line_head" where
  "line_head_of line =
     (if CHR ''{'' \<in> set line then
        (case parseLabels [] (tl (dropWhile (\<lambda>c. c \<noteq> CHR ''{'') line)) of
           LabelsBreach n \<Rightarrow> HeadBreach n
         | LabelsMalformed \<Rightarrow> HeadBad ''malformed labels: ''
         | LabelsRead ls rest \<Rightarrow> HeadOk (takeWhile (\<lambda>c. c \<noteq> CHR ''{'') line) ls rest)
      else if list_ex blank line then HeadOk (takeWhile (\<lambda>c. \<not> blank c) line) [] (dropWhile (\<lambda>c. \<not> blank c) line)
      else HeadBad ''malformed sample: '')"

text \<open>The value and the time stamp after the name and the labels, or the message of what is wrong.\<close>

definition line_tail_of :: "string \<Rightarrow> string \<Rightarrow> string + (jsnum \<times> jsnum option)" where
  "line_tail_of name rest =
     (if \<not> NAME_RE name then Inl ''invalid metric name: ''
      else (let parts = split_blanks (js_trim rest)
            in if length parts > 2 \<or> hd parts = [] then Inl ''malformed value: ''
               else (case parseValue (hd parts) of
                       None \<Rightarrow> Inl ''unparseable value: ''
                     | Some v \<Rightarrow>
                         if length parts = 2
                         then (if is_finite (js_number (parts ! 1)) then Inr (v, Some (js_number (parts ! 1)))
                               else Inl ''unparseable timestamp: '')
                         else Inr (v, None))))"

definition add_sample :: "string \<Rightarrow> labels \<Rightarrow> jsnum \<Rightarrow> jsnum option \<Rightarrow> parse_state \<Rightarrow> parse_state" where
  "add_sample name ls v ts st =
     (let family = familyOf st (familyNameOf name (p_typed st));
          labelKey = labelKeyOf ls;
          identity = name @ '' '' @ labelKey
      in if identity \<in> set (mf_seen family)
         then skip_line (''duplicate series: '' @ name @ ''{'' @ labelKey @ ''}'') (put_family family st)
         else (put_family (family\<lparr>mf_seen := mf_seen family @ [identity],
                 mf_samples := mf_samples family @ [\<lparr>ms_name = name, ms_labels = ls, ms_key = labelKey, ms_value = v, ms_timestamp = ts\<rparr>]\<rparr>) st)
              \<lparr>p_total := p_total st + 1\<rparr>)"

definition sample_line :: "string \<Rightarrow> parse_state \<Rightarrow> parse_state" where
  "sample_line line st =
     (case line_head_of line of
        HeadBreach n \<Rightarrow> st\<lparr>p_limit := Some (LabelLength, labelLength, n)\<rparr>
      | HeadBad msg \<Rightarrow> skip_line (msg @ take 120 line) st
      | HeadOk name ls rest \<Rightarrow>
          (case line_tail_of name rest of
             Inl msg \<Rightarrow> skip_line (msg @ take 120 line) st
           | Inr (v, ts) \<Rightarrow>
               if p_total st + 1 > sampleCount then st\<lparr>p_limit := Some (SampleCount, sampleCount, p_total st + 1)\<rparr>
               else add_sample name ls v ts st))"

definition parse_line :: "string \<Rightarrow> parse_state \<Rightarrow> parse_state" where
  "parse_line rawLine st =
     (let line = js_trim rawLine
      in if line = [] then st
         else if length line > lineLength then st\<lparr>p_limit := Some (LineLength, lineLength, length line)\<rparr>
         else if starts_with line ''#'' then header_line line st
         else sample_line line st)"

fun parse_lines :: "string list \<Rightarrow> parse_state \<Rightarrow> parse_state" where
  "parse_lines [] st = st"
| "parse_lines (l # ls) st = (let st' = parse_line l st in if p_limit st' \<noteq> None then st' else parse_lines ls st')"

record parse_result =
  pr_families :: "(string \<times> metric_family) list"
  pr_skipped :: nat
  pr_warnings :: "string list"
  pr_total :: nat
  pr_dependency :: nat
  pr_limit :: "limit_error option"

definition read_body :: "string \<Rightarrow> parse_state" where
  "read_body body =
     (if length body > bodyBytes then parse_init\<lparr>p_limit := Some (BodyBytes, bodyBytes, length body)\<rparr>
      else parse_lines (split_on CHR 0x0A body) parse_init)"

definition parseExposition :: "string \<Rightarrow> parse_result" where
  "parseExposition body =
     (let st = read_body body
      in \<lparr>pr_families = map (\<lambda>(n, f). (mf_name f, f)) (p_families st),
          pr_skipped = p_skipped st, pr_warnings = p_warnings st, pr_total = p_total st,
          pr_dependency = length (filter (\<lambda>(n, f). isDependencyFamily (mf_name f)) (p_families st)),
          pr_limit = p_limit st\<rparr>)"

subsection \<open>Facts about labels\<close>

lemma unescape_plain: "c \<noteq> CHR 0x5C \<Longrightarrow> unescapeText (c # r) = c # unescapeText r"
  by (cases r) auto

lemma escape_Cons:
  "escape_label (c # v) = (if c = CHR 0x5C then CHR 0x5C # CHR 0x5C # escape_label v
     else if c = CHR 0x22 then CHR 0x5C # CHR 0x22 # escape_label v
     else if c = CHR 0x0A then CHR 0x5C # CHR ''n'' # escape_label v else c # escape_label v)"
  by (simp add: escape_label_def)

lemma escape_Nil [simp]: "escape_label [] = []"
  by (simp add: escape_label_def)

lemma unescape_escape [simp]: "unescapeText (escape_label v) = v"
  by (induction v) (auto simp: escape_Cons unescape_plain)

lemma quoted_escape [simp]: "quoted_value (escape_label v @ CHR 0x22 # rest) = Some (escape_label v, rest)"
  by (induction v) (auto simp: escape_Cons)

definition label_name :: "string \<Rightarrow> bool" where
  "label_name k \<longleftrightarrow> k \<noteq> [] \<and> list_all label_char k \<and> k \<noteq> ''__proto__''"

lemma label_char_marks: "\<not> label_char CHR ''=''" "label_char c \<Longrightarrow> \<not> label_gap c" "\<not> label_char CHR ''}''"
  by (auto simp: label_char_def label_gap_def is_alpha_def is_digit_def)

lemma read_label:
  assumes k: "label_name k" and v: "length v \<le> labelLength" and gap: "list_all label_gap g"
  shows "parseLabels ls (g @ k @ [CHR ''='', CHR 0x22] @ escape_label v @ [CHR 0x22] @ rest) = parseLabels (set_label k v ls) rest"
proof -
  have lc: "list_all label_char k" "k \<noteq> []"
    using k by (simp_all add: label_name_def)
  let ?s = "k @ [CHR ''='', CHR 0x22] @ escape_label v @ [CHR 0x22] @ rest"
  have "dropWhile label_gap (g @ ?s) = dropWhile label_gap ?s"
    using gap by (simp add: list_all_iff dropWhile_append2)
  also have "\<dots> = ?s"
    using lc label_char_marks(2) by (intro dropWhile_hd_not) (cases k; simp)
  finally have d: "dropWhile label_gap (g @ ?s) = ?s" .
  have h: "hd ?s \<noteq> CHR ''}''"
    using lc label_char_marks(3) by (cases k) auto
  have t: "takeWhile label_char ?s = k" "dropWhile label_char ?s = [CHR ''='', CHR 0x22] @ escape_label v @ [CHR 0x22] @ rest"
    using lc label_char_marks(1) by (simp_all add: list_all_iff takeWhile_append2 dropWhile_append2)
  show ?thesis
    unfolding parseLabels.simps [of ls "g @ ?s"] Let_def d t
    using lc h v by (simp add: starts_with_def)
qed

lemma read_labels:
  assumes "\<forall>(k, v)\<in>set kvs. label_name k \<and> length v \<le> labelLength" "kvs \<noteq> []" "list_all label_gap g"
  shows "parseLabels ls (g @ join_with '','' (map (\<lambda>(k, v). k @ [CHR ''='', CHR 0x22] @ escape_label v @ [CHR 0x22]) kvs) @ CHR ''}'' # rest) =
     LabelsRead (fold (\<lambda>(k, v). set_label k v) kvs ls) rest"
  using assms
proof (induction kvs arbitrary: ls g)
  case Nil
  then show ?case by simp
next
  case (Cons kv kvs)
  obtain k v where kv: "kv = (k, v)"
    by (cases kv)
  have r: "parseLabels ls (g @ k @ [CHR ''='', CHR 0x22] @ escape_label v @ [CHR 0x22] @ tail) = parseLabels (set_label k v ls) tail" for tail
    using Cons.prems kv by (intro read_label) auto
  show ?case
  proof (cases kvs)
    case Nil
    have "parseLabels (set_label k v ls) (CHR ''}'' # rest) = LabelsRead (set_label k v ls) rest"
      by (subst parseLabels.simps) (simp add: label_gap_def)
    then show ?thesis
      using r [of "CHR ''}'' # rest"] by (simp add: Nil kv)
  next
    case (Cons kv2 kvs2)
    have "list_all label_gap '',''"
      by (simp add: label_gap_def)
    then show ?thesis
      using Cons.IH [of "'',''" "set_label k v ls"] Cons.prems r [of "'','' @ join_with '','' (map (\<lambda>(k, v). k @ [CHR ''='', CHR 0x22] @ escape_label v @ [CHR 0x22]) kvs) @ CHR ''}'' # rest"]
      by (simp add: kv Cons)
  qed
qed

text \<open>A label set as a scrape carries it.\<close>

definition label_set :: "labels \<Rightarrow> bool" where
  "label_set ls \<longleftrightarrow> distinct (map fst ls) \<and> (\<forall>(k, v)\<in>set ls. label_name k \<and> length v \<le> labelLength)"

definition sorted_labels :: "labels \<Rightarrow> labels" where
  "sorted_labels ls = map (\<lambda>k. (k, the (map_of ls k))) (sort (map fst ls))"

lemma sorted_labels_map:
  assumes "distinct (map fst ls)"
  shows "map_of (sorted_labels ls) = map_of ls"
proof
  fix k
  show "map_of (sorted_labels ls) k = map_of ls k"
  proof (cases "map_of ls k")
    case None
    then have "map_of (sorted_labels ls) k = None"
      by (force simp: sorted_labels_def map_of_eq_None_iff)
    then show ?thesis
      using None by simp
  next
    case (Some v)
    then have "k \<in> set (sort (map fst ls))"
      by (force dest: map_of_SomeD)
    then show ?thesis
      using Some assms by (intro map_of_is_SomeI [THEN trans]) (auto simp: sorted_labels_def comp_def)
  qed
qed

lemma fold_set_label:
  "distinct (map fst acc @ map fst kvs) \<Longrightarrow> \<forall>(k, v)\<in>set kvs. label_name k \<Longrightarrow> fold (\<lambda>(k, v). set_label k v) kvs acc = acc @ kvs"
proof (induction kvs arbitrary: acc)
  case Nil
  then show ?case by simp
next
  case (Cons kv kvs)
  obtain k v where kv: "kv = (k, v)"
    by (cases kv)
  have "AList.update k v m = m @ [(k, v)]" if "k \<notin> fst ` set m" for m :: labels
    using that by (induction m) auto
  then have "set_label k v acc = acc @ [(k, v)]"
    using Cons.prems kv by (auto simp: set_label_def label_name_def)
  then show ?case
    using Cons.IH [of "acc @ [(k, v)]"] Cons.prems kv by simp
qed

lemma read_label_key:
  assumes "label_set ls"
  shows "parseLabels [] (labelKeyOf ls @ CHR ''}'' # rest) = LabelsRead (sorted_labels ls) rest"
proof (cases "ls = []")
  case True
  then show ?thesis
    by (subst parseLabels.simps) (simp add: labelKeyOf_def sorted_labels_def label_gap_def)
next
  case False
  have d: "distinct (map fst ls)"
    using assms by (simp add: label_set_def)
  have good: "\<forall>(k, v)\<in>set (sorted_labels ls). label_name k \<and> length v \<le> labelLength"
  proof -
    have "map_of (sorted_labels ls) = map_of ls" "distinct (map fst (sorted_labels ls))"
      using sorted_labels_map [OF d] d by (simp_all add: sorted_labels_def comp_def)
    then have "set (sorted_labels ls) = set ls"
      using d map_of_inject_set by blast
    then show ?thesis
      using assms by (simp add: label_set_def)
  qed
  have key: "labelKeyOf ls = join_with '','' (map (\<lambda>(k, v). k @ [CHR ''='', CHR 0x22] @ escape_label v @ [CHR 0x22]) (sorted_labels ls))"
    by (simp add: labelKeyOf_def sorted_labels_def label_text_def [abs_def] comp_def)
  have "fold (\<lambda>(k, v). set_label k v) (sorted_labels ls) [] = sorted_labels ls"
    using fold_set_label [of "[]" "sorted_labels ls"] good d by (auto simp: sorted_labels_def comp_def)
  moreover have "length (sorted_labels ls) = length ls"
    by (simp add: sorted_labels_def)
  then have "sorted_labels ls \<noteq> []"
    using False by auto
  ultimately show ?thesis
    using read_labels [of "sorted_labels ls" "[]" "[]" rest] good unfolding key by simp
qed

text \<open>C27. A label set printed as its series key reads back as itself: the parser takes the key inside braces
  to the same labels, with quotes, backslashes and newlines in the values, and goes on behind the brace.\<close>

theorem labels_read_back:
  assumes "label_set ls"
  shows "\<exists>ls'. parseLabels [] (labelKeyOf ls @ CHR ''}'' # rest) = LabelsRead ls' rest \<and> map_of ls' = map_of ls"
  using read_label_key [OF assms] sorted_labels_map assms by (auto simp: label_set_def)

theorem labels_read_back_witness:
  "\<exists>ls'. parseLabels [] (labelKeyOf [(''b'', [CHR 0x22]), (''a'', ''x'')] @ CHR ''}'' # ''1'') = LabelsRead ls' ''1'' \<and>
     map_of ls' = map_of [(''b'', [CHR 0x22]), (''a'', ''x'')]"
proof (rule labels_read_back)
  show "label_set [(''b'', [CHR 0x22]), (''a'', ''x'')]"
    by code_simp
qed

text \<open>Two series are the same exactly when their label sets are: the order of the labels in the text does
  not matter, and no two different sets share a key.\<close>

theorem series_identity:
  assumes "label_set a" "label_set b"
  shows "labelKeyOf a = labelKeyOf b \<longleftrightarrow> map_of a = map_of b"
proof
  assume "labelKeyOf a = labelKeyOf b"
  then have "sorted_labels a = sorted_labels b"
    using read_label_key [OF assms(1), of "[]"] read_label_key [OF assms(2), of "[]"] by simp
  then show "map_of a = map_of b"
    using sorted_labels_map assms by (metis label_set_def)
next
  assume m: "map_of a = map_of b"
  have d: "distinct (map fst a)" "distinct (map fst b)"
    using assms by (auto simp: label_set_def)
  have "set (map fst a) = set (map fst b)"
    using m by (metis dom_map_of_conv_image_fst list.set_map)
  then have "sort (map fst a) = sort (map fst b)"
    using d by (metis sorted_distinct_set_unique sorted_sort distinct_sort set_sort)
  moreover have "label_text a = label_text b"
    using m by (simp add: label_text_def fun_eq_iff)
  ultimately show "labelKeyOf a = labelKeyOf b"
    by (simp only: labelKeyOf_def)
qed

theorem series_identity_witness:
  "labelKeyOf [(''a'', ''1''), (''b'', ''2'')] = labelKeyOf [(''b'', ''2''), (''a'', ''1'')]"
proof -
  have s: "label_set [(''a'', ''1''), (''b'', ''2'')]" "label_set [(''b'', ''2''), (''a'', ''1'')]"
    by code_simp+
  show ?thesis
    unfolding series_identity [OF s] by (auto simp: fun_eq_iff)
qed

subsection \<open>The parser's invariant\<close>

definition series_of :: "metric_sample \<Rightarrow> string" where
  "series_of s = ms_name s @ '' '' @ ms_key s"

definition wf_family :: "metric_family \<Rightarrow> bool" where
  "wf_family f \<longleftrightarrow> mf_seen f = map series_of (mf_samples f) \<and> distinct (mf_seen f) \<and>
     (\<forall>s\<in>set (mf_samples f). ms_key s = labelKeyOf (ms_labels s))"

definition sample_total :: "(string \<times> metric_family) list \<Rightarrow> nat" where
  "sample_total fs = sum_list (map (\<lambda>(n, f). length (mf_samples f)) fs)"

definition parse_inv :: "parse_state \<Rightarrow> bool" where
  "parse_inv st \<longleftrightarrow> distinct (map fst (p_families st)) \<and> (\<forall>(n, f)\<in>set (p_families st). mf_name f = n \<and> wf_family f) \<and>
     p_total st = sample_total (p_families st) \<and> p_total st \<le> sampleCount \<and> length (p_warnings st) \<le> MAX_WARNINGS + 1"

lemma total_update:
  "distinct (map fst fs) \<Longrightarrow>
   sample_total (AList.update n f fs) + (case map_of fs n of None \<Rightarrow> 0 | Some g \<Rightarrow> length (mf_samples g)) = sample_total fs + length (mf_samples f)"
proof (induction fs)
  case Nil
  then show ?case by (simp add: sample_total_def)
next
  case (Cons p fs)
  then show ?case
    by (cases p) (auto simp: sample_total_def map_of_eq_None_iff split: option.splits)
qed

lemma familyOf_good:
  assumes "parse_inv st"
  shows "mf_name (familyOf st n) = n" "wf_family (familyOf st n)"
    "length (mf_samples (familyOf st n)) = (case map_of (p_families st) n of None \<Rightarrow> 0 | Some g \<Rightarrow> length (mf_samples g))"
  using assms by (auto simp: familyOf_def parse_inv_def new_family_def wf_family_def split: option.split dest: map_of_SomeD)

lemma set_update: "(k, f) \<in> set (AList.update n g fs) \<Longrightarrow> (k, f) = (n, g) \<or> (k, f) \<in> set fs"
  by (induction fs) (auto split: if_splits)

lemma put_inv:
  assumes inv: "parse_inv st" and f: "wf_family f" "length (mf_samples f) = length (mf_samples (familyOf st (mf_name f))) + k"
    and small: "p_total st + k \<le> sampleCount"
  shows "parse_inv ((put_family f st)\<lparr>p_total := p_total st + k\<rparr>)"
proof -
  have d: "distinct (map fst (p_families st))"
    using inv by (simp add: parse_inv_def)
  have "sample_total (AList.update (mf_name f) f (p_families st)) = p_total st + k"
    using total_update [OF d, of "mf_name f" f] familyOf_good(3) [OF inv, of "mf_name f"] f(2) inv by (simp add: parse_inv_def)
  moreover have "mf_name g = n \<and> wf_family g" if "(n, g) \<in> set (AList.update (mf_name f) f (p_families st))" for n g
    using set_update [OF that] inv f(1) by (auto simp: parse_inv_def)
  ultimately show ?thesis
    using inv small by (auto simp: parse_inv_def put_family_def distinct_update)
qed

lemma warn_inv: "parse_inv st \<Longrightarrow> parse_inv (skip_line msg st)"
  by (simp add: parse_inv_def skip_line_def warn_def)

lemma header_inv:
  assumes "parse_inv st"
  shows "parse_inv (header_line line st)"
proof (cases "header_parts line")
  case None
  then show ?thesis using assms by (simp add: header_line_def)
next
  case (Some parts)
  obtain keyword name rest where parts: "parts = (keyword, name, rest)"
    by (cases parts)
  have put: "parse_inv (put_family f st')"
    if "parse_inv st'" "f = (familyOf st' name)\<lparr>mf_help := h\<rparr> \<or> f = (familyOf st' name)\<lparr>mf_type := t, mf_rawType := r\<rparr>" for f st' h t r
  proof -
    have "parse_inv ((put_family f st')\<lparr>p_total := p_total st' + 0\<rparr>)"
      using that familyOf_good [OF that(1), of name] by (intro put_inv) (auto simp: wf_family_def parse_inv_def)
    moreover have "(put_family f st')\<lparr>p_total := p_total st' + 0\<rparr> = put_family f st'"
      by (simp add: put_family_def)
    ultimately show ?thesis by simp
  qed
  have "parse_inv (st\<lparr>p_typed := ts\<rparr>)" for ts
    using assms by (simp add: parse_inv_def)
  then show ?thesis
    using assms put Some parts by (simp add: header_line_def Let_def) blast
qed


lemma add_inv:
  assumes inv: "parse_inv st" and small: "p_total st + 1 \<le> sampleCount"
  shows "parse_inv (add_sample name ls v ts st)"
proof -
  define f where "f = familyOf st (familyNameOf name (p_typed st))"
  have good: "mf_name f = familyNameOf name (p_typed st)" "wf_family f"
    using familyOf_good [OF inv] by (simp_all add: f_def)
  show ?thesis
  proof (cases "name @ '' '' @ labelKeyOf ls \<in> set (mf_seen f)")
    case True
    have "parse_inv ((put_family f st)\<lparr>p_total := p_total st + 0\<rparr>)"
      using good inv by (intro put_inv) (auto simp: f_def parse_inv_def)
    moreover have "(put_family f st)\<lparr>p_total := p_total st + 0\<rparr> = put_family f st"
      by (simp add: put_family_def)
    ultimately show ?thesis
      using True warn_inv by (simp add: add_sample_def Let_def f_def [symmetric])
  next
    case False
    define g where "g = f\<lparr>mf_seen := mf_seen f @ [name @ '' '' @ labelKeyOf ls],
      mf_samples := mf_samples f @ [\<lparr>ms_name = name, ms_labels = ls, ms_key = labelKeyOf ls, ms_value = v, ms_timestamp = ts\<rparr>]\<rparr>"
    have "wf_family g"
      using good False by (auto simp: g_def wf_family_def series_of_def)
    moreover have "mf_name g = mf_name f"
      by (simp add: g_def)
    moreover have "length (mf_samples g) = length (mf_samples (familyOf st (mf_name g))) + 1"
      using good by (simp add: g_def f_def)
    ultimately have "parse_inv ((put_family g st)\<lparr>p_total := p_total st + 1\<rparr>)"
      using inv small by (intro put_inv) auto
    then show ?thesis
      using False by (simp add: add_sample_def Let_def f_def [symmetric] g_def)
  qed
qed

lemma sample_inv:
  assumes inv: "parse_inv st"
  shows "parse_inv (sample_line line st)"
proof (cases "line_head_of line")
  case (HeadBreach n)
  then show ?thesis
    using inv by (simp add: sample_line_def parse_inv_def)
next
  case (HeadBad msg)
  then show ?thesis
    using inv by (simp add: sample_line_def warn_inv)
next
  case (HeadOk name ls rest)
  have "parse_inv (st\<lparr>p_limit := e\<rparr>)" for e
    using inv by (simp add: parse_inv_def)
  then show ?thesis
    using HeadOk inv by (auto simp: sample_line_def warn_inv add_inv split: sum.split)
qed

lemma line_inv: "parse_inv st \<Longrightarrow> parse_inv (parse_line l st)"
proof -
  assume inv: "parse_inv st"
  then have "parse_inv (st\<lparr>p_limit := e\<rparr>)" for e
    by (simp add: parse_inv_def)
  then show ?thesis
    using inv header_inv sample_inv by (simp add: parse_line_def Let_def)
qed

lemma limit_inv: "parse_inv (st\<lparr>p_limit := e\<rparr>) = parse_inv st"
  by (simp add: parse_inv_def)

lemma lines_inv: "parse_inv st \<Longrightarrow> parse_inv (parse_lines ls st)"
  by (induction ls arbitrary: st) (auto simp: Let_def line_inv)

text \<open>C26. What a scrape yields is coherent whatever its text: families are listed once and under their own
  name, no series occurs twice in a family, every sample carries the key of its own labels, the total
  is the number of samples kept, and neither it nor the warnings pass their bounds.\<close>

theorem scrape_is_coherent:
  "distinct (map fst (pr_families (parseExposition body))) \<and>
   list_all (\<lambda>(n, f). mf_name f = n \<and> distinct (map series_of (mf_samples f)) \<and>
      list_all (\<lambda>s. ms_key s = labelKeyOf (ms_labels s)) (mf_samples f)) (pr_families (parseExposition body)) \<and>
   pr_total (parseExposition body) = sample_total (pr_families (parseExposition body)) \<and>
   pr_total (parseExposition body) \<le> sampleCount \<and> length (pr_warnings (parseExposition body)) \<le> MAX_WARNINGS + 1"
proof -
  have i: "parse_inv parse_init"
    by (simp add: parse_inv_def parse_init_def sample_total_def)
  have st: "parse_inv (read_body body)"
    using lines_inv [OF i] i by (simp add: read_body_def limit_inv)
  then have "map (\<lambda>(n, f). (mf_name f, f)) (p_families (read_body body)) = p_families (read_body body)"
    by (intro map_idI) (auto simp: parse_inv_def)
  then show ?thesis
    using st by (auto simp: parseExposition_def Let_def parse_inv_def wf_family_def list_all_iff)
qed

definition accounted :: "parse_state \<Rightarrow> nat" where
  "accounted st = p_total st + p_skipped st"

lemma accounted_skip [simp]: "accounted (skip_line msg st) = accounted st + 1"
  by (simp add: accounted_def skip_line_def warn_def)

lemma accounted_put [simp]: "accounted (put_family f st) = accounted st"
  by (simp add: accounted_def put_family_def)

lemma accounted_add: "accounted (add_sample name ls v ts st) = accounted st + 1"
  by (simp add: add_sample_def Let_def) (simp add: accounted_def put_family_def)

lemma accounted_limit [simp]: "accounted (st\<lparr>p_limit := e\<rparr>) = accounted st" "accounted (st\<lparr>p_typed := t\<rparr>) = accounted st"
  by (simp_all add: accounted_def)

lemma accounted_line: "accounted (parse_line l st) \<le> accounted st + 1"
proof -
  have "accounted (header_line line st) = accounted st" for line
    by (simp add: header_line_def Let_def split: option.split prod.split)
  moreover have "accounted (sample_line line st) \<le> accounted st + 1" for line
    by (simp add: sample_line_def accounted_add split: line_head.split sum.split prod.split)
  ultimately show ?thesis
    by (simp add: parse_line_def Let_def)
qed

lemma accounted_lines: "accounted (parse_lines ls st) \<le> accounted st + length ls"
proof (induction ls arbitrary: st)
  case (Cons l ls)
  have "accounted (parse_lines ls (parse_line l st)) \<le> accounted st + 1 + length ls"
    using accounted_line [of l st] Cons.IH [of "parse_line l st"] by linarith
  then show ?case
    using accounted_line [of l st] by (simp add: Let_def)
qed simp

text \<open>Nothing is counted twice: the samples kept and the lines skipped are together at most the lines of
  the body, and an oversized body is refused whole, with no family read from it.\<close>

theorem lines_are_accounted:
  "pr_total (parseExposition body) + pr_skipped (parseExposition body) \<le> length (split_on CHR 0x0A body) \<and>
   (if length body \<le> bodyBytes then True
    else pr_families (parseExposition body) = [] \<and> pr_limit (parseExposition body) = Some (BodyBytes, bodyBytes, length body))"
proof -
  have "accounted parse_init = 0" "accounted (parse_init\<lparr>p_limit := e\<rparr>) = 0" for e
    by (simp_all add: accounted_def parse_init_def)
  then have "accounted (read_body body) \<le> length (split_on CHR 0x0A body)"
    using accounted_lines [of "split_on CHR 0x0A body" parse_init] by (simp add: read_body_def)
  then show ?thesis
    by (simp add: parseExposition_def Let_def accounted_def) (simp add: read_body_def parse_init_def)
qed

end
