(* ===== verification/MetricManifest.thy ===== *)
theory MetricManifest
  imports Exposition
begin

section \<open>The metric contract: \<open>observability/metricManifest.ts\<close> and \<open>observability/familyActivation.ts\<close>\<close>

text \<open>
  The vendored manifest (\<open>api/gen/metric-manifest.json\<close>) is a generated file: its families are an
  argument. What is modelled is how the client types them, which of them the gateway's scrape can
  hold, and why one of them is missing from a scrape.
\<close>

datatype mechanism = Promauto | Manual | Desc | Direct

definition DEFINITION_MECHANISMS :: "(string \<times> mechanism) list" where
  "DEFINITION_MECHANISMS = [(''promauto'', Promauto), (''manual'', Manual), (''desc'', Desc), (''direct'', Direct)]"

datatype implementation_status = VerifiedRuntime | VerifiedStatic | ConditionalProven | WriterMapped | DefinitionOnly | UnknownStatus

definition IMPLEMENTATION_STATUSES :: "(string \<times> implementation_status) list" where
  "IMPLEMENTATION_STATUSES = [(''verified-runtime'', VerifiedRuntime), (''verified-static'', VerifiedStatic),
     (''conditional-with-proven-writer'', ConditionalProven), (''writer-mapped'', WriterMapped), (''definition-only'', DefinitionOnly)]"

subsection \<open>Activation codes\<close>

datatype activation_kind = Eager | Lazy | Gated | UnknownActivation

definition EAGER_CODES :: "string list" where "EAGER_CODES = [''E'', ''H'', ''P'', ''S'']"
definition LAZY_CODES :: "string list" where "LAZY_CODES = [''V'', ''C'', ''Q'', ''T'']"
definition GATED_CODES :: "string list" where "GATED_CODES = [''D'', ''DP'', ''BD'']"

definition activation_parts :: "string \<Rightarrow> string list" where
  "activation_parts code = filter (\<lambda>p. p \<noteq> []) (map js_trim (split_on CHR ''+'' code))"

definition activationKindOf :: "string \<Rightarrow> activation_kind" where
  "activationKindOf code =
     (let parts = activation_parts code
      in if parts = [] then UnknownActivation
         else if list_ex (\<lambda>p. p \<notin> set EAGER_CODES \<and> p \<notin> set LAZY_CODES \<and> p \<notin> set GATED_CODES) parts then UnknownActivation
         else if list_ex (\<lambda>p. p \<in> set GATED_CODES) parts then Gated
         else if list_ex (\<lambda>p. p \<in> set LAZY_CODES) parts then Lazy
         else Eager)"

subsection \<open>Types\<close>

definition normalizeImplementationStatus :: "string option \<Rightarrow> implementation_status \<times> string option" where
  "normalizeImplementationStatus upstream =
     (case upstream of
        None \<Rightarrow> (UnknownStatus, Some [])
      | Some u \<Rightarrow> (case map_of IMPLEMENTATION_STATUSES u of None \<Rightarrow> (UnknownStatus, Some u) | Some st \<Rightarrow> (st, None)))"

definition DESC_RUNTIME_TYPES :: "(string \<times> metric_type) list" where
  "DESC_RUNTIME_TYPES = [
     (''loxilb_proxy_qos_bytes_delayed_total'', Counter),
     (''loxilb_proxy_qos_bytes_passed_total'', Counter),
     (''loxilb_proxy_qos_park_seconds_total'', Counter),
     (''loxilb_proxy_qos_parks_total'', Counter),
     (''loxilb_proxy_qos_cbs_bytes'', Gauge),
     (''loxilb_proxy_qos_cir_bytes_per_second'', Gauge),
     (''loxilb_proxy_qos_parked_connections'', Gauge),
     (''loxilb_proxy_qos_tokens_bytes'', Gauge),
     (''loxilb_ai_token_quota_utilization'', Gauge),
     (''loxilb_ai_token_quota_limit_tokens'', Gauge),
     (''loxilb_ai_token_quota_model_utilization'', Gauge),
     (''loxilb_ai_token_quota_model_limit_tokens'', Gauge),
     (''loxilb_ai_user_token_quota_utilization'', Gauge),
     (''loxilb_ai_user_token_quota_limit_tokens'', Gauge),
     (''loxilb_ai_user_model_token_quota_utilization'', Gauge),
     (''loxilb_ai_user_model_token_quota_limit_tokens'', Gauge),
     (''loxilb_ai_key_token_quota_utilization'', Gauge),
     (''loxilb_ai_key_token_quota_limit_tokens'', Gauge),
     (''loxilb_ai_vip_token_quota_utilization'', Gauge),
     (''loxilb_ai_vip_token_quota_limit_tokens'', Gauge),
     (''loxilb_proxy_http_ttfb_seconds'', Histogram),
     (''loxilb_ai_jwks_keys'', Gauge),
     (''loxilb_ai_jwks_last_success_timestamp_seconds'', Gauge),
     (''loxilb_ai_jwks_usable'', Gauge),
     (''loxilb_policer_attached'', Gauge),
     (''loxilb_ai_admission_mode'', Gauge),
     (''loxilb_ai_admission_inflight'', Gauge),
     (''loxilb_ai_admission_limit'', Gauge),
     (''loxilb_ai_admission_queued'', Gauge),
     (''loxilb_ai_admission_queue_wait_seconds'', Histogram),
     (''loxilb_ai_admission_decisions_total'', Counter),
     (''loxilb_ai_admission_anomalies_total'', Counter),
     (''loxilb_ai_admission_effective_limit'', Gauge),
     (''loxilb_ai_admission_adapt_state'', Gauge),
     (''loxilb_ai_admission_adapt_reason'', Gauge),
     (''loxilb_ai_admission_warming_endpoints'', Gauge),
     (''loxilb_ai_admission_adapt_moves_total'', Counter),
     (''loxilb_ai_admission_tenants_active'', Gauge),
     (''loxilb_audit_writer_up'', Gauge),
     (''loxilb_audit_last_write_timestamp_seconds'', Gauge),
     (''loxilb_audit_last_heartbeat_timestamp_seconds'', Gauge),
     (''loxilb_audit_reserve_breached'', Gauge),
     (''loxilb_audit_records_written_total'', Counter),
     (''loxilb_audit_records_dropped_total'', Counter),
     (''loxilb_audit_result_write_failures_total'', Counter),
     (''loxilb_audit_write_failures_total'', Counter),
     (''loxilb_audit_sync_failures_total'', Counter),
     (''loxilb_audit_mgmt_timeouts_total'', Counter),
     (''loxilb_audit_writer_panics_total'', Counter),
     (''loxilb_audit_writer_restarts_total'', Counter),
     (''loxilb_audit_records_unattributed_total'', Counter),
     (''loxilb_audit_orphaned_intents_total'', Counter),
     (''loxilb_audit_segment_seal_failures_total'', Counter),
     (''loxilb_audit_segments_pruned_total'', Counter),
     (''loxilb_audit_originator_dropped_total'', Counter),
     (''loxilb_audit_delegation_lookups_total'', Counter),
     (''loxilb_audit_records_lost_to_retention_total'', Counter),
     (''loxilb_audit_sink_connected'', Gauge),
     (''loxilb_audit_sink_records_exported_total'', Counter),
     (''loxilb_audit_sink_export_failures_total'', Counter),
     (''loxilb_audit_sink_poison_total'', Counter),
     (''loxilb_audit_sink_lag_drops_total'', Counter),
     (''loxilb_audit_sink_cursor_lag_bytes'', Gauge),
     (''loxilb_audit_sink_cursor_lag_seconds'', Gauge),
     (''loxilb_proxy_halfclose_fin_gap_seconds'', Histogram),
     (''loxilb_proxy_halfclose_fin_total'', Counter),
     (''loxilb_proxy_halfclose_accel_early_fin_total'', Counter),
     (''loxilb_proxy_halfclose_tls_fin_total'', Counter),
     (''loxilb_proxy_client_reset_total'', Counter),
     (''loxilb_proxy_halfclose_user_agent_total'', Counter),
     (''loxilb_proxy_response_first_write_gap_seconds'', Histogram),
     (''loxilb_proxy_response_max_write_gap_seconds'', Histogram),
     (''loxilb_proxy_halfclose_held'', Gauge),
     (''loxilb_proxy_halfclose_held_oldest_seconds'', Gauge),
     (''loxilb_proxy_halfclose_hold_allowed'', Gauge),
     (''loxilb_proxy_halfclose_hold_cap_seconds'', Gauge),
     (''loxilb_proxy_halfclose_hold_default_mode'', Gauge),
     (''loxilb_proxy_halfclose_hold_total'', Counter),
     (''loxilb_proxy_halfclose_hold_ended_total'', Counter),
     (''loxilb_proxy_halfclose_hold_expired_total'', Counter),
     (''loxilb_proxy_halfclose_hold_refused_total'', Counter),
     (''loxilb_proxy_halfclose_hold_spurious_wakeups_total'', Counter),
     (''loxilb_proxy_halfclose_accel_skipped_total'', Counter),
     (''loxilb_ai_class_config_lkg_intervals_total'', Counter),
     (''loxilb_ai_fc_band_total'', Counter),
     (''loxilb_ai_fc_tenant_slots'', Gauge),
     (''loxilb_ai_key_store_lookup_seconds'', Histogram),
     (''loxilb_ai_key_store_circuit_open'', Gauge),
     (''loxilb_ai_key_store_lookup_inflight'', Gauge),
     (''loxilb_ai_store_write_outcome_unknown_total'', Counter),
     (''loxilb_kv_exact_stage_seconds'', Histogram),
     (''loxilb_kv_exact_prompt_blocks'', Histogram),
     (''loxilb_kv_exact_overlap_blocks'', Histogram),
     (''loxilb_log_lines_dropped_total'', Counter),
     (''loxilb_pd_prefill_inflight'', Gauge),
     (''loxilb_pd_decode_inflight'', Gauge),
     (''loxilb_pd_parked_connections'', Gauge),
     (''loxilb_proxy_pools_live'', Gauge),
     (''loxilb_proxy_pools_freed_total'', Counter),
     (''loxilb_proxy_stream_abandoned_total'', Counter),
     (''loxilb_proxy_stream_abandon_age_seconds'', Histogram),
     (''loxilb_proxy_sse_stall_abort_seconds'', Gauge)]"

definition RUNTIME_TYPES :: "(string \<times> metric_type) list" where
  "RUNTIME_TYPES = [(''counter'', Counter), (''gauge'', Gauge), (''histogram'', Histogram), (''summary'', Summary), (''untyped'', Untyped)]"

record typed_family =
  tf_type :: metric_type
  tf_raw :: "string option"
  tf_mechanism :: mechanism

abbreviation denied :: "string \<Rightarrow> mechanism \<Rightarrow> typed_family" where
  "denied upstream m \<equiv> \<lparr>tf_type = UnknownType, tf_raw = Some upstream, tf_mechanism = m\<rparr>"

abbreviation accepted :: "metric_type \<Rightarrow> mechanism \<Rightarrow> typed_family" where
  "accepted t m \<equiv> \<lparr>tf_type = t, tf_raw = None, tf_mechanism = m\<rparr>"

definition normalizeManifestType :: "string \<Rightarrow> string \<Rightarrow> string option \<Rightarrow> typed_family" where
  "normalizeManifestType name upstream mech =
     (case mech of
        Some m \<Rightarrow>
          (let declared = (case map_of DEFINITION_MECHANISMS m of None \<Rightarrow> Direct | Some d \<Rightarrow> d)
           in case map_of RUNTIME_TYPES upstream of
                None \<Rightarrow> denied upstream declared
              | Some t \<Rightarrow> (case map_of DESC_RUNTIME_TYPES name of
                    None \<Rightarrow> accepted t declared
                  | Some pinned \<Rightarrow> if pinned \<noteq> t then denied upstream declared else accepted t declared))
      | None \<Rightarrow>
          (case map_of RUNTIME_TYPES upstream of
             Some t \<Rightarrow> accepted t Direct
           | None \<Rightarrow>
               if upstream = ''desc''
               then (case map_of DESC_RUNTIME_TYPES name of None \<Rightarrow> denied upstream Desc | Some t \<Rightarrow> accepted t Desc)
               else denied upstream Direct))"

subsection \<open>The families\<close>

record vendored_family =
  vf_name :: string
  vf_class :: string
  vf_packaged :: bool
  vf_type :: string
  vf_mechanism :: "string option"
  vf_activation :: string
  vf_precondition :: "string option"
  vf_status :: "string option"

record manifest_family =
  nf_name :: string
  nf_class :: string
  nf_packaged :: bool
  nf_typed :: typed_family
  nf_activationKind :: activation_kind
  nf_precondition :: string
  nf_status :: implementation_status
  nf_rawStatus :: "string option"

definition manifest_entry :: "vendored_family \<Rightarrow> manifest_family" where
  "manifest_entry f =
     \<lparr>nf_name = vf_name f, nf_class = vf_class f, nf_packaged = vf_packaged f,
      nf_typed = normalizeManifestType (vf_name f) (vf_type f) (vf_mechanism f),
      nf_activationKind = activationKindOf (vf_activation f),
      nf_precondition = (case vf_precondition f of None \<Rightarrow> [] | Some p \<Rightarrow> p),
      nf_status = fst (normalizeImplementationStatus (vf_status f)),
      nf_rawStatus = snd (normalizeImplementationStatus (vf_status f))\<rparr>"

text \<open>\<open>new Map(...)\<close> keeps the last of two equal names.\<close>

definition manifest_families :: "vendored_family list \<Rightarrow> (string \<times> manifest_family) list" where
  "manifest_families vs = fold (\<lambda>f. AList.update (vf_name f) (manifest_entry f)) vs []"

definition getManifestFamily :: "vendored_family list \<Rightarrow> string \<Rightarrow> manifest_family option" where
  "getManifestFamily vs name = map_of (manifest_families vs) name"

definition isGatewayScrapeFamily :: "vendored_family list \<Rightarrow> string \<Rightarrow> bool" where
  "isGatewayScrapeFamily vs name =
     (case getManifestFamily vs name of
        None \<Rightarrow> False
      | Some f \<Rightarrow> nf_class f = ''default'' \<and> nf_packaged f \<and> tf_type (nf_typed f) \<noteq> UnknownType)"

subsection \<open>Absence\<close>

datatype absence = NotInManifest | Conditional string | GatedOff | UntilUsed | Unexpected | Indeterminate

definition absenceReading :: "vendored_family list \<Rightarrow> string \<Rightarrow> absence" where
  "absenceReading vs name =
     (case getManifestFamily vs name of
        None \<Rightarrow> NotInManifest
      | Some f \<Rightarrow>
          (let precondition = js_trim (nf_precondition f)
           in if precondition \<noteq> [] then Conditional precondition
              else (case nf_activationKind f of
                      Gated \<Rightarrow> GatedOff | Lazy \<Rightarrow> UntilUsed | UnknownActivation \<Rightarrow> Indeterminate | Eager \<Rightarrow> Unexpected)))"

datatype value_trust = Verified | Unverified | UnknownTrust

definition valueTrust :: "vendored_family list \<Rightarrow> string \<Rightarrow> value_trust" where
  "valueTrust vs name =
     (case getManifestFamily vs name of
        None \<Rightarrow> UnknownTrust
      | Some f \<Rightarrow> (case nf_status f of
            VerifiedRuntime \<Rightarrow> Verified | VerifiedStatic \<Rightarrow> Verified | ConditionalProven \<Rightarrow> Verified
          | WriterMapped \<Rightarrow> Unverified | DefinitionOnly \<Rightarrow> Unverified | UnknownStatus \<Rightarrow> UnknownTrust))"

datatype absence_kind = KNotInManifest | KUnexpected | KIndeterminate | KGated | KConditional | KUntilUsed

fun absence_kind_of :: "absence \<Rightarrow> absence_kind" where
  "absence_kind_of NotInManifest = KNotInManifest"
| "absence_kind_of (Conditional p) = KConditional"
| "absence_kind_of GatedOff = KGated"
| "absence_kind_of UntilUsed = KUntilUsed"
| "absence_kind_of Unexpected = KUnexpected"
| "absence_kind_of Indeterminate = KIndeterminate"

fun ABSENCE_SEVERITY :: "absence_kind \<Rightarrow> nat" where
  "ABSENCE_SEVERITY KNotInManifest = 0"
| "ABSENCE_SEVERITY KUnexpected = 1"
| "ABSENCE_SEVERITY KIndeterminate = 2"
| "ABSENCE_SEVERITY KGated = 3"
| "ABSENCE_SEVERITY KConditional = 4"
| "ABSENCE_SEVERITY KUntilUsed = 5"

text \<open>The kinds in the order of their severity, the worst first.\<close>

instantiation absence_kind :: linorder
begin

definition less_eq_absence_kind :: "absence_kind \<Rightarrow> absence_kind \<Rightarrow> bool" where
  "a \<le> b \<longleftrightarrow> ABSENCE_SEVERITY a \<le> ABSENCE_SEVERITY b"

definition less_absence_kind :: "absence_kind \<Rightarrow> absence_kind \<Rightarrow> bool" where
  "a < b \<longleftrightarrow> ABSENCE_SEVERITY a < ABSENCE_SEVERITY b"

instance
proof
  fix a b :: absence_kind
  show "a \<le> b \<Longrightarrow> b \<le> a \<Longrightarrow> a = b"
    by (cases a; cases b) (simp_all add: less_eq_absence_kind_def)
qed (auto simp: less_eq_absence_kind_def less_absence_kind_def)

end

record metrics_snapshot =
  sn_receivedAtMs :: int
  sn_available :: bool
  sn_failure :: bool
  sn_families :: "(string \<times> metric_family) list"

record absence_explanation =
  ax_reading :: absence
  ax_absent :: "string list"
  ax_present :: int

definition more_severe :: "vendored_family list \<Rightarrow> string \<Rightarrow> absence \<Rightarrow> absence" where
  "more_severe vs name reading =
     (let candidate = absenceReading vs name
      in if absence_kind_of candidate < absence_kind_of reading then candidate else reading)"

definition explainAbsence :: "vendored_family list \<Rightarrow> string list \<Rightarrow> metrics_snapshot option \<Rightarrow> absence_explanation option" where
  "explainAbsence vs families snapshot =
     (case snapshot of
        None \<Rightarrow> None
      | Some sn \<Rightarrow>
          if sn_failure sn then None
          else (let absent = filter (\<lambda>n. map_of (sn_families sn) n = None) families
                in case absent of
                     [] \<Rightarrow> None
                   | n # ns \<Rightarrow> Some \<lparr>ax_reading = fold (more_severe vs) ns (absenceReading vs n), ax_absent = absent,
                                    ax_present = int (length families) - int (length absent)\<rparr>))"

definition familyAbsence :: "vendored_family list \<Rightarrow> metrics_snapshot option \<Rightarrow> string \<Rightarrow> absence option" where
  "familyAbsence vs snapshot family =
     (case snapshot of
        None \<Rightarrow> None
      | Some sn \<Rightarrow>
          if \<not> sn_available sn \<or> sn_failure sn then None
          else if map_of (sn_families sn) family = None then Some (absenceReading vs family) else None)"

subsection \<open>Facts and properties\<close>

lemma more_severe_min: "absence_kind_of (more_severe vs n r) = min (absence_kind_of r) (absence_kind_of (absenceReading vs n))"
  by (auto simp: more_severe_def Let_def min_def)

lemma more_severe_among: "more_severe vs n r \<in> {r, absenceReading vs n}"
  by (auto simp: more_severe_def Let_def)

lemma worst_reading:
  "absence_kind_of (fold (more_severe vs) ns r) = Min (insert (absence_kind_of r) (absence_kind_of ` absenceReading vs ` set ns)) \<and>
   fold (more_severe vs) ns r \<in> insert r (absenceReading vs ` set ns)"
proof (induction ns arbitrary: r)
  case Nil
  then show ?case by simp
next
  case (Cons n ns)
  let ?k = "\<lambda>n. absence_kind_of (absenceReading vs n)"
  have "Min (insert (min (absence_kind_of r) (?k n)) (?k ` set ns)) = Min (insert (absence_kind_of r) (insert (?k n) (?k ` set ns)))"
    by (cases "set ns = {}") (simp_all add: Min_insert min.assoc)
  then show ?case
    using Cons.IH [of "more_severe vs n r"] more_severe_among [of vs n r] by (auto simp: more_severe_min image_image)
qed

text \<open>A panel with several missing families reports the gravest of their reasons: the reading is that of
  one of them and no other one is graver, and what is absent and what is present add up.\<close>

theorem gravest_absence:
  assumes "explainAbsence vs families snapshot = Some x"
  shows "absence_kind_of (ax_reading x) = Min (absence_kind_of ` absenceReading vs ` set (ax_absent x)) \<and>
    ax_reading x \<in> absenceReading vs ` set (ax_absent x) \<and>
    (\<forall>n. n \<in> set (ax_absent x) \<longleftrightarrow> n \<in> set families \<and> map_of (sn_families (the snapshot)) n = None) \<and>
    ax_present x + int (length (ax_absent x)) = int (length families)"
proof -
  obtain sn where sn: "snapshot = Some sn" "\<not> sn_failure sn"
    using assms by (auto simp: explainAbsence_def split: option.splits if_splits)
  define absent where "absent = filter (\<lambda>n. map_of (sn_families sn) n = None) families"
  obtain n ns where ns: "absent = n # ns"
    using assms sn by (auto simp: explainAbsence_def absent_def Let_def split: list.splits)
  have x: "x = \<lparr>ax_reading = fold (more_severe vs) ns (absenceReading vs n), ax_absent = absent,
      ax_present = int (length families) - int (length absent)\<rparr>"
    using assms sn ns by (simp add: explainAbsence_def absent_def [symmetric] Let_def)
  have "n \<in> set absent \<longleftrightarrow> n \<in> set families \<and> map_of (sn_families sn) n = None" for n
    by (auto simp: absent_def)
  then show ?thesis
    using worst_reading [of vs ns "absenceReading vs n"] ns sn by (simp add: x)
qed

definition demo_vendored :: "string \<Rightarrow> string \<Rightarrow> vendored_family" where
  "demo_vendored name code = \<lparr>vf_name = name, vf_class = ''default'', vf_packaged = True, vf_type = ''counter'', vf_mechanism = None,
     vf_activation = code, vf_precondition = None, vf_status = None\<rparr>"

definition demo_scrape :: metrics_snapshot where
  "demo_scrape = \<lparr>sn_receivedAtMs = 0, sn_available = True, sn_failure = False, sn_families = []\<rparr>"

theorem gravest_absence_witness:
  "\<exists>x. explainAbsence [demo_vendored ''a'' ''V'', demo_vendored ''b'' ''E''] [''a'', ''b''] (Some demo_scrape) = Some x \<and>
     ax_reading x \<in> absenceReading [demo_vendored ''a'' ''V'', demo_vendored ''b'' ''E''] ` set (ax_absent x)"
proof -
  obtain x where x: "explainAbsence [demo_vendored ''a'' ''V'', demo_vendored ''b'' ''E''] [''a'', ''b''] (Some demo_scrape) = Some x"
    by (simp add: explainAbsence_def demo_scrape_def)
  from gravest_absence [OF x] show ?thesis
    using x by blast
qed

lemma activation_eager_iff:
  "activationKindOf code = Eager \<longleftrightarrow> activation_parts code \<noteq> [] \<and> list_all (\<lambda>p. p \<in> set EAGER_CODES) (activation_parts code)"
proof -
  have d: "p \<in> set EAGER_CODES \<Longrightarrow> p \<notin> set LAZY_CODES \<and> p \<notin> set GATED_CODES" for p
    by (auto simp: EAGER_CODES_def LAZY_CODES_def GATED_CODES_def)
  show ?thesis
    using d by (auto simp: activationKindOf_def Let_def list_ex_iff list_all_iff)
qed

lemma folded_entry:
  "map_of (fold (\<lambda>f. AList.update (vf_name f) (manifest_entry f)) vs m) name = Some f \<Longrightarrow>
   map_of m name = Some f \<or> (\<exists>v\<in>set vs. vf_name v = name \<and> f = manifest_entry v)"
proof (induction vs arbitrary: m)
  case (Cons v vs)
  have "map_of (AList.update (vf_name v) (manifest_entry v) m) name = (if vf_name v = name then Some (manifest_entry v) else map_of m name)"
    by (simp add: update_conv')
  then show ?case
    using Cons.IH [of "AList.update (vf_name v) (manifest_entry v) m"] Cons.prems by (auto split: if_splits)
qed simp

text \<open>A missing family is reported as a fault exactly when the manifest says it must be there: it is
  listed, has no precondition, and every part of its activation code registers it at start.\<close>

theorem fault_iff:
  "absenceReading vs name = Unexpected \<longleftrightarrow>
     (\<exists>f. getManifestFamily vs name = Some f \<and> js_trim (nf_precondition f) = [] \<and> nf_activationKind f = Eager)
   \<and> (\<exists>v\<in>set vs. vf_name v = name \<and> activation_parts (vf_activation v) \<noteq> [] \<and>
        list_all (\<lambda>p. p \<in> set EAGER_CODES) (activation_parts (vf_activation v)))"
proof -
  have e: "\<exists>v\<in>set vs. vf_name v = name \<and> activation_parts (vf_activation v) \<noteq> [] \<and> list_all (\<lambda>p. p \<in> set EAGER_CODES) (activation_parts (vf_activation v))"
    if "getManifestFamily vs name = Some f" "nf_activationKind f = Eager" for f
    using folded_entry [of vs "[]" name f] that activation_eager_iff by (auto simp: getManifestFamily_def manifest_families_def manifest_entry_def)
  have "absenceReading vs name = Unexpected \<longleftrightarrow>
      (\<exists>f. getManifestFamily vs name = Some f \<and> js_trim (nf_precondition f) = [] \<and> nf_activationKind f = Eager)"
    by (auto simp: absenceReading_def Let_def split: option.split activation_kind.split)
  then show ?thesis
    using e by blast
qed

end
