(* ===== verification/Rates.thy ===== *)
theory Rates
  imports MetricManifest
begin

section \<open>Selections and rates: \<open>observability/selectors.ts\<close>, \<open>rates.ts\<close>, \<open>snapshotRates.ts\<close>\<close>

text \<open>
  What a page derives from the scrapes it keeps: sums over samples, counter rates between two
  observations, their ratios, and the retention of observations. Times are whole milliseconds; the
  arithmetic is exact.
\<close>

subsection \<open>Selectors\<close>

definition selectFamily :: "metrics_snapshot \<Rightarrow> string \<Rightarrow> metric_family option" where
  "selectFamily sn name = map_of (sn_families sn) name"

definition label_equal :: "labels \<Rightarrow> labels \<Rightarrow> bool" where
  "label_equal wanted ls \<longleftrightarrow> list_all (\<lambda>(k, v). map_of ls k = Some v) wanted"

definition selectSamples :: "metrics_snapshot \<Rightarrow> string \<Rightarrow> labels option \<Rightarrow> metric_sample list" where
  "selectSamples sn family wanted =
     (case map_of (sn_families sn) family of
        None \<Rightarrow> []
      | Some f \<Rightarrow> (case wanted of
            None \<Rightarrow> mf_samples f
          | Some w \<Rightarrow> if w = [] then mf_samples f else filter (\<lambda>s. label_equal w (ms_labels s)) (mf_samples f)))"

text \<open>\<open>labels[l] ?? ''\<close>\<close>

definition label_or_empty :: "metric_sample \<Rightarrow> string \<Rightarrow> string" where
  "label_or_empty s l = (case map_of (ms_labels s) l of None \<Rightarrow> [] | Some v \<Rightarrow> v)"

record aggregate =
  ag_value :: "rat option"
  ag_finite :: nat
  ag_excluded :: nat

fun add_sample_value :: "jsnum \<Rightarrow> rat \<times> nat \<times> nat \<Rightarrow> rat \<times> nat \<times> nat" where
  "add_sample_value (Fin r) (tot, kept, excluded) = (tot + r, kept + 1, excluded)"
| "add_sample_value _ (tot, kept, excluded) = (tot, kept, excluded + 1)"

definition aggregateSum :: "metric_sample list \<Rightarrow> aggregate" where
  "aggregateSum samples =
     (let (tot, kept, excluded) = fold (\<lambda>s. add_sample_value (ms_value s)) samples (0, 0, 0)
      in \<lparr>ag_value = (if kept > 0 then Some tot else None), ag_finite = kept, ag_excluded = excluded\<rparr>)"

definition selectScalar :: "metrics_snapshot \<Rightarrow> string \<Rightarrow> labels option \<Rightarrow> rat option" where
  "selectScalar sn family wanted =
     (case selectSamples sn family wanted of
        [s] \<Rightarrow> (case ms_value s of Fin r \<Rightarrow> Some r | _ \<Rightarrow> None)
      | _ \<Rightarrow> None)"

text \<open>A sample's name is a property name here; the names \<open>Object.prototype\<close> has are outside the model.\<close>

fun add_flat :: "metric_sample \<Rightarrow> (string \<times> rat) list \<Rightarrow> (string \<times> rat) list" where
  "add_flat s flat =
     (case ms_value s of
        Fin r \<Rightarrow> AList.update (ms_name s) ((case map_of flat (ms_name s) of None \<Rightarrow> 0 | Some v \<Rightarrow> v) + r) flat
      | _ \<Rightarrow> flat)"

definition projectFlatSums :: "metrics_snapshot \<Rightarrow> (string \<times> rat) list" where
  "projectFlatSums sn = fold (\<lambda>(n, f). fold add_flat (mf_samples f)) (sn_families sn) []"

subsection \<open>Freshness\<close>

datatype freshness = Fresh | Aging | Stale

definition classifyFreshness :: "int \<Rightarrow> int \<Rightarrow> int \<Rightarrow> freshness" where
  "classifyFreshness receivedAtMs nowMs cadenceMs =
     (let age = nowMs - receivedAtMs
      in if 2 * age < 3 * cadenceMs then Fresh else if age < 3 * cadenceMs then Aging else Stale)"

subsection \<open>Counter rates\<close>

record counter_point =
  cp_value :: jsnum
  cp_receivedAtMs :: int

datatype rate =
    RateOk rat int
  | InsufficientSamples
  | InvalidSample
  | InvalidInterval
  | Reset
  | Gap
  | AbsentRate absence

definition computeCounterRate :: "counter_point option \<Rightarrow> counter_point option \<Rightarrow> int \<Rightarrow> rate" where
  "computeCounterRate previous current maxGapMs =
     (case (previous, current) of
        (Some p, Some c) \<Rightarrow>
          (case (cp_value p, cp_value c) of
             (Fin a, Fin b) \<Rightarrow>
               (let intervalMs = cp_receivedAtMs c - cp_receivedAtMs p
                in if intervalMs \<le> 0 then InvalidInterval
                   else if intervalMs > maxGapMs then Gap
                   else if b < a then Reset
                   else RateOk ((b - a) / (of_int intervalMs / 1000)) intervalMs)
           | _ \<Rightarrow> InvalidSample)
      | _ \<Rightarrow> InsufficientSamples)"

text \<open>\<open>slice(-capacity)\<close>: the last \<open>capacity\<close> entries, and all of them for 0.\<close>

definition last_entries :: "nat \<Rightarrow> 'a list \<Rightarrow> 'a list" where
  "last_entries n xs = (if n = 0 then xs else drop (length xs - n) xs)"

definition pushRetained :: "('a \<Rightarrow> int) \<Rightarrow> 'a list \<Rightarrow> 'a \<Rightarrow> nat \<Rightarrow> 'a list" where
  "pushRetained receivedAt ring point capacity =
     (if ring \<noteq> [] \<and> receivedAt (last ring) = receivedAt point then ring
      else last_entries capacity (ring @ [point]))"

datatype ratio =
    RatioOk rat
  | NoTraffic
  | NotDerivable rate

definition ratioOf :: "rate \<Rightarrow> rate \<Rightarrow> ratio" where
  "ratioOf numerator denominator =
     (case numerator of
        RateOk n i \<Rightarrow>
          (case denominator of
             RateOk d j \<Rightarrow> if d \<le> 0 then NoTraffic else RatioOk (n / d)
           | _ \<Rightarrow> NotDerivable denominator)
      | _ \<Rightarrow> NotDerivable numerator)"

subsection \<open>Rates over the retained scrapes\<close>

definition RATE_MAX_GAP_MS :: int where "RATE_MAX_GAP_MS = 35000"

text \<open>\<open>Math.round\<close> takes a half upwards.\<close>

definition rateMaxGapMs :: "int \<Rightarrow> int" where
  "rateMaxGapMs cadenceMs = \<lfloor>(of_int cadenceMs * 7 / 2 + 1 / 2 :: rat)\<rfloor>"

definition groupKeyOf :: "labels \<Rightarrow> string list \<Rightarrow> string" where
  "groupKeyOf ls groupBy =
     join_with [CHR 0x00] (map (\<lambda>k. k @ ''='' @ (case map_of ls k of None \<Rightarrow> [] | Some v \<Rightarrow> v)) groupBy)"

datatype label_match = AnyLabels | EqualLabels labels | WhereLabels "labels \<Rightarrow> bool"

fun matchesLabels :: "labels \<Rightarrow> label_match \<Rightarrow> bool" where
  "matchesLabels ls AnyLabels = True"
| "matchesLabels ls (EqualLabels wanted) = list_all (\<lambda>(k, v). map_of ls k = Some v) wanted"
| "matchesLabels ls (WhereLabels p) = p ls"

definition group_labels :: "labels \<Rightarrow> string list \<Rightarrow> labels" where
  "group_labels ls groupBy =
     fold (\<lambda>k out. case map_of ls k of None \<Rightarrow> out | Some v \<Rightarrow> AList.update k v out) groupBy []"

definition add_to_group :: "string list \<Rightarrow> label_match \<Rightarrow> metric_sample \<Rightarrow> (string \<times> labels \<times> metric_sample list) list
    \<Rightarrow> (string \<times> labels \<times> metric_sample list) list" where
  "add_to_group groupBy whr s groups =
     (if \<not> matchesLabels (ms_labels s) whr then groups
      else (let key = groupKeyOf (ms_labels s) groupBy
            in case map_of groups key of
                 None \<Rightarrow> AList.update key (group_labels (ms_labels s) groupBy, [s]) groups
               | Some (ls, ss) \<Rightarrow> AList.update key (ls, ss @ [s]) groups))"

definition groupSums :: "metrics_snapshot \<Rightarrow> string \<Rightarrow> string list \<Rightarrow> label_match \<Rightarrow> (string \<times> labels \<times> rat option) list" where
  "groupSums sn family groupBy whr =
     map (\<lambda>(key, ls, ss). (key, ls, ag_value (aggregateSum ss)))
       (fold (add_to_group groupBy whr) (selectSamples sn family None) [])"

record group_rate =
  gr_labels :: labels
  gr_rate :: rate
  gr_current :: "rat option"

definition point_at :: "rat option \<Rightarrow> metrics_snapshot \<Rightarrow> counter_point option" where
  "point_at v sn = map_option (\<lambda>r. \<lparr>cp_value = Fin r, cp_receivedAtMs = sn_receivedAtMs sn\<rparr>) v"

text \<open>The last two of the retained scrapes, if there are so many.\<close>

definition newest :: "metrics_snapshot list \<Rightarrow> metrics_snapshot option" where
  "newest history = (if history = [] then None else Some (last history))"

definition before_newest :: "metrics_snapshot list \<Rightarrow> metrics_snapshot option" where
  "before_newest history = (if length history \<ge> 2 then Some (history ! (length history - 2)) else None)"

definition groupRates :: "metrics_snapshot list \<Rightarrow> string \<Rightarrow> string list \<Rightarrow> int \<Rightarrow> label_match \<Rightarrow> group_rate list" where
  "groupRates history family groupBy maxGapMs whr =
     (case newest history of
        None \<Rightarrow> []
      | Some current \<Rightarrow>
          map (\<lambda>(key, ls, v).
            \<lparr>gr_labels = ls,
             gr_rate = computeCounterRate
               (case before_newest history of
                  None \<Rightarrow> None
                | Some previous \<Rightarrow> (case map_of (groupSums previous family groupBy whr) key of
                      None \<Rightarrow> None | Some (_, old) \<Rightarrow> point_at old previous))
               (point_at v current) maxGapMs,
             gr_current = v\<rparr>) (groupSums current family groupBy whr))"

definition familySumRate :: "vendored_family list \<Rightarrow> metrics_snapshot list \<Rightarrow> string \<Rightarrow> int \<Rightarrow> label_match \<Rightarrow> rate" where
  "familySumRate vs history family maxGapMs whr =
     (case familyAbsence vs (newest history) family of
        Some reading \<Rightarrow> AbsentRate reading
      | None \<Rightarrow> (case groupRates history family [] maxGapMs whr of [g] \<Rightarrow> gr_rate g | _ \<Rightarrow> InsufficientSamples))"

definition partition_sum :: "metrics_snapshot \<Rightarrow> string \<Rightarrow> label_match \<Rightarrow> rat option" where
  "partition_sum sn family whr =
     (let matched = filter (\<lambda>s. matchesLabels (ms_labels s) whr) (selectSamples sn family None)
      in if matched = [] then Some 0 else ag_value (aggregateSum matched))"

definition partitionRate :: "metrics_snapshot list \<Rightarrow> string \<Rightarrow> int \<Rightarrow> label_match \<Rightarrow> rate" where
  "partitionRate history family maxGapMs whr =
     (case (newest history, before_newest history) of
        (Some current, Some previous) \<Rightarrow>
          if map_of (sn_families current) family = None \<or> map_of (sn_families previous) family = None then InsufficientSamples
          else computeCounterRate (point_at (partition_sum previous family whr) previous)
                 (point_at (partition_sum current family whr) current) maxGapMs
      | _ \<Rightarrow> InsufficientSamples)"

subsection \<open>Facts\<close>

fun finite_value :: "jsnum \<Rightarrow> rat" where
  "finite_value (Fin r) = r"
| "finite_value _ = 0"

definition finite_sum :: "metric_sample list \<Rightarrow> rat" where
  "finite_sum ss = sum_list (map (\<lambda>s. finite_value (ms_value s)) ss)"

lemma aggregate_fold:
  "fold (\<lambda>s. add_sample_value (ms_value s)) ss (a, m, n) =
     (a + finite_sum ss, m + length (filter (\<lambda>s. is_finite (ms_value s)) ss), n + length (filter (\<lambda>s. \<not> is_finite (ms_value s)) ss))"
proof (induction ss arbitrary: a m n)
  case (Cons s ss)
  then show ?case
    by (cases "ms_value s") (simp_all add: finite_sum_def add.assoc)
qed (simp add: finite_sum_def)

lemma aggregateSum_eq:
  "aggregateSum ss = \<lparr>ag_value = (if list_ex (\<lambda>s. is_finite (ms_value s)) ss then Some (finite_sum ss) else None),
     ag_finite = length (filter (\<lambda>s. is_finite (ms_value s)) ss), ag_excluded = length (filter (\<lambda>s. \<not> is_finite (ms_value s)) ss)\<rparr>"
  by (auto simp: aggregateSum_def aggregate_fold list_ex_iff filter_empty_conv)

lemma no_finite_sum: "\<not> list_ex (\<lambda>s. is_finite (ms_value s)) ss \<Longrightarrow> finite_sum ss = 0"
proof (induction ss)
  case (Cons s ss)
  then show ?case
    by (cases "ms_value s") (auto simp: finite_sum_def)
qed (simp add: finite_sum_def)

definition value_or_zero :: "rat option \<Rightarrow> rat" where
  "value_or_zero v = (case v of None \<Rightarrow> 0 | Some r \<Rightarrow> r)"

lemma aggregate_value: "value_or_zero (ag_value (aggregateSum ss)) = finite_sum ss"
  by (simp add: aggregateSum_eq value_or_zero_def no_finite_sum)

definition group_total :: "(string \<times> labels \<times> metric_sample list) list \<Rightarrow> rat" where
  "group_total gs = sum_list (map (\<lambda>(k, ls, ss). finite_sum ss) gs)"

lemma total_update_group:
  "distinct (map fst gs) \<Longrightarrow>
   group_total (AList.update k (ls, ss) gs) = group_total gs - (case map_of gs k of None \<Rightarrow> 0 | Some (_, old) \<Rightarrow> finite_sum old) + finite_sum ss"
proof (induction gs)
  case (Cons g gs)
  obtain k' l' o' where g: "g = (k', l', o')"
    by (cases g) auto
  then show ?case
    using Cons by (auto simp: group_total_def map_of_eq_None_iff split: option.splits)
qed (simp add: group_total_def)

lemma group_step:
  assumes "distinct (map fst gs)"
  shows "distinct (map fst (add_to_group b w s gs))"
    "group_total (add_to_group b w s gs) = group_total gs + (if matchesLabels (ms_labels s) w then finite_value (ms_value s) else 0)"
proof -
  show "distinct (map fst (add_to_group b w s gs))"
    using assms by (auto simp: add_to_group_def Let_def distinct_update split: option.split)
  have one: "finite_sum (ss @ [s]) = finite_sum ss + finite_value (ms_value s)" "finite_sum [s] = finite_value (ms_value s)" for ss
    by (simp_all add: finite_sum_def)
  show "group_total (add_to_group b w s gs) = group_total gs + (if matchesLabels (ms_labels s) w then finite_value (ms_value s) else 0)"
    using assms by (auto simp: add_to_group_def Let_def total_update_group one split: option.split)
qed

lemma group_fold:
  "distinct (map fst gs) \<Longrightarrow>
   group_total (fold (add_to_group b w) ss gs) = group_total gs + finite_sum (filter (\<lambda>s. matchesLabels (ms_labels s) w) ss)"
proof (induction ss arbitrary: gs)
  case (Cons s ss)
  then show ?case
    using group_step [OF Cons.prems, of b w s] by (auto simp: finite_sum_def)
qed (simp add: finite_sum_def)

subsection \<open>Properties\<close>

text \<open>A rate is reported exactly when two finite observations lie a positive time of at most the gap
  apart and the counter did not fall; it is then their difference per second, so never negative, and
  every other case is named instead of shown as zero.\<close>

theorem rate_reported_iff:
  "computeCounterRate previous current maxGapMs = RateOk r i \<longleftrightarrow>
     (\<exists>p c a b. previous = Some p \<and> current = Some c \<and> cp_value p = Fin a \<and> cp_value c = Fin b \<and> a \<le> b \<and>
        i = cp_receivedAtMs c - cp_receivedAtMs p \<and> 0 < i \<and> i \<le> maxGapMs \<and> r * of_int i = (b - a) * 1000)"
proof -
  have eq: "x / (of_int j / 1000) = r \<longleftrightarrow> r * of_int j = x * 1000" "x * 1000 / of_int j = r \<longleftrightarrow> r * of_int j = x * 1000"
    if "0 < j" for x :: rat and j
    using that by (auto simp: field_simps)
  show ?thesis
    by (auto simp: computeCounterRate_def Let_def eq simp del: of_int_diff left_diff_distrib_numeral
        split: option.splits jsnum.splits if_splits)
qed

text \<open>Grouping loses nothing: the sums of the groups add up to the sum of the finite samples selected,
  however the labels are grouped.\<close>

theorem groups_partition:
  "sum_list (map (\<lambda>(key, ls, v). value_or_zero v) (groupSums sn family groupBy whr)) =
     finite_sum (filter (\<lambda>s. matchesLabels (ms_labels s) whr) (selectSamples sn family None))"
proof -
  have "sum_list (map (\<lambda>(key, ls, v). value_or_zero v) (groupSums sn family groupBy whr)) =
      group_total (fold (add_to_group groupBy whr) (selectSamples sn family None) [])"
    by (simp add: groupSums_def group_total_def comp_def case_prod_unfold aggregate_value)
  then show ?thesis
    by (simp add: group_fold) (simp add: group_total_def)
qed

text \<open>The retained observations stay bounded and in order: a scrape delivered twice is kept once, and
  with a capacity the ring never outgrows it.\<close>

theorem retained_once:
  "pushRetained receivedAt (pushRetained receivedAt ring point capacity) point capacity = pushRetained receivedAt ring point capacity \<and>
   length (pushRetained receivedAt ring point capacity) \<le> (if capacity = 0 then length ring + 1 else max (length ring) capacity)"
proof -
  define e where "e = last_entries capacity (ring @ [point])"
  have e: "last e = point" "e \<noteq> []" "length e \<le> (if capacity = 0 then length ring + 1 else max (length ring) capacity)"
    by (auto simp: e_def last_entries_def last_drop)
  show ?thesis
  proof (cases "ring \<noteq> [] \<and> receivedAt (last ring) = receivedAt point")
    case True
    then show ?thesis by (simp add: pushRetained_def)
  next
    case False
    then have "pushRetained receivedAt ring point capacity = e"
      by (simp only: pushRetained_def e_def) simp
    moreover have "pushRetained receivedAt e point capacity = e"
      using e by (simp add: pushRetained_def)
    ultimately show ?thesis
      using e(3) by simp
  qed
qed

end
