(* ===== verification/RateFacts.thy ===== *)
theory RateFacts
  imports Rates
begin

section \<open>Facts the readings share\<close>

text \<open>
  Lemmas on sums and rates over a part of a family, for the theories that read a verdict off a scrape:
  when a partition has a rate, and how the sums of disjoint parts add up.
\<close>

definition part_sum :: "metrics_snapshot \<Rightarrow> string \<Rightarrow> (labels \<Rightarrow> bool) \<Rightarrow> rat" where
  "part_sum sn family p = finite_sum (filter (\<lambda>s. p (ms_labels s)) (selectSamples sn family None))"

definition exported :: "metrics_snapshot \<Rightarrow> string \<Rightarrow> bool" where
  "exported sn family \<longleftrightarrow> map_of (sn_families sn) family \<noteq> None"

fun whereOf :: "label_match \<Rightarrow> labels \<Rightarrow> bool" where
  "whereOf m ls = matchesLabels ls m"

lemma where_simps [simp]:
  "whereOf (WhereLabels p) = p" "whereOf AnyLabels = (\<lambda>l. True)"
  "whereOf (EqualLabels [(k, v)]) = (\<lambda>l. map_of l k = Some v)"
  by (auto simp: fun_eq_iff)

lemma partition_sum_value: "partition_sum sn family m = Some a \<Longrightarrow> a = part_sum sn family (whereOf m)"
  using aggregate_value [of "filter (\<lambda>s. matchesLabels (ms_labels s) m) (selectSamples sn family None)"]
  by (auto simp: partition_sum_def Let_def part_sum_def value_or_zero_def finite_sum_def split: if_splits)

lemma counter_rate_ok:
  assumes "computeCounterRate (point_at x prev) (point_at y cur) g = RateOk r i"
  obtains a b where "x = Some a" "y = Some b" "a \<le> b" "i = sn_receivedAtMs cur - sn_receivedAtMs prev" "0 < i" "i \<le> g"
    "r = (b - a) / (of_int i / 1000)"
  using assms
  by (auto simp: computeCounterRate_def Let_def point_at_def split: option.splits jsnum.splits if_splits)

text \<open>The two newest scrapes a rate is measured between.\<close>

definition rate_pair :: "metrics_snapshot list \<Rightarrow> metrics_snapshot \<Rightarrow> metrics_snapshot \<Rightarrow> bool" where
  "rate_pair history prev cur \<longleftrightarrow> newest history = Some cur \<and> before_newest history = Some prev"

lemma rate_pair_unique: "rate_pair h p c \<Longrightarrow> rate_pair h p' c' \<Longrightarrow> p = p' \<and> c = c'"
  by (auto simp: rate_pair_def)

lemma partition_rate_ok:
  assumes "partitionRate history family g m = RateOk r i"
  obtains prev cur where "rate_pair history prev cur" "exported prev family" "exported cur family"
    "i = sn_receivedAtMs cur - sn_receivedAtMs prev" "0 < i" "i \<le> g"
    "part_sum prev family (whereOf m) \<le> part_sum cur family (whereOf m)"
    "r = (part_sum cur family (whereOf m) - part_sum prev family (whereOf m)) / (of_int i / 1000)"
proof -
  obtain prev cur where pair: "newest history = Some cur" "before_newest history = Some prev" "exported prev family" "exported cur family"
      and rate: "computeCounterRate (point_at (partition_sum prev family m) prev) (point_at (partition_sum cur family m) cur) g = RateOk r i"
    using assms by (auto simp: partitionRate_def exported_def split: option.splits if_splits)
  from rate obtain a b where ab: "partition_sum prev family m = Some a" "partition_sum cur family m = Some b" "a \<le> b"
      "i = sn_receivedAtMs cur - sn_receivedAtMs prev" "0 < i" "i \<le> g" "r = (b - a) / (of_int i / 1000)"
    by (rule counter_rate_ok)
  then show thesis
    using that [of prev cur] pair partition_sum_value [of prev family m a] partition_sum_value [of cur family m b]
    by (simp add: rate_pair_def)
qed

lemma partition_rate_nonneg: "partitionRate history family g m = RateOk r i \<Longrightarrow> 0 \<le> r"
  by (erule partition_rate_ok) simp

lemma part_sum_split:
  "part_sum sn family p = part_sum sn family (\<lambda>l. p l \<and> q l) + part_sum sn family (\<lambda>l. p l \<and> \<not> q l)"
proof -
  have "finite_sum (filter (\<lambda>s. p (ms_labels s)) ss) =
      finite_sum (filter (\<lambda>s. p (ms_labels s) \<and> q (ms_labels s)) ss) + finite_sum (filter (\<lambda>s. p (ms_labels s) \<and> \<not> q (ms_labels s)) ss)" for ss
    by (induction ss) (auto simp: finite_sum_def)
  then show ?thesis by (simp add: part_sum_def)
qed

lemma part_sum_cong:
  "(\<And>s. s \<in> set (selectSamples sn family None) \<Longrightarrow> p (ms_labels s) = q (ms_labels s)) \<Longrightarrow> part_sum sn family p = part_sum sn family q"
  by (simp add: part_sum_def cong: filter_cong)

lemma ratio_ok:
  assumes "ratioOf x y = RatioOk q"
  obtains a i b j where "x = RateOk a i" "y = RateOk b j" "0 < b" "q = a / b"
  using assms by (auto simp: ratioOf_def split: rate.splits if_splits)

text \<open>The share one part of a family has of another, in the sums of the two scrapes.\<close>

lemma share_ok:
  assumes "ratioOf (partitionRate h family g m) (partitionRate h family g n) = RatioOk q"
  obtains prev cur where "rate_pair h prev cur" "exported prev family" "exported cur family"
    "part_sum prev family (whereOf m) \<le> part_sum cur family (whereOf m)"
    "part_sum prev family (whereOf n) < part_sum cur family (whereOf n)"
    "q = (part_sum cur family (whereOf m) - part_sum prev family (whereOf m)) /
         (part_sum cur family (whereOf n) - part_sum prev family (whereOf n))"
proof -
  obtain a i b j where r: "partitionRate h family g m = RateOk a i" "partitionRate h family g n = RateOk b j" "0 < b" "q = a / b"
    using assms by (rule ratio_ok)
  from r(1) obtain prev cur where p: "rate_pair h prev cur" "exported prev family" "exported cur family"
      "i = sn_receivedAtMs cur - sn_receivedAtMs prev" "0 < i"
      "part_sum prev family (whereOf m) \<le> part_sum cur family (whereOf m)"
      "a = (part_sum cur family (whereOf m) - part_sum prev family (whereOf m)) / (of_int i / 1000)"
    by (rule partition_rate_ok)
  from r(2) obtain prev' cur' where p': "rate_pair h prev' cur'" "j = sn_receivedAtMs cur' - sn_receivedAtMs prev'"
      "part_sum prev' family (whereOf n) \<le> part_sum cur' family (whereOf n)"
      "b = (part_sum cur' family (whereOf n) - part_sum prev' family (whereOf n)) / (of_int j / 1000)"
    by (rule partition_rate_ok)
  have same: "prev' = prev" "cur' = cur" "j = i"
    using rate_pair_unique [OF p(1) p'(1)] p(4) p'(2) by auto
  have cancel: "x / c / (y / c) = x / y" if "c \<noteq> 0" for x y c :: rat
    using that by (cases "y = 0") (simp_all add: field_simps)
  show thesis
  proof (rule that [OF p(1-3) p(6)])
    show "part_sum prev family (whereOf n) < part_sum cur family (whereOf n)"
      using r(3) p'(4) p(5) same by (simp add: zero_less_divide_iff)
    show "q = (part_sum cur family (whereOf m) - part_sum prev family (whereOf m)) /
         (part_sum cur family (whereOf n) - part_sum prev family (whereOf n))"
      unfolding r(4) p(7) p'(4) same using p(5) by (intro cancel) simp
  qed
qed


end
