(* ===== verification/PdTiers.thy ===== *)
theory PdTiers
  imports RateFacts LbRules
begin

section \<open>Prefill and decode: \<open>observability/pdTiers.ts\<close>, \<open>pdAdmission.ts\<close>, \<open>pdJoin.ts\<close>, \<open>workerScrape.ts\<close>\<close>

text \<open>
  The verdicts of the page on prefill and decode: which routing tiers the rules open, whether requests
  reach them, the cross-check of the two Tier-0 counters, the admission valves, the join of a series to
  an endpoint, and the health of the load-aware scraper.
\<close>

subsection \<open>Which tiers the configuration opens\<close>

definition PD_TIER_SELECTED :: string where "PD_TIER_SELECTED = ''loxilb_ai_pd_tier_selected_total''"
definition PD_SESSION_HITS :: string where "PD_SESSION_HITS = ''loxilb_ai_pd_session_hits_total''"
definition PD_FALLBACK_TIER :: string where "PD_FALLBACK_TIER = ''tier2''"
definition KV_EXACT_PD_MODE :: int where "KV_EXACT_PD_MODE = 1"

record tier_gates =
  tg_pdDisagg :: bool
  tg_cacheAware :: bool
  tg_kvExact :: bool

definition open_gates :: "lb_rule \<Rightarrow> tier_gates \<Rightarrow> tier_gates" where
  "open_gates rule gates =
     (let args = sc_args rule
      in if \<not> truthy (oget args ''pd_disagg_mode'') then gates
         else \<lparr>tg_pdDisagg = True,
               tg_cacheAware = (tg_cacheAware gates \<or> truthy (oget args ''pd_cache_aware_mode'')),
               tg_kvExact = (tg_kvExact gates \<or> strict_eq (oget args ''kvExactMode'') (jint KV_EXACT_PD_MODE))\<rparr>)"

definition pdTierGates :: "lb_rule list option \<Rightarrow> tier_gates option" where
  "pdTierGates rules =
     map_option (\<lambda>rs. fold open_gates rs \<lparr>tg_pdDisagg = False, tg_cacheAware = False, tg_kvExact = False\<rparr>) rules"

subsection \<open>The Tier-0 counters\<close>

datatype reconciliation = NotComparable | Agrees rat | Disagrees rat rat

definition lifetimeSum :: "metrics_snapshot \<Rightarrow> string \<Rightarrow> (labels \<Rightarrow> bool) \<Rightarrow> rat option" where
  "lifetimeSum sn family whr =
     (if map_of (sn_families sn) family = None then None
      else ag_value (aggregateSum (filter (\<lambda>s. whr (ms_labels s)) (selectSamples sn family None))))"

definition tier0Reconciliation :: "metrics_snapshot option \<Rightarrow> reconciliation" where
  "tier0Reconciliation snapshot =
     (case snapshot of
        None \<Rightarrow> NotComparable
      | Some sn \<Rightarrow>
          if sn_failure sn then NotComparable
          else (case (lifetimeSum sn PD_TIER_SELECTED (\<lambda>l. map_of l ''tier'' = Some ''tier0''), lifetimeSum sn PD_SESSION_HITS (\<lambda>l. True)) of
                  (Some tierSelections, Some sessionHits) \<Rightarrow>
                    if tierSelections = sessionHits then Agrees tierSelections else Disagrees tierSelections sessionHits
                | _ \<Rightarrow> NotComparable))"

subsection \<open>The mix\<close>

datatype affinity_verdict = NoSelections | UnknownConfiguration | AsConfigured | ReuseWorking | ConfiguredNoReuse

definition affinityVerdict :: "ratio \<Rightarrow> tier_gates option \<Rightarrow> affinity_verdict" where
  "affinityVerdict affinityShare gates =
     (if affinityShare = NoTraffic then NoSelections
      else (case gates of
              None \<Rightarrow> UnknownConfiguration
            | Some g \<Rightarrow>
                if \<not> tg_cacheAware g \<and> \<not> tg_kvExact g then AsConfigured
                else (case affinityShare of
                        RatioOk r \<Rightarrow> if r > 0 then ReuseWorking else ConfiguredNoReuse
                      | _ \<Rightarrow> UnknownConfiguration)))"

datatype tier_mix = MixUnavailable | MixNotExported | Mix (mix_share: ratio) (mix_verdict: affinity_verdict) (mix_tier0: reconciliation)

definition pdTierMix :: "metrics_snapshot option \<Rightarrow> metrics_snapshot list \<Rightarrow> int \<Rightarrow> tier_gates option \<Rightarrow> tier_mix" where
  "pdTierMix snapshot history maxGapMs gates =
     (case snapshot of
        None \<Rightarrow> MixUnavailable
      | Some sn \<Rightarrow>
          if sn_failure sn then MixUnavailable
          else if map_of (sn_families sn) PD_TIER_SELECTED = None then MixNotExported
          else (let totalRate = partitionRate history PD_TIER_SELECTED maxGapMs (WhereLabels (\<lambda>l. True));
                    affinityRate = partitionRate history PD_TIER_SELECTED maxGapMs (WhereLabels (\<lambda>l. map_of l ''tier'' \<noteq> Some PD_FALLBACK_TIER));
                    affinityShare = ratioOf affinityRate totalRate
                in Mix affinityShare (affinityVerdict affinityShare gates) (tier0Reconciliation (Some sn))))"

subsection \<open>The admission valves\<close>

definition PD_ADMISSION_SHED :: string where "PD_ADMISSION_SHED = ''loxilb_pd_admission_shed_total''"
definition PD_ADMISSION_OVERFLOW_SHED :: string where "PD_ADMISSION_OVERFLOW_SHED = ''loxilb_pd_admission_overflow_shed_total''"
definition PD_ADMISSION_QUEUED :: string where "PD_ADMISSION_QUEUED = ''loxilb_pd_admission_queued_total''"

datatype admission_mode = Queueing | Shedding | Indeterminate | Contradictory
datatype admission_verdict = NoPressure | Absorbing | Dropping

definition admissionMode :: "rat option \<Rightarrow> rat option \<Rightarrow> rat option \<Rightarrow> admission_mode" where
  "admissionMode shedTotal overflowTotal queuedTotal =
     (let shed = value_or_zero shedTotal > 0;
          queueing = value_or_zero overflowTotal > 0 \<or> value_or_zero queuedTotal > 0
      in if shed \<and> queueing then Contradictory
         else if queueing then Queueing
         else if shed then Shedding
         else Indeterminate)"

definition admissionVerdict :: "rat option \<Rightarrow> rat option \<Rightarrow> admission_verdict" where
  "admissionVerdict dropTotal queuedTotal =
     (if value_or_zero dropTotal > 0 then Dropping
      else if value_or_zero queuedTotal > 0 then Absorbing
      else NoPressure)"

record admission_reading =
  ar_mode :: admission_mode
  ar_verdict :: admission_verdict
  ar_shedTotal :: "rat option"
  ar_overflowTotal :: "rat option"
  ar_queuedTotal :: "rat option"
  ar_dropTotal :: "rat option"
  ar_blindSpot :: bool

datatype admission_report = AdmissionUnavailable | AdmissionNotExported | AdmissionRead admission_reading

definition pdAdmission :: "metrics_snapshot option \<Rightarrow> admission_report" where
  "pdAdmission snapshot =
     (case snapshot of
        None \<Rightarrow> AdmissionUnavailable
      | Some sn \<Rightarrow>
          if sn_failure sn then AdmissionUnavailable
          else if map_of (sn_families sn) PD_ADMISSION_SHED = None \<and> map_of (sn_families sn) PD_ADMISSION_OVERFLOW_SHED = None
               \<and> map_of (sn_families sn) PD_ADMISSION_QUEUED = None then AdmissionNotExported
          else (let shedTotal = selectScalar sn PD_ADMISSION_SHED None;
                    overflowTotal = selectScalar sn PD_ADMISSION_OVERFLOW_SHED None;
                    queuedTotal = selectScalar sn PD_ADMISSION_QUEUED None;
                    mode = admissionMode shedTotal overflowTotal queuedTotal;
                    dropTotal = (if shedTotal = None \<and> overflowTotal = None then None
                                 else Some (value_or_zero shedTotal + value_or_zero overflowTotal))
                in AdmissionRead
                     \<lparr>ar_mode = mode, ar_verdict = admissionVerdict dropTotal queuedTotal,
                      ar_shedTotal = shedTotal, ar_overflowTotal = overflowTotal, ar_queuedTotal = queuedTotal, ar_dropTotal = dropTotal,
                      ar_blindSpot = (mode = Queueing \<and> map_of (sn_families sn) PD_ADMISSION_OVERFLOW_SHED = None)\<rparr>))"

subsection \<open>The endpoint of a series\<close>

datatype ep_join = EpOk string | EpUnknown | EpAmbiguous

definition EP_INFO_FAMILY :: string where "EP_INFO_FAMILY = ''loxilb_pd_ep_info''"

definition keyOf :: "string \<Rightarrow> string \<Rightarrow> string" where
  "keyOf service epIdx = service @ [CHR 0x00] @ epIdx"

definition add_ep :: "metric_sample \<Rightarrow> (string \<times> ep_join) list \<Rightarrow> (string \<times> ep_join) list" where
  "add_ep s index =
     (case (map_of (ms_labels s) ''service'', map_of (ms_labels s) ''ep_idx'', map_of (ms_labels s) ''ep'') of
        (Some service, Some epIdx, Some ep) \<Rightarrow>
          (let key = keyOf service epIdx
           in case map_of index key of
                None \<Rightarrow> AList.update key (EpOk ep) index
              | Some (EpOk e) \<Rightarrow> if e \<noteq> ep then AList.update key EpAmbiguous index else index
              | Some _ \<Rightarrow> index)
      | _ \<Rightarrow> index)"

definition buildEpJoinIndex :: "metrics_snapshot \<Rightarrow> (string \<times> ep_join) list" where
  "buildEpJoinIndex sn = fold add_ep (selectSamples sn EP_INFO_FAMILY None) []"

definition joinEp :: "(string \<times> ep_join) list \<Rightarrow> string \<Rightarrow> string \<Rightarrow> ep_join" where
  "joinEp index service epIdx = (case map_of index (keyOf service epIdx) of None \<Rightarrow> EpUnknown | Some j \<Rightarrow> j)"

subsection \<open>The scraper of the engines\<close>

definition WORKER_SCRAPE :: string where "WORKER_SCRAPE = ''loxilb_ai_worker_scrape_total''"

datatype scrape_verdict = ScrapeUnavailable | ScrapeIdle | NeverOk rat | Failing rat | ScrapeHealthy | ScrapePending

definition workerScrape :: "metrics_snapshot option \<Rightarrow> metrics_snapshot list \<Rightarrow> int \<Rightarrow> scrape_verdict" where
  "workerScrape snapshot history maxGapMs =
     (case snapshot of
        None \<Rightarrow> ScrapeUnavailable
      | Some sn \<Rightarrow>
          if sn_failure sn \<or> map_of (sn_families sn) WORKER_SCRAPE = None then ScrapeUnavailable
          else (case (ag_value (aggregateSum (selectSamples sn WORKER_SCRAPE None)), selectScalar sn WORKER_SCRAPE (Some [(''result'', ''ok'')])) of
                  (Some attempts, Some okTotal) \<Rightarrow>
                    if attempts = 0 then ScrapeIdle
                    else if okTotal = 0 then NeverOk attempts
                    else (case ratioOf (partitionRate history WORKER_SCRAPE maxGapMs (WhereLabels (\<lambda>l. map_of l ''result'' \<noteq> Some ''ok'')))
                                       (partitionRate history WORKER_SCRAPE maxGapMs (WhereLabels (\<lambda>l. True))) of
                            NoTraffic \<Rightarrow> ScrapeHealthy
                          | RatioOk r \<Rightarrow> if r > 0 then Failing r else ScrapeHealthy
                          | NotDerivable _ \<Rightarrow> ScrapePending)
                | _ \<Rightarrow> ScrapePending))"

subsection \<open>Facts\<close>

lemma gates_cases:
  "tg_cacheAware (fold open_gates rules gates) \<or> tg_kvExact (fold open_gates rules gates) \<longleftrightarrow>
     tg_cacheAware gates \<or> tg_kvExact gates \<or>
     list_ex (\<lambda>r. truthy (oget (sc_args r) ''pd_disagg_mode'') \<and>
        (truthy (oget (sc_args r) ''pd_cache_aware_mode'') \<or> oget (sc_args r) ''kvExactMode'' = jint KV_EXACT_PD_MODE)) rules"
proof (induction rules arbitrary: gates)
  case (Cons r rules)
  have "strict_eq v (jint n) \<longleftrightarrow> v = jint n" for v n
    by (cases v) auto
  then show ?case
    unfolding fold_Cons comp_apply Cons.IH by (auto simp: open_gates_def Let_def)
qed simp

text \<open>Reuse is called configured but missing only where it is so: some rule opens a tier that reuses a warm
  endpoint, and between the two newest scrapes prefills were routed, every one of them by the fallback.\<close>

theorem no_reuse_is_real:
  assumes "pdTierMix snapshot history maxGapMs (pdTierGates rules) = Mix share ConfiguredNoReuse rec"
  shows "\<exists>rs prev cur. rules = Some rs \<and>
    list_ex (\<lambda>r. truthy (oget (sc_args r) ''pd_disagg_mode'') \<and>
      (truthy (oget (sc_args r) ''pd_cache_aware_mode'') \<or> oget (sc_args r) ''kvExactMode'' = jint KV_EXACT_PD_MODE)) rs \<and>
    rate_pair history prev cur \<and>
    part_sum prev PD_TIER_SELECTED (\<lambda>l. True) < part_sum cur PD_TIER_SELECTED (\<lambda>l. True) \<and>
    part_sum prev PD_TIER_SELECTED (\<lambda>l. map_of l ''tier'' \<noteq> Some PD_FALLBACK_TIER) =
      part_sum cur PD_TIER_SELECTED (\<lambda>l. map_of l ''tier'' \<noteq> Some PD_FALLBACK_TIER)"
proof -
  let ?warm = "\<lambda>l. map_of l ''tier'' \<noteq> Some PD_FALLBACK_TIER"
  have share: "share = ratioOf (partitionRate history PD_TIER_SELECTED maxGapMs (WhereLabels ?warm)) (partitionRate history PD_TIER_SELECTED maxGapMs (WhereLabels (\<lambda>l. True)))"
    and verdict: "affinityVerdict share (pdTierGates rules) = ConfiguredNoReuse"
    using assms by (auto simp: pdTierMix_def Let_def split: option.splits if_splits)
  from verdict obtain rs q where rs: "rules = Some rs" and q: "share = RatioOk q" "q \<le> 0"
    and gates: "tg_cacheAware (fold open_gates rs \<lparr>tg_pdDisagg = False, tg_cacheAware = False, tg_kvExact = False\<rparr>) \<or>
      tg_kvExact (fold open_gates rs \<lparr>tg_pdDisagg = False, tg_cacheAware = False, tg_kvExact = False\<rparr>)"
    by (auto simp: affinityVerdict_def pdTierGates_def split: option.splits if_splits ratio.splits)
  from q(1) obtain prev cur where pc: "rate_pair history prev cur" "part_sum prev PD_TIER_SELECTED ?warm \<le> part_sum cur PD_TIER_SELECTED ?warm"
      "part_sum prev PD_TIER_SELECTED (\<lambda>l. True) < part_sum cur PD_TIER_SELECTED (\<lambda>l. True)"
      "q = (part_sum cur PD_TIER_SELECTED ?warm - part_sum prev PD_TIER_SELECTED ?warm) / (part_sum cur PD_TIER_SELECTED (\<lambda>l. True) - part_sum prev PD_TIER_SELECTED (\<lambda>l. True))"
    unfolding share by (rule share_ok) simp
  then have "part_sum prev PD_TIER_SELECTED ?warm = part_sum cur PD_TIER_SELECTED ?warm"
    using q(2) by (simp add: divide_le_0_iff)
  then show ?thesis
    using rs gates [unfolded gates_cases] pc(1,3) by auto
qed

subsection \<open>The join\<close>

text \<open>The endpoints the information series give for a service and an index, in the order of the scrape.\<close>

definition eps_for :: "metric_sample list \<Rightarrow> string \<Rightarrow> string \<Rightarrow> string list" where
  "eps_for ss service epIdx = concat (map (\<lambda>s. if map_of (ms_labels s) ''service'' = Some service \<and> map_of (ms_labels s) ''ep_idx'' = Some epIdx
     then (case map_of (ms_labels s) ''ep'' of None \<Rightarrow> [] | Some ep \<Rightarrow> [ep]) else []) ss)"

fun join_of :: "string list \<Rightarrow> ep_join" where
  "join_of [] = EpUnknown"
| "join_of (e # es) = (if list_all (\<lambda>x. x = e) es then EpOk e else EpAmbiguous)"

lemma join_of_snoc:
  "join_of (es @ [e]) = (case join_of es of EpUnknown \<Rightarrow> EpOk e | EpOk x \<Rightarrow> if x = e then EpOk x else EpAmbiguous | EpAmbiguous \<Rightarrow> EpAmbiguous)"
  by (cases es) auto

lemma keyOf_inj: "CHR 0x00 \<notin> set a \<Longrightarrow> CHR 0x00 \<notin> set b \<Longrightarrow> keyOf a x = keyOf b y \<longleftrightarrow> a = b \<and> x = y"
proof
  assume nul: "CHR 0x00 \<notin> set a" "CHR 0x00 \<notin> set b"
  have split: "takeWhile (\<lambda>c. c \<noteq> CHR 0x00) (keyOf u z) = u" if "CHR 0x00 \<notin> set u" for u z
    using that by (induction u) (auto simp: keyOf_def)
  assume "keyOf a x = keyOf b y"
  with split [OF nul(1)] split [OF nul(2)] show "a = b \<and> x = y"
    by (metis append_eq_append_conv append_Cons append_Nil keyOf_def list.inject)
qed simp

lemma add_ep_hit:
  "map_of (ms_labels s) ''service'' = Some service \<Longrightarrow> map_of (ms_labels s) ''ep_idx'' = Some epIdx \<Longrightarrow> map_of (ms_labels s) ''ep'' = Some ep \<Longrightarrow>
   map_of (add_ep s index) (keyOf service epIdx) =
     (case map_of index (keyOf service epIdx) of
        None \<Rightarrow> Some (EpOk ep)
      | Some (EpOk e) \<Rightarrow> if e \<noteq> ep then Some EpAmbiguous else Some (EpOk e)
      | Some j \<Rightarrow> Some j)"
  by (auto simp: add_ep_def Let_def update_conv' split: option.splits ep_join.splits)

text \<open>C39. The index is the join: a series is given an endpoint exactly when the information series of its
  service and index name one and no other, and two different ones are ambiguous, not a choice. The names of
  services hold no NUL, the mark between the two parts of a key.\<close>

theorem endpoint_join:
  assumes "CHR 0x00 \<notin> set service"
    and "list_all (\<lambda>s. case map_of (ms_labels s) ''service'' of None \<Rightarrow> True | Some v \<Rightarrow> CHR 0x00 \<notin> set v) (selectSamples sn EP_INFO_FAMILY None)"
  shows "joinEp (buildEpJoinIndex sn) service epIdx = join_of (eps_for (selectSamples sn EP_INFO_FAMILY None) service epIdx)"
proof -
  have "(case map_of (fold add_ep ss []) (keyOf service epIdx) of None \<Rightarrow> EpUnknown | Some j \<Rightarrow> j) = join_of (eps_for ss service epIdx)
      \<and> map_of (fold add_ep ss []) (keyOf service epIdx) \<noteq> Some EpUnknown"
    if "list_all (\<lambda>s. case map_of (ms_labels s) ''service'' of None \<Rightarrow> True | Some v \<Rightarrow> CHR 0x00 \<notin> set v) ss" for ss
    using that
  proof (induction ss rule: rev_induct)
    case Nil
    then show ?case by (simp add: eps_for_def)
  next
    case (snoc s ss)
    define index where "index = fold add_ep ss []"
    have IH: "(case map_of index (keyOf service epIdx) of None \<Rightarrow> EpUnknown | Some j \<Rightarrow> j) = join_of (eps_for ss service epIdx)"
        "map_of index (keyOf service epIdx) \<noteq> Some EpUnknown"
      using snoc by (auto simp: index_def)
    have eps: "eps_for (ss @ [s]) service epIdx = eps_for ss service epIdx @ eps_for [s] service epIdx"
      by (simp add: eps_for_def)
    show ?case
    proof (cases "\<exists>ep. map_of (ms_labels s) ''service'' = Some service \<and> map_of (ms_labels s) ''ep_idx'' = Some epIdx \<and> map_of (ms_labels s) ''ep'' = Some ep")
      case True
      then obtain ep where ep: "map_of (ms_labels s) ''service'' = Some service" "map_of (ms_labels s) ''ep_idx'' = Some epIdx"
          "map_of (ms_labels s) ''ep'' = Some ep" by blast
      then have one: "eps_for [s] service epIdx = [ep]"
        by (simp add: eps_for_def)
      show ?thesis
        unfolding eps one join_of_snoc IH(1) [symmetric] fold_append fold_simps comp_apply index_def [symmetric] add_ep_hit [OF ep]
        using IH(2) by (auto split: option.splits ep_join.splits)
    next
      case False
      then have none: "eps_for [s] service epIdx = []"
        by (auto simp: eps_for_def split: option.splits)
      have "map_of (add_ep s index) (keyOf service epIdx) = map_of index (keyOf service epIdx)"
        using False snoc.prems assms(1)
        by (auto simp: add_ep_def Let_def update_conv' keyOf_inj split: option.splits ep_join.splits)
      then show ?thesis
        using IH by (simp add: eps none index_def)
    qed
  qed
  then show ?thesis
    using assms(2) by (simp add: joinEp_def buildEpJoinIndex_def)
qed

definition demo_ep :: "string \<Rightarrow> string \<Rightarrow> string \<Rightarrow> metric_sample" where
  "demo_ep service epIdx ep =
     \<lparr>ms_name = EP_INFO_FAMILY, ms_labels = [(''service'', service), (''ep_idx'', epIdx), (''ep'', ep)], ms_key = [], ms_value = Fin 1, ms_timestamp = None\<rparr>"

definition demo_ep_scrape :: metrics_snapshot where
  "demo_ep_scrape = \<lparr>sn_receivedAtMs = 0, sn_available = True, sn_failure = False, sn_families =
     [(EP_INFO_FAMILY, \<lparr>mf_name = EP_INFO_FAMILY, mf_type = Gauge, mf_rawType = None, mf_help = None,
        mf_samples = [demo_ep ''chat'' ''0'' ''10.0.0.1:80'', demo_ep ''chat'' ''1'' ''10.0.0.2:80'', demo_ep ''chat'' ''1'' ''10.0.0.3:80''], mf_seen = []\<rparr>)]\<rparr>"

theorem endpoint_join_witness:
  "map (joinEp (buildEpJoinIndex demo_ep_scrape) ''chat'') [''0'', ''1'', ''2''] = [EpOk ''10.0.0.1:80'', EpAmbiguous, EpUnknown]"
proof -
  have "CHR 0x00 \<notin> set ''chat''"
    "list_all (\<lambda>s. case map_of (ms_labels s) ''service'' of None \<Rightarrow> True | Some v \<Rightarrow> CHR 0x00 \<notin> set v) (selectSamples demo_ep_scrape EP_INFO_FAMILY None)"
    by code_simp+
  note join = endpoint_join [OF this]
  have "map (\<lambda>i. join_of (eps_for (selectSamples demo_ep_scrape EP_INFO_FAMILY None) ''chat'' i)) [''0'', ''1'', ''2''] = [EpOk ''10.0.0.1:80'', EpAmbiguous, EpUnknown]"
    by code_simp
  then show ?thesis
    by (simp only: join list.map)
qed

definition demo_tier_scrape :: "int \<Rightarrow> rat \<Rightarrow> rat \<Rightarrow> metrics_snapshot" where
  "demo_tier_scrape at_ms warm cold = \<lparr>sn_receivedAtMs = at_ms, sn_available = True, sn_failure = False, sn_families =
     [(PD_TIER_SELECTED, \<lparr>mf_name = PD_TIER_SELECTED, mf_type = Counter, mf_rawType = None, mf_help = None, mf_samples =
        [\<lparr>ms_name = PD_TIER_SELECTED, ms_labels = [(''tier'', ''tier1'')], ms_key = [], ms_value = Fin warm, ms_timestamp = None\<rparr>,
         \<lparr>ms_name = PD_TIER_SELECTED, ms_labels = [(''tier'', ''tier2'')], ms_key = [], ms_value = Fin cold, ms_timestamp = None\<rparr>], mf_seen = []\<rparr>)]\<rparr>"

definition demo_pd_rules :: "lb_rule list" where
  "demo_pd_rules = [\<lparr>sc_args = [(''pd_disagg_mode'', JBool True), (''pd_cache_aware_mode'', JBool True)], sc_endpoints = None,
     sc_secondaryIPs = None, sc_allowedSources = None\<rparr>]"

theorem no_reuse_is_real_witness:
  "\<exists>share. pdTierMix (Some (demo_tier_scrape 10000 4 9)) [demo_tier_scrape 0 4 2, demo_tier_scrape 10000 4 9] 35000 (pdTierGates (Some demo_pd_rules))
     = Mix share ConfiguredNoReuse NotComparable \<and>
   (\<exists>prev cur. rate_pair [demo_tier_scrape 0 4 2, demo_tier_scrape 10000 4 9] prev cur \<and>
     part_sum prev PD_TIER_SELECTED (\<lambda>l. True) < part_sum cur PD_TIER_SELECTED (\<lambda>l. True))"
proof -
  have mix: "pdTierMix (Some (demo_tier_scrape 10000 4 9)) [demo_tier_scrape 0 4 2, demo_tier_scrape 10000 4 9] 35000 (pdTierGates (Some demo_pd_rules))
     = Mix (RatioOk 0) ConfiguredNoReuse NotComparable"
    by code_simp
  from no_reuse_is_real [OF mix] mix show ?thesis
    by blast
qed

end
