(* ===== verification/JwtAuth.thy ===== *)
theory JwtAuth
  imports RateFacts Fetcher
begin

section \<open>Bearer authentication: \<open>observability/jwtAuth.ts\<close>\<close>

text \<open>
  The health of the key sets of the configured JWT profiles, joined to their metric series by the label
  the gateway makes of a profile's name, and the verdicts of the bearer gate by reason. \<open>collate\<close> is
  \<open>localeCompare\<close>, the collation of the browser's locale.
\<close>

definition JWKS_KEYS :: string where "JWKS_KEYS = ''loxilb_ai_jwks_keys''"
definition JWKS_LAST_SUCCESS :: string where "JWKS_LAST_SUCCESS = ''loxilb_ai_jwks_last_success_timestamp_seconds''"
definition JWKS_USABLE :: string where "JWKS_USABLE = ''loxilb_ai_jwks_usable''"
definition JWKS_REFRESH :: string where "JWKS_REFRESH = ''loxilb_ai_jwks_refresh_total''"
definition JWT_VALIDATION :: string where "JWT_VALIDATION = ''loxilb_ai_jwt_validation_total''"
definition JWKS_FAMILIES :: "string list" where "JWKS_FAMILIES = [JWKS_KEYS, JWKS_LAST_SUCCESS, JWKS_USABLE, JWKS_REFRESH]"
definition JWKS_OUTCOME_SUCCESS :: string where "JWKS_OUTCOME_SUCCESS = ''success''"
definition JWKS_OUTCOME_FAILURE :: string where "JWKS_OUTCOME_FAILURE = ''failure''"

subsection \<open>The label of a profile\<close>

definition LABEL_MAX_BYTES :: nat where "LABEL_MAX_BYTES = 64"
definition UNDERSCORE :: nat where "UNDERSCORE = 95"

definition isSafeLabelByte :: "nat \<Rightarrow> bool" where
  "isSafeLabelByte b \<longleftrightarrow> (48 \<le> b \<and> b \<le> 57) \<or> (65 \<le> b \<and> b \<le> 90) \<or> (97 \<le> b \<and> b \<le> 122) \<or> b = 46 \<or> b = 95 \<or> b = 45"

definition jwksProfileLabel :: "string \<Rightarrow> string" where
  "jwksProfileLabel name =
     (let bytes = concat (map utf8 name);
          safe = take LABEL_MAX_BYTES (map (\<lambda>b. if isSafeLabelByte b then b else UNDERSCORE) bytes)
      in map char_of safe)"

subsection \<open>The age of the last success\<close>

datatype last_success = AgeOk rat | ClockSkew rat | NeverFetchedYet

definition CLOCK_SKEW_SLACK_SEC :: rat where "CLOCK_SKEW_SLACK_SEC = 60"

definition lastSuccessAge :: "jsnum option \<Rightarrow> int \<Rightarrow> last_success" where
  "lastSuccessAge lastSuccessSec observedAtMs =
     (case lastSuccessSec of
        Some (Fin sec) \<Rightarrow>
          (let ageSec = of_int observedAtMs / 1000 - sec
           in if ageSec < - CLOCK_SKEW_SLACK_SEC then ClockSkew (- ageSec) else AgeOk (max 0 ageSec))
      | _ \<Rightarrow> NeverFetchedYet)"

subsection \<open>The health of a profile's keys\<close>

datatype jwks_kind = NotReported | AmbiguousLabel | NeverFetched | StaleCutoff | LastKnownGood | Healthy

record jwks_health =
  jh_profile :: string
  jh_label :: string
  jh_kind :: jwks_kind
  jh_admitting :: bool
  jh_keys :: "rat option"
  jh_lastSuccess :: last_success
  jh_refreshSuccess :: rate
  jh_refreshFailure :: rate

datatype jwks_report = JwksUnavailable | JwksNotExported | JwksRead "jwks_health list"

definition add_gauge :: "metric_sample \<Rightarrow> (string \<times> rat) list \<Rightarrow> (string \<times> rat) list" where
  "add_gauge s out =
     (case (map_of (ms_labels s) ''profile'', ms_value s) of
        (Some profile, Fin v) \<Rightarrow> if map_of out profile = None then AList.update profile v out else out
      | _ \<Rightarrow> out)"

definition gaugeByLabel :: "metrics_snapshot \<Rightarrow> string \<Rightarrow> (string \<times> rat) list" where
  "gaugeByLabel sn family = fold add_gauge (selectSamples sn family None) []"

definition count_label :: "string \<Rightarrow> (string \<times> nat) list \<Rightarrow> (string \<times> nat) list" where
  "count_label name counts =
     AList.update (jwksProfileLabel name) ((case map_of counts (jwksProfileLabel name) of None \<Rightarrow> 0 | Some c \<Rightarrow> c) + 1) counts"

definition label_counts :: "string list \<Rightarrow> (string \<times> nat) list" where
  "label_counts profiles = fold count_label profiles []"

text \<open>What the gauges and rates of a profile say, and whether its label is shared.\<close>

definition jwks_kind_of :: "bool \<Rightarrow> rat option \<Rightarrow> last_success \<Rightarrow> rate \<Rightarrow> jwks_kind \<times> bool" where
  "jwks_kind_of shared u lastSuccess refreshFailure =
     (if shared then (AmbiguousLabel, False)
      else (case u of
              None \<Rightarrow> (NotReported, False)
            | Some v \<Rightarrow>
                if v = 0 then (if lastSuccess = NeverFetchedYet then (NeverFetched, False) else (StaleCutoff, False))
                else (let failing = (case refreshFailure of RateOk r i \<Rightarrow> r > 0 | _ \<Rightarrow> False)
                      in (if failing then LastKnownGood else Healthy, True))))"

definition profile_health :: "metrics_snapshot \<Rightarrow> metrics_snapshot list \<Rightarrow> int \<Rightarrow> (string \<times> nat) list \<Rightarrow> string \<Rightarrow> jwks_health" where
  "profile_health sn history maxGapMs labelCounts profile =
     (let label = jwksProfileLabel profile;
          lastSuccess = lastSuccessAge (map_option Fin (map_of (gaugeByLabel sn JWKS_LAST_SUCCESS) label)) (sn_receivedAtMs sn);
          refreshFailure = partitionRate history JWKS_REFRESH maxGapMs (EqualLabels [(''profile'', label), (''outcome'', JWKS_OUTCOME_FAILURE)]);
          verdict = jwks_kind_of ((case map_of labelCounts label of None \<Rightarrow> 0 | Some c \<Rightarrow> c) > 1)
                      (map_of (gaugeByLabel sn JWKS_USABLE) label) lastSuccess refreshFailure
      in \<lparr>jh_profile = profile, jh_label = label, jh_kind = fst verdict, jh_admitting = snd verdict,
          jh_keys = map_of (gaugeByLabel sn JWKS_KEYS) label, jh_lastSuccess = lastSuccess,
          jh_refreshSuccess = partitionRate history JWKS_REFRESH maxGapMs (EqualLabels [(''profile'', label), (''outcome'', JWKS_OUTCOME_SUCCESS)]),
          jh_refreshFailure = refreshFailure\<rparr>)"

definition jwksHealthFor :: "string list \<Rightarrow> metrics_snapshot option \<Rightarrow> metrics_snapshot list \<Rightarrow> int \<Rightarrow> jwks_report" where
  "jwksHealthFor profiles snapshot history maxGapMs =
     (case snapshot of
        None \<Rightarrow> JwksUnavailable
      | Some sn \<Rightarrow>
          if sn_failure sn then JwksUnavailable
          else if map_of (sn_families sn) JWKS_USABLE = None then JwksNotExported
          else JwksRead (map (profile_health sn history maxGapMs (label_counts profiles)) profiles))"

subsection \<open>The verdicts of the bearer gate\<close>

definition JWT_REASON_ALLOWED :: string where "JWT_REASON_ALLOWED = ''allowed''"
definition JWT_LABEL_ABSENT :: string where "JWT_LABEL_ABSENT = ''-''"

datatype reason_class = Admitted | Credential | Authorization | GatewayFault | Unclassified

text \<open>A table by reason; the names that \<open>Object.prototype\<close> has are outside the model.\<close>

definition REASON_CLASSES :: "(string \<times> reason_class) list" where
  "REASON_CLASSES = [
     (JWT_REASON_ALLOWED, Admitted), (''missing_token'', Credential), (''invalid_token'', Credential), (''token_expired'', Credential),
     (''model_not_allowed'', Authorization), (''policy_store_unavailable'', GatewayFault), (''internal_error'', GatewayFault)]"

definition classifyBearerReason :: "string \<Rightarrow> reason_class" where
  "classifyBearerReason why = (case map_of REASON_CLASSES why of None \<Rightarrow> Unclassified | Some c \<Rightarrow> c)"

record reason_rate =
  rn_reason :: string
  rn_class :: reason_class
  rn_rate :: rate
  rn_tenants :: "string list"

record bearer_reading =
  br_admitted :: rate
  br_denied :: rate
  br_gatewayFault :: rate
  br_byReason :: "reason_rate list"

datatype bearer_report = BearerUnavailable | BearerNotExported | BearerRead bearer_reading

definition add_tenant :: "metric_sample \<Rightarrow> (string \<times> string list) list \<Rightarrow> (string \<times> string list) list" where
  "add_tenant s byReason =
     (let why = label_or_empty s ''reason'';
          tenant = (case map_of (ms_labels s) ''tenant'' of None \<Rightarrow> JWT_LABEL_ABSENT | Some t \<Rightarrow> t)
      in AList.update why (set_add tenant (case map_of byReason why of None \<Rightarrow> [] | Some ts \<Rightarrow> ts)) byReason)"

definition tenantsByReason :: "metrics_snapshot \<Rightarrow> (string \<times> string list) list" where
  "tenantsByReason sn = fold add_tenant (selectSamples sn JWT_VALIDATION None) []"

definition sort_rate :: "reason_rate \<Rightarrow> rat" where
  "sort_rate r = (case rn_rate r of RateOk v i \<Rightarrow> v | _ \<Rightarrow> - 1)"

definition reason_before :: "(string \<Rightarrow> string \<Rightarrow> int) \<Rightarrow> reason_rate \<Rightarrow> reason_rate \<Rightarrow> bool" where
  "reason_before collate a b \<longleftrightarrow>
     (if sort_rate b - sort_rate a \<noteq> 0 then sort_rate b - sort_rate a < 0 else collate (rn_reason a) (rn_reason b) \<le> 0)"

definition bearer_fault :: "labels \<Rightarrow> bool" where
  "bearer_fault l \<longleftrightarrow> classifyBearerReason (case map_of l ''reason'' of None \<Rightarrow> [] | Some r \<Rightarrow> r) = GatewayFault"

definition bearerAdmission :: "(string \<Rightarrow> string \<Rightarrow> int) \<Rightarrow> metrics_snapshot option \<Rightarrow> metrics_snapshot list \<Rightarrow> int \<Rightarrow> bearer_report" where
  "bearerAdmission collate snapshot history maxGapMs =
     (case snapshot of
        None \<Rightarrow> BearerUnavailable
      | Some sn \<Rightarrow>
          if sn_failure sn then BearerUnavailable
          else if map_of (sn_families sn) JWT_VALIDATION = None then BearerNotExported
          else BearerRead
            \<lparr>br_admitted = partitionRate history JWT_VALIDATION maxGapMs (EqualLabels [(''reason'', JWT_REASON_ALLOWED)]),
             br_denied = partitionRate history JWT_VALIDATION maxGapMs (WhereLabels (\<lambda>l. map_of l ''reason'' \<noteq> Some JWT_REASON_ALLOWED)),
             br_gatewayFault = partitionRate history JWT_VALIDATION maxGapMs (WhereLabels bearer_fault),
             br_byReason = js_sort (reason_before collate)
               (map (\<lambda>(why, tenants). \<lparr>rn_reason = why, rn_class = classifyBearerReason why,
                       rn_rate = partitionRate history JWT_VALIDATION maxGapMs (EqualLabels [(''reason'', why)]), rn_tenants = sort tenants\<rparr>)
                 (tenantsByReason sn))\<rparr>)"

subsection \<open>Facts\<close>

text \<open>The gauge of a label: the first finite sample that has it.\<close>

definition first_gauge :: "metric_sample list \<Rightarrow> string \<Rightarrow> rat option" where
  "first_gauge ss label =
     (case List.find (\<lambda>s. map_of (ms_labels s) ''profile'' = Some label \<and> is_finite (ms_value s)) ss of
        None \<Rightarrow> None | Some s \<Rightarrow> Some (finite_value (ms_value s)))"

lemma find_snoc: "List.find P (xs @ [x]) = (case List.find P xs of None \<Rightarrow> if P x then Some x else None | Some y \<Rightarrow> Some y)"
  by (induction xs) auto

lemma map_of_add_gauge:
  "map_of (add_gauge s out) label =
     (if map_of out label = None \<and> map_of (ms_labels s) ''profile'' = Some label \<and> is_finite (ms_value s)
      then Some (finite_value (ms_value s)) else map_of out label)"
  by (auto simp: add_gauge_def update_conv' split: option.splits jsnum.splits)

lemma gauge_is_first: "map_of (gaugeByLabel sn family) label = first_gauge (selectSamples sn family None) label"
proof -
  have "map_of (fold add_gauge ss []) label = first_gauge ss label" for ss
    by (induction ss rule: rev_induct) (auto simp: map_of_add_gauge first_gauge_def find_snoc split: option.splits)
  then show ?thesis by (simp add: gaugeByLabel_def)
qed

lemma label_counts_eq:
  "(case map_of (label_counts profiles) label of None \<Rightarrow> 0 | Some c \<Rightarrow> c) = length (filter (\<lambda>p. jwksProfileLabel p = label) profiles)"
proof -
  have "(case map_of (count_label p counts) label of None \<Rightarrow> 0 | Some c \<Rightarrow> c) =
      (case map_of counts label of None \<Rightarrow> 0 | Some c \<Rightarrow> c) + (if jwksProfileLabel p = label then 1 else 0 :: nat)" for p counts
    by (auto simp: count_label_def update_conv' split: option.split)
  then show ?thesis
    unfolding label_counts_def by (induction profiles rule: rev_induct) (simp_all del: split_paired_All)
qed

lemma kind_admits: "snd (jwks_kind_of shared u ls rf) \<longleftrightarrow> \<not> shared \<and> u \<noteq> None \<and> u \<noteq> Some 0"
  by (auto simp: jwks_kind_of_def Let_def split: option.split)

text \<open>A row per profile in the configured order, and a profile is told as admitting exactly when its
  label is its own among the profiles and the gauge of that label is finite and not zero: an outage of the
  key server never turns an admitting profile into a refusing one, and a shared label never admits.\<close>

theorem admitting_iff:
  "case jwksHealthFor profiles (Some sn) history maxGapMs of
     JwksUnavailable \<Rightarrow> sn_failure sn
   | JwksNotExported \<Rightarrow> \<not> exported sn JWKS_USABLE
   | JwksRead rows \<Rightarrow> map jh_profile rows = profiles \<and>
       list_all (\<lambda>h. jh_admitting h \<longleftrightarrow>
         length (filter (\<lambda>p. jwksProfileLabel p = jwksProfileLabel (jh_profile h)) profiles) = 1 \<and>
         first_gauge (selectSamples sn JWKS_USABLE None) (jwksProfileLabel (jh_profile h)) \<notin> {None, Some 0}) rows"
proof -
  have "jh_profile (profile_health sn history maxGapMs counts p) = p" for counts p
    by (simp add: profile_health_def Let_def)
  moreover have "jh_admitting (profile_health sn history maxGapMs (label_counts profiles) p) \<longleftrightarrow>
      length (filter (\<lambda>q. jwksProfileLabel q = jwksProfileLabel p) profiles) = 1 \<and>
      first_gauge (selectSamples sn JWKS_USABLE None) (jwksProfileLabel p) \<notin> {None, Some 0}" if "p \<in> set profiles" for p
  proof -
    have "filter (\<lambda>q. jwksProfileLabel q = jwksProfileLabel p) profiles \<noteq> []"
      using that by (auto simp: filter_empty_conv)
    then have "length (filter (\<lambda>q. jwksProfileLabel q = jwksProfileLabel p) profiles) \<ge> 1"
      by (simp add: Suc_leI)
    then show ?thesis
      by (auto simp: profile_health_def Let_def kind_admits label_counts_eq gauge_is_first)
  qed
  ultimately show ?thesis
    by (auto simp: jwksHealthFor_def exported_def list_all_iff comp_def)
qed

text \<open>The label is made of safe characters only, at most 64 of them, and a short safe name is its own label.\<close>

lemma label_is_safe: "list_all (\<lambda>c. isSafeLabelByte (code_of c)) (jwksProfileLabel name) \<and> length (jwksProfileLabel name) \<le> 64"
proof -
  have "isSafeLabelByte (code_of (char_of (if isSafeLabelByte b then b else UNDERSCORE)))" for b
  proof (cases "isSafeLabelByte b")
    case True
    then have "b < 256" by (auto simp: isSafeLabelByte_def)
    with True show ?thesis by simp
  qed (simp add: isSafeLabelByte_def UNDERSCORE_def)
  then show ?thesis
    by (simp add: jwksProfileLabel_def Let_def list_all_length LABEL_MAX_BYTES_def)
qed

lemma safe_name_keeps:
  assumes "list_all (\<lambda>c. isSafeLabelByte (code_of c)) name" "length name \<le> 64"
  shows "jwksProfileLabel name = name"
proof -
  have one: "utf8 c = [code_of c] \<and> char_of (code_of c) = c" if "isSafeLabelByte (code_of c)" for c
    using that by (auto simp: utf8_def isSafeLabelByte_def code_of_def)
  then have "concat (map utf8 name) = map code_of name" "map char_of (map code_of name) = name"
    using assms(1) by (induction name) auto
  moreover have "map (\<lambda>b. if isSafeLabelByte b then b else UNDERSCORE) (map code_of name) = map code_of name"
    using assms(1) by (simp add: list_all_iff)
  ultimately show ?thesis
    using assms(2) by (simp add: jwksProfileLabel_def LABEL_MAX_BYTES_def del: map_map)
qed

end
