(* ===== verification/PolicerAttachment.thy ===== *)
theory PolicerAttachment
  imports RateFacts
begin

section \<open>Are the policers attached: \<open>observability/policerAttachment.ts\<close>\<close>

text \<open>
  The list of policers from the REST interface joined with the gauge of the scrape: a row per name of
  either, what is known of its attachment and how well, and the verdict. \<open>collate\<close> is \<open>localeCompare\<close>.
\<close>

definition POLICER_ATTACHED :: string where "POLICER_ATTACHED = ''loxilb_policer_attached''"

datatype corroboration = Agreed | Conflict | MetricOnly | RestOnly | Unreported

text \<open>Of a policer of the REST list only the name and the optional flag are read.\<close>

record policy =
  po_ident :: string
  po_attached :: "bool option"

record attachment_row =
  at_ident :: string
  at_attached :: "bool option"
  at_corroboration :: corroboration
  at_listedInRest :: "bool option"
  at_metricAttached :: "bool option"
  at_restAttached :: "bool option"

datatype attachment_verdict = UnknownPolicers | NoneConfigured | PendingAttachment | AllAttached | Incomplete

record attachment_reading =
  ad_rows :: "attachment_row list"
  ad_verdict :: attachment_verdict
  ad_familyExported :: bool
  ad_configured :: "nat option"
  ad_pending :: nat
  ad_attached :: nat
  ad_unknown :: nat

datatype attachment_report = AttachmentUnavailable | AttachmentRead attachment_reading

definition add_attachment :: "metric_sample \<Rightarrow> (string \<times> bool) list \<Rightarrow> (string \<times> bool) list" where
  "add_attachment s byIdent =
     (case (map_of (ms_labels s) ''ident'', ms_value s) of
        (Some ident, Fin v) \<Rightarrow> AList.update ident (v \<noteq> 0) byIdent
      | _ \<Rightarrow> byIdent)"

definition metricAttachment :: "metrics_snapshot \<Rightarrow> (string \<times> bool) list" where
  "metricAttachment sn = fold add_attachment (selectSamples sn POLICER_ATTACHED None) []"

fun corroborate :: "bool option \<Rightarrow> bool option \<Rightarrow> bool option \<times> corroboration" where
  "corroborate (Some m) (Some r) = (if m = r then (Some m, Agreed) else (None, Conflict))"
| "corroborate (Some m) None = (Some m, MetricOnly)"
| "corroborate None (Some r) = (Some r, RestOnly)"
| "corroborate None None = (None, Unreported)"

definition attachmentVerdict :: "policy list option \<Rightarrow> attachment_row list \<Rightarrow> attachment_verdict" where
  "attachmentVerdict policies rows =
     (case policies of
        None \<Rightarrow> UnknownPolicers
      | Some ps \<Rightarrow>
          if length ps = 0 then NoneConfigured
          else if list_ex (\<lambda>r. at_attached r = Some False) rows then PendingAttachment
          else if list_ex (\<lambda>r. at_attached r = None) rows then Incomplete
          else AllAttached)"

definition attachment_rank :: "attachment_row \<Rightarrow> int" where
  "attachment_rank r = (if at_attached r = Some False then 0 else if at_attached r = None then 1 else 2)"

definition row_before :: "(string \<Rightarrow> string \<Rightarrow> int) \<Rightarrow> attachment_row \<Rightarrow> attachment_row \<Rightarrow> bool" where
  "row_before collate a b \<longleftrightarrow>
     (if attachment_rank a - attachment_rank b \<noteq> 0 then attachment_rank a - attachment_rank b < 0
      else collate (at_ident a) (at_ident b) \<le> 0)"

definition policies_of :: "policy list option \<Rightarrow> policy list" where
  "policies_of policies = (case policies of None \<Rightarrow> [] | Some ps \<Rightarrow> ps)"

definition rest_by_ident :: "policy list option \<Rightarrow> (string \<times> policy) list" where
  "rest_by_ident policies = fold (\<lambda>p. AList.update (po_ident p) p) (policies_of policies) []"

definition joined_idents :: "policy list option \<Rightarrow> (string \<times> bool) list \<Rightarrow> string list" where
  "joined_idents policies metric =
     fold (\<lambda>x. set_add (fst x)) metric (fold (\<lambda>x. set_add (po_ident x)) (policies_of policies) [])"

definition attachment_row_of :: "policy list option \<Rightarrow> (string \<times> bool) list \<Rightarrow> string \<Rightarrow> attachment_row" where
  "attachment_row_of policies metric ident =
     (let metricAttached = map_of metric ident;
          restAttached = (case map_of (rest_by_ident policies) ident of None \<Rightarrow> None | Some p \<Rightarrow> po_attached p);
          answer = corroborate metricAttached restAttached
      in \<lparr>at_ident = ident, at_attached = fst answer, at_corroboration = snd answer,
          at_listedInRest = map_option (\<lambda>ps. map_of (rest_by_ident policies) ident \<noteq> None) policies,
          at_metricAttached = metricAttached, at_restAttached = restAttached\<rparr>)"

definition policerAttachment :: "(string \<Rightarrow> string \<Rightarrow> int) \<Rightarrow> metrics_snapshot option \<Rightarrow> policy list option \<Rightarrow> attachment_report" where
  "policerAttachment collate snapshot policies =
     (case snapshot of
        None \<Rightarrow> AttachmentUnavailable
      | Some sn \<Rightarrow>
          if sn_failure sn then AttachmentUnavailable
          else (let metric = metricAttachment sn;
                    rows = js_sort (row_before collate) (map (attachment_row_of policies metric) (joined_idents policies metric))
                in AttachmentRead
                     \<lparr>ad_rows = rows, ad_verdict = attachmentVerdict policies rows,
                      ad_familyExported = (map_of (sn_families sn) POLICER_ATTACHED \<noteq> None),
                      ad_configured = map_option length policies,
                      ad_pending = length (filter (\<lambda>r. at_attached r = Some False) rows),
                      ad_attached = length (filter (\<lambda>r. at_attached r = Some True) rows),
                      ad_unknown = length (filter (\<lambda>r. at_attached r = None) rows)\<rparr>))"

subsection \<open>Facts\<close>

lemma ident_of_row [simp]: "at_ident (attachment_row_of policies metric ident) = ident"
  by (simp add: attachment_row_of_def Let_def)

lemma joined_set: "set (joined_idents policies metric) = po_ident ` set (policies_of policies) \<union> fst ` set metric"
  by (simp add: joined_idents_def)

lemma joined_distinct: "distinct (joined_idents policies metric)"
  by (simp add: joined_idents_def distinct_fold_set_add)

lemma states_partition:
  "length (filter (\<lambda>r. at_attached r = Some False) rows) + length (filter (\<lambda>r. at_attached r = Some True) rows)
     + length (filter (\<lambda>r. at_attached r = None) rows) = length rows"
proof (induction rows)
  case (Cons r rows)
  then show ?case
    by (cases "at_attached r"; cases "the (at_attached r)") auto
qed simp

lemma corroborate_sources:
  "fst (corroborate m r) = Some b \<Longrightarrow> m \<in> {None, Some b} \<and> r \<in> {None, Some b} \<and> (m = Some b \<or> r = Some b)"
  by (cases m; cases r) (auto split: if_splits)

text \<open>The table joins the two sources and loses nothing: one row for every name the list or the scrape has,
  the three counts add up to the rows, no row claims a state that one of its sources contradicts, and every
  configured policer is called attached only when one source says so and none denies it.\<close>

theorem attachment_rows_join:
  "case policerAttachment collate (Some sn) policies of
     AttachmentUnavailable \<Rightarrow> sn_failure sn
   | AttachmentRead a \<Rightarrow>
       distinct (map at_ident (ad_rows a)) \<and>
       set (map at_ident (ad_rows a)) = po_ident ` set (policies_of policies) \<union> fst ` set (metricAttachment sn) \<and>
       ad_pending a + ad_attached a + ad_unknown a = length (ad_rows a) \<and>
       list_all (\<lambda>r. case at_attached r of None \<Rightarrow> True | Some b \<Rightarrow>
         at_metricAttached r \<noteq> Some (\<not> b) \<and> at_restAttached r \<noteq> Some (\<not> b) \<and> (at_metricAttached r = Some b \<or> at_restAttached r = Some b)) (ad_rows a) \<and>
       (if ad_verdict a = AllAttached then list_all (\<lambda>r. at_attached r = Some True) (ad_rows a) else True)"
proof (cases "sn_failure sn")
  case True
  then show ?thesis by (simp add: policerAttachment_def)
next
  case False
  define metric where "metric = metricAttachment sn"
  define base where "base = map (attachment_row_of policies metric) (joined_idents policies metric)"
  define rows where "rows = js_sort (row_before collate) base"
  have names: "mset (map at_ident rows) = mset (joined_idents policies metric)"
    unfolding rows_def mset_map mset_js_sort unfolding mset_map [symmetric] by (simp add: base_def comp_def)
  have "distinct (map at_ident rows)"
    using names joined_distinct by (metis mset_eq_imp_distinct_iff)
  moreover have "set (map at_ident rows) = po_ident ` set (policies_of policies) \<union> fst ` set metric"
    using names joined_set by (metis mset_eq_setD)
  moreover have "list_all (\<lambda>r. case at_attached r of None \<Rightarrow> True | Some b \<Rightarrow>
         at_metricAttached r \<noteq> Some (\<not> b) \<and> at_restAttached r \<noteq> Some (\<not> b) \<and> (at_metricAttached r = Some b \<or> at_restAttached r = Some b)) rows"
    unfolding list_all_iff rows_def set_js_sort base_def
    by (auto simp: attachment_row_of_def Let_def split: option.split dest!: corroborate_sources)
  moreover have "if attachmentVerdict policies rows = AllAttached then list_all (\<lambda>r. at_attached r = Some True) rows else True"
    by (auto simp: attachmentVerdict_def list_ex_iff list_all_iff split: option.splits if_splits) (metis (full_types) not_None_eq)
  ultimately show ?thesis
    using False states_partition [of rows]
    by (simp add: policerAttachment_def Let_def metric_def [symmetric] base_def [symmetric] rows_def [symmetric])
qed

text \<open>
  A series of a policer that the list no longer has still counts: with the one configured policer attached
  by both sources, a left-over zero of a deleted one makes the verdict a pending attachment.
\<close>

definition demo_gauge :: "string \<Rightarrow> rat \<Rightarrow> metric_sample" where
  "demo_gauge ident v = \<lparr>ms_name = POLICER_ATTACHED, ms_labels = [(''ident'', ident)], ms_key = [], ms_value = Fin v, ms_timestamp = None\<rparr>"

definition demo_policers :: metrics_snapshot where
  "demo_policers = \<lparr>sn_receivedAtMs = 0, sn_available = True, sn_failure = False, sn_families =
     [(POLICER_ATTACHED, \<lparr>mf_name = POLICER_ATTACHED, mf_type = Gauge, mf_rawType = None, mf_help = None,
        mf_samples = [demo_gauge ''gold'' 1, demo_gauge ''deleted'' 0], mf_seen = []\<rparr>)]\<rparr>"

lemma deleted_policer_pends:
  "case policerAttachment (\<lambda>a b. 0) (Some demo_policers) (Some [\<lparr>po_ident = ''gold'', po_attached = Some True\<rparr>]) of
     AttachmentRead a \<Rightarrow> ad_verdict a = PendingAttachment \<and> ad_configured a = Some 1 \<and> ad_pending a = 1
   | _ \<Rightarrow> False"
  by code_simp

end
