(* ===== verification/QosSignals.thy ===== *)
theory QosSignals
  imports RateFacts
begin

section \<open>Signals of the QoS page: \<open>observability/qosSignals.ts\<close>\<close>

text \<open>
  Admission by priority band, lost log lines and rule pools: rates between the two newest scrapes, with an
  absent family said as absent. \<open>collate\<close> is \<open>localeCompare\<close>; \<open>vs\<close> is the vendored manifest.
\<close>

definition BAND_OUTCOME_FAMILY :: string where "BAND_OUTCOME_FAMILY = ''loxilb_ai_fc_band_total''"
definition LOG_DROPPED_FAMILY :: string where "LOG_DROPPED_FAMILY = ''loxilb_log_lines_dropped_total''"
definition POOLS_LIVE_FAMILY :: string where "POOLS_LIVE_FAMILY = ''loxilb_proxy_pools_live''"
definition POOLS_FREED_FAMILY :: string where "POOLS_FREED_FAMILY = ''loxilb_proxy_pools_freed_total''"
definition BAND_ORDER :: "string list" where "BAND_ORDER = [''critical'', ''standard'', ''sheddable'']"
definition BAND_TERMINAL_OUTCOMES :: "string list" where "BAND_TERMINAL_OUTCOMES = [''admitted'', ''shed'', ''expired'', ''cancelled'']"
definition BAND_PARK_OUTCOME :: string where "BAND_PARK_OUTCOME = ''queued''"
definition LOG_LEVELS :: "string list" where "LOG_LEVELS = [''error'', ''warn'', ''notice'', ''info'', ''debug'', ''trace'']"

datatype 'a signal_report = NoData | AbsentSignal absence | Signal 'a

fun measuredIntervalMs :: "rate list \<Rightarrow> int option" where
  "measuredIntervalMs [] = None"
| "measuredIntervalMs (RateOk r i # rates) = Some i"
| "measuredIntervalMs (_ # rates) = measuredIntervalMs rates"

definition readable :: "metrics_snapshot option \<Rightarrow> bool" where
  "readable snapshot = (case snapshot of None \<Rightarrow> False | Some sn \<Rightarrow> sn_available sn \<and> \<not> sn_failure sn)"

definition group_label :: "group_rate \<Rightarrow> string \<Rightarrow> string" where
  "group_label g k = (case map_of (gr_labels g) k of None \<Rightarrow> [] | Some v \<Rightarrow> v)"

subsection \<open>Admission by band\<close>

record band_row =
  bd_band :: string
  bd_outcomes :: "(string \<times> rate) list"
  bd_parks :: rate

record band_service =
  bv_service :: string
  bv_bands :: "band_row list"

record band_signal =
  bg_services :: "band_service list"
  bg_intervalMs :: "int option"

type_synonym nested_rates = "(string \<times> (string \<times> (string \<times> rate) list) list) list"

definition the_map :: "(string \<times> 'a list) list \<Rightarrow> string \<Rightarrow> 'a list" where
  "the_map m k = (case map_of m k of None \<Rightarrow> [] | Some x \<Rightarrow> x)"

definition put_band :: "group_rate \<Rightarrow> nested_rates \<Rightarrow> nested_rates" where
  "put_band row byService =
     (let service = group_label row ''service''; band = group_label row ''band''; outcome = group_label row ''outcome'';
          bands = the_map byService service
      in AList.update service (AList.update band (AList.update outcome (gr_rate row) (the_map bands band)) bands) byService)"

fun index_from :: "nat \<Rightarrow> string list \<Rightarrow> string \<Rightarrow> nat option" where
  "index_from n [] x = None"
| "index_from n (y # ys) x = (if y = x then Some n else index_from (n + 1) ys x)"

definition bandRank :: "string \<Rightarrow> nat" where
  "bandRank band = (case index_from 0 BAND_ORDER band of None \<Rightarrow> length BAND_ORDER | Some i \<Rightarrow> i)"

definition band_before :: "(string \<Rightarrow> string \<Rightarrow> int) \<Rightarrow> (string \<times> 'a) \<Rightarrow> (string \<times> 'a) \<Rightarrow> bool" where
  "band_before collate a b \<longleftrightarrow>
     (if bandRank (fst a) \<noteq> bandRank (fst b) then bandRank (fst a) < bandRank (fst b) else collate (fst a) (fst b) \<le> 0)"

definition rate_or_missing :: "(string \<times> rate) list \<Rightarrow> string \<Rightarrow> rate" where
  "rate_or_missing outcomes k = (case map_of outcomes k of None \<Rightarrow> InsufficientSamples | Some r \<Rightarrow> r)"

definition band_row_of :: "string \<times> (string \<times> rate) list \<Rightarrow> band_row" where
  "band_row_of b =
     \<lparr>bd_band = fst b, bd_outcomes = map (\<lambda>k. (k, rate_or_missing (snd b) k)) BAND_TERMINAL_OUTCOMES,
      bd_parks = rate_or_missing (snd b) BAND_PARK_OUTCOME\<rparr>"

definition bandOutcomes :: "vendored_family list \<Rightarrow> (string \<Rightarrow> string \<Rightarrow> int) \<Rightarrow> metrics_snapshot list \<Rightarrow> int \<Rightarrow> band_signal signal_report" where
  "bandOutcomes vs collate history maxGapMs =
     (if \<not> readable (newest history) then NoData
      else (case familyAbsence vs (newest history) BAND_OUTCOME_FAMILY of
              Some reading \<Rightarrow> AbsentSignal reading
            | None \<Rightarrow>
                (let rates = groupRates history BAND_OUTCOME_FAMILY [''service'', ''band'', ''outcome''] maxGapMs AnyLabels;
                     services = js_sort (\<lambda>a b. collate (fst a) (fst b) \<le> 0) (fold put_band rates [])
                 in Signal
                      \<lparr>bg_services = map (\<lambda>(service, bands). \<lparr>bv_service = service, bv_bands = map band_row_of (js_sort (band_before collate) bands)\<rparr>) services,
                       bg_intervalMs = measuredIntervalMs (map gr_rate rates)\<rparr>)))"

subsection \<open>Lost log lines\<close>

record log_level =
  ll_level :: string
  ll_total :: "rat option"
  ll_rate :: rate

record log_signal =
  lg_levels :: "log_level list"
  lg_dropping :: bool
  lg_everDropped :: bool
  lg_intervalMs :: "int option"

definition by_level :: "group_rate list \<Rightarrow> (string \<times> group_rate) list" where
  "by_level rates = fold (\<lambda>row. AList.update (group_label row ''level'') row) rates []"

definition level_row :: "(string \<times> group_rate) list \<Rightarrow> string \<Rightarrow> log_level" where
  "level_row byLevel level =
     (let row = the (map_of byLevel level) in \<lparr>ll_level = level, ll_total = gr_current row, ll_rate = gr_rate row\<rparr>)"

definition rate_positive :: "rate \<Rightarrow> bool" where
  "rate_positive r = (case r of RateOk v i \<Rightarrow> v > 0 | _ \<Rightarrow> False)"

definition ordered_levels :: "(string \<times> group_rate) list \<Rightarrow> string list" where
  "ordered_levels byLevel =
     filter (\<lambda>l. map_of byLevel l \<noteq> None) LOG_LEVELS @ sort (filter (\<lambda>l. l \<notin> set LOG_LEVELS) (map fst byLevel))"

definition logLoss :: "vendored_family list \<Rightarrow> metrics_snapshot list \<Rightarrow> int \<Rightarrow> log_signal signal_report" where
  "logLoss vs history maxGapMs =
     (if \<not> readable (newest history) then NoData
      else (case familyAbsence vs (newest history) LOG_DROPPED_FAMILY of
              Some reading \<Rightarrow> AbsentSignal reading
            | None \<Rightarrow>
                (let byLevel = by_level (groupRates history LOG_DROPPED_FAMILY [''level''] maxGapMs AnyLabels);
                     levels = map (level_row byLevel) (ordered_levels byLevel)
                 in Signal
                      \<lparr>lg_levels = levels,
                       lg_dropping = list_ex (\<lambda>l. rate_positive (ll_rate l)) levels,
                       lg_everDropped = list_ex (\<lambda>l. value_or_zero (ll_total l) > 0) levels,
                       lg_intervalMs = measuredIntervalMs (map ll_rate levels)\<rparr>)))"

subsection \<open>Rule pools\<close>

record pool_signal =
  ps_live :: "rat option"
  ps_livePrevious :: "rat option"
  ps_freedTotal :: "rat option"
  ps_freedRate :: rate
  ps_freedAbsent :: "absence option"

definition live_previous :: "metrics_snapshot list \<Rightarrow> rat option" where
  "live_previous history =
     (case before_newest history of
        None \<Rightarrow> None
      | Some previous \<Rightarrow>
          if readable (Some previous) \<and> map_of (sn_families previous) POOLS_LIVE_FAMILY \<noteq> None
          then ag_value (aggregateSum (selectSamples previous POOLS_LIVE_FAMILY None)) else None)"

definition proxyPools :: "vendored_family list \<Rightarrow> metrics_snapshot list \<Rightarrow> int \<Rightarrow> pool_signal signal_report" where
  "proxyPools vs history maxGapMs =
     (case newest history of
        None \<Rightarrow> NoData
      | Some current \<Rightarrow>
          if \<not> readable (Some current) then NoData
          else (case familyAbsence vs (Some current) POOLS_LIVE_FAMILY of
                  Some reading \<Rightarrow> AbsentSignal reading
                | None \<Rightarrow>
                    (let freedAbsent = familyAbsence vs (Some current) POOLS_FREED_FAMILY;
                         groups = groupRates history POOLS_FREED_FAMILY [] maxGapMs AnyLabels;
                         freed = (if freedAbsent \<noteq> None \<or> groups = [] then None else Some (hd groups))
                     in Signal
                          \<lparr>ps_live = ag_value (aggregateSum (selectSamples current POOLS_LIVE_FAMILY None)),
                           ps_livePrevious = live_previous history,
                           ps_freedTotal = (case freed of None \<Rightarrow> None | Some g \<Rightarrow> gr_current g),
                           ps_freedRate = (case freedAbsent of
                               Some reading \<Rightarrow> AbsentRate reading
                             | None \<Rightarrow> (case freed of None \<Rightarrow> InsufficientSamples | Some g \<Rightarrow> gr_rate g)),
                           ps_freedAbsent = freedAbsent\<rparr>)))"

subsection \<open>Facts\<close>

text \<open>Grouped by one label, a group is the value of that label: no two groups share it.\<close>

lemma one_label:
  "(case map_of (group_labels ls [k]) k of None \<Rightarrow> [] | Some v \<Rightarrow> v) = (case map_of ls k of None \<Rightarrow> [] | Some v \<Rightarrow> v)"
  by (auto simp: group_labels_def split: option.split)

lemma one_label_groups:
  "list_all (\<lambda>(key, ls, ss). key = k @ ''='' @ (case map_of ls k of None \<Rightarrow> [] | Some v \<Rightarrow> v)) gs \<Longrightarrow>
   list_all (\<lambda>(key, ls, ss). key = k @ ''='' @ (case map_of ls k of None \<Rightarrow> [] | Some v \<Rightarrow> v)) (fold (add_to_group [k] w) sts gs)"
proof (induction sts arbitrary: gs)
  case (Cons s sts)
  have keep: "list_all P gs \<Longrightarrow> P (a, b) \<Longrightarrow> list_all P (AList.update a b gs)" for P and a :: string and b :: "labels \<times> metric_sample list"
    by (induction gs) auto
  have "list_all (\<lambda>(key, ls, ss). key = k @ ''='' @ (case map_of ls k of None \<Rightarrow> [] | Some v \<Rightarrow> v)) (add_to_group [k] w s gs)"
  proof (cases "matchesLabels (ms_labels s) w")
    case True
    define key where "key = groupKeyOf (ms_labels s) [k]"
    have key: "key = k @ ''='' @ (case map_of (ms_labels s) k of None \<Rightarrow> [] | Some v \<Rightarrow> v)"
      by (simp add: key_def groupKeyOf_def)
    show ?thesis
    proof (cases "map_of gs key")
      case None
      then have "add_to_group [k] w s gs = AList.update key (group_labels (ms_labels s) [k], [s]) gs"
        using True by (simp add: add_to_group_def Let_def key_def)
      then show ?thesis
        using Cons.prems keep key by (simp add: one_label)
    next
      case (Some g)
      obtain ls ss where g: "g = (ls, ss)" by (cases g)
      then have "add_to_group [k] w s gs = AList.update key (ls, ss @ [s]) gs"
        using True Some by (simp add: add_to_group_def Let_def key_def)
      moreover have "key = k @ ''='' @ (case map_of ls k of None \<Rightarrow> [] | Some v \<Rightarrow> v)"
        using Some g Cons.prems by (auto simp: list_all_iff dest!: map_of_SomeD)
      ultimately show ?thesis
        using Cons.prems by (simp only:) (intro keep, simp_all)
    qed
  qed (use Cons.prems in \<open>simp add: add_to_group_def\<close>)
  then show ?case
    using Cons.IH by simp
qed simp

lemma group_keys_distinct: "distinct (map fst gs) \<Longrightarrow> distinct (map fst (fold (add_to_group b w) ss gs))"
  using group_step(1) by (induction ss arbitrary: gs) auto

lemma group_labels_distinct: "distinct (map (\<lambda>g. group_label g k) (groupRates history family [k] maxGapMs w))"
proof (cases "newest history")
  case (Some current)
  let ?gs = "fold (add_to_group [k] w) (selectSamples current family None) []"
  have keys: "list_all (\<lambda>(key, ls, ss). key = k @ ''='' @ (case map_of ls k of None \<Rightarrow> [] | Some v \<Rightarrow> v)) ?gs"
    by (rule one_label_groups) simp
  have "map (\<lambda>g. k @ ''='' @ group_label g k) (groupRates history family [k] maxGapMs w) = map fst ?gs"
    using Some keys by (auto simp: groupRates_def groupSums_def group_label_def list_all_iff comp_def case_prod_unfold)
  moreover have "distinct (map fst ?gs)"
    by (rule group_keys_distinct) simp
  ultimately have "distinct (map (\<lambda>l. k @ ''='' @ l) (map (\<lambda>g. group_label g k) (groupRates history family [k] maxGapMs w)))"
    by (simp add: comp_def)
  then show ?thesis
    by (simp only: distinct_map)
qed (simp add: groupRates_def)

lemma by_level_keys:
  "distinct (map (\<lambda>g. group_label g ''level'') rates) \<Longrightarrow> by_level rates = map (\<lambda>g. (group_label g ''level'', g)) rates"
proof (induction rates rule: rev_induct)
  case (snoc g rates)
  have new: "AList.update k v m = m @ [(k, v)]" if "k \<notin> fst ` set m" for k :: string and v :: group_rate and m
    using that by (induction m) auto
  have "by_level (rates @ [g]) = AList.update (group_label g ''level'') g (map (\<lambda>g. (group_label g ''level'', g)) rates)"
    using snoc by (simp add: by_level_def)
  also have "\<dots> = map (\<lambda>g. (group_label g ''level'', g)) rates @ [(group_label g ''level'', g)]"
    using snoc.prems by (intro new) auto
  finally show ?case by simp
qed (simp add: by_level_def)

lemma ordered_mset:
  assumes "distinct (map fst byLevel)"
  shows "mset (ordered_levels byLevel) = mset (map fst byLevel)"
proof -
  let ?ks = "map fst byLevel"
  have "distinct LOG_LEVELS"
    by code_simp
  moreover have "set (filter (\<lambda>l. map_of byLevel l \<noteq> None) LOG_LEVELS) = set (filter (\<lambda>l. l \<in> set LOG_LEVELS) ?ks)"
    using map_of_eq_None_iff [of byLevel] by auto
  ultimately have "mset (filter (\<lambda>l. map_of byLevel l \<noteq> None) LOG_LEVELS) = mset (filter (\<lambda>l. l \<in> set LOG_LEVELS) ?ks)"
    using assms by (metis distinct_filter set_eq_iff_mset_eq_distinct)
  then show ?thesis
    using multiset_partition [of "mset ?ks" "\<lambda>l. l \<in> set LOG_LEVELS"] by (simp add: ordered_levels_def)
qed

text \<open>No lost line is hidden by the order of the levels: the rows are the groups of the family, each once and
  under its level, so lines are called dropping exactly when the rate of some group is positive.\<close>

theorem log_levels_told:
  "case logLoss vs history maxGapMs of
     Signal s \<Rightarrow>
       (let groups = groupRates history LOG_DROPPED_FAMILY [''level''] maxGapMs AnyLabels
        in mset (map (\<lambda>l. (ll_level l, ll_total l, ll_rate l)) (lg_levels s)) =
             mset (map (\<lambda>g. (group_label g ''level'', gr_current g, gr_rate g)) groups) \<and>
           (lg_dropping s \<longleftrightarrow> list_ex (\<lambda>g. rate_positive (gr_rate g)) groups))
   | _ \<Rightarrow> \<not> readable (newest history) \<or> familyAbsence vs (newest history) LOG_DROPPED_FAMILY \<noteq> None"
proof -
  define groups where "groups = groupRates history LOG_DROPPED_FAMILY [''level''] maxGapMs AnyLabels"
  define keyed where "keyed = by_level groups"
  have keyed: "keyed = map (\<lambda>g. (group_label g ''level'', g)) groups" and dist: "distinct (map fst keyed)"
    using by_level_keys [OF group_labels_distinct] group_labels_distinct by (auto simp: keyed_def groups_def comp_def)
  define levels where "levels = map (level_row keyed) (ordered_levels keyed)"
  have row: "(\<lambda>l. (ll_level l, ll_total l, ll_rate l)) (level_row keyed (fst kg)) = (fst kg, gr_current (snd kg), gr_rate (snd kg))" if "kg \<in> set keyed" for kg
    using map_of_is_SomeI [OF dist, of "fst kg" "snd kg"] that by (simp add: level_row_def Let_def)
  have "mset (map (\<lambda>l. (ll_level l, ll_total l, ll_rate l)) levels) = image_mset (\<lambda>k. (\<lambda>l. (ll_level l, ll_total l, ll_rate l)) (level_row keyed k)) (mset (map fst keyed))"
    unfolding levels_def mset_map [of _ "map _ _"] mset_map [of _ "ordered_levels _"] ordered_mset [OF dist]
    by (simp add: image_mset.compositionality comp_def)
  also have "\<dots> = mset (map (\<lambda>kg. (\<lambda>l. (ll_level l, ll_total l, ll_rate l)) (level_row keyed (fst kg))) keyed)"
    by (simp add: image_mset.compositionality comp_def)
  also have "\<dots> = mset (map (\<lambda>kg. (fst kg, gr_current (snd kg), gr_rate (snd kg))) keyed)"
    using row by (intro arg_cong [of _ _ mset] map_cong) auto
  finally have told: "mset (map (\<lambda>l. (ll_level l, ll_total l, ll_rate l)) levels) = mset (map (\<lambda>g. (group_label g ''level'', gr_current g, gr_rate g)) groups)"
    by (simp add: keyed comp_def)
  then have "set (map (\<lambda>l. (ll_level l, ll_total l, ll_rate l)) levels) = set (map (\<lambda>g. (group_label g ''level'', gr_current g, gr_rate g)) groups)"
    by (rule mset_eq_setD)
  then have "(\<lambda>x. snd (snd x)) ` (\<lambda>l. (ll_level l, ll_total l, ll_rate l)) ` set levels = (\<lambda>x. snd (snd x)) ` (\<lambda>g. (group_label g ''level'', gr_current g, gr_rate g)) ` set groups"
    by simp
  then have "ll_rate ` set levels = gr_rate ` set groups"
    by (simp add: image_image)
  then have "list_ex (\<lambda>l. rate_positive (ll_rate l)) levels \<longleftrightarrow> list_ex (\<lambda>g. rate_positive (gr_rate g)) groups"
    unfolding list_ex_iff by (metis (no_types) imageE imageI)
  then show ?thesis
    using told by (auto simp: logLoss_def Let_def groups_def [symmetric] keyed_def [symmetric] levels_def [symmetric] split: option.split)
qed

end
