(* ===== verification/Health.thy ===== *)
theory Health
  imports RateFacts
begin

section \<open>Boot, readiness, key-value caches: \<open>bootVerdict.ts\<close>, \<open>gatewayReadiness.ts\<close>, \<open>kvHealth.ts\<close>, \<open>reportedAt.ts\<close>\<close>

text \<open>
  The one-line verdicts of \<open>src/observability\<close> on a gateway process: how it booted its configuration,
  whether it is ready, how many rules are attested and which subscribers are fresh, and what a reported
  instant means. \<open>collate\<close> and \<open>collate_numeric\<close> are \<open>localeCompare\<close> without and with its numeric option.
\<close>

subsection \<open>Boot\<close>

record boot_status =
  bs_degraded :: "bool option"
  bs_legacy_fallback :: "bool option"
  bs_profile :: "string option"
  bs_quarantine_path :: "string option"
  bs_snapshot_found :: "bool option"
  bs_succeeded :: "bool option"

datatype boot_verdict = BootDegraded bool "string option" | BootConflict | BootRestored "string option" | BootNotRestored "string option" | BootUnknown

text \<open>\<open>s || undefined\<close>\<close>

fun nonempty_text :: "string option \<Rightarrow> string option" where
  "nonempty_text (Some s) = (if s = [] then None else Some s)"
| "nonempty_text None = None"

definition bootVerdict :: "boot_status option \<Rightarrow> jsnum option \<Rightarrow> boot_verdict" where
  "bootVerdict boot conflicts =
     (let conflict = (case conflicts of None \<Rightarrow> False | Some c \<Rightarrow> num_lt (Fin 0) c)
      in case boot of
           Some b \<Rightarrow>
             if bs_degraded b = Some True then BootDegraded (bs_legacy_fallback b = Some True) (nonempty_text (bs_quarantine_path b))
             else if conflict then BootConflict
             else if bs_snapshot_found b = Some True \<and> bs_succeeded b = Some True then BootRestored (nonempty_text (bs_profile b))
             else BootNotRestored (nonempty_text (bs_profile b))
         | None \<Rightarrow> if conflict then BootConflict else BootUnknown)"

subsection \<open>Readiness\<close>

text \<open>The reasons come from the answer as they are: the code checks that they are a list, and of texts.\<close>

record readiness_fields =
  rf_ready :: "bool option"
  rf_ready_reasons :: jsv
  rf_maintenance_state :: "string option"

record gateway_readiness =
  gy_notReady :: "(jsv list \<times> nat) option"
  gy_maintenance :: bool

definition MAX_READY_REASONS :: nat where "MAX_READY_REASONS = 3"

fun worded :: "jsv \<Rightarrow> bool" where
  "worded (JStr s) = (js_trim s \<noteq> [])"
| "worded _ = False"

definition gatewayReadiness :: "readiness_fields option \<Rightarrow> gateway_readiness" where
  "gatewayReadiness diag =
     (case diag of
        None \<Rightarrow> \<lparr>gy_notReady = None, gy_maintenance = False\<rparr>
      | Some d \<Rightarrow>
          \<lparr>gy_notReady =
             (if rf_ready d = Some False
              then (let reasons = filter worded (case rf_ready_reasons d of JArr rs \<Rightarrow> rs | _ \<Rightarrow> [])
                    in Some (take MAX_READY_REASONS reasons, length reasons - MAX_READY_REASONS))
              else None),
           gy_maintenance = (rf_maintenance_state d = Some ''maintenance'')\<rparr>)"

definition isQuiet :: "gateway_readiness \<Rightarrow> bool" where
  "isQuiet readiness \<longleftrightarrow> gy_notReady readiness = None \<and> \<not> gy_maintenance readiness"

subsection \<open>Attestation\<close>

definition KV_ATTEST_STATE :: string where "KV_ATTEST_STATE = ''loxilb_ai_kv_attest_state''"
definition KV_ENFORCEMENT_FAULT :: string where "KV_ENFORCEMENT_FAULT = ''loxilb_ai_kv_enforcement_fault''"
definition KV_ATTEST_PROBE_FAIL :: string where "KV_ATTEST_PROBE_FAIL = ''loxilb_ai_kv_attest_probe_fail_total''"
definition KV_SUBSCRIBER_LAST_EVENT :: string where "KV_SUBSCRIBER_LAST_EVENT = ''loxilb_kv_subscriber_last_event_timestamp_seconds''"
definition KV_INVENTORY_FRESH :: string where "KV_INVENTORY_FRESH = ''loxilb_kv_inventory_fresh''"

datatype attestation_report = KvUnavailable | KvNotRunning | KvAttested nat "nat option" "rat option"

definition kvAttestation :: "metrics_snapshot option \<Rightarrow> attestation_report" where
  "kvAttestation snapshot =
     (case snapshot of
        None \<Rightarrow> KvUnavailable
      | Some sn \<Rightarrow>
          if sn_failure sn then KvUnavailable
          else if map_of (sn_families sn) KV_ATTEST_STATE = None then KvNotRunning
          else (let rules = fold (\<lambda>s. set_add (label_or_empty s ''rule''))
                              (filter (\<lambda>s. num_lt (Fin 0) (ms_value s)) (selectSamples sn KV_ATTEST_STATE None)) [];
                    faulted = (if map_of (sn_families sn) KV_ENFORCEMENT_FAULT = None then None
                               else Some (length (filter (\<lambda>s. num_lt (Fin 0) (ms_value s)) (selectSamples sn KV_ENFORCEMENT_FAULT None))))
                in KvAttested (length rules) faulted (ag_value (aggregateSum (selectSamples sn KV_ATTEST_PROBE_FAIL None)))))"

subsection \<open>Subscribers\<close>

record subscriber =
  sb_service :: string
  sb_epIdx :: string
  sb_lastEventSec :: "jsnum option"
  sb_fresh :: "jsnum option"

datatype subscriber_report = SubscribersUnavailable | NoSubscribers | Subscribers nat nat "subscriber list"

text \<open>
  The rows by service and endpoint; the code's key is the JSON text of the pair, which determines it
  (\<open>subscriber_key\<close>).
\<close>

definition subscriber_key :: "string \<Rightarrow> string \<Rightarrow> string" where
  "subscriber_key service epIdx = json_stringify (JArr [JStr service, JStr epIdx])"

definition set_row :: "(subscriber \<Rightarrow> subscriber) \<Rightarrow> labels \<Rightarrow> (string \<times> subscriber) list \<Rightarrow> (string \<times> subscriber) list" where
  "set_row upd ls rows =
     (let service = (case map_of ls ''service'' of None \<Rightarrow> [] | Some v \<Rightarrow> v);
          epIdx = (case map_of ls ''ep'' of None \<Rightarrow> [] | Some v \<Rightarrow> v);
          key = subscriber_key service epIdx
      in AList.update key
           (upd (case map_of rows key of
                   None \<Rightarrow> \<lparr>sb_service = service, sb_epIdx = epIdx, sb_lastEventSec = None, sb_fresh = None\<rparr>
                 | Some r \<Rightarrow> r)) rows)"

definition subscriber_rows :: "metrics_snapshot \<Rightarrow> (string \<times> subscriber) list" where
  "subscriber_rows sn =
     fold (\<lambda>s. set_row (\<lambda>r. r\<lparr>sb_fresh := Some (ms_value s)\<rparr>) (ms_labels s)) (selectSamples sn KV_INVENTORY_FRESH None)
       (fold (\<lambda>s. set_row (\<lambda>r. r\<lparr>sb_lastEventSec := Some (ms_value s)\<rparr>) (ms_labels s)) (selectSamples sn KV_SUBSCRIBER_LAST_EVENT None) [])"

definition subscriber_before :: "(string \<Rightarrow> string \<Rightarrow> int) \<Rightarrow> (string \<Rightarrow> string \<Rightarrow> int) \<Rightarrow> subscriber \<Rightarrow> subscriber \<Rightarrow> bool" where
  "subscriber_before collate collate_numeric a b \<longleftrightarrow>
     (if collate (sb_service a) (sb_service b) \<noteq> 0 then collate (sb_service a) (sb_service b) < 0
      else collate_numeric (sb_epIdx a) (sb_epIdx b) \<le> 0)"

definition kvSubscribers :: "(string \<Rightarrow> string \<Rightarrow> int) \<Rightarrow> (string \<Rightarrow> string \<Rightarrow> int) \<Rightarrow> metrics_snapshot option \<Rightarrow> subscriber_report" where
  "kvSubscribers collate collate_numeric snapshot =
     (case snapshot of
        None \<Rightarrow> SubscribersUnavailable
      | Some sn \<Rightarrow>
          if sn_failure sn then SubscribersUnavailable
          else (let rows = subscriber_rows sn
                in if length rows = 0 then NoSubscribers
                   else (let everyone = js_sort (subscriber_before collate collate_numeric) (map snd rows);
                             notFresh = filter (\<lambda>r. sb_fresh r \<noteq> Some (Fin 1)) everyone
                         in Subscribers (length everyone) (length everyone - length notFresh) notFresh)))"

subsection \<open>Reported instants\<close>

text \<open>\<open>date_parse\<close> is \<open>Date.parse\<close>; its result is NaN for a text that is no date.\<close>

datatype reported_at = NotKnown | NeverReported | ReportedAt rat

fun fromMs :: "jsnum \<Rightarrow> reported_at" where
  "fromMs (Fin ms) = (if ms \<le> 0 then NeverReported else ReportedAt ms)"
| "fromMs _ = NotKnown"

definition reportedAtFromIso :: "(string \<Rightarrow> jsnum) \<Rightarrow> string option \<Rightarrow> reported_at" where
  "reportedAtFromIso date_parse given = (case given of None \<Rightarrow> NotKnown | Some s \<Rightarrow> if s = [] then NotKnown else fromMs (date_parse s))"

fun times_1000 :: "jsnum \<Rightarrow> jsnum" where
  "times_1000 (Fin r) = Fin (r * 1000)"
| "times_1000 n = n"

definition reportedAtFromSeconds :: "jsnum option \<Rightarrow> reported_at" where
  "reportedAtFromSeconds seconds = (case seconds of None \<Rightarrow> NotKnown | Some s \<Rightarrow> fromMs (times_1000 s))"

subsection \<open>Facts\<close>

lemma length_set_add_fold:
  "length (fold (\<lambda>x. set_add (f x)) ys []) = card (f ` set ys)"
  using distinct_card [OF distinct_fold_set_add [OF distinct.simps(1) [THEN iffD2, OF TrueI], of f ys]] by simp

text \<open>The pair of a label set, with missing labels as empty texts.\<close>

definition pair_of :: "labels \<Rightarrow> string \<times> string" where
  "pair_of ls = ((case map_of ls ''service'' of None \<Rightarrow> [] | Some v \<Rightarrow> v), (case map_of ls ''ep'' of None \<Rightarrow> [] | Some v \<Rightarrow> v))"

lemma subscriber_key_inj [simp]: "subscriber_key a x = subscriber_key b y \<longleftrightarrow> a = b \<and> x = y"
proof
  assume "subscriber_key a x = subscriber_key b y"
  then have "JArr [JStr a, JStr x] = JArr [JStr b, JStr y]"
    unfolding subscriber_key_def by (rule json_stringify_inj [rotated 2]) simp_all
  then show "a = b \<and> x = y" by simp
qed simp

definition rows_ok :: "(string \<times> subscriber) list \<Rightarrow> bool" where
  "rows_ok rows \<longleftrightarrow> distinct (map fst rows) \<and> list_all (\<lambda>(k, r). k = subscriber_key (sb_service r) (sb_epIdx r)) rows"

definition row_pairs :: "(string \<times> subscriber) list \<Rightarrow> (string \<times> string) set" where
  "row_pairs rows = (\<lambda>(k, r). (sb_service r, sb_epIdx r)) ` set rows"

lemma keys_of_rows: "rows_ok rows \<Longrightarrow> set (map fst rows) = (\<lambda>(a, b). subscriber_key a b) ` row_pairs rows"
  by (auto simp: rows_ok_def row_pairs_def list_all_iff image_image case_prod_unfold intro!: image_cong)

lemma update_all: "list_all P rows \<Longrightarrow> P (k, r) \<Longrightarrow> list_all P (AList.update k r rows)"
  by (induction rows) auto

lemma set_row_facts:
  assumes ok: "rows_ok rows" and upd: "\<And>r. sb_service (upd r) = sb_service r \<and> sb_epIdx (upd r) = sb_epIdx r"
  shows "rows_ok (set_row upd ls rows)" "row_pairs (set_row upd ls rows) = insert (pair_of ls) (row_pairs rows)"
proof -
  define service where "service = fst (pair_of ls)"
  define epIdx where "epIdx = snd (pair_of ls)"
  define old where "old = (case map_of rows (subscriber_key service epIdx) of
      None \<Rightarrow> \<lparr>sb_service = service, sb_epIdx = epIdx, sb_lastEventSec = None, sb_fresh = None\<rparr> | Some r \<Rightarrow> r)"
  have set_row: "set_row upd ls rows = AList.update (subscriber_key service epIdx) (upd old) rows"
    unfolding old_def service_def epIdx_def set_row_def Let_def pair_of_def fst_conv snd_conv by (rule refl)
  have old: "sb_service old = service \<and> sb_epIdx old = epIdx"
    using ok by (auto simp: old_def rows_ok_def list_all_iff split: option.split dest!: map_of_SomeD)
  show good: "rows_ok (set_row upd ls rows)"
    unfolding set_row rows_ok_def using ok old upd by (auto simp: rows_ok_def distinct_update intro!: update_all)
  have "set (map fst (set_row upd ls rows)) = insert (subscriber_key service epIdx) (set (map fst rows))"
    by (auto simp: set_row update_keys)
  then have keys: "(\<lambda>(a, b). subscriber_key a b) ` row_pairs (set_row upd ls rows) = (\<lambda>(a, b). subscriber_key a b) ` insert (service, epIdx) (row_pairs rows)"
    using keys_of_rows [OF ok] keys_of_rows [OF good] by simp
  have "inj (\<lambda>(a, b). subscriber_key a b)"
    by (auto simp: inj_def)
  then have "row_pairs (set_row upd ls rows) = insert (service, epIdx) (row_pairs rows)"
    using keys by (simp only: inj_image_eq_iff)
  then show "row_pairs (set_row upd ls rows) = insert (pair_of ls) (row_pairs rows)"
    by (simp add: service_def epIdx_def)
qed

lemma fold_set_row:
  assumes "rows_ok rows" "\<And>s r. sb_service (upd s r) = sb_service r \<and> sb_epIdx (upd s r) = sb_epIdx r"
  shows "rows_ok (fold (\<lambda>s. set_row (upd s) (ms_labels s)) ss rows) \<and>
    row_pairs (fold (\<lambda>s. set_row (upd s) (ms_labels s)) ss rows) = (\<lambda>s. pair_of (ms_labels s)) ` set ss \<union> row_pairs rows"
  using assms(1)
proof (induction ss arbitrary: rows)
  case (Cons s ss)
  show ?case
    using Cons.IH [OF set_row_facts(1) [OF Cons.prems assms(2)]] set_row_facts(2) [OF Cons.prems assms(2)] by auto
qed simp

text \<open>The subscribers are the pairs of service and endpoint that either family names, each counted once, and
  one is counted fresh only on a flag of exactly one: the others are the list of those not proven fresh.\<close>

theorem subscribers_counted:
  "case kvSubscribers collate collate_numeric (Some sn) of
     SubscribersUnavailable \<Rightarrow> sn_failure sn
   | NoSubscribers \<Rightarrow> selectSamples sn KV_INVENTORY_FRESH None = [] \<and> selectSamples sn KV_SUBSCRIBER_LAST_EVENT None = []
   | Subscribers n fresh notFresh \<Rightarrow>
       n = card ((\<lambda>s. pair_of (ms_labels s)) ` (set (selectSamples sn KV_INVENTORY_FRESH None) \<union> set (selectSamples sn KV_SUBSCRIBER_LAST_EVENT None))) \<and>
       fresh + length notFresh = n \<and> fresh = length (filter (\<lambda>kr. sb_fresh (snd kr) = Some (Fin 1)) (subscriber_rows sn))"
proof (cases "sn_failure sn")
  case True
  then show ?thesis by (simp add: kvSubscribers_def)
next
  case False
  define rows where "rows = subscriber_rows sn"
  define everyone where "everyone = js_sort (subscriber_before collate collate_numeric) (map snd rows)"
  let ?first = "fold (\<lambda>s. set_row (\<lambda>r. r\<lparr>sb_lastEventSec := Some (ms_value s)\<rparr>) (ms_labels s)) (selectSamples sn KV_SUBSCRIBER_LAST_EVENT None) []"
  have start: "rows_ok ?first \<and> row_pairs ?first = (\<lambda>s. pair_of (ms_labels s)) ` set (selectSamples sn KV_SUBSCRIBER_LAST_EVENT None) \<union> row_pairs []"
    by (rule fold_set_row) (simp_all add: rows_ok_def)
  then have "rows_ok rows \<and> row_pairs rows = (\<lambda>s. pair_of (ms_labels s)) ` set (selectSamples sn KV_INVENTORY_FRESH None) \<union> row_pairs ?first"
    unfolding rows_def subscriber_rows_def by (intro fold_set_row) simp_all
  with start have rows: "rows_ok rows" "row_pairs rows = (\<lambda>s. pair_of (ms_labels s)) ` (set (selectSamples sn KV_INVENTORY_FRESH None) \<union> set (selectSamples sn KV_SUBSCRIBER_LAST_EVENT None))"
    by (auto simp: row_pairs_def)
  have "length rows = card (set (map fst rows))"
    using rows(1) by (metis distinct_card length_map rows_ok_def)
  also have "\<dots> = card (row_pairs rows)"
    unfolding keys_of_rows [OF rows(1)] by (intro card_image) (auto simp: inj_on_def)
  finally have count: "length rows = card (row_pairs rows)" .
  have split: "length (filter (\<lambda>r. sb_fresh r \<noteq> Some (Fin 1)) everyone) + length (filter (\<lambda>r. sb_fresh r = Some (Fin 1)) everyone) = length rows"
    using sum_length_filter_compl [of "\<lambda>r. sb_fresh r \<noteq> Some (Fin 1)" everyone] by (simp add: everyone_def)
  have "mset (filter (\<lambda>r. sb_fresh r = Some (Fin 1)) everyone) = mset (filter (\<lambda>r. sb_fresh r = Some (Fin 1)) (map snd rows))"
    by (simp add: everyone_def)
  then have "length (filter (\<lambda>r. sb_fresh r = Some (Fin 1)) everyone) = length (filter (\<lambda>r. sb_fresh r = Some (Fin 1)) (map snd rows))"
    by (rule mset_eq_length)
  then have fresh: "length (filter (\<lambda>r. sb_fresh r = Some (Fin 1)) everyone) = length (filter (\<lambda>kr. sb_fresh (snd kr) = Some (Fin 1)) rows)"
    by (simp add: filter_map comp_def)
  have none: "length rows = 0 \<Longrightarrow> selectSamples sn KV_INVENTORY_FRESH None = [] \<and> selectSamples sn KV_SUBSCRIBER_LAST_EVENT None = []"
    using rows(2) by (simp add: row_pairs_def)
  have len: "length everyone = length rows"
    by (simp add: everyone_def)
  show ?thesis
  proof (cases "length rows = 0")
    case True
    then have "kvSubscribers collate collate_numeric (Some sn) = NoSubscribers"
      using False by (simp add: kvSubscribers_def Let_def rows_def)
    then show ?thesis using none [OF True] by simp
  next
    case some: False
    then have "kvSubscribers collate collate_numeric (Some sn) = Subscribers (length everyone)
        (length everyone - length (filter (\<lambda>r. sb_fresh r \<noteq> Some (Fin 1)) everyone)) (filter (\<lambda>r. sb_fresh r \<noteq> Some (Fin 1)) everyone)"
      using False by (simp add: kvSubscribers_def Let_def rows_def everyone_def)
    moreover have "length everyone - length (filter (\<lambda>r. sb_fresh r \<noteq> Some (Fin 1)) everyone) = length (filter (\<lambda>kr. sb_fresh (snd kr) = Some (Fin 1)) rows)"
      using split fresh len by linarith
    ultimately show ?thesis
      using split fresh len count unfolding rows(2) rows_def [symmetric] by simp
  qed
qed

text \<open>An absent instant is never read as a time: a reported instant is a positive finite one.\<close>

lemma reported_iff: "reportedAtFromSeconds v = ReportedAt ms \<longleftrightarrow> (\<exists>r. v = Some (Fin r) \<and> 0 < r \<and> ms = r * 1000)"
proof (cases v)
  case (Some n)
  then show ?thesis by (cases n) (auto simp: reportedAtFromSeconds_def)
qed (simp add: reportedAtFromSeconds_def)

text \<open>A degraded boot is told whatever the conflict counter says, and a restore is claimed only of a snapshot
  that was found and applied.\<close>

lemma restored_iff:
  "bootVerdict (Some b) conflicts = BootRestored p \<longleftrightarrow>
     bs_degraded b \<noteq> Some True \<and> bs_snapshot_found b = Some True \<and> bs_succeeded b = Some True \<and> p = nonempty_text (bs_profile b) \<and>
     (case conflicts of None \<Rightarrow> True | Some c \<Rightarrow> \<not> num_lt (Fin 0) c)"
  by (auto simp: bootVerdict_def Let_def split: option.splits)

end
