(* ===== verification/AiTraffic.thy ===== *)
theory AiTraffic
  imports RateFacts
begin

section \<open>Inference traffic: \<open>observability/aiRequests.ts\<close> and \<open>observability/aiAdmission.ts\<close>\<close>

text \<open>
  What the traffic page derives from the request counter (offered load, answers, refusals and the error
  ratio, on gateways with and without the outcome label), and the reading of the admission gate: pools,
  saturation and refusals. The vendored manifest is the argument \<open>vs\<close>.
\<close>

subsection \<open>Requests by outcome\<close>

definition AI_REQUESTS :: string where "AI_REQUESTS = ''loxilb_ai_requests_total''"
definition OUTCOME_COMPLETED :: string where "OUTCOME_COMPLETED = ''completed''"
definition OUTCOME_DENIED :: string where "OUTCOME_DENIED = ''denied''"

definition hasOutcomePartition :: "metrics_snapshot option \<Rightarrow> bool" where
  "hasOutcomePartition snapshot =
     (case snapshot of
        None \<Rightarrow> False
      | Some sn \<Rightarrow> list_ex (\<lambda>s. map_of (ms_labels s) ''outcome'' \<noteq> None) (selectSamples sn AI_REQUESTS None))"

definition completedFilter :: "metrics_snapshot list \<Rightarrow> label_match" where
  "completedFilter history = (if hasOutcomePartition (newest history) then EqualLabels [(''outcome'', OUTCOME_COMPLETED)] else AnyLabels)"

definition completedRequestRate :: "vendored_family list \<Rightarrow> metrics_snapshot list \<Rightarrow> int \<Rightarrow> rate" where
  "completedRequestRate vs history maxGapMs = familySumRate vs history AI_REQUESTS maxGapMs (completedFilter history)"

definition isErrorStatus :: "string option \<Rightarrow> bool" where
  "isErrorStatus status = (case status of None \<Rightarrow> False | Some s \<Rightarrow> all_digits s \<and> digits_val s \<ge> 400)"

definition errorFilter :: "labels \<Rightarrow> bool" where
  "errorFilter l \<longleftrightarrow> map_of l ''outcome'' = Some OUTCOME_DENIED \<or> isErrorStatus (map_of l ''status'')"

definition failedFilter :: "labels \<Rightarrow> bool" where
  "failedFilter l \<longleftrightarrow> map_of l ''outcome'' = Some OUTCOME_COMPLETED \<and> isErrorStatus (map_of l ''status'')"

definition rateOf :: "metrics_snapshot list \<Rightarrow> int \<Rightarrow> label_match \<Rightarrow> rate" where
  "rateOf history maxGapMs whr = partitionRate history AI_REQUESTS maxGapMs whr"

record outcomes =
  oc_offered :: rate
  oc_completed :: rate
  oc_denied :: rate
  oc_failed :: rate
  oc_errorRatio :: ratio

datatype request_outcomes = Unpartitioned | Partitioned outcomes

definition requestOutcomes :: "metrics_snapshot list \<Rightarrow> int \<Rightarrow> request_outcomes" where
  "requestOutcomes history maxGapMs =
     (if \<not> hasOutcomePartition (newest history) then Unpartitioned
      else (let offered = rateOf history maxGapMs (WhereLabels (\<lambda>l. True));
                errors = rateOf history maxGapMs (WhereLabels errorFilter)
            in Partitioned
                 \<lparr>oc_offered = offered,
                  oc_completed = rateOf history maxGapMs (EqualLabels [(''outcome'', OUTCOME_COMPLETED)]),
                  oc_denied = rateOf history maxGapMs (EqualLabels [(''outcome'', OUTCOME_DENIED)]),
                  oc_failed = rateOf history maxGapMs (WhereLabels failedFilter),
                  oc_errorRatio = ratioOf errors offered\<rparr>))"

subsection \<open>Refusals\<close>

definition RATE_LIMIT_HITS :: string where "RATE_LIMIT_HITS = ''loxilb_ai_rate_limit_hits_total''"
definition MODEL_NOT_ALLOWED :: string where "MODEL_NOT_ALLOWED = ''loxilb_ai_model_not_allowed_total''"

fun is_absent :: "rate \<Rightarrow> bool" where
  "is_absent (AbsentRate a) = True"
| "is_absent _ = False"

fun is_ok :: "rate \<Rightarrow> bool" where
  "is_ok (RateOk r i) = True"
| "is_ok _ = False"

fun add_rate :: "rate \<Rightarrow> rate \<Rightarrow> rate" where
  "add_rate (RateOk a i) (RateOk b j) = RateOk (a + b) (max i j)"
| "add_rate r _ = r"

definition sumDenialTerms :: "rate list \<Rightarrow> rate" where
  "sumDenialTerms terms =
     (let present = filter (\<lambda>r. \<not> is_absent r) terms
      in if present = [] then (case terms of [] \<Rightarrow> InsufficientSamples | t # ts \<Rightarrow> t)
         else (case List.find (\<lambda>r. \<not> is_ok r) present of
                 Some r \<Rightarrow> r
               | None \<Rightarrow> foldl add_rate (RateOk 0 0) present))"

definition denialTotalRate :: "vendored_family list \<Rightarrow> metrics_snapshot list \<Rightarrow> int \<Rightarrow> rate" where
  "denialTotalRate vs history maxGapMs =
     (if hasOutcomePartition (newest history) then rateOf history maxGapMs (EqualLabels [(''outcome'', OUTCOME_DENIED)])
      else sumDenialTerms [familySumRate vs history RATE_LIMIT_HITS maxGapMs AnyLabels, familySumRate vs history MODEL_NOT_ALLOWED maxGapMs AnyLabels])"

subsection \<open>The admission gate\<close>

definition ADMISSION_MODE :: string where "ADMISSION_MODE = ''loxilb_ai_admission_mode''"
definition ADMISSION_INFLIGHT :: string where "ADMISSION_INFLIGHT = ''loxilb_ai_admission_inflight''"
definition ADMISSION_LIMIT :: string where "ADMISSION_LIMIT = ''loxilb_ai_admission_limit''"
definition ADMISSION_QUEUED :: string where "ADMISSION_QUEUED = ''loxilb_ai_admission_queued''"
definition ADMISSION_DECISIONS :: string where "ADMISSION_DECISIONS = ''loxilb_ai_admission_decisions_total''"
definition ADMISSION_ANOMALIES :: string where "ADMISSION_ANOMALIES = ''loxilb_ai_admission_anomalies_total''"

definition ADMISSION_FAMILIES :: "string list" where
  "ADMISSION_FAMILIES = [ADMISSION_MODE, ADMISSION_INFLIGHT, ADMISSION_LIMIT, ADMISSION_QUEUED, ADMISSION_DECISIONS, ADMISSION_ANOMALIES]"

definition PROXY_LISTEN_DROPS :: string where "PROXY_LISTEN_DROPS = ''loxilb_proxy_listen_drops_total''"
definition PROXY_LISTEN_OVERFLOWS :: string where "PROXY_LISTEN_OVERFLOWS = ''loxilb_proxy_listen_overflows_total''"
definition PROXY_HEADER_DEADLINE_DROPS :: string where "PROXY_HEADER_DEADLINE_DROPS = ''loxilb_proxy_header_deadline_drops_total''"

definition PROXY_OVERLOAD_FAMILIES :: "string list" where
  "PROXY_OVERLOAD_FAMILIES = [PROXY_LISTEN_DROPS, PROXY_LISTEN_OVERFLOWS, PROXY_HEADER_DEADLINE_DROPS]"

datatype gate_mode = GateOff | GateObserve | GateEnforce | GateUnknown

definition gateMode :: "rat option \<Rightarrow> gate_mode" where
  "gateMode v = (if v = Some 0 then GateOff else if v = Some 1 then GateObserve else if v = Some 2 then GateEnforce else GateUnknown)"

datatype decision_group = Refused | Waited | Observed | Passed

definition ADMISSION_REASONS :: "(string \<times> decision_group) list" where
  "ADMISSION_REASONS = [
     (''capacity_shed'', Refused), (''queue_full'', Refused), (''queue_timeout'', Refused), (''no_healthy_capacity'', Refused),
     (''draining'', Refused), (''queued'', Waited), (''cancelled'', Waited), (''drained'', Waited),
     (''observe_would_shed'', Observed), (''observe_would_queue'', Observed), (''admitted'', Passed), (''bypass_non_inference'', Passed)]"

definition REFUSAL_REASONS :: "string list" where
  "REFUSAL_REASONS = map fst (filter (\<lambda>r. snd r = Refused) ADMISSION_REASONS)"

record admission_pool =
  ap_service :: string
  ap_pool :: string
  ap_mode :: gate_mode
  ap_inflight :: "rat option"
  ap_limit :: "rat option"
  ap_queued :: "rat option"
  ap_queueDepth :: "rat option"

datatype bound_kind = AtLimit | AtQueue

record saturated_pool =
  sp_service :: string
  sp_pool :: string
  sp_what :: bound_kind
  sp_value :: rat
  sp_bound :: rat

record admission_gate_reading =
  ag_pools :: "admission_pool list"
  ag_anomalyTotal :: "rat option"
  ag_refusing :: rate
  ag_wouldRefuse :: rate
  ag_saturated :: "saturated_pool list"

datatype gate_report = GateUnavailable | NoPools "rat option" | GateRead admission_gate_reading

definition poolScalar :: "metrics_snapshot \<Rightarrow> string \<Rightarrow> string \<Rightarrow> string \<Rightarrow> labels \<Rightarrow> rat option" where
  "poolScalar sn family service pool extra = selectScalar sn family (Some ([(''service'', service), (''pool'', pool)] @ extra))"

definition sumOf :: "rat option list \<Rightarrow> rat option" where
  "sumOf vals = (let present = map the (filter (\<lambda>v. v \<noteq> None) vals) in if present = [] then None else Some (foldl (+) 0 present))"

definition at_bound :: "admission_pool \<Rightarrow> bound_kind \<Rightarrow> rat option \<Rightarrow> rat option \<Rightarrow> saturated_pool list" where
  "at_bound p what val limit =
     (case (limit, val) of
        (Some l, Some v) \<Rightarrow>
          if l > 0 \<and> v \<ge> l then [\<lparr>sp_service = ap_service p, sp_pool = ap_pool p, sp_what = what, sp_value = v, sp_bound = l\<rparr>] else []
      | _ \<Rightarrow> [])"

fun saturatedPools :: "admission_pool list \<Rightarrow> saturated_pool list" where
  "saturatedPools [] = []"
| "saturatedPools (p # ps) =
     (if ap_mode p = GateOff then []
      else at_bound p AtLimit (ap_inflight p) (ap_limit p) @ at_bound p AtQueue (ap_queued p) (ap_queueDepth p)) @ saturatedPools ps"

fun finite_num :: "jsnum \<Rightarrow> rat option" where
  "finite_num (Fin r) = Some r"
| "finite_num _ = None"

definition pool_of :: "metrics_snapshot \<Rightarrow> metric_sample \<Rightarrow> admission_pool" where
  "pool_of sn m =
     (let service = label_or_empty m ''service''; pool = label_or_empty m ''pool''
      in \<lparr>ap_service = service, ap_pool = pool, ap_mode = gateMode (finite_num (ms_value m)),
          ap_inflight = poolScalar sn ADMISSION_INFLIGHT service pool [(''role'', ''service'')],
          ap_limit = poolScalar sn ADMISSION_LIMIT service pool [(''role'', ''service'')],
          ap_queued = poolScalar sn ADMISSION_QUEUED service pool [],
          ap_queueDepth = poolScalar sn ADMISSION_LIMIT service pool [(''role'', ''queue'')]\<rparr>)"

definition refusal_reason :: "labels \<Rightarrow> bool" where
  "refusal_reason l \<longleftrightarrow> (case map_of l ''reason'' of None \<Rightarrow> [] | Some r \<Rightarrow> r) \<in> set REFUSAL_REASONS"

definition aiAdmission :: "metrics_snapshot option \<Rightarrow> metrics_snapshot list \<Rightarrow> int \<Rightarrow> gate_report" where
  "aiAdmission snapshot history maxGapMs =
     (case snapshot of
        None \<Rightarrow> GateUnavailable
      | Some sn \<Rightarrow>
          if sn_failure sn then GateUnavailable
          else (let anomalyTotal = sumOf (map (\<lambda>s. finite_num (ms_value s)) (selectSamples sn ADMISSION_ANOMALIES None));
                    modeSamples = selectSamples sn ADMISSION_MODE None;
                    pools = map (pool_of sn) modeSamples
                in if modeSamples = [] then NoPools anomalyTotal
                   else GateRead
                     \<lparr>ag_pools = pools, ag_anomalyTotal = anomalyTotal,
                      ag_refusing = partitionRate history ADMISSION_DECISIONS maxGapMs (WhereLabels refusal_reason),
                      ag_wouldRefuse = partitionRate history ADMISSION_DECISIONS maxGapMs (EqualLabels [(''reason'', ''observe_would_shed'')]),
                      ag_saturated = saturatedPools pools\<rparr>))"

record overload_counter =
  ov_rate :: rate
  ov_total :: "rat option"

datatype overload_report = OverloadUnavailable | Overload overload_counter overload_counter overload_counter

definition overload_counter_of :: "vendored_family list \<Rightarrow> metrics_snapshot \<Rightarrow> metrics_snapshot list \<Rightarrow> int \<Rightarrow> string \<Rightarrow> overload_counter" where
  "overload_counter_of vs sn history maxGapMs family =
     \<lparr>ov_rate = familySumRate vs history family maxGapMs AnyLabels, ov_total = selectScalar sn family None\<rparr>"

definition proxyOverload :: "vendored_family list \<Rightarrow> metrics_snapshot option \<Rightarrow> metrics_snapshot list \<Rightarrow> int \<Rightarrow> overload_report" where
  "proxyOverload vs snapshot history maxGapMs =
     (case snapshot of
        None \<Rightarrow> OverloadUnavailable
      | Some sn \<Rightarrow>
          if sn_failure sn then OverloadUnavailable
          else (let counter = overload_counter_of vs sn history maxGapMs
                in Overload (counter PROXY_LISTEN_DROPS) (counter PROXY_LISTEN_OVERFLOWS) (counter PROXY_HEADER_DEADLINE_DROPS)))"

subsection \<open>Facts\<close>

lemma error_parts:
  assumes "list_all (\<lambda>s. map_of (ms_labels s) ''outcome'' \<in> {Some OUTCOME_COMPLETED, Some OUTCOME_DENIED}) (selectSamples sn AI_REQUESTS None)"
  shows "part_sum sn AI_REQUESTS errorFilter =
    part_sum sn AI_REQUESTS (\<lambda>l. map_of l ''outcome'' = Some OUTCOME_DENIED) + part_sum sn AI_REQUESTS failedFilter"
proof -
  have "part_sum sn AI_REQUESTS errorFilter =
      part_sum sn AI_REQUESTS (\<lambda>l. errorFilter l \<and> map_of l ''outcome'' = Some OUTCOME_DENIED)
      + part_sum sn AI_REQUESTS (\<lambda>l. errorFilter l \<and> map_of l ''outcome'' \<noteq> Some OUTCOME_DENIED)"
    by (rule part_sum_split)
  moreover have "part_sum sn AI_REQUESTS (\<lambda>l. errorFilter l \<and> map_of l ''outcome'' \<noteq> Some OUTCOME_DENIED) = part_sum sn AI_REQUESTS failedFilter"
    using assms by (intro part_sum_cong) (auto simp: errorFilter_def failedFilter_def list_all_iff OUTCOME_COMPLETED_def OUTCOME_DENIED_def)
  moreover have "part_sum sn AI_REQUESTS (\<lambda>l. errorFilter l \<and> map_of l ''outcome'' = Some OUTCOME_DENIED) =
      part_sum sn AI_REQUESTS (\<lambda>l. map_of l ''outcome'' = Some OUTCOME_DENIED)"
    by (intro part_sum_cong) (auto simp: errorFilter_def)
  ultimately show ?thesis by simp
qed

lemma add_rates_ok:
  "list_all is_ok rs \<Longrightarrow> \<exists>i. foldl add_rate (RateOk a j) rs = RateOk (a + sum_list (map (\<lambda>r. case r of RateOk v k \<Rightarrow> v | _ \<Rightarrow> 0) rs)) i"
proof (induction rs arbitrary: a j)
  case (Cons r rs)
  then obtain v k where r: "r = RateOk v k" "list_all is_ok rs"
    by (cases r) auto
  show ?case
    using Cons.IH [OF r(2), of "a + v" "max j k"] by (simp add: r(1) add.assoc)
qed simp

text \<open>A total of refusals is told exactly when some term is present and every present one has a rate; it is
  then their sum, and an absent term adds nothing.\<close>

lemma denial_sum_iff:
  "(\<exists>i. sumDenialTerms terms = RateOk v i) \<longleftrightarrow>
     list_ex is_ok terms \<and> list_all (\<lambda>r. is_ok r \<or> is_absent r) terms \<and> v = sum_list (map (\<lambda>r. case r of RateOk x k \<Rightarrow> x | _ \<Rightarrow> 0) terms)"
proof -
  define present where "present = filter (\<lambda>r. \<not> is_absent r) terms"
  define val where "val = (\<lambda>r. case r of RateOk x k \<Rightarrow> x | _ \<Rightarrow> (0::rat))"
  have zero: "sum_list (map val terms) = sum_list (map val present)"
    unfolding present_def val_def by (induction terms) (auto split: rate.split)
  show ?thesis
  proof (cases "present = []")
    case True
    then have "list_all is_absent terms"
      by (auto simp: present_def filter_empty_conv list_all_iff)
    moreover have "is_absent r \<Longrightarrow> \<not> is_ok r" for r
      by (cases r) auto
    ultimately show ?thesis
      using True by (cases terms) (auto simp: sumDenialTerms_def present_def [symmetric] list_ex_iff list_all_iff)
  next
    case False
    show ?thesis
    proof (cases "list_all is_ok present")
      case True
      then have "List.find (\<lambda>r. \<not> is_ok r) present = None"
        by (auto simp: find_None_iff list_all_iff)
      moreover obtain i where "foldl add_rate (RateOk 0 0) present = RateOk (0 + sum_list (map val present)) i"
        using add_rates_ok [OF True, of 0 0] by (auto simp: val_def)
      moreover have "list_ex is_ok terms" "list_all (\<lambda>r. is_ok r \<or> is_absent r) terms"
        using True False by (auto simp: present_def list_all_iff list_ex_iff neq_Nil_conv filter_eq_Cons_iff)
      ultimately show ?thesis
        using False zero by (auto simp: sumDenialTerms_def Let_def present_def [symmetric] val_def [symmetric])
    next
      case bad: False
      then obtain r where r: "List.find (\<lambda>r. \<not> is_ok r) present = Some r"
        by (cases "List.find (\<lambda>r. \<not> is_ok r) present") (auto simp: find_None_iff list_all_iff)
      then have "\<not> is_ok r"
        by (auto simp: find_Some_iff)
      moreover have "\<not> list_all (\<lambda>r. is_ok r \<or> is_absent r) terms"
        using bad by (auto simp: present_def list_all_iff)
      ultimately show ?thesis
        using False r by (cases r) (auto simp: sumDenialTerms_def Let_def present_def [symmetric])
    qed
  qed
qed

subsection \<open>The error ratio\<close>

text \<open>C38. The error ratio is a share: between 0 and 1, and its numerator counts every request once, as the
  refused plus the answered with an error status. The gateway labels every request completed or denied, and
  the requests that were no errors do not become fewer between the two scrapes.\<close>

theorem error_ratio_is_a_share:
  assumes "requestOutcomes history maxGapMs = Partitioned oc" "oc_errorRatio oc = RatioOk q"
    and "rate_pair history prev cur"
    and "list_all (\<lambda>s. map_of (ms_labels s) ''outcome'' \<in> {Some OUTCOME_COMPLETED, Some OUTCOME_DENIED}) (selectSamples prev AI_REQUESTS None)"
    and "list_all (\<lambda>s. map_of (ms_labels s) ''outcome'' \<in> {Some OUTCOME_COMPLETED, Some OUTCOME_DENIED}) (selectSamples cur AI_REQUESTS None)"
    and "part_sum prev AI_REQUESTS (\<lambda>l. \<not> errorFilter l) \<le> part_sum cur AI_REQUESTS (\<lambda>l. \<not> errorFilter l)"
  shows "0 \<le> q \<and> q \<le> 1 \<and>
    q * (part_sum cur AI_REQUESTS (\<lambda>l. True) - part_sum prev AI_REQUESTS (\<lambda>l. True)) =
      (part_sum cur AI_REQUESTS (\<lambda>l. map_of l ''outcome'' = Some OUTCOME_DENIED) - part_sum prev AI_REQUESTS (\<lambda>l. map_of l ''outcome'' = Some OUTCOME_DENIED))
      + (part_sum cur AI_REQUESTS failedFilter - part_sum prev AI_REQUESTS failedFilter)"
proof -
  have "ratioOf (partitionRate history AI_REQUESTS maxGapMs (WhereLabels errorFilter)) (partitionRate history AI_REQUESTS maxGapMs (WhereLabels (\<lambda>l. True))) = RatioOk q"
    using assms(1,2) by (auto simp: requestOutcomes_def rateOf_def Let_def split: if_splits)
  then obtain p c where pc: "rate_pair history p c" "part_sum p AI_REQUESTS errorFilter \<le> part_sum c AI_REQUESTS errorFilter"
      "part_sum p AI_REQUESTS (\<lambda>l. True) < part_sum c AI_REQUESTS (\<lambda>l. True)"
      "q = (part_sum c AI_REQUESTS errorFilter - part_sum p AI_REQUESTS errorFilter) / (part_sum c AI_REQUESTS (\<lambda>l. True) - part_sum p AI_REQUESTS (\<lambda>l. True))"
    by (rule share_ok) simp
  have [simp]: "p = prev" "c = cur"
    using rate_pair_unique [OF pc(1) assms(3)] by auto
  have all: "part_sum sn AI_REQUESTS (\<lambda>l. True) = part_sum sn AI_REQUESTS errorFilter + part_sum sn AI_REQUESTS (\<lambda>l. \<not> errorFilter l)" for sn
    using part_sum_split [of sn AI_REQUESTS "\<lambda>l. True" errorFilter] by simp
  define e where "e = part_sum cur AI_REQUESTS errorFilter - part_sum prev AI_REQUESTS errorFilter"
  define d where "d = part_sum cur AI_REQUESTS (\<lambda>l. True) - part_sum prev AI_REQUESTS (\<lambda>l. True)"
  have "0 \<le> e" "0 < d" "e \<le> d" "q = e / d"
    using pc(2-4) assms(6) all [of prev] all [of cur] by (simp_all add: e_def d_def)
  then have "0 \<le> q \<and> q \<le> 1 \<and> q * d = e"
    by simp
  then show ?thesis
    using error_parts [OF assms(4)] error_parts [OF assms(5)] by (simp add: e_def d_def)
qed

definition demo_request :: "string \<Rightarrow> string \<Rightarrow> rat \<Rightarrow> metric_sample" where
  "demo_request outcome status v =
     \<lparr>ms_name = AI_REQUESTS, ms_labels = [(''outcome'', outcome), (''status'', status)], ms_key = [], ms_value = Fin v, ms_timestamp = None\<rparr>"

definition demo_scrape :: "int \<Rightarrow> metric_sample list \<Rightarrow> metrics_snapshot" where
  "demo_scrape at_ms ss = \<lparr>sn_receivedAtMs = at_ms, sn_available = True, sn_failure = False, sn_families =
     [(AI_REQUESTS, \<lparr>mf_name = AI_REQUESTS, mf_type = Counter, mf_rawType = None, mf_help = None, mf_samples = ss, mf_seen = []\<rparr>)]\<rparr>"

definition demo_before :: metrics_snapshot where
  "demo_before = demo_scrape 0 [demo_request ''completed'' ''200'' 10, demo_request ''denied'' ''429'' 2]"

definition demo_after :: metrics_snapshot where
  "demo_after = demo_scrape 10000 [demo_request ''completed'' ''200'' 16, demo_request ''denied'' ''429'' 3, demo_request ''completed'' ''502'' 1]"

theorem error_ratio_is_a_share_witness: "(0::rat) \<le> 1 / 4 \<and> (1 / 4 :: rat) \<le> 1"
proof -
  have "requestOutcomes [demo_before, demo_after] 35000 = Partitioned (case requestOutcomes [demo_before, demo_after] 35000 of Partitioned oc \<Rightarrow> oc)
      \<and> oc_errorRatio (case requestOutcomes [demo_before, demo_after] 35000 of Partitioned oc \<Rightarrow> oc) = RatioOk (1 / 4)
      \<and> rate_pair [demo_before, demo_after] demo_before demo_after"
    by code_simp
  moreover have "list_all (\<lambda>s. map_of (ms_labels s) ''outcome'' \<in> {Some OUTCOME_COMPLETED, Some OUTCOME_DENIED}) (selectSamples demo_before AI_REQUESTS None)"
    "list_all (\<lambda>s. map_of (ms_labels s) ''outcome'' \<in> {Some OUTCOME_COMPLETED, Some OUTCOME_DENIED}) (selectSamples demo_after AI_REQUESTS None)"
    "part_sum demo_before AI_REQUESTS (\<lambda>l. \<not> errorFilter l) \<le> part_sum demo_after AI_REQUESTS (\<lambda>l. \<not> errorFilter l)"
    by code_simp+
  ultimately show ?thesis
    using error_ratio_is_a_share by blast
qed

end
