(* ===== verification/AuditWriter.thy ===== *)
theory AuditWriter
  imports Rates
begin

section \<open>The writer of the audit trail: \<open>observability/auditWriter.ts\<close>\<close>

text \<open>
  What a scrape says of the gateway's audit writer (is it up, what was dropped, which faults and which
  sink losses it counted), and the liveness verdict on its heartbeat, which is judged by the values this
  browser saw and the times it received them at. Receive times are whole milliseconds.
\<close>

definition AUDIT_FAMILIES :: "string list" where
  "AUDIT_FAMILIES = [
     ''loxilb_audit_writer_up'', ''loxilb_audit_writer_restarts_total'', ''loxilb_audit_writer_panics_total'',
     ''loxilb_audit_last_heartbeat_timestamp_seconds'', ''loxilb_audit_records_written_total'', ''loxilb_audit_records_dropped_total'',
     ''loxilb_audit_records_unattributed_total'', ''loxilb_audit_write_failures_total'', ''loxilb_audit_sync_failures_total'',
     ''loxilb_audit_result_write_failures_total'', ''loxilb_audit_mgmt_timeouts_total'', ''loxilb_audit_segment_seal_failures_total'',
     ''loxilb_audit_reserve_breached'', ''loxilb_audit_orphaned_intents_total'', ''loxilb_audit_originator_dropped_total'',
     ''loxilb_audit_records_lost_to_retention_total'', ''loxilb_audit_sink_poison_total'', ''loxilb_audit_sink_lag_drops_total'']"

definition AUDIT_HEARTBEAT_INTERVAL_MS :: int where "AUDIT_HEARTBEAT_INTERVAL_MS = 30000"

definition AUDIT_STREAMS :: "string list" where "AUDIT_STREAMS = [''mgmt'', ''data'', ''audit_system'']"

definition AUDIT_FAULT_COUNTERS :: "string list" where
  "AUDIT_FAULT_COUNTERS = [
     ''loxilb_audit_writer_restarts_total'', ''loxilb_audit_writer_panics_total'', ''loxilb_audit_write_failures_total'',
     ''loxilb_audit_sync_failures_total'', ''loxilb_audit_result_write_failures_total'', ''loxilb_audit_mgmt_timeouts_total'',
     ''loxilb_audit_segment_seal_failures_total'', ''loxilb_audit_records_unattributed_total'', ''loxilb_audit_orphaned_intents_total'',
     ''loxilb_audit_originator_dropped_total'', ''loxilb_audit_records_lost_to_retention_total'']"

subsection \<open>The report\<close>

record stream_drops =
  sd_stream :: string
  sd_total :: "rat option"
  sd_by :: "(string \<times> rat) list"

record sink_loss =
  sl_name :: string
  sl_poison :: rat
  sl_lagDrops :: rat

record writer_reading =
  wr_up :: "bool option"
  wr_reserveBreached :: "bool option"
  wr_lastHeartbeatSeconds :: "rat option"
  wr_drops :: "stream_drops list"
  wr_faults :: "(string \<times> rat) list"
  wr_faultsNotReported :: nat
  wr_sinks :: "sink_loss list"

datatype writer_report = WriterUnavailable | WriterNotExported | WriterNotConfigured | WriterRead writer_reading

text \<open>A positive finite sample adds to the loss of its sink, every other one is passed over.\<close>

definition add_loss :: "(rat \<Rightarrow> sink_loss \<Rightarrow> sink_loss) \<Rightarrow> metric_sample \<Rightarrow> (string \<times> sink_loss) list \<Rightarrow> (string \<times> sink_loss) list" where
  "add_loss bump s losses =
     (let name = label_or_empty s ''sink''
      in case ms_value s of
           Fin v \<Rightarrow>
             if v \<le> 0 then losses
             else AList.update name
                    (bump v (case map_of losses name of None \<Rightarrow> \<lparr>sl_name = name, sl_poison = 0, sl_lagDrops = 0\<rparr> | Some l \<Rightarrow> l)) losses
         | _ \<Rightarrow> losses)"

definition bump_poison :: "rat \<Rightarrow> sink_loss \<Rightarrow> sink_loss" where
  "bump_poison v l = l\<lparr>sl_poison := sl_poison l + v\<rparr>"

definition bump_lag :: "rat \<Rightarrow> sink_loss \<Rightarrow> sink_loss" where
  "bump_lag v l = l\<lparr>sl_lagDrops := sl_lagDrops l + v\<rparr>"

definition losses_by_name :: "metrics_snapshot \<Rightarrow> (string \<times> sink_loss) list" where
  "losses_by_name sn =
     fold (add_loss bump_lag) (selectSamples sn ''loxilb_audit_sink_lag_drops_total'' None)
       (fold (add_loss bump_poison) (selectSamples sn ''loxilb_audit_sink_poison_total'' None) [])"

definition sinkLosses :: "metrics_snapshot \<Rightarrow> sink_loss list" where
  "sinkLosses sn = sort_key sl_name (map snd (losses_by_name sn))"

definition positive_finite :: "metric_sample \<Rightarrow> (string \<times> rat) list" where
  "positive_finite d = (case ms_value d of Fin v \<Rightarrow> if v > 0 then [(label_or_empty d ''reason'', v)] else [] | _ \<Rightarrow> [])"

definition stream_reading :: "metrics_snapshot \<Rightarrow> string \<Rightarrow> stream_drops" where
  "stream_reading sn stream =
     (let dropped = selectSamples sn ''loxilb_audit_records_dropped_total'' (Some [(''stream'', stream)])
      in \<lparr>sd_stream = stream, sd_total = ag_value (aggregateSum dropped), sd_by = concat (map positive_finite dropped)\<rparr>)"

text \<open>The loop over the fault counters: the faults above zero and how many counters were not reported.\<close>

fun count_faults :: "metrics_snapshot \<Rightarrow> string list \<Rightarrow> (string \<times> rat) list \<times> nat" where
  "count_faults sn [] = ([], 0)"
| "count_faults sn (key # keys) =
     (let (faults, unreported) = count_faults sn keys
      in case selectScalar sn key None of
           None \<Rightarrow> (faults, unreported + 1)
         | Some tot \<Rightarrow> if tot > 0 then ((key, tot) # faults, unreported) else (faults, unreported))"

definition auditWriter :: "metrics_snapshot option \<Rightarrow> writer_report" where
  "auditWriter snapshot =
     (case snapshot of
        None \<Rightarrow> WriterUnavailable
      | Some sn \<Rightarrow>
          if sn_failure sn then WriterUnavailable
          else (let up = selectScalar sn ''loxilb_audit_writer_up'' None;
                    written = selectSamples sn ''loxilb_audit_records_written_total'' None;
                    counted = count_faults sn AUDIT_FAULT_COUNTERS
                in if up = None \<and> written = [] then WriterNotExported
                   else if up = Some 0 \<and> written = [] then WriterNotConfigured
                   else WriterRead
                     \<lparr>wr_up = map_option (\<lambda>u. u > 0) up,
                      wr_reserveBreached = map_option (\<lambda>r. r > 0) (selectScalar sn ''loxilb_audit_reserve_breached'' None),
                      wr_lastHeartbeatSeconds = selectScalar sn ''loxilb_audit_last_heartbeat_timestamp_seconds'' None,
                      wr_drops = map (stream_reading sn) AUDIT_STREAMS,
                      wr_faults = fst counted, wr_faultsNotReported = snd counted, wr_sinks = sinkLosses sn\<rparr>))"

subsection \<open>The heartbeat\<close>

record heartbeat_track =
  ht_value :: rat
  ht_firstSeenAtMs :: int
  ht_sawAdvance :: bool

definition trackHeartbeat :: "heartbeat_track option \<Rightarrow> jsnum option \<Rightarrow> int \<Rightarrow> heartbeat_track option" where
  "trackHeartbeat prev value receivedAtMs =
     (case value of
        Some (Fin v) \<Rightarrow>
          (case prev of
             Some p \<Rightarrow> if ht_value p = v then prev else Some \<lparr>ht_value = v, ht_firstSeenAtMs = receivedAtMs, ht_sawAdvance = True\<rparr>
           | None \<Rightarrow> Some \<lparr>ht_value = v, ht_firstSeenAtMs = receivedAtMs, ht_sawAdvance = False\<rparr>)
      | _ \<Rightarrow> prev)"

datatype liveness = UnknownBeat | NeverBeat | Advancing | Watching int | Stalled int

definition heartbeatLiveness :: "heartbeat_track option \<Rightarrow> int \<Rightarrow> int \<Rightarrow> liveness" where
  "heartbeatLiveness track nowReceivedAtMs cadenceMs =
     (case track of
        None \<Rightarrow> UnknownBeat
      | Some t \<Rightarrow>
          (let unchangedMs = nowReceivedAtMs - ht_firstSeenAtMs t
           in if ht_value t \<le> 0 then NeverBeat
              else if unchangedMs > 2 * AUDIT_HEARTBEAT_INTERVAL_MS + cadenceMs then Stalled unchangedMs
              else if ht_sawAdvance t then Advancing
              else Watching unchangedMs))"

subsection \<open>Facts\<close>

text \<open>What a browser has seen: the finite beats among the scrapes, oldest first, and the track it keeps.\<close>

definition seen_beats :: "(jsnum option \<times> int) list \<Rightarrow> (rat \<times> int) list" where
  "seen_beats scrapes = concat (map (\<lambda>(v, at_ms). case v of Some (Fin r) \<Rightarrow> [(r, at_ms)] | _ \<Rightarrow> []) scrapes)"

definition track_scrapes :: "(jsnum option \<times> int) list \<Rightarrow> heartbeat_track option" where
  "track_scrapes scrapes = foldl (\<lambda>tr (v, at_ms). trackHeartbeat tr v at_ms) None scrapes"

text \<open>The last run of equal values in a list of beats: what came before it and its first beat.\<close>

definition last_run :: "(rat \<times> int) list \<Rightarrow> (rat \<times> int) list \<Rightarrow> rat \<Rightarrow> int \<Rightarrow> bool" where
  "last_run beats older v at_ms \<longleftrightarrow>
     (\<exists>newer. beats = older @ (v, at_ms) # newer \<and> list_all (\<lambda>b. fst b = v) newer) \<and> (older = [] \<or> fst (last older) \<noteq> v)"

lemma last_run_snoc_same: "last_run beats older v f \<Longrightarrow> last_run (beats @ [(v, m)]) older v f"
  by (auto simp: last_run_def)

lemma last_run_snoc_new: "beats = [] \<or> fst (last beats) \<noteq> v \<Longrightarrow> last_run (beats @ [(v, m)]) beats v m"
  by (auto simp: last_run_def)

lemma last_run_value: "last_run beats older v f \<Longrightarrow> beats \<noteq> [] \<and> fst (last beats) = v"
  by (auto simp: last_run_def list_all_iff last_in_set split: if_splits)

lemma last_run_older:
  assumes "last_run beats older v f"
  shows "older = rev (dropWhile (\<lambda>b. fst b = fst (last beats)) (rev beats))" "f = snd (beats ! length older)" "v = fst (last beats)"
proof -
  show v: "v = fst (last beats)"
    using last_run_value [OF assms] by simp
  obtain newer where n: "beats = older @ (v, f) # newer" "list_all (\<lambda>b. fst b = v) newer" and o: "older = [] \<or> fst (last older) \<noteq> v"
    using assms by (auto simp: last_run_def)
  then show "f = snd (beats ! length older)" by simp
  have "dropWhile (\<lambda>b. fst b = v) (rev beats) = dropWhile (\<lambda>b. fst b = v) (rev older)"
    using n by (simp add: dropWhile_append list_all_iff)
  also have "\<dots> = rev older"
    using o by (cases older rule: rev_cases) auto
  finally show "older = rev (dropWhile (\<lambda>b. fst b = fst (last beats)) (rev beats))"
    using v by (metis rev_rev_ident)
qed

lemma last_run_unique:
  assumes "last_run beats older v f" "last_run beats older' v' f'"
  shows "older = older' \<and> v = v' \<and> f = f'"
  using last_run_older [OF assms(1)] last_run_older [OF assms(2)] by metis

lemma track_is_last_run:
  "case track_scrapes scrapes of
     None \<Rightarrow> seen_beats scrapes = []
   | Some t \<Rightarrow> (\<exists>older. last_run (seen_beats scrapes) older (ht_value t) (ht_firstSeenAtMs t) \<and> (ht_sawAdvance t \<longleftrightarrow> older \<noteq> []))"
proof (induction scrapes rule: rev_induct)
  case Nil
  then show ?case by (simp add: track_scrapes_def seen_beats_def)
next
  case (snoc sc scrapes)
  obtain v m where sc: "sc = (v, m)" by (cases sc)
  have track: "track_scrapes (scrapes @ [sc]) = trackHeartbeat (track_scrapes scrapes) v m"
    by (simp add: track_scrapes_def sc)
  show ?case
  proof (cases "\<exists>r. v = Some (Fin r)")
    case False
    then have "seen_beats (scrapes @ [sc]) = seen_beats scrapes" "track_scrapes (scrapes @ [sc]) = track_scrapes scrapes"
      unfolding track by (auto simp: seen_beats_def sc trackHeartbeat_def split: option.splits jsnum.splits)
    then show ?thesis using snoc by (simp split: option.splits)
  next
    case True
    then obtain r where r: "v = Some (Fin r)" by blast
    then have seen: "seen_beats (scrapes @ [sc]) = seen_beats scrapes @ [(r, m)]"
      by (simp add: seen_beats_def sc)
    show ?thesis
    proof (cases "track_scrapes scrapes")
      case None
      then show ?thesis
        using snoc r seen last_run_snoc_new [of "[]" r m] by (auto simp: track trackHeartbeat_def)
    next
      case (Some t)
      then obtain older where older: "last_run (seen_beats scrapes) older (ht_value t) (ht_firstSeenAtMs t)" "ht_sawAdvance t \<longleftrightarrow> older \<noteq> []"
        using snoc by auto
      then show ?thesis
        unfolding track seen using Some r last_run_value [OF older(1)]
          last_run_snoc_same [OF older(1), of m] last_run_snoc_new [of "seen_beats scrapes" r m]
        by (cases "ht_value t = r") (auto simp: trackHeartbeat_def)
    qed
  qed
qed

text \<open>C37. A heartbeat is called stalled exactly when the value this browser last saw is a beat, it was first
  seen longer than two beats and a poll ago, and every reading since then repeated it; the time told is the
  time since that first sight. Scrapes without a finite value change nothing.\<close>

theorem stalled_iff:
  "heartbeatLiveness (track_scrapes scrapes) nowMs cadenceMs = Stalled since \<longleftrightarrow>
     (\<exists>older v at_ms. last_run (seen_beats scrapes) older v at_ms \<and> 0 < v \<and> since = nowMs - at_ms \<and> 60000 + cadenceMs < since)"
proof (cases "track_scrapes scrapes")
  case None
  then have "seen_beats scrapes = []"
    using track_is_last_run [of scrapes] by simp
  then show ?thesis
    using None by (auto simp: heartbeatLiveness_def last_run_def)
next
  case (Some t)
  then obtain older where run: "last_run (seen_beats scrapes) older (ht_value t) (ht_firstSeenAtMs t)"
    using track_is_last_run [of scrapes] by auto
  have "heartbeatLiveness (track_scrapes scrapes) nowMs cadenceMs = Stalled since \<longleftrightarrow>
      0 < ht_value t \<and> since = nowMs - ht_firstSeenAtMs t \<and> 60000 + cadenceMs < since"
    using Some by (auto simp: heartbeatLiveness_def Let_def AUDIT_HEARTBEAT_INTERVAL_MS_def)
  then show ?thesis
    using run last_run_unique [OF run] by metis
qed

subsection \<open>Sink losses\<close>

text \<open>What the samples of a family add up to for one sink.\<close>

definition sink_total :: "metric_sample list \<Rightarrow> string \<Rightarrow> rat" where
  "sink_total ss name = sum_list (map snd (filter (\<lambda>x. fst x = name) (concat (map
     (\<lambda>s. case ms_value s of Fin v \<Rightarrow> if v > 0 then [(label_or_empty s ''sink'', v)] else [] | _ \<Rightarrow> []) ss))))"

lemma sink_total_Nil [simp]: "sink_total [] name = 0"
  by (simp add: sink_total_def)

lemma sink_total_Cons:
  "sink_total (s # ss) name =
     (case ms_value s of Fin v \<Rightarrow> if v > 0 \<and> label_or_empty s ''sink'' = name then v else 0 | _ \<Rightarrow> 0) + sink_total ss name"
  by (auto simp: sink_total_def split: jsnum.split)

lemma sink_total_nonneg: "0 \<le> sink_total ss name"
  by (induction ss) (auto simp: sink_total_Cons split: jsnum.split)

definition loss_of :: "(string \<times> sink_loss) list \<Rightarrow> string \<Rightarrow> rat \<times> rat" where
  "loss_of losses name = (case map_of losses name of None \<Rightarrow> (0, 0) | Some l \<Rightarrow> (sl_poison l, sl_lagDrops l))"

definition losses_ok :: "(string \<times> sink_loss) list \<Rightarrow> bool" where
  "losses_ok losses \<longleftrightarrow> distinct (map fst losses) \<and>
     list_all (\<lambda>(k, l). sl_name l = k \<and> 0 \<le> sl_poison l \<and> 0 \<le> sl_lagDrops l \<and> 0 < sl_poison l + sl_lagDrops l) losses"

lemma losses_ok_Nil [simp]: "losses_ok []"
  by (simp add: losses_ok_def)

lemma losses_ok_lookup: "losses_ok losses \<Longrightarrow> map_of losses k = Some l \<Longrightarrow> sl_name l = k \<and> 0 \<le> sl_poison l \<and> 0 \<le> sl_lagDrops l"
  by (auto simp: losses_ok_def list_all_iff dest!: map_of_SomeD)

lemma losses_ok_update:
  assumes "losses_ok losses" "sl_name l = k" "0 \<le> sl_poison l" "0 \<le> sl_lagDrops l" "0 < sl_poison l + sl_lagDrops l"
  shows "losses_ok (AList.update k l losses)"
proof -
  have keeps: "list_all P losses \<Longrightarrow> P (k, l) \<Longrightarrow> list_all P (AList.update k l losses)" for P
    by (induction losses) auto
  show ?thesis
    unfolding losses_ok_def
  proof
    show "distinct (map fst (AList.update k l losses))"
      using assms(1) by (simp add: losses_ok_def distinct_update)
    show "list_all (\<lambda>(k, l). sl_name l = k \<and> 0 \<le> sl_poison l \<and> 0 \<le> sl_lagDrops l \<and> 0 < sl_poison l + sl_lagDrops l) (AList.update k l losses)"
      using assms by (intro keeps) (simp_all add: losses_ok_def)
  qed
qed

lemma loss_of_update [simp]: "loss_of (AList.update k l losses) name = (if name = k then (sl_poison l, sl_lagDrops l) else loss_of losses name)"
  by (auto simp: loss_of_def update_conv')

lemma bump_sel [simp]:
  "sl_name (bump_poison v l) = sl_name l" "sl_poison (bump_poison v l) = sl_poison l + v" "sl_lagDrops (bump_poison v l) = sl_lagDrops l"
  "sl_name (bump_lag v l) = sl_name l" "sl_poison (bump_lag v l) = sl_poison l" "sl_lagDrops (bump_lag v l) = sl_lagDrops l + v"
  by (simp_all add: bump_poison_def bump_lag_def)

text \<open>A sample that counts is added to what its sink lost, any other one leaves the losses.\<close>

lemma add_loss_cases:
  assumes "losses_ok losses"
  obtains "add_loss bump s losses = losses" "\<And>name. sink_total [s] name = 0"
  | k v old where "add_loss bump s losses = AList.update k (bump v old) losses" "0 < v" "\<And>name. sink_total [s] name = (if name = k then v else 0)"
      "sl_name old = k" "0 \<le> sl_poison old" "0 \<le> sl_lagDrops old" "loss_of losses k = (sl_poison old, sl_lagDrops old)"
proof (cases "\<exists>v. ms_value s = Fin v \<and> 0 < v")
  case False
  then show thesis
    by (intro that(1)) (auto simp: add_loss_def Let_def sink_total_Cons split: jsnum.split)
next
  case True
  then obtain v where v: "ms_value s = Fin v" "0 < v" by blast
  define k where "k = label_or_empty s ''sink''"
  define old where "old = (case map_of losses k of None \<Rightarrow> \<lparr>sl_name = k, sl_poison = 0, sl_lagDrops = 0\<rparr> | Some l \<Rightarrow> l)"
  show thesis
  proof (rule that(2))
    show "add_loss bump s losses = AList.update k (bump v old) losses"
      using v unfolding k_def old_def by (simp add: add_loss_def Let_def)
    show "sink_total [s] name = (if name = k then v else 0)" for name
      using v by (auto simp: sink_total_Cons k_def)
    show "sl_name old = k" "0 \<le> sl_poison old" "0 \<le> sl_lagDrops old" "loss_of losses k = (sl_poison old, sl_lagDrops old)"
      using losses_ok_lookup [OF assms, of k] by (auto simp: old_def loss_of_def split: option.split)
  qed (use v in simp)
qed

lemma add_poison_loss:
  assumes "losses_ok losses"
  shows "losses_ok (fold (add_loss bump_poison) ss losses) \<and>
    loss_of (fold (add_loss bump_poison) ss losses) name = (fst (loss_of losses name) + sink_total ss name, snd (loss_of losses name))"
  using assms
proof (induction ss arbitrary: losses)
  case (Cons s ss)
  have total: "sink_total (s # ss) name = sink_total [s] name + sink_total ss name"
    by (simp add: sink_total_Cons)
  from Cons.prems show ?case
  proof (cases rule: add_loss_cases [of losses "bump_poison" s])
    case 1
    then show ?thesis using Cons.IH [OF Cons.prems] total by simp
  next
    case (2 k v old)
    have "losses_ok (AList.update k (bump_poison v old) losses)"
      using 2 by (intro losses_ok_update [OF Cons.prems]) simp_all
    from Cons.IH [OF this] show ?thesis
      unfolding total fold_Cons comp_apply 2(1) loss_of_update using 2(3,7)
      by (cases "name = k") (simp_all add: add.assoc)
  qed
qed simp

lemma add_lag_loss:
  assumes "losses_ok losses"
  shows "losses_ok (fold (add_loss bump_lag) ss losses) \<and>
    loss_of (fold (add_loss bump_lag) ss losses) name = (fst (loss_of losses name), snd (loss_of losses name) + sink_total ss name)"
  using assms
proof (induction ss arbitrary: losses)
  case (Cons s ss)
  have total: "sink_total (s # ss) name = sink_total [s] name + sink_total ss name"
    by (simp add: sink_total_Cons)
  from Cons.prems show ?case
  proof (cases rule: add_loss_cases [of losses "bump_lag" s])
    case 1
    then show ?thesis using Cons.IH [OF Cons.prems] total by simp
  next
    case (2 k v old)
    have "losses_ok (AList.update k (bump_lag v old) losses)"
      using 2 by (intro losses_ok_update [OF Cons.prems]) simp_all
    from Cons.IH [OF this] show ?thesis
      unfolding total fold_Cons comp_apply 2(1) loss_of_update using 2(3,7)
      by (cases "name = k") (simp_all add: add.assoc)
  qed
qed simp

lemma losses_by_name_facts:
  "losses_ok (losses_by_name sn)"
  "loss_of (losses_by_name sn) name =
     (sink_total (selectSamples sn ''loxilb_audit_sink_poison_total'' None) name,
      sink_total (selectSamples sn ''loxilb_audit_sink_lag_drops_total'' None) name)"
proof -
  let ?p = "fold (add_loss bump_poison) (selectSamples sn ''loxilb_audit_sink_poison_total'' None) []"
  have p: "losses_ok ?p" "loss_of ?p name = (sink_total (selectSamples sn ''loxilb_audit_sink_poison_total'' None) name, 0)"
    using add_poison_loss [of "[]"] by (auto simp: loss_of_def [of "[]"])
  then show "losses_ok (losses_by_name sn)"
    "loss_of (losses_by_name sn) name =
       (sink_total (selectSamples sn ''loxilb_audit_sink_poison_total'' None) name,
        sink_total (selectSamples sn ''loxilb_audit_sink_lag_drops_total'' None) name)"
    using add_lag_loss [OF p(1)] by (auto simp: losses_by_name_def)
qed

text \<open>The losses told are the losses counted: the list has a sink exactly when one of its two counters is
  above zero, once, with the sums of both, and it is in the order of the names.\<close>

theorem sink_losses_told:
  "loss \<in> set (sinkLosses sn) \<longleftrightarrow>
     (let p = sink_total (selectSamples sn ''loxilb_audit_sink_poison_total'' None) (sl_name loss);
          l = sink_total (selectSamples sn ''loxilb_audit_sink_lag_drops_total'' None) (sl_name loss)
      in 0 < p + l \<and> sl_poison loss = p \<and> sl_lagDrops loss = l)"
  "sorted (map sl_name (sinkLosses sn)) \<and> distinct (map sl_name (sinkLosses sn))"
proof -
  define m where "m = losses_by_name sn"
  have ok: "distinct (map fst m)" "list_all (\<lambda>(k, l). sl_name l = k \<and> 0 < sl_poison l + sl_lagDrops l) m"
    using losses_by_name_facts(1) [of sn] by (auto simp: losses_ok_def m_def list_all_iff)
  have names: "map sl_name (map snd m) = map fst m"
    using ok(2) by (induction m) auto
  have "loss \<in> set (map snd m) \<longleftrightarrow> map_of m (sl_name loss) = Some loss"
    using ok by (force simp: list_all_iff dest: map_of_SomeD)
  moreover have "map_of m (sl_name loss) = Some loss \<longleftrightarrow>
      0 < sl_poison loss + sl_lagDrops loss \<and> loss_of m (sl_name loss) = (sl_poison loss, sl_lagDrops loss)"
    using ok(2) by (auto simp: loss_of_def list_all_iff split: option.splits dest!: map_of_SomeD)
  ultimately show "loss \<in> set (sinkLosses sn) \<longleftrightarrow>
     (let p = sink_total (selectSamples sn ''loxilb_audit_sink_poison_total'' None) (sl_name loss);
          l = sink_total (selectSamples sn ''loxilb_audit_sink_lag_drops_total'' None) (sl_name loss)
      in 0 < p + l \<and> sl_poison loss = p \<and> sl_lagDrops loss = l)"
    using losses_by_name_facts(2) [of sn "sl_name loss"] by (auto simp: sinkLosses_def m_def Let_def)
  have "mset (map sl_name (sinkLosses sn)) = mset (map fst m)"
    using names by (metis m_def mset_map mset_sort sinkLosses_def)
  then show "sorted (map sl_name (sinkLosses sn)) \<and> distinct (map sl_name (sinkLosses sn))"
    using ok(1) by (metis mset_eq_imp_distinct_iff sinkLosses_def sorted_sort_key)
qed

end
