(* ===== verification/TokenQuota.thy ===== *)
theory TokenQuota
  imports Rates
begin

section \<open>Token quotas: \<open>observability/tokenQuota.ts\<close>\<close>

text \<open>
  What the quota panel reads off a scrape and what it concludes: the six scopes, the limit a bucket
  would have, the join of each scope's two families, and the verdict on enforcement.
\<close>

definition TOKEN_QUOTA_DENIED :: string where "TOKEN_QUOTA_DENIED = ''loxilb_ai_token_quota_denied_total''"
definition TOKEN_QUOTA_COLD_OPEN :: string where "TOKEN_QUOTA_COLD_OPEN = ''loxilb_ai_token_quota_cold_open_total''"

datatype quota_scope = TenantScope | TenantModelScope | UserScope | UserModelScope | KeyScope | VipScope

record scope_families =
  sf_scope :: quota_scope
  sf_utilization :: string
  sf_limit :: string
  sf_labels :: "string list"
  sf_needsCharge :: bool
  sf_needsUserIdentity :: bool
  sf_fallsThrough :: bool

definition QUOTA_SCOPES :: "scope_families list" where
  "QUOTA_SCOPES = [
     \<lparr>sf_scope = TenantScope, sf_utilization = ''loxilb_ai_token_quota_utilization'', sf_limit = ''loxilb_ai_token_quota_limit_tokens'',
      sf_labels = [''tenant''], sf_needsCharge = False, sf_needsUserIdentity = False, sf_fallsThrough = True\<rparr>,
     \<lparr>sf_scope = TenantModelScope, sf_utilization = ''loxilb_ai_token_quota_model_utilization'', sf_limit = ''loxilb_ai_token_quota_model_limit_tokens'',
      sf_labels = [''tenant'', ''model''], sf_needsCharge = False, sf_needsUserIdentity = False, sf_fallsThrough = False\<rparr>,
     \<lparr>sf_scope = UserScope, sf_utilization = ''loxilb_ai_user_token_quota_utilization'', sf_limit = ''loxilb_ai_user_token_quota_limit_tokens'',
      sf_labels = [''tenant'', ''user''], sf_needsCharge = False, sf_needsUserIdentity = True, sf_fallsThrough = True\<rparr>,
     \<lparr>sf_scope = UserModelScope, sf_utilization = ''loxilb_ai_user_model_token_quota_utilization'', sf_limit = ''loxilb_ai_user_model_token_quota_limit_tokens'',
      sf_labels = [''tenant'', ''user'', ''model''], sf_needsCharge = False, sf_needsUserIdentity = True, sf_fallsThrough = False\<rparr>,
     \<lparr>sf_scope = KeyScope, sf_utilization = ''loxilb_ai_key_token_quota_utilization'', sf_limit = ''loxilb_ai_key_token_quota_limit_tokens'',
      sf_labels = [''key_id''], sf_needsCharge = True, sf_needsUserIdentity = False, sf_fallsThrough = False\<rparr>,
     \<lparr>sf_scope = VipScope, sf_utilization = ''loxilb_ai_vip_token_quota_utilization'', sf_limit = ''loxilb_ai_vip_token_quota_limit_tokens'',
      sf_labels = [''service''], sf_needsCharge = True, sf_needsUserIdentity = False, sf_fallsThrough = False\<rparr>]"

definition TOKEN_QUOTA_FAMILIES :: "string list" where
  "TOKEN_QUOTA_FAMILIES = concat (map (\<lambda>s. [sf_utilization s, sf_limit s]) QUOTA_SCOPES) @ [TOKEN_QUOTA_DENIED, TOKEN_QUOTA_COLD_OPEN]"

definition quotaScope :: "quota_scope \<Rightarrow> scope_families" where
  "quotaScope scope = the (List.find (\<lambda>s. sf_scope s = scope) QUOTA_SCOPES)"

datatype store_state = Readable | UnconfiguredStore | Unavailable | UnknownStore

definition storeStateFromError :: "int option \<Rightarrow> string option \<Rightarrow> store_state" where
  "storeStateFromError code resultOrMessage =
     (if code \<noteq> Some 503 then UnknownStore
      else if resultOrMessage = Some ''ai_key_store_unconfigured'' then UnconfiguredStore
      else if resultOrMessage = Some ''ai_key_store_unavailable'' then Unavailable
      else UnknownStore)"

subsection \<open>Limits\<close>

record defaults_row =
  dr_tenantTpm :: "jsnum option"
  dr_userTpm :: "jsnum option"
  dr_vipTpm :: "jsnum option"

record quota_defaults =
  qd_tenantTpm :: rat
  qd_userTpm :: rat
  qd_vipTpm :: rat

definition NO_QUOTA_DEFAULTS :: quota_defaults where
  "NO_QUOTA_DEFAULTS = \<lparr>qd_tenantTpm = 0, qd_userTpm = 0, qd_vipTpm = 0\<rparr>"

fun positive :: "jsnum option \<Rightarrow> rat" where
  "positive (Some (Fin r)) = (if r > 0 then r else 0)"
| "positive _ = 0"

definition row_field :: "(defaults_row \<Rightarrow> jsnum option) \<Rightarrow> defaults_row option \<Rightarrow> jsnum option" where
  "row_field field row = (case row of None \<Rightarrow> None | Some r \<Rightarrow> field r)"

definition override :: "rat \<Rightarrow> jsnum option \<Rightarrow> rat" where
  "override current candidate = (if positive candidate > 0 then positive candidate else current)"

definition resolveQuotaDefaults :: "defaults_row option \<Rightarrow> defaults_row option \<Rightarrow> quota_defaults" where
  "resolveQuotaDefaults globl rule =
     (let out = \<lparr>qd_tenantTpm = positive (row_field dr_tenantTpm globl), qd_userTpm = positive (row_field dr_userTpm globl),
                 qd_vipTpm = positive (row_field dr_vipTpm globl)\<rparr>
      in case rule of
           None \<Rightarrow> out
         | Some r \<Rightarrow> \<lparr>qd_tenantTpm = override (qd_tenantTpm out) (dr_tenantTpm r), qd_userTpm = override (qd_userTpm out) (dr_userTpm r),
                      qd_vipTpm = override (qd_vipTpm out) (dr_vipTpm r)\<rparr>)"

datatype limit_source = Explicit | Default

definition default_limit :: "rat \<Rightarrow> (rat \<times> limit_source) option" where
  "default_limit tpm = (if tpm > 0 then Some (tpm, Default) else None)"

definition effectiveLimit :: "quota_scope \<Rightarrow> jsnum option \<Rightarrow> quota_defaults \<Rightarrow> (rat \<times> limit_source) option" where
  "effectiveLimit scope explicitTpm defaults =
     (if positive explicitTpm > 0 then Some (positive explicitTpm, Explicit)
      else if scope = VipScope then default_limit (qd_vipTpm defaults)
      else if \<not> sf_fallsThrough (quotaScope scope) then None
      else if scope = TenantScope then default_limit (qd_tenantTpm defaults)
      else default_limit (qd_userTpm defaults))"

subsection \<open>Rows\<close>

datatype pressure = Within | Saturated | InDebt

definition quotaPressure :: "rat \<Rightarrow> pressure" where
  "quotaPressure utilization = (if utilization > 1 then InDebt else if utilization \<ge> 1 then Saturated else Within)"

record quota_row =
  qr_scope :: quota_scope
  qr_labels :: labels
  qr_utilization :: rat
  qr_limitTokens :: rat
  qr_headroom :: rat
  qr_pressure :: pressure

datatype anomaly_kind = UnpairedSeries | NonPositiveLimit

type_synonym quota_anomaly = "quota_scope \<times> labels \<times> anomaly_kind"

record scope_reading =
  rd_scope :: quota_scope
  rd_absent :: bool
  rd_rows :: "quota_row list"
  rd_anomalies :: "quota_anomaly list"

definition bucketKey :: "metric_sample \<Rightarrow> string list \<Rightarrow> string" where
  "bucketKey s ls = join_with [CHR 0x00] (map (label_or_empty s) ls)"

definition labelsOf :: "metric_sample \<Rightarrow> string list \<Rightarrow> labels" where
  "labelsOf s ls = fold (\<lambda>l. AList.update l (label_or_empty s l)) ls []"

definition limit_index :: "metric_sample list \<Rightarrow> string list \<Rightarrow> (string \<times> metric_sample) list" where
  "limit_index samples ls = fold (\<lambda>s. AList.update (bucketKey s ls) s) samples []"

text \<open>One utilization sample: a row, an anomaly of a pair, or an anomaly without one.\<close>

datatype joined = JoinedRow quota_row | BadLimit quota_anomaly | Unpaired quota_anomaly

definition join_sample :: "scope_families \<Rightarrow> (string \<times> metric_sample) list \<Rightarrow> metric_sample \<Rightarrow> joined" where
  "join_sample spec limits util =
     (let scope = sf_scope spec; ls = labelsOf util (sf_labels spec)
      in case map_of limits (bucketKey util (sf_labels spec)) of
           None \<Rightarrow> Unpaired (scope, ls, UnpairedSeries)
         | Some limit \<Rightarrow>
             (case (ms_value util, ms_value limit) of
                (Fin u, Fin l) \<Rightarrow>
                  if l \<le> 0 then BadLimit (scope, ls, NonPositiveLimit)
                  else JoinedRow \<lparr>qr_scope = scope, qr_labels = ls, qr_utilization = u, qr_limitTokens = l,
                         qr_headroom = l * (1 - u), qr_pressure = quotaPressure u\<rparr>
              | _ \<Rightarrow> Unpaired (scope, ls, UnpairedSeries)))"

fun join_rows :: "joined \<Rightarrow> quota_row list" where
  "join_rows (JoinedRow r) = [r]"
| "join_rows _ = []"

fun join_anomalies :: "joined \<Rightarrow> quota_anomaly list" where
  "join_anomalies (JoinedRow r) = []"
| "join_anomalies (BadLimit a) = [a]"
| "join_anomalies (Unpaired a) = [a]"

fun is_paired :: "joined \<Rightarrow> bool" where
  "is_paired (Unpaired a) = False"
| "is_paired _ = True"

definition readQuotaScope :: "metrics_snapshot option \<Rightarrow> quota_scope \<Rightarrow> scope_reading" where
  "readQuotaScope snapshot scope =
     (let spec = quotaScope scope; none = \<lparr>rd_scope = scope, rd_absent = True, rd_rows = [], rd_anomalies = []\<rparr>
      in case snapshot of
           None \<Rightarrow> none
         | Some sn \<Rightarrow>
             if sn_failure sn then none
             else if map_of (sn_families sn) (sf_utilization spec) = None \<and> map_of (sn_families sn) (sf_limit spec) = None then none
             else (let limits = limit_index (selectSamples sn (sf_limit spec) None) (sf_labels spec);
                       utils = selectSamples sn (sf_utilization spec) None;
                       joins = map (join_sample spec limits) utils;
                       paired = map (\<lambda>u. bucketKey u (sf_labels spec)) (filter (\<lambda>u. is_paired (join_sample spec limits u)) utils)
                   in \<lparr>rd_scope = scope, rd_absent = False, rd_rows = concat (map join_rows joins),
                       rd_anomalies = concat (map join_anomalies joins)
                         @ map (\<lambda>(key, limit). (sf_scope spec, labelsOf limit (sf_labels spec), UnpairedSeries))
                             (filter (\<lambda>(key, limit). key \<notin> set paired) limits)\<rparr>))"

subsection \<open>The verdict\<close>

datatype quota_verdict = NotConfigurable | EnforcementOffline | UnconfiguredQuota | Idle | Active | IndeterminateQuota

record quota_input =
  qi_snapshot :: "metrics_snapshot option"
  qi_storeState :: store_state
  qi_anyLimitResolves :: bool
  qi_userIdentityAvailable :: bool

record quota_report =
  qp_verdict :: quota_verdict
  qp_storeState :: store_state
  qp_scopes :: "scope_reading list"
  qp_rows :: "quota_row list"
  qp_anomalies :: "quota_anomaly list"
  qp_coldOpened :: bool
  qp_userIdentityUnavailable :: bool

definition quotaVerdict :: "quota_input \<Rightarrow> bool \<Rightarrow> quota_verdict" where
  "quotaVerdict input hasRows =
     (if hasRows then Active
      else (case qi_storeState input of
              UnconfiguredStore \<Rightarrow> NotConfigurable
            | Unavailable \<Rightarrow> EnforcementOffline
            | UnknownStore \<Rightarrow> IndeterminateQuota
            | Readable \<Rightarrow> if qi_anyLimitResolves input then Idle else UnconfiguredQuota))"

fun is_positive :: "jsnum \<Rightarrow> bool" where
  "is_positive (Fin r) = (r > 0)"
| "is_positive _ = False"

definition tokenQuotaReport :: "quota_input \<Rightarrow> quota_report" where
  "tokenQuotaReport input =
     (let scopes = map (\<lambda>s. readQuotaScope (qi_snapshot input) (sf_scope s)) QUOTA_SCOPES;
          rows = concat (map rd_rows scopes);
          coldOpenSamples = (case qi_snapshot input of
              None \<Rightarrow> [] | Some sn \<Rightarrow> if sn_failure sn then [] else selectSamples sn TOKEN_QUOTA_COLD_OPEN None)
      in \<lparr>qp_verdict = quotaVerdict input (rows \<noteq> []), qp_storeState = qi_storeState input, qp_scopes = scopes, qp_rows = rows,
          qp_anomalies = concat (map rd_anomalies scopes),
          qp_coldOpened = list_ex (\<lambda>s. is_positive (ms_value s)) coldOpenSamples,
          qp_userIdentityUnavailable = (\<not> qi_userIdentityAvailable input)\<rparr>)"

definition coldOpenApplies :: "quota_report \<Rightarrow> bool" where
  "coldOpenApplies report \<longleftrightarrow> qp_coldOpened report \<and> (qp_verdict report = Active \<or> qp_verdict report = Idle)"

datatype scope_absence = NoUserIdentity | AwaitingCharge | NoLimit | Unexplained

definition scopeAbsence :: "quota_scope \<Rightarrow> quota_report \<Rightarrow> bool \<Rightarrow> scope_absence" where
  "scopeAbsence scope report limitResolves =
     (let spec = quotaScope scope
      in if sf_needsUserIdentity spec \<and> qp_userIdentityUnavailable report then NoUserIdentity
         else if \<not> limitResolves then NoLimit
         else if sf_needsCharge spec then AwaitingCharge
         else Unexplained)"

subsection \<open>Facts\<close>

lemma scope_found [simp]: "sf_scope (quotaScope scope) = scope"
  by (cases scope) (simp_all add: quotaScope_def QUOTA_SCOPES_def)

lemma positive_nonneg: "0 \<le> positive v"
  by (cases v rule: positive.cases) auto

lemma one_each: "length (join_rows j) + length (join_anomalies j) = 1"
  by (cases j) auto

lemma one_each_all:
  "length (concat (map join_rows js)) + length (concat (map join_anomalies js)) = length js"
proof (induction js)
  case (Cons j js)
  then show ?case using one_each [of j] by simp
qed simp

lemma joined_row:
  "r \<in> set (join_rows (join_sample spec limits util)) \<Longrightarrow>
     0 < qr_limitTokens r \<and> qr_headroom r = qr_limitTokens r - qr_limitTokens r * qr_utilization r \<and>
     (qr_pressure r = InDebt \<longleftrightarrow> qr_headroom r < 0) \<and> (qr_pressure r = Within \<longleftrightarrow> 0 < qr_headroom r)"
proof -
  assume r: "r \<in> set (join_rows (join_sample spec limits util))"
  then obtain u l where ul: "0 < l" "qr_utilization r = u" "qr_limitTokens r = l" "qr_headroom r = l * (1 - u)" "qr_pressure r = quotaPressure u"
    by (auto simp: join_sample_def Let_def split: option.splits jsnum.splits if_splits)
  have "l * (1 - u) < 0 \<longleftrightarrow> 1 < u" "0 < l * (1 - u) \<longleftrightarrow> u < 1"
    using ul(1) by (simp_all add: mult_less_0_iff zero_less_mult_iff)
  then show ?thesis
    using ul by (auto simp: quotaPressure_def right_diff_distrib)
qed

subsection \<open>Properties\<close>

text \<open>Every utilization series is shown or reported: a scope that is read gives one row or one anomaly for
  each of its utilization samples, and more anomalies only for limits without one.\<close>

theorem quota_series_accounted:
  "if rd_absent (readQuotaScope (Some sn) scope) then rd_rows (readQuotaScope (Some sn) scope) = [] \<and> rd_anomalies (readQuotaScope (Some sn) scope) = []
   else length (selectSamples sn (sf_utilization (quotaScope scope)) None)
          \<le> length (rd_rows (readQuotaScope (Some sn) scope)) + length (rd_anomalies (readQuotaScope (Some sn) scope))"
proof -
  have "length us \<le> length (concat (map join_rows (map (join_sample spec limits) us))) + (length (concat (map join_anomalies (map (join_sample spec limits) us))) + n)"
    for us spec limits n
    using one_each_all [of "map (join_sample spec limits) us"] by simp
  then show ?thesis
    by (auto simp: readQuotaScope_def Let_def)
qed

text \<open>A row of the panel is sound: its limit is positive, its headroom is what the limit leaves, and the
  pressure it shows is in debt exactly below zero headroom and within exactly above it.\<close>

theorem quota_rows_sound:
  "list_all (\<lambda>r. 0 < qr_limitTokens r \<and> qr_headroom r = qr_limitTokens r - qr_limitTokens r * qr_utilization r \<and>
       (qr_pressure r = InDebt \<longleftrightarrow> qr_headroom r < 0) \<and> (qr_pressure r = Within \<longleftrightarrow> 0 < qr_headroom r))
     (qp_rows (tokenQuotaReport input))"
proof -
  have row: "0 < qr_limitTokens r \<and> qr_headroom r = qr_limitTokens r - qr_limitTokens r * qr_utilization r \<and>
       (qr_pressure r = InDebt \<longleftrightarrow> qr_headroom r < 0) \<and> (qr_pressure r = Within \<longleftrightarrow> 0 < qr_headroom r)"
    if r: "r \<in> set (rd_rows (readQuotaScope snapshot scope))" for r snapshot scope
  proof -
    obtain spec limits util where "r \<in> set (join_rows (join_sample spec limits util))"
      using r by (auto simp: readQuotaScope_def Let_def split: option.splits if_splits)
    then show ?thesis by (rule joined_row)
  qed
  show ?thesis
    unfolding list_all_iff tokenQuotaReport_def Let_def using row by auto
qed

text \<open>An enforcement outage is never shown as "nothing configured": with no metered bucket the verdict says
  offline exactly when the store is unavailable, and not configurable exactly when it has none; any
  answer the client cannot read is indeterminate.\<close>

theorem outage_is_told:
  "if qp_rows (tokenQuotaReport input) \<noteq> [] then qp_verdict (tokenQuotaReport input) = Active
   else qp_verdict (tokenQuotaReport input) \<noteq> Active \<and>
     (qp_verdict (tokenQuotaReport input) = EnforcementOffline \<longleftrightarrow> qi_storeState input = Unavailable) \<and>
     (qp_verdict (tokenQuotaReport input) = NotConfigurable \<longleftrightarrow> qi_storeState input = UnconfiguredStore) \<and>
     (qp_verdict (tokenQuotaReport input) = IndeterminateQuota \<longleftrightarrow> qi_storeState input = UnknownStore)"
  by (auto simp: tokenQuotaReport_def Let_def quotaVerdict_def split: store_state.split)

definition field_or_default :: "jsnum option \<Rightarrow> jsnum option \<Rightarrow> rat" where
  "field_or_default own globl = (if positive own > 0 then positive own else positive globl)"

text \<open>The defaults apply field by field: the rule's row replaces a global default only by a positive value,
  so a row of zeros changes nothing; and a limit that resolves is always positive.\<close>

theorem defaults_by_field:
  "resolveQuotaDefaults globl rule =
     \<lparr>qd_tenantTpm = field_or_default (row_field dr_tenantTpm rule) (row_field dr_tenantTpm globl),
      qd_userTpm = field_or_default (row_field dr_userTpm rule) (row_field dr_userTpm globl),
      qd_vipTpm = field_or_default (row_field dr_vipTpm rule) (row_field dr_vipTpm globl)\<rparr> \<and>
   (case effectiveLimit scope explicitTpm defaults of None \<Rightarrow> positive explicitTpm = 0 | Some (tpm, src) \<Rightarrow> 0 < tpm)"
  using positive_nonneg [of explicitTpm]
  by (auto simp: resolveQuotaDefaults_def field_or_default_def override_def row_field_def effectiveLimit_def default_limit_def Let_def
      split: option.split)

end
