(* ===== verification/CapabilityRegistry.thy ===== *)
theory CapabilityRegistry
  imports AiTraffic AuditWriter TokenQuota LbConnector
begin

section \<open>Which panels apply: \<open>observability/capabilityRegistry.ts\<close>\<close>

text \<open>
  The registry of every observability page and panel, and when one of them applies to an instance: only when
  each of its requirements is proven by the vendored manifest \<open>vs\<close>, the capability map (its
  \<open>gatewayOnlyPaths\<close>), the flavor and the topology. Both artifacts are generated and so parameters.
\<close>

definition AI_EVENT_FAMILIES :: "string list" where
  "AI_EVENT_FAMILIES = [
     ''loxilb_ai_requests_total'', ''loxilb_ai_rate_limit_hits_total'', ''loxilb_ai_model_not_allowed_total'',
     ''loxilb_ai_token_quota_denied_total'']"

definition AI_TRAFFIC_FAMILIES :: "string list" where
  "AI_TRAFFIC_FAMILIES = AI_EVENT_FAMILIES @ [
     ''loxilb_ai_active_streams'', ''loxilb_ai_token_quota_cold_open_total'',
     ''loxilb_ai_token_quota_utilization'', ''loxilb_ai_token_quota_limit_tokens'',
     ''loxilb_ai_token_quota_model_utilization'', ''loxilb_ai_token_quota_model_limit_tokens'',
     ''loxilb_ai_jwt_validation_total'']"

definition PD_KV_FAMILIES :: "string list" where
  "PD_KV_FAMILIES = [
     ''loxilb_pd_admission_overflow_shed_total'', ''loxilb_pd_admission_queued_total'',
     ''loxilb_pd_admission_shed_total'', ''loxilb_pd_sessions_active'', ''loxilb_pd_fallback_to_normal_total'',
     ''loxilb_pd_connect_failover_total'', ''loxilb_ai_pd_tier_selected_total'',
     ''loxilb_ai_pd_session_hits_total'', ''loxilb_ai_kv_attest_state'',
     ''loxilb_ai_kv_attest_probe_fail_total'', ''loxilb_ai_kv_enforcement_fault'',
     ''loxilb_kv_subscriber_last_event_timestamp_seconds'', ''loxilb_kv_inventory_fresh'',
     ''loxilb_pd_ep_info'']"

definition SECURITY_FAMILIES :: "string list" where
  "SECURITY_FAMILIES = [
     ''loxilb_security_syn_blocked_total'', ''loxilb_security_conn_blocked_total'',
     ''loxilb_security_udp_blocked_total'', ''loxilb_fw_drop_packets_total'', ''loxilb_firewall_rules'',
     ''loxilb_ipfilter_blacklist_packets_total'', ''loxilb_ipfilter_rules'', ''loxilb_l4_error_events_total'',
     ''loxilb_opa_firewall_rules'', ''loxilb_opa_circuit_breaker_state'',
     ''loxilb_ai_unmetered_requests_total'', ''loxilb_ai_policy_store_unavailable_total'']"

definition QOS_FAMILIES :: "string list" where
  "QOS_FAMILIES = [
     ''loxilb_policer_attached'']"

definition PERSISTENCE_FAMILIES :: "string list" where
  "PERSISTENCE_FAMILIES = [
     ''loxilb_autopersist_consecutive_failures'', ''loxilb_config_dirty'', ''loxilb_snapshot_quarantine_total'',
     ''loxilb_boot_config_conflict_total'']"

definition HA_SYNC_FAMILIES :: "string list" where
  "HA_SYNC_FAMILIES = [
     ''loxilb_sockproxy_sync_overflow_total'', ''loxilb_sockproxy_sync_health_reject_total'',
     ''loxilb_sockproxy_sync_apply_errors_total'', ''loxilb_sockproxy_sync_conflict_total'',
     ''loxilb_sockproxy_sync_push_latency_seconds'', ''loxilb_sockproxy_sync_inflight_rpc'',
     ''loxilb_sockproxy_sync_drop_total'', ''loxilb_sockproxy_sync_peer_up'',
     ''loxilb_sockproxy_sync_peer_lag_seconds'', ''loxilb_proxy_conversation_sessions'',
     ''loxilb_proxy_conversation_hits_total'', ''loxilb_proxy_conversation_misses_total'',
     ''loxilb_proxy_conversation_ttl_expired_total'']"

definition JWKS_HEALTH_FAMILIES :: "string list" where
  "JWKS_HEALTH_FAMILIES = [
     ''loxilb_ai_jwks_usable'', ''loxilb_ai_jwks_keys'', ''loxilb_ai_jwks_last_success_timestamp_seconds'',
     ''loxilb_ai_jwks_refresh_total'']"

record topology_input =
  ti_gatewayCount :: int

datatype entry_kind = PageEntry | PanelEntry
datatype entry_flavor = CommonFlavor | GatewayFlavor

record observability_entry =
  oe_id :: string
  oe_kind :: entry_kind
  oe_flavor :: entry_flavor
  oe_metricFamilies :: "string list"
  oe_restPaths :: "string list"
  oe_minGatewayCount :: "int option"

definition allObservabilityEntries :: "observability_entry list" where
  "allObservabilityEntries = [
     \<lparr>oe_id = ''dashboard.commonCards'', oe_kind = PanelEntry, oe_flavor = CommonFlavor,
      oe_metricFamilies = [],
      oe_restPaths = [], oe_minGatewayCount = None\<rparr>,
     \<lparr>oe_id = ''dashboard.gwAiEvents'', oe_kind = PanelEntry, oe_flavor = GatewayFlavor,
      oe_metricFamilies = AI_EVENT_FAMILIES,
      oe_restPaths = [], oe_minGatewayCount = None\<rparr>,
     \<lparr>oe_id = ''dashboard.gwActiveStreams'', oe_kind = PanelEntry, oe_flavor = GatewayFlavor,
      oe_metricFamilies = [''loxilb_ai_active_streams''],
      oe_restPaths = [], oe_minGatewayCount = None\<rparr>,
     \<lparr>oe_id = ''dashboard.gwWorkerFreshness'', oe_kind = PanelEntry, oe_flavor = GatewayFlavor,
      oe_metricFamilies = [],
      oe_restPaths = [''/config/gpu/status''], oe_minGatewayCount = None\<rparr>,
     \<lparr>oe_id = ''dashboard.gwKvExactNonReady'', oe_kind = PanelEntry, oe_flavor = GatewayFlavor,
      oe_metricFamilies = [''loxilb_ai_kv_attest_state'', ''loxilb_ai_kv_enforcement_fault''],
      oe_restPaths = [], oe_minGatewayCount = None\<rparr>,
     \<lparr>oe_id = ''dashboard.gwPersistenceFailures'', oe_kind = PanelEntry, oe_flavor = GatewayFlavor,
      oe_metricFamilies = [''loxilb_config_dirty'', ''loxilb_autopersist_consecutive_failures'', ''loxilb_persist_total''],
      oe_restPaths = [''/diagnostics''], oe_minGatewayCount = None\<rparr>,
     \<lparr>oe_id = ''panel.jwtKeysetHealth'', oe_kind = PanelEntry, oe_flavor = GatewayFlavor,
      oe_metricFamilies = JWKS_HEALTH_FAMILIES,
      oe_restPaths = [''/config/ai/jwtauthprofile''], oe_minGatewayCount = None\<rparr>,
     \<lparr>oe_id = ''panel.tokenQuota'', oe_kind = PanelEntry, oe_flavor = GatewayFlavor,
      oe_metricFamilies = TOKEN_QUOTA_FAMILIES,
      oe_restPaths = [''/config/ai/ratelimit/defaults/{scope}''], oe_minGatewayCount = None\<rparr>,
     \<lparr>oe_id = ''panel.aiAdmission'', oe_kind = PanelEntry, oe_flavor = GatewayFlavor,
      oe_metricFamilies = ADMISSION_FAMILIES,
      oe_restPaths = [], oe_minGatewayCount = None\<rparr>,
     \<lparr>oe_id = ''panel.proxyOverload'', oe_kind = PanelEntry, oe_flavor = GatewayFlavor,
      oe_metricFamilies = PROXY_OVERLOAD_FAMILIES,
      oe_restPaths = [], oe_minGatewayCount = None\<rparr>,
     \<lparr>oe_id = ''panel.workerScrape'', oe_kind = PanelEntry, oe_flavor = GatewayFlavor,
      oe_metricFamilies = [''loxilb_ai_worker_scrape_total''],
      oe_restPaths = [], oe_minGatewayCount = None\<rparr>,
     \<lparr>oe_id = ''panel.auditWriter'', oe_kind = PanelEntry, oe_flavor = GatewayFlavor,
      oe_metricFamilies = AUDIT_FAMILIES,
      oe_restPaths = [], oe_minGatewayCount = None\<rparr>,
     \<lparr>oe_id = ''panel.bandOutcomes'', oe_kind = PanelEntry, oe_flavor = GatewayFlavor,
      oe_metricFamilies = [''loxilb_ai_fc_band_total''],
      oe_restPaths = [], oe_minGatewayCount = None\<rparr>,
     \<lparr>oe_id = ''panel.logLoss'', oe_kind = PanelEntry, oe_flavor = GatewayFlavor,
      oe_metricFamilies = [''loxilb_log_lines_dropped_total''],
      oe_restPaths = [], oe_minGatewayCount = None\<rparr>,
     \<lparr>oe_id = ''panel.proxyPools'', oe_kind = PanelEntry, oe_flavor = GatewayFlavor,
      oe_metricFamilies = [''loxilb_proxy_pools_live'', ''loxilb_proxy_pools_freed_total''],
      oe_restPaths = [], oe_minGatewayCount = None\<rparr>,
     \<lparr>oe_id = ''page.aiTraffic'', oe_kind = PageEntry, oe_flavor = GatewayFlavor,
      oe_metricFamilies = AI_TRAFFIC_FAMILIES,
      oe_restPaths = [], oe_minGatewayCount = None\<rparr>,
     \<lparr>oe_id = ''page.workers'', oe_kind = PageEntry, oe_flavor = GatewayFlavor,
      oe_metricFamilies = [''loxilb_pd_kv_blocks'', ''loxilb_pd_admission_queued_total'', ''loxilb_pd_admission_shed_total''],
      oe_restPaths = [''/config/worker/metrics'', ''/config/gpu/status''], oe_minGatewayCount = None\<rparr>,
     \<lparr>oe_id = ''page.pdKv'', oe_kind = PageEntry, oe_flavor = GatewayFlavor,
      oe_metricFamilies = PD_KV_FAMILIES,
      oe_restPaths = [], oe_minGatewayCount = None\<rparr>,
     \<lparr>oe_id = ''page.security'', oe_kind = PageEntry, oe_flavor = GatewayFlavor,
      oe_metricFamilies = SECURITY_FAMILIES,
      oe_restPaths = [], oe_minGatewayCount = None\<rparr>,
     \<lparr>oe_id = ''page.qos'', oe_kind = PageEntry, oe_flavor = GatewayFlavor,
      oe_metricFamilies = QOS_FAMILIES,
      oe_restPaths = [], oe_minGatewayCount = None\<rparr>,
     \<lparr>oe_id = ''page.persistence'', oe_kind = PageEntry, oe_flavor = GatewayFlavor,
      oe_metricFamilies = PERSISTENCE_FAMILIES,
      oe_restPaths = [''/diagnostics''], oe_minGatewayCount = None\<rparr>,
     \<lparr>oe_id = ''page.haSync'', oe_kind = PageEntry, oe_flavor = GatewayFlavor,
      oe_metricFamilies = HA_SYNC_FAMILIES,
      oe_restPaths = [], oe_minGatewayCount = Some 2\<rparr>]"

definition getObservabilityEntry :: "string \<Rightarrow> observability_entry option" where
  "getObservabilityEntry ident = List.find (\<lambda>e. oe_id e = ident) allObservabilityEntries"

definition restPathAvailable :: "capability_map \<Rightarrow> flavor \<Rightarrow> string \<Rightarrow> bool" where
  "restPathAvailable m flavor path =
     (if flavor = InferenceGateway then True
      else \<not> list_ex (\<lambda>p. p = path \<or> starts_with p (path @ ''/'')) (gatewayOnlyPaths m))"

definition isEntryApplicable :: "vendored_family list \<Rightarrow> capability_map \<Rightarrow> string \<Rightarrow> flavor option \<Rightarrow> topology_input option \<Rightarrow> bool" where
  "isEntryApplicable vs m ident flavor topology =
     (case (getObservabilityEntry ident, flavor) of
        (Some entry, Some f) \<Rightarrow>
          if oe_flavor entry = GatewayFlavor \<and> f \<noteq> InferenceGateway then False
          else if \<not> list_all (isGatewayScrapeFamily vs) (oe_metricFamilies entry) then False
          else if \<not> list_all (restPathAvailable m f) (oe_restPaths entry) then False
          else (case oe_minGatewayCount entry of
                  None \<Rightarrow> True
                | Some least \<Rightarrow> (case topology of None \<Rightarrow> False | Some t \<Rightarrow> \<not> ti_gatewayCount t < least))
      | _ \<Rightarrow> False)"

definition applicableEntries :: "vendored_family list \<Rightarrow> capability_map \<Rightarrow> flavor option \<Rightarrow> topology_input option \<Rightarrow> string list" where
  "applicableEntries vs m flavor topology =
     map oe_id (filter (\<lambda>e. isEntryApplicable vs m (oe_id e) flavor topology) allObservabilityEntries)"

subsection \<open>Facts\<close>

lemma registry_ids: "distinct (map oe_id allObservabilityEntries)"
  by code_simp

lemma entry_found: "e \<in> set allObservabilityEntries \<Longrightarrow> getObservabilityEntry (oe_id e) = Some e"
proof -
  have "distinct (map oe_id es) \<Longrightarrow> e \<in> set es \<Longrightarrow> List.find (\<lambda>x. oe_id x = oe_id e) es = Some e" for es
    by (induction es) auto
  then show "e \<in> set allObservabilityEntries \<Longrightarrow> getObservabilityEntry (oe_id e) = Some e"
    unfolding getObservabilityEntry_def using registry_ids by blast
qed

text \<open>What an entry needs of an instance.\<close>

definition requirements_met :: "vendored_family list \<Rightarrow> capability_map \<Rightarrow> observability_entry \<Rightarrow> flavor \<Rightarrow> topology_input option \<Rightarrow> bool" where
  "requirements_met vs m e f topology \<longleftrightarrow>
     (oe_flavor e = CommonFlavor \<or> f = InferenceGateway) \<and>
     (\<forall>n\<in>set (oe_metricFamilies e). isGatewayScrapeFamily vs n) \<and>
     (\<forall>p\<in>set (oe_restPaths e). f = InferenceGateway \<or> (\<forall>q\<in>set (gatewayOnlyPaths m). \<not> under_prefix p q)) \<and>
     (case oe_minGatewayCount e of None \<Rightarrow> True | Some least \<Rightarrow> (\<exists>t. topology = Some t \<and> least \<le> ti_gatewayCount t))"

lemma applicable_entry:
  assumes "e \<in> set allObservabilityEntries"
  shows "isEntryApplicable vs m (oe_id e) flavor topology \<longleftrightarrow> (\<exists>f. flavor = Some f \<and> requirements_met vs m e f topology)"
proof -
  have kinds: "oe_flavor e = GatewayFlavor \<longleftrightarrow> oe_flavor e \<noteq> CommonFlavor"
    by (cases "oe_flavor e") auto
  have flavors: "f \<noteq> InferenceGateway \<longleftrightarrow> f = Loxilb" for f
    by (cases f) auto
  show ?thesis
    unfolding isEntryApplicable_def entry_found [OF assms] requirements_met_def restPathAvailable_def under_prefix_def
    using kinds flavors by (auto simp: list_all_iff list_ex_iff not_less split: option.splits if_splits)
qed

lemma gateway_entries:
  "filter (\<lambda>e. oe_flavor e = CommonFlavor) allObservabilityEntries =
    [\<lparr>oe_id = ''dashboard.commonCards'', oe_kind = PanelEntry, oe_flavor = CommonFlavor, oe_metricFamilies = [], oe_restPaths = [], oe_minGatewayCount = None\<rparr>]"
  by code_simp

text \<open>The registry denies by default. An instance that is not known to be an inference gateway gets the
  common cards alone, whatever the manifest, the capability map and the topology say; without an instance
  nothing applies; and without a topology no entry that asks for several gateways does.\<close>

theorem denied_by_default:
  "applicableEntries vs m (Some Loxilb) topology = [''dashboard.commonCards''] \<and>
   applicableEntries vs m None topology = [] \<and>
   ''page.haSync'' \<notin> set (applicableEntries vs m flavor None) \<and>
   set (applicableEntries vs m (Some f) topology) = oe_id ` {e \<in> set allObservabilityEntries. requirements_met vs m e f topology}"
proof (intro conjI)
  have common: "isEntryApplicable vs m (oe_id e) (Some Loxilb) topology \<longleftrightarrow> oe_flavor e = CommonFlavor" if e: "e \<in> set allObservabilityEntries" for e
  proof
    assume "isEntryApplicable vs m (oe_id e) (Some Loxilb) topology"
    then show "oe_flavor e = CommonFlavor"
      using applicable_entry [OF e] by (auto simp: requirements_met_def)
  next
    assume "oe_flavor e = CommonFlavor"
    then have "e \<in> set (filter (\<lambda>e. oe_flavor e = CommonFlavor) allObservabilityEntries)"
      using e by simp
    then have "requirements_met vs m e Loxilb topology"
      unfolding gateway_entries by (auto simp: requirements_met_def)
    then show "isEntryApplicable vs m (oe_id e) (Some Loxilb) topology"
      unfolding applicable_entry [OF e] by blast
  qed
  then have "filter (\<lambda>e. isEntryApplicable vs m (oe_id e) (Some Loxilb) topology) allObservabilityEntries = filter (\<lambda>e. oe_flavor e = CommonFlavor) allObservabilityEntries"
    by (intro filter_cong) auto
  then show "applicableEntries vs m (Some Loxilb) topology = [''dashboard.commonCards'']"
    by (simp add: applicableEntries_def gateway_entries)
  have "\<not> isEntryApplicable vs m ident None topology" for ident
    by (simp add: isEntryApplicable_def split: option.split)
  then show "applicableEntries vs m None topology = []"
    by (simp add: applicableEntries_def)
  have "getObservabilityEntry ''page.haSync'' = Some \<lparr>oe_id = ''page.haSync'', oe_kind = PageEntry, oe_flavor = GatewayFlavor,
      oe_metricFamilies = HA_SYNC_FAMILIES, oe_restPaths = [], oe_minGatewayCount = Some 2\<rparr>"
    by code_simp
  then show "''page.haSync'' \<notin> set (applicableEntries vs m flavor None)"
    by (auto simp: applicableEntries_def isEntryApplicable_def split: option.splits if_splits)
  show "set (applicableEntries vs m (Some f) topology) = oe_id ` {e \<in> set allObservabilityEntries. requirements_met vs m e f topology}"
    using applicable_entry [of _ vs m "Some f" topology] by (auto simp: applicableEntries_def)
qed

end
