(* ===== verification/DashboardLayout.thy ===== *)
theory DashboardLayout
  imports CapabilityRegistry Json
begin

section \<open>The dashboard grid\<close>

text \<open>
  \<open>pages/dashboardLayout.ts\<close> and the storage effect of \<open>pages/DashboardPage.tsx\<close>, with the keys of
  \<open>preferences.ts\<close>: the rows of the default grid, the cards a flavor gets, and the reconciliation of a
  saved grid with them. A saved item is a value of the stored document; of its members the geometry is
  kept (the grid library's own flags are carried along by the code and not modelled).
\<close>

record layout_card =
  lc_i :: string
  lc_x :: rat
  lc_y :: rat
  lc_w :: rat
  lc_h :: rat

subsection \<open>Rows\<close>

record row_card =
  rc_i :: string
  rc_x :: rat
  rc_w :: rat

record row_spec =
  rs_h :: rat
  rs_cards :: "row_card list"

abbreviation card :: "string \<Rightarrow> rat \<Rightarrow> rat \<Rightarrow> row_card" where
  "card i x w \<equiv> \<lparr>rc_i = i, rc_x = x, rc_w = w\<rparr>"

definition place_row :: "row_spec \<Rightarrow> layout_card list \<times> rat \<Rightarrow> layout_card list \<times> rat" where
  "place_row row acc =
     (fst acc @ map (\<lambda>c. \<lparr>lc_i = rc_i c, lc_x = rc_x c, lc_y = snd acc, lc_w = rc_w c, lc_h = rs_h row\<rparr>) (rs_cards row),
      snd acc + rs_h row)"

definition stackRows :: "row_spec list \<Rightarrow> rat \<Rightarrow> layout_card list \<times> rat" where
  "stackRows rows startY = fold place_row rows ([], startY)"

definition BASE_ROWS :: "row_spec list" where
  "BASE_ROWS =
     [\<lparr>rs_h = 2, rs_cards = [card ''system-usage'' 0 8, card ''ha'' 8 4]\<rparr>,
      \<lparr>rs_h = 13 / 10, rs_cards = [card ''connection-flows'' 0 4, card ''health-status'' 4 4, card ''lb-rules'' 8 4]\<rparr>,
      \<lparr>rs_h = 115 / 100,
       rs_cards = [card ''total-traffic-rate'' 0 4, card ''total-packet-rate'' 4 4, card ''total-error-rate'' 8 4]\<rparr>,
      \<lparr>rs_h = 2, rs_cards = [card ''system-log'' 0 12]\<rparr>]"

definition BASE_DASHBOARD_LAYOUT :: "layout_card list" where
  "BASE_DASHBOARD_LAYOUT = fst (stackRows BASE_ROWS 0)"

definition BASE_END_Y :: rat where
  "BASE_END_Y = snd (stackRows BASE_ROWS 0)"

definition GW_SUMMARY_ROWS :: "row_spec list" where
  "GW_SUMMARY_ROWS =
     [\<lparr>rs_h = 13 / 10,
       rs_cards = [card ''gw-ai-events'' 0 4, card ''gw-active-streams'' 4 4, card ''gw-worker-freshness'' 8 4]\<rparr>,
      \<lparr>rs_h = 13 / 10, rs_cards = [card ''gw-kv-exact'' 0 6, card ''gw-persistence'' 6 6]\<rparr>]"

definition GW_SUMMARY_LAYOUT :: "layout_card list" where
  "GW_SUMMARY_LAYOUT = fst (stackRows GW_SUMMARY_ROWS BASE_END_Y)"

subsection \<open>The cards of a flavor\<close>

text \<open>\<open>GW_SUMMARY_CARDS\<close>: the key of each card and the registry entry that grants it.\<close>

definition GW_SUMMARY_CARDS :: "(string \<times> string) list" where
  "GW_SUMMARY_CARDS =
     [(''gw-ai-events'', ''dashboard.gwAiEvents''),
      (''gw-active-streams'', ''dashboard.gwActiveStreams''),
      (''gw-worker-freshness'', ''dashboard.gwWorkerFreshness''),
      (''gw-kv-exact'', ''dashboard.gwKvExactNonReady''),
      (''gw-persistence'', ''dashboard.gwPersistenceFailures'')]"

definition applicableGwSummaryCards ::
  "vendored_family list \<Rightarrow> capability_map \<Rightarrow> flavor option \<Rightarrow> (string \<times> string) list" where
  "applicableGwSummaryCards vs m flavor =
     filter (\<lambda>c. flavor \<noteq> None \<and> isEntryApplicable vs m (snd c) flavor None) GW_SUMMARY_CARDS"

definition defaultLayoutFor ::
  "vendored_family list \<Rightarrow> capability_map \<Rightarrow> layout_card list \<Rightarrow> flavor option \<Rightarrow> layout_card list" where
  "defaultLayoutFor vs m base flavor =
     (let applicable = map fst (applicableGwSummaryCards vs m flavor)
      in base @ filter (\<lambda>l. lc_i l \<in> set applicable) GW_SUMMARY_LAYOUT)"

subsection \<open>Reconciliation\<close>

fun finite_rat :: "jsv \<Rightarrow> rat option" where
  "finite_rat (JNum (Fin r)) = Some r"
| "finite_rat _ = None"

text \<open>\<open>isLayoutItem\<close>, as the card it recognises.\<close>

definition layout_item :: "jsv \<Rightarrow> layout_card option" where
  "layout_item v =
     (case (vget v ''i'', finite_rat (vget v ''x''), finite_rat (vget v ''y''), finite_rat (vget v ''w''), finite_rat (vget v ''h'')) of
        (JStr i, Some x, Some y, Some w, Some h) \<Rightarrow> Some \<lparr>lc_i = i, lc_x = x, lc_y = y, lc_w = w, lc_h = h\<rparr>
      | _ \<Rightarrow> None)"

text \<open>One saved item: the keys seen, the items kept, and whether one was dropped.\<close>

definition keep_item ::
  "string list \<Rightarrow> jsv \<Rightarrow> string list \<times> layout_card list \<times> bool \<Rightarrow> string list \<times> layout_card list \<times> bool" where
  "keep_item wanted item acc = (case acc of (seen, kept, dropped) \<Rightarrow>
     (case layout_item item of
        None \<Rightarrow> (seen, kept, True)
      | Some c \<Rightarrow>
          if lc_i c \<notin> set wanted \<or> lc_i c \<in> set seen then (seen, kept, True)
          else (seen @ [lc_i c], kept @ [c], dropped)))"

definition append_card :: "layout_card \<Rightarrow> layout_card list \<times> rat \<Rightarrow> layout_card list \<times> rat" where
  "append_card d acc = (fst acc @ [d\<lparr>lc_y := snd acc\<rparr>], snd acc + lc_h d)"

definition bottom_of :: "layout_card list \<Rightarrow> rat" where
  "bottom_of kept = foldl (\<lambda>m c. max m (lc_y c + lc_h c)) 0 kept"

record reconcile_result =
  rr_layout :: "layout_card list"
  rr_changed :: bool

definition reconcileDashboardLayout :: "jsv \<Rightarrow> layout_card list \<Rightarrow> reconcile_result" where
  "reconcileDashboardLayout saved defaults = (case saved of
     JArr items \<Rightarrow>
       (case fold (keep_item (map lc_i defaults)) items ([], [], False) of
          (seen, kept, dropped) \<Rightarrow>
            if kept = [] then \<lparr>rr_layout = defaults, rr_changed = True\<rparr>
            else (let missing = filter (\<lambda>d. lc_i d \<notin> set seen) defaults
                  in \<lparr>rr_layout = fst (fold append_card missing (kept, bottom_of kept)),
                      rr_changed = (dropped \<or> missing \<noteq> [])\<rparr>))
   | _ \<Rightarrow> \<lparr>rr_layout = defaults, rr_changed = True\<rparr>)"

subsection \<open>The stored grid\<close>

definition dashboardLayoutLegacy :: string where
  "dashboardLayoutLegacy = ''dashboard_layout_v2''"

definition dashboardLayoutKey :: "flavor \<Rightarrow> string" where
  "dashboardLayoutKey f = (if f = InferenceGateway then ''dashboard_layout_v3:inference-gateway'' else ''dashboard_layout_v3:loxilb'')"

definition readStoredLayout :: "(string \<Rightarrow> string option) \<Rightarrow> string \<Rightarrow> jsv" where
  "readStoredLayout storage key = (case storage key of
     None \<Rightarrow> JUndef
   | Some raw \<Rightarrow> if raw = [] then JUndef else (case json_parse raw of None \<Rightarrow> JUndef | Some v \<Rightarrow> v))"

definition card_value :: "layout_card \<Rightarrow> jsv" where
  "card_value c = JObj [(''i'', JStr (lc_i c)), (''x'', JNum (Fin (lc_x c))), (''y'', JNum (Fin (lc_y c))),
     (''w'', JNum (Fin (lc_w c))), (''h'', JNum (Fin (lc_h c)))]"

definition save_layout :: "string \<Rightarrow> layout_card list \<Rightarrow> (string \<Rightarrow> string option) \<Rightarrow> string \<Rightarrow> string option" where
  "save_layout key cards storage = storage(key := Some (json_stringify (JArr (map card_value cards))))"

text \<open>The effect that runs when the flavor is resolved: the grid to show and the storage after it.\<close>

definition load_layout ::
  "vendored_family list \<Rightarrow> capability_map \<Rightarrow> flavor option \<Rightarrow> (string \<Rightarrow> string option)
     \<Rightarrow> layout_card list \<times> (string \<Rightarrow> string option)" where
  "load_layout vs m flavor storage = (case flavor of
     None \<Rightarrow> (defaultLayoutFor vs m BASE_DASHBOARD_LAYOUT None, storage)
   | Some f \<Rightarrow>
       (let key = dashboardLayoutKey f;
            stored = or_default (readStoredLayout storage key) (readStoredLayout storage dashboardLayoutLegacy);
            r = reconcileDashboardLayout stored (defaultLayoutFor vs m BASE_DASHBOARD_LAYOUT flavor)
        in (rr_layout r,
            if stored \<noteq> JUndef \<and> (rr_changed r \<or> readStoredLayout storage key = JUndef)
            then save_layout key (rr_layout r) storage else storage)))"

subsection \<open>No two cards collide\<close>

text \<open>Two cards do not overlap; the cards of a list pairwise.\<close>

definition apart :: "layout_card \<Rightarrow> layout_card \<Rightarrow> bool" where
  "apart a b \<longleftrightarrow> lc_x a + lc_w a \<le> lc_x b \<or> lc_x b + lc_w b \<le> lc_x a \<or> lc_y a + lc_h a \<le> lc_y b \<or> lc_y b + lc_h b \<le> lc_y a"

lemma full_layout_apart: "sorted_wrt apart (BASE_DASHBOARD_LAYOUT @ GW_SUMMARY_LAYOUT)"
  by code_simp

lemma full_layout_keys: "distinct (map lc_i (BASE_DASHBOARD_LAYOUT @ GW_SUMMARY_LAYOUT))"
  by code_simp

lemma full_layout_heights: "list_all (\<lambda>c. 0 < lc_h c) (BASE_DASHBOARD_LAYOUT @ GW_SUMMARY_LAYOUT)"
  by code_simp

subsection \<open>What is kept and what is appended\<close>

definition kept_from :: "string list \<Rightarrow> jsv list \<Rightarrow> string list \<times> layout_card list \<times> bool" where
  "kept_from wanted items = fold (keep_item wanted) items ([], [], False)"

lemma kept_from_snoc: "kept_from wanted (items @ [v]) = keep_item wanted v (kept_from wanted items)"
  by (simp add: kept_from_def)

lemma kept_facts:
  assumes "kept_from wanted items = (seen, kept, dropped)"
  shows "seen = map lc_i kept \<and> distinct seen \<and> (\<forall>c\<in>set kept. lc_i c \<in> set wanted)
    \<and> (\<forall>c\<in>set kept. Some c \<in> set (map layout_item items))
    \<and> (\<forall>v\<in>set items. \<forall>c. layout_item v = Some c \<longrightarrow> lc_i c \<in> set wanted \<longrightarrow> lc_i c \<in> set seen)
    \<and> (\<not> dropped \<longrightarrow> map layout_item items = map Some kept)"
  using assms
proof (induction items arbitrary: seen kept dropped rule: rev_induct)
  case Nil
  then show ?case
    by (simp add: kept_from_def)
next
  case (snoc v items)
  obtain s k d where k: "kept_from wanted items = (s, k, d)"
    by (cases "kept_from wanted items")
  show ?case
    using snoc.prems snoc.IH [OF k] by (auto simp: kept_from_snoc k keep_item_def split: option.splits if_splits)
qed

primrec stacked :: "layout_card list \<Rightarrow> rat \<Rightarrow> layout_card list" where
  "stacked [] y = []"
| "stacked (d # ds) y = d\<lparr>lc_y := y\<rparr> # stacked ds (y + lc_h d)"

lemma fold_append_card: "fst (fold append_card ms (acc, y)) = acc @ stacked ms y"
  by (induction ms arbitrary: acc y) (auto simp: append_card_def)

lemma stacked_keys [simp]: "map lc_i (stacked ms y) = map lc_i ms"
  by (induction ms arbitrary: y) auto

lemma stacked_below: "list_all (\<lambda>c. 0 < lc_h c) ms \<Longrightarrow> c \<in> set (stacked ms y) \<Longrightarrow> y \<le> lc_y c"
  by (induction ms arbitrary: y) force+

lemma stacked_apart: "list_all (\<lambda>c. 0 < lc_h c) ms \<Longrightarrow> sorted_wrt apart (stacked ms y)"
proof (induction ms arbitrary: y)
  case (Cons d ds)
  then show ?case
    using stacked_below [of ds _ "y + lc_h d"] by (auto simp: apart_def)
qed simp

lemma bottom_below: "c \<in> set kept \<Longrightarrow> lc_y c + lc_h c \<le> bottom_of kept"
proof -
  have mono: "m \<le> foldl (\<lambda>m c. max m (lc_y c + lc_h c)) m kept" for m :: rat and kept
  proof (induction kept arbitrary: m)
    case (Cons a kept)
    show ?case
      using Cons.IH [of "max m (lc_y a + lc_h a)"] by simp
  qed simp
  have "c \<in> set kept \<Longrightarrow> lc_y c + lc_h c \<le> foldl (\<lambda>m c. max m (lc_y c + lc_h c)) m kept" for m
  proof (induction kept arbitrary: m)
    case (Cons d kept)
    then show ?case
      using mono [of "max m (lc_y d + lc_h d)" kept] by auto
  qed simp
  then show "c \<in> set kept \<Longrightarrow> lc_y c + lc_h c \<le> bottom_of kept"
    by (simp add: bottom_of_def)
qed

lemma default_facts:
  "sorted_wrt apart (defaultLayoutFor vs m BASE_DASHBOARD_LAYOUT f)"
  "distinct (map lc_i (defaultLayoutFor vs m BASE_DASHBOARD_LAYOUT f))"
  "list_all (\<lambda>c. 0 < lc_h c) (defaultLayoutFor vs m BASE_DASHBOARD_LAYOUT f)"
  using full_layout_apart full_layout_keys full_layout_heights
  by (auto simp: defaultLayoutFor_def Let_def sorted_wrt_append sorted_wrt_filter list_all_iff distinct_map_filter)

definition saved_items :: "jsv \<Rightarrow> jsv list" where
  "saved_items saved = (case saved of JArr items \<Rightarrow> items | _ \<Rightarrow> [])"

text \<open>Cards that were saved stay where they were saved: each kept card is one of the items, and an item of a
  wanted card leaves a kept card of its key.\<close>

definition kept_where_saved :: "jsv list \<Rightarrow> layout_card list \<Rightarrow> layout_card list \<Rightarrow> bool" where
  "kept_where_saved items defaults kept \<longleftrightarrow>
     list_all (\<lambda>c. list_ex (\<lambda>v. layout_item v = Some c) items) kept
     \<and> list_all (\<lambda>v. case layout_item v of None \<Rightarrow> True
          | Some c \<Rightarrow> if list_ex (\<lambda>d. lc_i d = lc_i c) defaults then list_ex (\<lambda>k. lc_i k = lc_i c) kept else True) items"

lemma kept_is_saved:
  assumes "kept_from (map lc_i defaults) items = (seen, kept, dropped)"
  shows "kept_where_saved items defaults kept"
proof -
  note k = kept_facts [OF assms]
  have "list_ex (\<lambda>k. lc_i k = lc_i c) kept"
    if "v \<in> set items" "layout_item v = Some c" "list_ex (\<lambda>d. lc_i d = lc_i c) defaults" for v c
  proof -
    have "lc_i c \<in> set (map lc_i defaults)"
      using that(3) by (auto simp: list_ex_iff image_iff) metis
    then show ?thesis
      using k that(1,2) by (fastforce simp: list_ex_iff)
  qed
  moreover have "\<exists>v\<in>set items. layout_item v = Some c" if "c \<in> set kept" for c
  proof -
    have "Some c \<in> layout_item ` set items"
      using k that by simp
    then show ?thesis
      by (auto simp: image_iff)
  qed
  ultimately show ?thesis
    by (simp add: kept_where_saved_def list_all_iff list_ex_iff split: option.split)
qed

lemma new_below:
  assumes "list_all (\<lambda>c. 0 < lc_h c) missing"
  shows "list_all (\<lambda>c. list_all (apart c) (stacked missing (bottom_of kept))) kept"
proof -
  have "apart c n" if "c \<in> set kept" "n \<in> set (stacked missing (bottom_of kept))" for c n
    using bottom_below [OF that(1)] stacked_below [OF assms that(2)] by (simp add: apart_def)
  then show ?thesis
    by (simp add: list_all_iff)
qed

text \<open>C10. Whatever was saved, the grid shown holds each card of the flavor exactly once: cards that were saved
  where they were saved, the others below all of them, no two of those and none of them with a saved one
  in collision; and it is called unchanged only if it is what was saved.\<close>

theorem grid_holds_every_card_once:
  fixes vs m f saved
  defines "defaults \<equiv> defaultLayoutFor vs m BASE_DASHBOARD_LAYOUT f"
  defines "r \<equiv> reconcileDashboardLayout saved defaults"
  shows "distinct (map lc_i (rr_layout r)) \<and> set (map lc_i (rr_layout r)) = set (map lc_i defaults)
    \<and> (\<exists>kept new. rr_layout r = kept @ new \<and> kept_where_saved (saved_items saved) defaults kept
         \<and> sorted_wrt apart new \<and> list_all (\<lambda>c. list_all (apart c) new) kept)
    \<and> (if rr_changed r then True else \<exists>items. saved = JArr items \<and> map layout_item items = map Some (rr_layout r))"
proof -
  obtain seen kept dropped where s: "kept_from (map lc_i defaults) (saved_items saved) = (seen, kept, dropped)"
    by (cases "kept_from (map lc_i defaults) (saved_items saved)")
  note k = kept_facts [OF s] and w = kept_is_saved [OF s]
  note d = default_facts [of vs m f, folded defaults_def]
  show ?thesis
  proof (cases "kept = []")
    case True
    then have r: "r = \<lparr>rr_layout = defaults, rr_changed = True\<rparr>"
      using s by (auto simp: r_def reconcileDashboardLayout_def kept_from_def saved_items_def split: jsv.splits)
    have "\<exists>kept new. rr_layout r = kept @ new \<and> kept_where_saved (saved_items saved) defaults kept
         \<and> sorted_wrt apart new \<and> list_all (\<lambda>c. list_all (apart c) new) kept"
      by (rule exI [of _ "[]"], rule exI [of _ defaults]) (use d w True r in simp)
    then show ?thesis
      using d r by simp
  next
    case False
    then obtain items where i: "saved = JArr items" "saved_items saved = items"
      using s by (cases saved) (auto simp: saved_items_def kept_from_def)
    define missing where "missing = filter (\<lambda>d. lc_i d \<notin> set seen) defaults"
    define new where "new = stacked missing (bottom_of kept)"
    have r: "rr_layout r = kept @ new" "rr_changed r = (dropped \<or> missing \<noteq> [])"
      using s False i by (simp_all add: r_def reconcileDashboardLayout_def kept_from_def fold_append_card missing_def new_def Let_def)
    have h: "list_all (\<lambda>c. 0 < lc_h c) missing" "distinct (map lc_i missing)"
      using d(2,3) by (auto simp: missing_def list_all_iff distinct_map_filter)
    have keys: "map lc_i new = map lc_i missing" "set (map lc_i missing) = set (map lc_i defaults) - set seen"
      by (auto simp: new_def missing_def)
    have "distinct (map lc_i (rr_layout r))" "set (map lc_i (rr_layout r)) = set (map lc_i defaults)"
      using k h(2) keys by (auto simp: r(1))
    moreover have "if rr_changed r then True else \<exists>items. saved = JArr items \<and> map layout_item items = map Some (rr_layout r)"
      using k by (auto simp: r i(1) saved_items_def new_def)
    ultimately show ?thesis
      using r(1) w stacked_apart [OF h(1)] new_below [OF h(1)] unfolding new_def by blast
  qed
qed

lemma legacy_untouched: "snd (load_layout vs m f storage) dashboardLayoutLegacy = storage dashboardLayoutLegacy"
  by (simp add: load_layout_def Let_def save_layout_def dashboardLayoutKey_def dashboardLayoutLegacy_def split: option.split)

end
