(* ===== verification/SystemUsage.thy ===== *)
theory SystemUsage
  imports JsText
begin

section \<open>System usage\<close>

text \<open>
  \<open>utils/systemUsage.ts\<close>: the shares of CPU, memory and disk a card shows, from the rows of \<open>top\<close> and \<open>df\<close>
  or from the gauges. A column that is absent is \<open>None\<close>.
\<close>

datatype usage_source = FromMetrics | FromLoxilbScope | FromTop | FromDf

record derived_usage =
  du_percent :: jsnum
  du_source :: usage_source
  du_detail :: "string option"

record process_attribute =
  pa_CPUUsage :: "string option"
  pa_MemoryUsage :: "string option"

record filesystem_attribute =
  fa_mountedOn :: "string option"
  fa_size :: "string option"
  fa_type :: "string option"
  fa_usePercent :: "string option"

definition strip_percent :: "string \<Rightarrow> string" where
  "strip_percent s = (if s \<noteq> [] \<and> last s = CHR ''%'' then butlast s else s)"

fun finite_of :: "jsnum \<Rightarrow> rat option" where
  "finite_of (Fin r) = Some r"
| "finite_of _ = None"

definition parse_percent :: "string option \<Rightarrow> rat option" where
  "parse_percent v = (case v of None \<Rightarrow> None | Some s \<Rightarrow> finite_of (js_number (strip_percent (js_trim s))))"

definition add_process :: "('a \<Rightarrow> string option) \<Rightarrow> 'a \<Rightarrow> rat \<times> nat \<Rightarrow> rat \<times> nat" where
  "add_process pick p acc = (case parse_percent (pick p) of
     None \<Rightarrow> acc | Some v \<Rightarrow> (fst acc + v, snd acc + 1))"

definition sum_process_column :: "'a list \<Rightarrow> ('a \<Rightarrow> string option) \<Rightarrow> rat \<times> nat" where
  "sum_process_column processes pick = fold (add_process pick) processes (0, 0)"

definition clamp_percent :: "rat \<Rightarrow> rat" where
  "clamp_percent v = min (max v 0) 100"

definition derive_from_top :: "(process_attribute \<Rightarrow> string option) \<Rightarrow> process_attribute list option \<Rightarrow> derived_usage option" where
  "derive_from_top pick processes = (case processes of
     None \<Rightarrow> None
   | Some ps \<Rightarrow>
       if ps = [] then None
       else (let (tot, counted) = sum_process_column ps pick
             in if counted = 0 then None
                else Some \<lparr>du_percent = Fin (clamp_percent tot), du_source = FromTop, du_detail = Some (nat_str counted)\<rparr>))"

definition derive_cpu_usage :: "process_attribute list option \<Rightarrow> derived_usage option" where
  "derive_cpu_usage = derive_from_top pa_CPUUsage"

definition derive_memory_usage :: "process_attribute list option \<Rightarrow> derived_usage option" where
  "derive_memory_usage = derive_from_top pa_MemoryUsage"

definition cpu_usage_from_metrics :: "jsnum option \<Rightarrow> jsnum option \<Rightarrow> derived_usage option" where
  "cpu_usage_from_metrics host scope =
     (case host of
        Some h \<Rightarrow> if is_finite h then Some \<lparr>du_percent = h, du_source = FromMetrics, du_detail = None\<rparr>
                   else (case scope of
                       Some s \<Rightarrow> if is_finite s then Some \<lparr>du_percent = s, du_source = FromLoxilbScope, du_detail = None\<rparr> else None
                     | None \<Rightarrow> None)
      | None \<Rightarrow> (case scope of
            Some s \<Rightarrow> if is_finite s then Some \<lparr>du_percent = s, du_source = FromLoxilbScope, du_detail = None\<rparr> else None
          | None \<Rightarrow> None))"

definition PSEUDO_FILESYSTEM_TYPES :: "string list" where
  "PSEUDO_FILESYSTEM_TYPES = [''tmpfs'', ''devtmpfs'', ''squashfs'', ''ramfs'', ''overlay'']"

text \<open>\<open>/^([0-9.]+)\s*([KMGTP]?)i?B?$/i\<close>: the number, and the power of 1024 of its unit.\<close>

definition unit_power :: "char \<Rightarrow> nat option" where
  "unit_power c =
     (let l = lower_char c in
      if l = CHR ''k'' then Some 1 else if l = CHR ''m'' then Some 2 else if l = CHR ''g'' then Some 3
      else if l = CHR ''t'' then Some 4 else if l = CHR ''p'' then Some 5 else None)"

definition skip_letter :: "char \<Rightarrow> string \<Rightarrow> string" where
  "skip_letter l s = (if s \<noteq> [] \<and> lower_char (hd s) = l then tl s else s)"

definition size_match :: "string \<Rightarrow> (string \<times> nat) option" where
  "size_match s =
     (let digits = takeWhile (\<lambda>c. is_digit c \<or> c = CHR ''.'') s;
          r = dropWhile is_space (drop (length digits) s);
          (expo, r) = (if r \<noteq> [] \<and> unit_power (hd r) \<noteq> None then (the (unit_power (hd r)), tl r) else (0, r))
      in if digits = [] \<or> skip_letter CHR ''b'' (skip_letter CHR ''i'' r) \<noteq> [] then None else Some (digits, expo))"

definition parse_size_to_bytes :: "string option \<Rightarrow> rat" where
  "parse_size_to_bytes v = (case v of
     None \<Rightarrow> 0
   | Some s \<Rightarrow>
       if s = [] then 0
       else (case size_match (js_trim s) of
           None \<Rightarrow> 0
         | Some (digits, expo) \<Rightarrow>
             (case finite_of (js_number digits) of None \<Rightarrow> 0 | Some r \<Rightarrow> r * 1024 ^ expo)))"

definition larger :: "filesystem_attribute \<Rightarrow> filesystem_attribute \<Rightarrow> filesystem_attribute" where
  "larger biggest fs = (if parse_size_to_bytes (fa_size biggest) < parse_size_to_bytes (fa_size fs) then fs else biggest)"

definition is_pseudo :: "filesystem_attribute \<Rightarrow> bool" where
  "is_pseudo fs \<longleftrightarrow> to_lower (case fa_type fs of None \<Rightarrow> [] | Some t \<Rightarrow> t) \<in> set PSEUDO_FILESYSTEM_TYPES"

definition usable_filesystems :: "filesystem_attribute list \<Rightarrow> filesystem_attribute list" where
  "usable_filesystems fss = filter (\<lambda>fs. parse_percent (fa_usePercent fs) \<noteq> None) fss"

definition disk_candidates :: "filesystem_attribute list \<Rightarrow> filesystem_attribute list" where
  "disk_candidates usable =
     (let proper = filter (\<lambda>fs. \<not> is_pseudo fs) usable in if proper \<noteq> [] then proper else usable)"

definition chosen_filesystem :: "filesystem_attribute list \<Rightarrow> filesystem_attribute" where
  "chosen_filesystem usable =
     (let candidates = disk_candidates usable; largest = foldl larger (hd candidates) candidates
      in case find (\<lambda>fs. fa_mountedOn fs = Some ''/'') usable of Some r \<Rightarrow> r | None \<Rightarrow> largest)"

definition derive_disk_usage :: "filesystem_attribute list option \<Rightarrow> derived_usage option" where
  "derive_disk_usage filesystems = (case filesystems of
     None \<Rightarrow> None
   | Some fss \<Rightarrow>
       (let usable = usable_filesystems fss
        in if usable = [] then None
           else (let chosen = chosen_filesystem usable
                 in case parse_percent (fa_usePercent chosen) of
                      None \<Rightarrow> None
                    | Some p \<Rightarrow> Some \<lparr>du_percent = Fin (clamp_percent p), du_source = FromDf, du_detail = fa_mountedOn chosen\<rparr>)))"

subsection \<open>What a share is drawn from\<close>

lemma clamp_range: "0 \<le> clamp_percent v \<and> clamp_percent v \<le> 100"
  by (simp add: clamp_percent_def)

lemma sum_column:
  "sum_process_column ps pick = (sum_list (List.map_filter (\<lambda>p. parse_percent (pick p)) ps),
     length (List.map_filter (\<lambda>p. parse_percent (pick p)) ps))"
proof -
  have "fold (add_process pick) ps (a, n) = (a + sum_list (List.map_filter (\<lambda>p. parse_percent (pick p)) ps),
     n + length (List.map_filter (\<lambda>p. parse_percent (pick p)) ps))" for a n
    by (induction ps arbitrary: a n) (auto simp: add_process_def map_filter_simps split: option.splits)
  then show ?thesis
    by (simp add: sum_process_column_def)
qed

lemma largest_facts:
  assumes "candidates \<noteq> []"
  shows "foldl larger (hd candidates) candidates \<in> set candidates
    \<and> (\<forall>fs\<in>set candidates. parse_size_to_bytes (fa_size fs)
         \<le> parse_size_to_bytes (fa_size (foldl larger (hd candidates) candidates)))"
proof -
  have "foldl larger b xs \<in> insert b (set xs)
      \<and> (\<forall>fs\<in>insert b (set xs). parse_size_to_bytes (fa_size fs) \<le> parse_size_to_bytes (fa_size (foldl larger b xs)))" for b xs
  proof (induction xs arbitrary: b)
    case (Cons x xs)
    then show ?case
      using Cons.IH [of "larger b x"] by (fastforce simp: larger_def split: if_splits)
  qed simp
  from this [of "hd candidates" candidates] show ?thesis
    using assms by (auto simp: hd_in_set insert_absorb)
qed

text \<open>The disk share is read from one file system that states its use: the root if it is listed, else one
  that no listed real file system is larger than, a pseudo file system only when there is no real one;
  the shares from processes are sums of what the rows state, none when no row does; and every share
  derived lies between 0 and 100.\<close>

theorem shares_are_measured:
  "(case derive_disk_usage fss of
      None \<Rightarrow> \<not> list_ex (\<lambda>fs. parse_percent (fa_usePercent fs) \<noteq> None) (case fss of None \<Rightarrow> [] | Some l \<Rightarrow> l)
    | Some u \<Rightarrow>
        (\<exists>l fs p. fss = Some l \<and> fs \<in> set l \<and> parse_percent (fa_usePercent fs) = Some p
           \<and> du_percent u = Fin (clamp_percent p) \<and> 0 \<le> clamp_percent p \<and> clamp_percent p \<le> 100
           \<and> (if list_ex (\<lambda>g. fa_mountedOn g = Some ''/'' \<and> parse_percent (fa_usePercent g) \<noteq> None) l
              then fa_mountedOn fs = Some ''/''
              else list_all (\<lambda>g. if parse_percent (fa_usePercent g) = None \<or> is_pseudo g then True
                     else \<not> is_pseudo fs \<and> parse_size_to_bytes (fa_size g) \<le> parse_size_to_bytes (fa_size fs)) l)))
   \<and> (case derive_from_top pick ps of
      None \<Rightarrow> List.map_filter (\<lambda>p. parse_percent (pick p)) (case ps of None \<Rightarrow> [] | Some l \<Rightarrow> l) = []
    | Some u \<Rightarrow> \<exists>l. ps = Some l \<and> du_percent u = Fin (clamp_percent (sum_list (List.map_filter (\<lambda>p. parse_percent (pick p)) l)))
        \<and> du_detail u = Some (nat_str (length (List.map_filter (\<lambda>p. parse_percent (pick p)) l)))
        \<and> List.map_filter (\<lambda>p. parse_percent (pick p)) l \<noteq> [])"
proof
  show "case derive_from_top pick ps of
      None \<Rightarrow> List.map_filter (\<lambda>p. parse_percent (pick p)) (case ps of None \<Rightarrow> [] | Some l \<Rightarrow> l) = []
    | Some u \<Rightarrow> \<exists>l. ps = Some l \<and> du_percent u = Fin (clamp_percent (sum_list (List.map_filter (\<lambda>p. parse_percent (pick p)) l)))
        \<and> du_detail u = Some (nat_str (length (List.map_filter (\<lambda>p. parse_percent (pick p)) l)))
        \<and> List.map_filter (\<lambda>p. parse_percent (pick p)) l \<noteq> []"
    by (cases ps) (auto simp: derive_from_top_def sum_column map_filter_simps)
next
  show "case derive_disk_usage fss of
      None \<Rightarrow> \<not> list_ex (\<lambda>fs. parse_percent (fa_usePercent fs) \<noteq> None) (case fss of None \<Rightarrow> [] | Some l \<Rightarrow> l)
    | Some u \<Rightarrow>
        (\<exists>l fs p. fss = Some l \<and> fs \<in> set l \<and> parse_percent (fa_usePercent fs) = Some p
           \<and> du_percent u = Fin (clamp_percent p) \<and> 0 \<le> clamp_percent p \<and> clamp_percent p \<le> 100
           \<and> (if list_ex (\<lambda>g. fa_mountedOn g = Some ''/'' \<and> parse_percent (fa_usePercent g) \<noteq> None) l
              then fa_mountedOn fs = Some ''/''
              else list_all (\<lambda>g. if parse_percent (fa_usePercent g) = None \<or> is_pseudo g then True
                     else \<not> is_pseudo fs \<and> parse_size_to_bytes (fa_size g) \<le> parse_size_to_bytes (fa_size fs)) l))"
  proof (cases "\<exists>l. fss = Some l \<and> list_ex (\<lambda>fs. parse_percent (fa_usePercent fs) \<noteq> None) l")
    case False
    then have "derive_disk_usage fss = None"
      by (auto simp: derive_disk_usage_def usable_filesystems_def Let_def filter_empty_conv list_ex_iff split: option.split)
    then show ?thesis
      using False by (auto split: option.split)
  next
    case True
    then obtain l where l: "fss = Some l" "list_ex (\<lambda>fs. parse_percent (fa_usePercent fs) \<noteq> None) l"
      by blast
    define usable where "usable = usable_filesystems l"
    define candidates where "candidates = disk_candidates usable"
    define chosen where "chosen = chosen_filesystem usable"
    have u: "usable \<noteq> []"
      using l(2) by (auto simp: usable_def usable_filesystems_def filter_empty_conv list_ex_iff)
    then have "candidates \<noteq> []" "set candidates \<subseteq> set usable"
      by (auto simp: candidates_def disk_candidates_def Let_def)
    note big = largest_facts [OF this(1)]
    have c: "chosen \<in> set usable"
      using big \<open>set candidates \<subseteq> set usable\<close>
      by (auto simp: chosen_def chosen_filesystem_def candidates_def [symmetric] Let_def find_Some_iff split: option.split)
    then obtain p where p: "parse_percent (fa_usePercent chosen) = Some p"
      by (auto simp: usable_def usable_filesystems_def)
    have d: "derive_disk_usage fss = Some \<lparr>du_percent = Fin (clamp_percent p), du_source = FromDf, du_detail = fa_mountedOn chosen\<rparr>"
      using u p by (simp add: derive_disk_usage_def l(1) Let_def usable_def [symmetric] chosen_def [symmetric])
    have root: "list_ex (\<lambda>g. fa_mountedOn g = Some ''/'' \<and> parse_percent (fa_usePercent g) \<noteq> None) l
        \<longleftrightarrow> find (\<lambda>fs. fa_mountedOn fs = Some ''/'') usable \<noteq> None"
      by (auto simp: find_None_iff usable_def usable_filesystems_def list_ex_iff)
    have "if list_ex (\<lambda>g. fa_mountedOn g = Some ''/'' \<and> parse_percent (fa_usePercent g) \<noteq> None) l
              then fa_mountedOn chosen = Some ''/''
              else list_all (\<lambda>g. if parse_percent (fa_usePercent g) = None \<or> is_pseudo g then True
                     else \<not> is_pseudo chosen \<and> parse_size_to_bytes (fa_size g) \<le> parse_size_to_bytes (fa_size chosen)) l"
    proof (cases "find (\<lambda>fs. fa_mountedOn fs = Some ''/'') usable")
      case None
      have "\<not> is_pseudo chosen \<and> parse_size_to_bytes (fa_size g) \<le> parse_size_to_bytes (fa_size chosen)"
        if g: "g \<in> set l" "parse_percent (fa_usePercent g) \<noteq> None" "\<not> is_pseudo g" for g
      proof -
        have "g \<in> set (filter (\<lambda>fs. \<not> is_pseudo fs) usable)"
          using g by (simp add: usable_def usable_filesystems_def)
        then have "candidates = filter (\<lambda>fs. \<not> is_pseudo fs) usable" "g \<in> set candidates"
          unfolding candidates_def disk_candidates_def Let_def by (metis list.set(1) empty_iff)+
        then show ?thesis
          using big by (auto simp: chosen_def chosen_filesystem_def candidates_def [symmetric] None Let_def)
      qed
      then show ?thesis
        using root None by (auto simp: list_all_iff)
    next
      case (Some r)
      then have "chosen = r" "fa_mountedOn r = Some ''/''"
        by (auto simp: chosen_def chosen_filesystem_def Let_def) (auto simp: find_Some_iff)
      then show ?thesis
        using root Some by simp
    qed
    note best = this
    have "chosen \<in> set l"
      using c by (simp add: usable_def usable_filesystems_def)
    with best show ?thesis
      unfolding d option.case using p clamp_range [of p] l(1)
      by (intro exI [of _ l] exI [of _ chosen] exI [of _ p] conjI) simp_all
  qed
qed

text \<open>A blank text is read as the number 0.\<close>

lemma blank_percent_is_zero: "parse_percent (Some []) = Some 0 \<and> parse_percent (Some ''%'') = Some 0"
  by code_simp

end
