(* ===== verification/Preferences.thy ===== *)
theory Preferences
  imports Json
begin

section \<open>Stored preferences\<close>

text \<open>
  \<open>preferences.ts\<close> and \<open>hooks/localStorageHook.ts\<close>: the shape guards of the preferences, the trust in a
  stored text, and the hook instances of one tab that share a key, with the writes of other tabs. The
  locale is what a preference needs to be kept valid: a guard that holds of the default and admits only
  values that survive their text.
\<close>

type_synonym guard = "jsv \<Rightarrow> bool"

definition isTableDensity :: guard where
  "isTableDensity v \<longleftrightarrow> v = JStr ''comfortable'' \<or> v = JStr ''compact''"

fun isStringPreference :: guard where
  "isStringPreference (JStr _) = True"
| "isStringPreference _ = False"

fun isBooleanPreference :: guard where
  "isBooleanPreference (JBool _) = True"
| "isBooleanPreference _ = False"

definition OBSERVABILITY_CADENCE_OPTIONS_MS :: "int list" where
  "OBSERVABILITY_CADENCE_OPTIONS_MS = [5000, 10000, 30000, 60000]"

definition isObservabilityCadence :: guard where
  "isObservabilityCadence v \<longleftrightarrow> v \<in> set (map (\<lambda>n. jint n) OBSERVABILITY_CADENCE_OPTIONS_MS)"

definition DEFAULT_TABLE_DENSITY :: jsv where "DEFAULT_TABLE_DENSITY = JStr ''comfortable''"
definition DEFAULT_SIDE_MENU_OPEN :: jsv where "DEFAULT_SIDE_MENU_OPEN = JBool True"
definition DEFAULT_OBSERVABILITY_CADENCE_MS :: jsv where "DEFAULT_OBSERVABILITY_CADENCE_MS = jint 10000"

subsection \<open>Trust\<close>

text \<open>\<open>None\<close> is the value that is not trusted.\<close>

definition coerceStored :: "string \<Rightarrow> jsv \<Rightarrow> guard option \<Rightarrow> jsv option" where
  "coerceStored raw default_value isValid = (case json_parse raw of
     None \<Rightarrow>
       (case isValid of
          None \<Rightarrow> (case default_value of JStr _ \<Rightarrow> Some (JStr raw) | _ \<Rightarrow> None)
        | Some ok \<Rightarrow> if ok (JStr raw) then Some (JStr raw) else None)
   | Some parsed \<Rightarrow>
       (case isValid of
          None \<Rightarrow> Some parsed
        | Some ok \<Rightarrow> if ok parsed then Some parsed else None))"

definition readStored :: "string option \<Rightarrow> jsv \<Rightarrow> guard option \<Rightarrow> jsv" where
  "readStored stored default_value isValid = (case stored of
     None \<Rightarrow> default_value
   | Some raw \<Rightarrow> (case coerceStored raw default_value isValid of None \<Rightarrow> default_value | Some v \<Rightarrow> v))"

subsection \<open>The hook\<close>

text \<open>The stored text of the key and the states of the instances of the hook in one tab.\<close>

record pref_tab =
  pt_stored :: "string option"
  pt_states :: "jsv list"

text \<open>The effect on a changed state: the text is stored and the other instances are told.\<close>

definition emit :: "jsv \<Rightarrow> jsv list \<Rightarrow> jsv list" where
  "emit v states = map (\<lambda>s. if json_stringify v \<noteq> json_stringify s then v else s) states"

definition write_through :: "jsv \<Rightarrow> pref_tab \<Rightarrow> pref_tab" where
  "write_through v t = t\<lparr>pt_stored := Some (json_stringify v), pt_states := emit v (pt_states t)\<rparr>"

definition mount_pref :: "jsv \<Rightarrow> guard option \<Rightarrow> pref_tab \<Rightarrow> pref_tab" where
  "mount_pref default_value isValid t =
     (let v = readStored (pt_stored t) default_value isValid
      in write_through v (t\<lparr>pt_states := pt_states t @ [v]\<rparr>))"

definition set_pref :: "nat \<Rightarrow> jsv \<Rightarrow> pref_tab \<Rightarrow> pref_tab" where
  "set_pref i v t =
     (if i < length (pt_states t) then write_through v (t\<lparr>pt_states := (pt_states t)[i := v]\<rparr>) else t)"

text \<open>Another tab wrote the key: an untrusted text is ignored, a trusted value is adopted and written back.\<close>

definition other_tab :: "jsv \<Rightarrow> guard option \<Rightarrow> string \<Rightarrow> pref_tab \<Rightarrow> pref_tab" where
  "other_tab default_value isValid raw t =
     (let t = t\<lparr>pt_stored := Some raw\<rparr>
      in case coerceStored raw default_value isValid of
           None \<Rightarrow> t
         | Some v \<Rightarrow> if pt_states t = [] then t else write_through v (t\<lparr>pt_states := map (\<lambda>_. v) (pt_states t)\<rparr>))"

datatype pref_event = MountPref | SetPref nat jsv | OtherTab string

fun pref_step :: "jsv \<Rightarrow> guard option \<Rightarrow> pref_event \<Rightarrow> pref_tab \<Rightarrow> pref_tab" where
  "pref_step d ok MountPref t = mount_pref d ok t"
| "pref_step d ok (SetPref i v) t = set_pref i v t"
| "pref_step d ok (OtherTab raw) t = other_tab d ok raw t"

definition pref_run :: "jsv \<Rightarrow> guard option \<Rightarrow> pref_event list \<Rightarrow> pref_tab \<Rightarrow> pref_tab" where
  "pref_run d ok evs t = fold (pref_step d ok) evs t"

text \<open>What a component of the declared type writes.\<close>

fun typed_write :: "guard \<Rightarrow> pref_event \<Rightarrow> bool" where
  "typed_write ok (SetPref _ v) = ok v"
| "typed_write ok _ = True"

subsection \<open>A preference stays valid\<close>

locale preference =
  fixes ok :: guard and default_value :: jsv
  assumes default_ok: "ok default_value"
    and ok_jsonable: "ok v \<Longrightarrow> jsonable v"
begin

lemma coerce_ok: "coerceStored raw default_value (Some ok) = Some v \<Longrightarrow> ok v"
  by (auto simp: coerceStored_def split: option.splits if_splits)

lemma read_ok: "ok (readStored stored default_value (Some ok))"
  using coerce_ok default_ok by (auto simp: readStored_def split: option.split)

lemma written_reads_back: "ok v \<Longrightarrow> readStored (Some (json_stringify v)) default_value (Some ok) = v"
  using ok_jsonable by (simp add: readStored_def coerceStored_def json_roundtrip)

lemma emit_agrees: "ok v \<Longrightarrow> list_all ok states \<Longrightarrow> s \<in> set (emit v states) \<Longrightarrow> s = v"
  using json_stringify_inj ok_jsonable by (auto simp: emit_def list_all_iff)

text \<open>Every state is valid and all are the same.\<close>

definition settled :: "pref_tab \<Rightarrow> bool" where
  "settled t \<longleftrightarrow> list_all ok (pt_states t) \<and> (\<forall>a\<in>set (pt_states t). \<forall>b\<in>set (pt_states t). a = b)"

lemma write_settles: "ok v \<Longrightarrow> list_all ok (pt_states t) \<Longrightarrow> settled (write_through v t)"
  using emit_agrees [of v "pt_states t"] by (auto simp: settled_def write_through_def list_all_iff)

lemma list_all_update: "list_all P xs \<Longrightarrow> P x \<Longrightarrow> list_all P (xs[i := x])"
  by (auto simp: list_all_iff dest: set_update_subset_insert [THEN subsetD])

lemma step_settles: "settled t \<Longrightarrow> typed_write ok e \<Longrightarrow> settled (pref_step default_value (Some ok) e t)"
proof (cases e)
  case MountPref
  assume "settled t"
  then show ?thesis
    using MountPref read_ok [of "pt_stored t"] by (auto simp: mount_pref_def Let_def settled_def intro!: write_settles [unfolded settled_def])
next
  case (SetPref i v)
  assume "settled t" "typed_write ok e"
  then show ?thesis
    using SetPref list_all_update by (auto simp: set_pref_def settled_def intro!: write_settles [unfolded settled_def])
next
  case (OtherTab raw)
  assume t: "settled t"
  show ?thesis
  proof (cases "coerceStored raw default_value (Some ok)")
    case None
    then show ?thesis
      using OtherTab t by (simp add: other_tab_def settled_def)
  next
    case (Some v)
    then have "settled (write_through v (t\<lparr>pt_stored := Some raw, pt_states := map (\<lambda>_. v) (pt_states t)\<rparr>))"
      using coerce_ok by (intro write_settles) (auto simp: list_all_iff)
    then show ?thesis
      using OtherTab t Some by (auto simp: other_tab_def settled_def Let_def)
  qed
qed

lemma run_settles:
  "settled t \<Longrightarrow> list_all (typed_write ok) evs \<Longrightarrow> settled (pref_run default_value (Some ok) evs t)"
proof (induction evs arbitrary: t)
  case (Cons e evs)
  then show ?case
    using step_settles by (simp add: pref_run_def)
qed (simp add: pref_run_def)

end

interpretation density: preference isTableDensity DEFAULT_TABLE_DENSITY
  by unfold_locales (auto simp: isTableDensity_def DEFAULT_TABLE_DENSITY_def)

interpretation side_menu: preference isBooleanPreference DEFAULT_SIDE_MENU_OPEN
proof
  show "isBooleanPreference v \<Longrightarrow> jsonable v" for v
    by (cases v) auto
qed (simp add: DEFAULT_SIDE_MENU_OPEN_def)

interpretation audit_instance: preference isStringPreference "JStr []"
proof
  show "isStringPreference v \<Longrightarrow> jsonable v" for v
    by (cases v) auto
qed simp

interpretation cadence: preference isObservabilityCadence DEFAULT_OBSERVABILITY_CADENCE_MS
  using double_bound_large by unfold_locales (auto simp: isObservabilityCadence_def OBSERVABILITY_CADENCE_OPTIONS_MS_def DEFAULT_OBSERVABILITY_CADENCE_MS_def)

text \<open>The refresh interval of the shared metrics read is one of the options, whatever is stored or written
  by another tab.\<close>

lemma cadence_is_an_option:
  "list_all (typed_write isObservabilityCadence) evs \<Longrightarrow>
   list_all isObservabilityCadence
     (pt_states (pref_run DEFAULT_OBSERVABILITY_CADENCE_MS (Some isObservabilityCadence) evs \<lparr>pt_stored = stored, pt_states = []\<rparr>))"
  using cadence.run_settles [of "\<lparr>pt_stored = stored, pt_states = []\<rparr>"] by (simp add: cadence.settled_def)

end
