(* ===== verification/AuditConfig.thy ===== *)
theory AuditConfig
  imports Regex "HOL-Library.Word"
begin

section \<open>Audit trail configuration\<close>

text \<open>
  \<open>types/audit_config.ts\<close>: the retention policy and the sinks of the gateway's audit trail as forms of
  texts, the bodies read from them, and the comparison of a change with what the gateway reads back.
  A read is a value of the JSON document, absent members included; a body is an object. Texts of
  numbers are those of \<open>String(n)\<close> below \<open>1e21\<close>.
\<close>

subsection \<open>The policy\<close>

definition AUDIT_POLICY_FIELDS :: "string list" where
  "AUDIT_POLICY_FIELDS =
     [''max_segment_bytes'', ''max_segment_age_seconds'', ''retention_max_age_seconds'',
      ''retention_max_bytes'', ''retention_reserve_bytes'', ''retention_max_prune_per_pass'']"

definition SECONDS_FIELDS :: "string list" where
  "SECONDS_FIELDS = [''max_segment_age_seconds'', ''retention_max_age_seconds'']"

definition AUDIT_MAX_SECONDS :: int where
  "AUDIT_MAX_SECONDS = 9223372036"

definition MAX_SAFE_INTEGER :: int where
  "MAX_SAFE_INTEGER = 9007199254740991"

definition AUDIT_POLICY_START :: jsobj where
  "AUDIT_POLICY_START =
     [(''max_segment_bytes'', jint (64 * 1024 * 1024)),
      (''max_segment_age_seconds'', jint (24 * 60 * 60)),
      (''retention_max_age_seconds'', jint 0),
      (''retention_max_bytes'', jint 0),
      (''retention_reserve_bytes'', jint 0),
      (''retention_max_prune_per_pass'', jint 1)]"

fun zeroIfAbsent :: "jsv \<Rightarrow> jsnum" where
  "zeroIfAbsent (JNum n) = (if is_finite n then n else num 0)"
| "zeroIfAbsent _ = num 0"

definition policyValues :: "jsv \<Rightarrow> jsobj" where
  "policyValues read =
     (let out = map (\<lambda>f. (f, JNum (zeroIfAbsent (vget read f)))) AUDIT_POLICY_FIELDS
      in if strict_eq (oget out ''retention_max_prune_per_pass'') (jint 0)
         then AList.update ''retention_max_prune_per_pass'' (jint 1) out else out)"

definition policyReported :: "jsv \<Rightarrow> bool" where
  "policyReported read \<longleftrightarrow> truthy read \<and> list_ex (\<lambda>f. vget read f \<noteq> JUndef) AUDIT_POLICY_FIELDS"

type_synonym text_form = "(string \<times> string) list"

definition policyForm :: "jsobj \<Rightarrow> text_form" where
  "policyForm values = map (\<lambda>f. (f, js_string (oget values f))) AUDIT_POLICY_FIELDS"

datatype input_error =
    NotWhole | TooLarge | BelowSegment | Required | BadAddress | UnpairedFile | BadName
  | ReservedName | OutOfRange | BadService

type_synonym input_errors = "(string \<times> input_error) list"

definition wholeNumber :: "string \<Rightarrow> int \<Rightarrow> input_error + jsnum" where
  "wholeNumber s bound =
     (let trimmed = js_trim s
      in if \<not> all_digits trimmed then Inl NotWhole
         else (let v = js_number trimmed
               in if \<not> is_safe_integer v \<or> num_lt (num bound) v then Inl TooLarge else Inr v))"

definition form_field :: "text_form \<Rightarrow> string \<Rightarrow> string" where
  "form_field form f = (case map_of form f of None \<Rightarrow> [] | Some s \<Rightarrow> s)"

definition field_bound :: "string \<Rightarrow> int" where
  "field_bound f = (if f \<in> set SECONDS_FIELDS then AUDIT_MAX_SECONDS else MAX_SAFE_INTEGER)"

text \<open>One turn of the loop over the fields: a number into the values or an error.\<close>

definition parse_field :: "text_form \<Rightarrow> string \<Rightarrow> jsobj \<times> input_errors \<Rightarrow> jsobj \<times> input_errors" where
  "parse_field form f acc = (case wholeNumber (form_field form f) (field_bound f) of
     Inl e \<Rightarrow> (fst acc, AList.update f e (snd acc))
   | Inr v \<Rightarrow> (AList.update f (JNum v) (fst acc), snd acc))"

fun num_of :: "jsv \<Rightarrow> jsnum" where
  "num_of (JNum n) = n"
| "num_of _ = NaN"

definition quota_below_segment :: "jsobj \<Rightarrow> input_errors \<Rightarrow> bool" where
  "quota_below_segment values errors \<longleftrightarrow>
     map_of errors ''retention_max_bytes'' = None \<and> map_of errors ''max_segment_bytes'' = None
     \<and> num_lt (num 0) (num_of (oget values ''retention_max_bytes''))
     \<and> num_lt (num 0) (num_of (oget values ''max_segment_bytes''))
     \<and> num_lt (num_of (oget values ''retention_max_bytes'')) (num_of (oget values ''max_segment_bytes''))"

definition parsePolicyForm :: "text_form \<Rightarrow> jsobj option \<times> input_errors" where
  "parsePolicyForm form =
     (let (values, errs) = fold (parse_field form) AUDIT_POLICY_FIELDS ([], []);
          errors = (if quota_below_segment values errs
                    then AList.update ''retention_max_bytes'' BelowSegment errs else errs)
      in if errors \<noteq> [] then (None, errors) else (Some values, errors))"

definition policyDiff :: "jsobj \<Rightarrow> jsv \<Rightarrow> string list" where
  "policyDiff sent read =
     (let a = policyValues (JObj sent); b = policyValues read
      in filter (\<lambda>f. \<not> strict_eq (oget a f) (oget b f)) AUDIT_POLICY_FIELDS)"

subsection \<open>Sinks\<close>

definition AUDIT_MAX_FACILITY :: int where "AUDIT_MAX_FACILITY = 23"
definition AUDIT_MAX_FRAME_BYTES :: int where "AUDIT_MAX_FRAME_BYTES = 2 ^ 30"
definition AUDIT_MAX_ENTERPRISE_NUMBER :: int where "AUDIT_MAX_ENTERPRISE_NUMBER = 4294967295"

text \<open>\<open>/^[a-z0-9_-]{1,64}$/\<close>\<close>

definition AUDIT_SINK_NAME_RE :: rx where
  "AUDIT_SINK_NAME_RE = rbetween 1 64 (RCls (lower_cls @ digits_cls @ one_of ''_-''))"

definition AUDIT_RESERVED_SINK_NAME :: string where
  "AUDIT_RESERVED_SINK_NAME = ''compliance''"

record audit_sink_form =
  sf_address :: string
  sf_ca_bundle_path :: string
  sf_server_name :: string
  sf_client_cert_path :: string
  sf_client_key_path :: string
  sf_facility :: string
  sf_max_frame_bytes :: string

record audit_named_sink_form = audit_sink_form +
  sf_name :: string
  sf_enterprise_number :: string
  sf_streams :: "string list"
  sf_services :: string
  sf_outcome :: string
  sf_data_sample :: string

definition SINK_TEXT_FIELDS :: "string list" where
  "SINK_TEXT_FIELDS = [''address'', ''ca_bundle_path'', ''server_name'', ''client_cert_path'', ''client_key_path'']"

definition SINK_NUMBER_FIELDS :: "string list" where
  "SINK_NUMBER_FIELDS = [''facility'', ''max_frame_bytes'']"

fun blankIfZero :: "jsv \<Rightarrow> string" where
  "blankIfZero (JNum n) = (if num_eq n (num 0) then [] else num_str n)"
| "blankIfZero _ = []"

text \<open>\<open>list ?? []\<close> of a member the contract types as a list of texts.\<close>

fun list_of :: "jsv \<Rightarrow> jsv list" where
  "list_of (JArr vs) = vs"
| "list_of _ = []"

definition sinkForm :: "jsv \<Rightarrow> audit_sink_form" where
  "sinkForm read =
     \<lparr>sf_address = str_or_empty (vget read ''address''),
      sf_ca_bundle_path = str_or_empty (vget read ''ca_bundle_path''),
      sf_server_name = str_or_empty (vget read ''server_name''),
      sf_client_cert_path = str_or_empty (vget read ''client_cert_path''),
      sf_client_key_path = str_or_empty (vget read ''client_key_path''),
      sf_facility = blankIfZero (vget read ''facility''),
      sf_max_frame_bytes = blankIfZero (vget read ''max_frame_bytes'')\<rparr>"

definition namedSinkForm :: "string \<Rightarrow> jsv \<Rightarrow> audit_named_sink_form" where
  "namedSinkForm name read =
     audit_sink_form.extend (sinkForm read)
       (audit_named_sink_form.fields name
          (blankIfZero (vget read ''enterprise_number''))
          (map str_or_empty (list_of (vget (vget read ''filter'') ''streams'')))
          (join_with '', '' (map str_or_empty (list_of (vget (vget read ''filter'') ''services''))))
          (str_or_empty (vget (vget read ''filter'') ''outcome''))
          (blankIfZero (vget (vget read ''filter'') ''data_sample'')))"

text \<open>
  \<open>/^(\[[^\]\s]+\]|[^:\s[\]]+):\d{1,5}$/\<close>: the classes are written out over the characters below 256
  without white space.
\<close>

definition HOST_PORT :: rx where
  "HOST_PORT =
     RSeq (RAlt (RSeq (rchar CHR ''['')
                   (RSeq (rplus (RCls [(0, 8), (14, 31), (33, 92), (94, 159), (161, 255)])) (rchar CHR '']'')))
                (rplus (RCls [(0, 8), (14, 31), (33, 57), (59, 90), (92, 92), (94, 159), (161, 255)])))
       (RSeq (rchar CHR '':'') (rbetween 1 5 (RCls digits_cls)))"

definition optionalNumber :: "string \<Rightarrow> int \<Rightarrow> int \<Rightarrow> jsnum \<times> input_error option" where
  "optionalNumber s low high =
     (if js_trim s = [] then (num 0, None)
      else (case wholeNumber s MAX_SAFE_INTEGER of
          Inl e \<Rightarrow> (num 0, Some e)
        | Inr v \<Rightarrow> if num_lt v (num low) \<or> num_lt (num high) v then (num 0, Some OutOfRange) else (v, None)))"

definition put_error :: "string \<Rightarrow> input_error option \<Rightarrow> input_errors \<Rightarrow> input_errors" where
  "put_error f e errors = (case e of None \<Rightarrow> errors | Some x \<Rightarrow> AList.update f x errors)"

definition parseShared :: "'a audit_sink_form_scheme \<Rightarrow> input_errors \<Rightarrow> jsobj \<times> input_errors" where
  "parseShared form errors =
     (let address = js_trim (sf_address form);
          e1 = put_error ''address''
                 (if address = [] then Some Required
                  else if \<not> rx_test HOST_PORT address then Some BadAddress else None) errors;
          e2 = put_error ''ca_bundle_path''
                 (if js_trim (sf_ca_bundle_path form) = [] then Some Required else None) e1;
          cert = js_trim (sf_client_cert_path form);
          key = js_trim (sf_client_key_path form);
          e3 = put_error (if cert = [] then ''client_cert_path'' else ''client_key_path'')
                 (if (cert = []) \<noteq> (key = []) then Some UnpairedFile else None) e2;
          facility = optionalNumber (sf_facility form) 0 AUDIT_MAX_FACILITY;
          e4 = put_error ''facility'' (snd facility) e3;
          frame = optionalNumber (sf_max_frame_bytes form) 0 AUDIT_MAX_FRAME_BYTES;
          e5 = put_error ''max_frame_bytes'' (snd frame) e4
      in ([(''address'', JStr address),
           (''ca_bundle_path'', JStr (js_trim (sf_ca_bundle_path form))),
           (''server_name'', JStr (js_trim (sf_server_name form))),
           (''client_cert_path'', JStr cert),
           (''client_key_path'', JStr key),
           (''facility'', JNum (fst facility)),
           (''max_frame_bytes'', JNum (fst frame))], e5))"

definition parseSinkForm :: "audit_sink_form \<Rightarrow> jsobj option \<times> input_errors" where
  "parseSinkForm form =
     (let (shared, errors) = parseShared form []
      in if errors \<noteq> [] then (None, errors) else (Some ((''enabled'', JBool True) # shared), errors))"

text \<open>
  The filter as the gateway reports one: only when it keeps something out. A sample of 0 or 1 keeps
  every record.
\<close>

definition normalFilter :: "jsv \<Rightarrow> jsobj option" where
  "normalFilter filt =
     (let streams = list_of (vget filt ''streams'');
          services = list_of (vget filt ''services'');
          outcome = or_default (vget filt ''outcome'') (JStr []);
          s = zeroIfAbsent (vget filt ''data_sample'');
          sample = (if num_lt (num 1) s then s else num 0)
      in if streams = [] \<and> services = [] \<and> outcome = JStr [] \<and> sample = num 0 then None
         else Some [(''streams'', JArr streams), (''services'', JArr services), (''outcome'', outcome),
                    (''data_sample'', JNum sample)])"

definition parseNamedSinkForm ::
  "audit_named_sink_form \<Rightarrow> (string \<times> jsobj) option \<times> input_errors" where
  "parseNamedSinkForm form =
     (let name = sf_name form;
          e1 = put_error ''name''
                 (if name = AUDIT_RESERVED_SINK_NAME then Some ReservedName
                  else if \<not> rx_test AUDIT_SINK_NAME_RE name then Some BadName else None) [];
          (shared, e2) = parseShared form e1;
          enterprise = (if js_trim (sf_enterprise_number form) = [] then (num 0, Some Required)
                        else optionalNumber (sf_enterprise_number form) 1 AUDIT_MAX_ENTERPRISE_NUMBER);
          e3 = put_error ''enterprise_number'' (snd enterprise) e2;
          services = map js_trim (split_on CHR '','' (sf_services form));
          anyService = (js_trim (sf_services form) \<noteq> []);
          e4 = put_error ''services'' (if anyService \<and> [] \<in> set services then Some BadService else None) e3;
          sample = optionalNumber (sf_data_sample form) 0 MAX_SAFE_INTEGER;
          e5 = put_error ''data_sample'' (snd sample) e4
      in if e5 \<noteq> [] then (None, e5)
         else (let body = shared @ [(''enterprise_number'', JNum (fst enterprise))];
                   filt = normalFilter (JObj [(''streams'', JArr (map JStr (sf_streams form))),
                             (''services'', JArr (map JStr (if anyService then services else []))),
                             (''outcome'', JStr (sf_outcome form)), (''data_sample'', JNum (fst sample))])
               in (Some (name, case filt of None \<Rightarrow> body | Some ob \<Rightarrow> body @ [(''filter'', JObj ob)]), e5)))"

definition sameList :: "jsv \<Rightarrow> jsv \<Rightarrow> bool" where
  "sameList a b \<longleftrightarrow> list_all2 strict_eq (list_of a) (list_of b)"

definition same_filter :: "jsobj option \<Rightarrow> jsobj option \<Rightarrow> bool" where
  "same_filter a b = (case (a, b) of
     (None, None) \<Rightarrow> True
   | (Some x, Some y) \<Rightarrow>
       sameList (oget x ''streams'') (oget y ''streams'') \<and> sameList (oget x ''services'') (oget y ''services'')
       \<and> strict_eq (oget x ''outcome'') (oget y ''outcome'')
       \<and> strict_eq (oget x ''data_sample'') (oget y ''data_sample'')
   | _ \<Rightarrow> False)"

definition sinkDiff :: "jsobj \<Rightarrow> jsv \<Rightarrow> string list" where
  "sinkDiff sent read =
     (if \<not> truthy read then [''enabled'']
      else if ohas sent ''enabled'' \<and> vget read ''enabled'' \<noteq> JBool True then [''enabled'']
      else filter (\<lambda>f. \<not> strict_eq (oget sent f) (or_default (vget read f) (JStr []))) SINK_TEXT_FIELDS
         @ filter (\<lambda>f. \<not> strict_eq (oget sent f) (JNum (zeroIfAbsent (vget read f)))) SINK_NUMBER_FIELDS
         @ (if ohas sent ''enterprise_number'' then
              (if strict_eq (oget sent ''enterprise_number'') (JNum (zeroIfAbsent (vget read ''enterprise_number'')))
               then [] else [''enterprise_number''])
              @ (if same_filter (normalFilter (oget sent ''filter'')) (normalFilter (vget read ''filter''))
                 then [] else [''filter''])
            else []))"


subsection \<open>Whole numbers\<close>

lemma safe_double: "is_safe_integer (to_double (of_int n)) \<longleftrightarrow> \<bar>n\<bar> \<le> MAX_SAFE_INTEGER"
proof -
  have "double_bound \<le> of_int n \<or> of_int n \<le> - double_bound \<Longrightarrow> MAX_SAFE_INTEGER < \<bar>n\<bar>"
    using double_bound_large unfolding MAX_SAFE_INTEGER_def by linarith
  moreover have "\<bar>of_int n :: rat\<bar> \<le> 9007199254740991 \<longleftrightarrow> \<bar>n\<bar> \<le> 9007199254740991"
    by linarith
  ultimately show ?thesis
    by (auto simp: to_double_def MAX_SAFE_INTEGER_def)
qed

lemma wholeNumber_Inr:
  "wholeNumber s bound = Inr v \<longleftrightarrow> all_digits (js_trim s) \<and> digits_val (js_trim s) \<le> MAX_SAFE_INTEGER
     \<and> digits_val (js_trim s) \<le> bound \<and> v = num (digits_val (js_trim s))"
proof (cases "all_digits (js_trim s)")
  case True
  have n: "js_number (js_trim s) = to_double (of_int (digits_val (js_trim s)))"
    using True by (rule js_number_all_digits)
  have p: "0 \<le> digits_val (js_trim s)"
    using True by (rule all_digits_nonneg)
  show ?thesis
  proof (cases "digits_val (js_trim s) \<le> MAX_SAFE_INTEGER")
    case le: True
    then have "js_number (js_trim s) = num (digits_val (js_trim s))"
      using True by (intro js_number_digits) (simp_all add: MAX_SAFE_INTEGER_def)
    then show ?thesis
      using True le p n safe_double [of "digits_val (js_trim s)"] by (auto simp: wholeNumber_def Let_def)
  qed (use True p in \<open>simp add: wholeNumber_def Let_def n safe_double\<close>)
qed (simp add: wholeNumber_def)

lemma wholeNumber_nat_str [simp]:
  "int n \<le> MAX_SAFE_INTEGER \<Longrightarrow> int n \<le> bound \<Longrightarrow> wholeNumber (nat_str n) bound = Inr (num (int n))"
proof -
  have "js_trim (nat_str n) = nat_str n"
    by (rule trim_plain) (use nat_str_digits digit_not_space in blast)
  then show "int n \<le> MAX_SAFE_INTEGER \<Longrightarrow> int n \<le> bound \<Longrightarrow> wholeNumber (nat_str n) bound = Inr (num (int n))"
    by (simp add: wholeNumber_Inr)
qed

lemma num_str_int [simp]: "num_str (num n) = int_str n"
  by (simp add: rat_str_def)

lemma int_str_nat [simp]: "int_str (int n) = nat_str n"
  by (simp add: int_str_def)

subsection \<open>The loop over the fields\<close>

lemma parse_loop:
  assumes "distinct fs"
  shows "oget (fst (fold (parse_field form) fs acc)) f =
      (if f \<in> set fs then (case wholeNumber (form_field form f) (field_bound f) of
           Inl _ \<Rightarrow> oget (fst acc) f | Inr v \<Rightarrow> JNum v)
       else oget (fst acc) f)"
    and "map_of (snd (fold (parse_field form) fs acc)) f =
      (if f \<in> set fs then (case wholeNumber (form_field form f) (field_bound f) of
           Inl e \<Rightarrow> Some e | Inr _ \<Rightarrow> map_of (snd acc) f)
       else map_of (snd acc) f)"
  using assms by (induction fs arbitrary: acc) (auto simp: parse_field_def update_conv split: sum.splits)

lemma distinct_policy_fields [simp]: "distinct AUDIT_POLICY_FIELDS"
  by (simp add: AUDIT_POLICY_FIELDS_def)

text \<open>The number a field of the form was read as, and the forms that are accepted.\<close>

definition typed :: "text_form \<Rightarrow> string \<Rightarrow> int" where
  "typed form f = digits_val (js_trim (form_field form f))"

definition field_ok :: "text_form \<Rightarrow> string \<Rightarrow> bool" where
  "field_ok form f \<longleftrightarrow> all_digits (js_trim (form_field form f)) \<and> typed form f \<le> field_bound f"

definition quota_ok :: "int \<Rightarrow> int \<Rightarrow> bool" where
  "quota_ok quota segment \<longleftrightarrow> quota \<le> 0 \<or> segment \<le> quota"

lemma field_ok_iff: "field_ok form f \<longleftrightarrow> wholeNumber (form_field form f) (field_bound f) = Inr (num (typed form f))"
  by (auto simp: field_ok_def typed_def wholeNumber_Inr field_bound_def MAX_SAFE_INTEGER_def AUDIT_MAX_SECONDS_def)

lemma field_not_ok: "\<not> field_ok form f \<Longrightarrow> \<exists>e. wholeNumber (form_field form f) (field_bound f) = Inl e"
  by (cases "wholeNumber (form_field form f) (field_bound f)")
     (auto simp: field_ok_def typed_def wholeNumber_Inr field_bound_def)

lemma no_errors: "errors = [] \<longleftrightarrow> (\<forall>f. map_of errors f = None)"
  by (cases errors) auto

lemma typed_nonneg: "field_ok form f \<Longrightarrow> 0 \<le> typed form f"
  by (simp add: field_ok_def typed_def all_digits_nonneg)

definition form_ok :: "text_form \<Rightarrow> bool" where
  "form_ok form \<longleftrightarrow> list_all (field_ok form) AUDIT_POLICY_FIELDS
     \<and> quota_ok (typed form ''retention_max_bytes'') (typed form ''max_segment_bytes'')"

definition parsed :: "text_form \<Rightarrow> jsobj \<times> input_errors" where
  "parsed form = fold (parse_field form) AUDIT_POLICY_FIELDS ([], [])"

lemma parsed_errors: "map_of (snd (parsed form)) f = None \<longleftrightarrow> f \<notin> set AUDIT_POLICY_FIELDS \<or> field_ok form f"
proof (cases "field_ok form f")
  case True
  then show ?thesis
    by (simp add: parsed_def parse_loop field_ok_iff)
next
  case False
  then obtain e where "wholeNumber (form_field form f) (field_bound f) = Inl e"
    using field_not_ok by blast
  then show ?thesis
    using False by (simp add: parsed_def parse_loop)
qed

lemma parsed_values: "f \<in> set AUDIT_POLICY_FIELDS \<Longrightarrow> field_ok form f \<Longrightarrow> oget (fst (parsed form)) f = jint (typed form f)"
  by (simp add: parsed_def parse_loop field_ok_iff)

definition policy_errors :: "text_form \<Rightarrow> input_errors" where
  "policy_errors form = (if quota_below_segment (fst (parsed form)) (snd (parsed form))
     then AList.update ''retention_max_bytes'' BelowSegment (snd (parsed form)) else snd (parsed form))"

lemma parsePolicyForm_eq:
  "parsePolicyForm form = (if policy_errors form = [] then (Some (fst (parsed form)), []) else (None, policy_errors form))"
  by (auto simp: parsePolicyForm_def policy_errors_def parsed_def Let_def split: prod.splits)

lemma policy_errors_Nil: "policy_errors form = [] \<longleftrightarrow> form_ok form"
proof -
  obtain vals errs where p: "parsed form = (vals, errs)"
    by (cases "parsed form")
  have q: "''retention_max_bytes'' \<in> set AUDIT_POLICY_FIELDS" "''max_segment_bytes'' \<in> set AUDIT_POLICY_FIELDS"
    by (simp_all add: AUDIT_POLICY_FIELDS_def)
  have e: "errs = [] \<longleftrightarrow> list_all (field_ok form) AUDIT_POLICY_FIELDS"
    using parsed_errors [of form] p by (auto simp: no_errors list_all_iff)
  have b: "quota_below_segment vals errs \<longleftrightarrow>
      \<not> quota_ok (typed form ''retention_max_bytes'') (typed form ''max_segment_bytes'')"
    if "list_all (field_ok form) AUDIT_POLICY_FIELDS"
  proof -
    have "field_ok form ''retention_max_bytes''" "field_ok form ''max_segment_bytes''"
      using that q by (auto simp: list_all_iff)
    then have v: "oget vals ''retention_max_bytes'' = jint (typed form ''retention_max_bytes'')"
        "oget vals ''max_segment_bytes'' = jint (typed form ''max_segment_bytes'')"
      and "0 \<le> typed form ''max_segment_bytes''" "0 \<le> typed form ''retention_max_bytes''"
      using parsed_values [OF q(1), of form] parsed_values [OF q(2), of form] p by (auto intro: typed_nonneg)
    then show ?thesis
      using e that by (auto simp: quota_below_segment_def quota_ok_def)
  qed
  have ne: "AList.update ''retention_max_bytes'' BelowSegment errs \<noteq> []"
    by (cases errs) auto
  show ?thesis
    using e b ne p by (auto simp: policy_errors_def form_ok_def)
qed


lemma accepted_policy:
  "form_ok form \<Longrightarrow> parsePolicyForm form = (Some (fst (parsed form)), [])"
  "\<not> form_ok form \<Longrightarrow> parsePolicyForm form = (None, policy_errors form)"
  by (simp_all add: parsePolicyForm_eq policy_errors_Nil)

subsection \<open>What an accepted policy holds\<close>

text \<open>The policy form is accepted exactly when every field is written in digits within its limit and
  a retention quota is at least one segment; then each value is the number that was typed, and an age in
  seconds times \<open>10 ^ 9\<close> is itself as a signed 64-bit number of nanoseconds.\<close>

theorem policy_form_accepts:
  "(case parsePolicyForm form of
      (None, errors) \<Rightarrow> errors \<noteq> [] \<and> \<not> form_ok form
    | (Some vals, errors) \<Rightarrow> errors = [] \<and> form_ok form
        \<and> list_all (\<lambda>f. oget vals f = jint (typed form f)) AUDIT_POLICY_FIELDS
        \<and> list_all (\<lambda>f. sint (word_of_int (typed form f * 10 ^ 9) :: 64 word) = typed form f * 10 ^ 9) SECONDS_FIELDS)"
proof (cases "form_ok form")
  case True
  have f: "field_ok form f" if "f \<in> set AUDIT_POLICY_FIELDS" for f
    using True that by (auto simp: form_ok_def list_all_iff)
  have s: "sint (word_of_int (typed form f * 10 ^ 9) :: 64 word) = typed form f * 10 ^ 9" if "f \<in> set SECONDS_FIELDS" for f
  proof -
    have "field_ok form f"
      using f that by (auto simp: SECONDS_FIELDS_def AUDIT_POLICY_FIELDS_def)
    then have "0 \<le> typed form f" "typed form f \<le> 9223372036"
      using that typed_nonneg [of form f] by (auto simp: field_ok_def field_bound_def AUDIT_MAX_SECONDS_def)
    then show ?thesis
      by (subst sint_sbintrunc') (rule signed_take_bit_int_eq_self; simp)
  qed
  show ?thesis
    using True f s by (simp add: accepted_policy list_all_iff parsed_values)
next
  case False
  then show ?thesis
    using policy_errors_Nil [of form] by (simp add: accepted_policy)
qed

subsection \<open>What an accepted sink holds\<close>

lemma put_error_Nil [simp]: "put_error f e errors = [] \<longleftrightarrow> e = None \<and> errors = []"
  by (cases errors) (auto simp: put_error_def split: option.splits)

lemma optionalNumber_ok:
  assumes "snd (optionalNumber s low high) = None" "0 \<le> low" "low \<le> high"
  shows "\<exists>n. fst (optionalNumber s low high) = num n \<and> 0 \<le> n \<and> n \<le> high \<and> (js_trim s = [] \<or> low \<le> n)"
proof (cases "js_trim s = []")
  case True
  then show ?thesis
    using assms by (auto simp: optionalNumber_def)
next
  case False
  then obtain v where v: "wholeNumber s MAX_SAFE_INTEGER = Inr v" "\<not> num_lt v (num low)" "\<not> num_lt (num high) v"
      "fst (optionalNumber s low high) = v"
    using assms by (auto simp: optionalNumber_def split: sum.splits if_splits)
  then show ?thesis
    using assms(2) by (auto simp: wholeNumber_Inr all_digits_nonneg)
qed

text \<open>The body of a sink, and the body of a named one.\<close>

definition sink_body :: "string \<Rightarrow> string \<Rightarrow> string \<Rightarrow> string \<Rightarrow> string \<Rightarrow> int \<Rightarrow> int \<Rightarrow> jsobj" where
  "sink_body address ca server cert key facility frame =
     [(''address'', JStr address), (''ca_bundle_path'', JStr ca), (''server_name'', JStr server),
      (''client_cert_path'', JStr cert), (''client_key_path'', JStr key),
      (''facility'', jint facility), (''max_frame_bytes'', jint frame)]"

definition sound_sink :: "string \<Rightarrow> string \<Rightarrow> string \<Rightarrow> string \<Rightarrow> int \<Rightarrow> int \<Rightarrow> bool" where
  "sound_sink address ca cert key facility frame \<longleftrightarrow>
     rx_test HOST_PORT address \<and> ca \<noteq> [] \<and> (cert = [] \<longleftrightarrow> key = [])
     \<and> 0 \<le> facility \<and> facility \<le> 23 \<and> 0 \<le> frame \<and> frame \<le> 2 ^ 30"

lemma parseShared_ok:
  assumes "parseShared form errors = (shared, [])"
  shows "errors = [] \<and> (\<exists>address ca server cert key facility frame.
     shared = sink_body address ca server cert key facility frame \<and> sound_sink address ca cert key facility frame)"
proof -
  let ?fac = "optionalNumber (sf_facility form) 0 AUDIT_MAX_FACILITY"
  let ?frm = "optionalNumber (sf_max_frame_bytes form) 0 AUDIT_MAX_FRAME_BYTES"
  have n: "snd ?fac = None" "snd ?frm = None" and r: "errors = []" "js_trim (sf_address form) \<noteq> []"
      "rx_test HOST_PORT (js_trim (sf_address form))" "js_trim (sf_ca_bundle_path form) \<noteq> []"
      "js_trim (sf_client_cert_path form) = [] \<longleftrightarrow> js_trim (sf_client_key_path form) = []"
    using assms by (auto simp: parseShared_def Let_def split: if_splits)
  obtain a b where "fst ?fac = num a" "0 \<le> a" "a \<le> 23" "fst ?frm = num b" "0 \<le> b" "b \<le> 2 ^ 30"
    using optionalNumber_ok [OF n(1)] optionalNumber_ok [OF n(2)]
    by (auto simp: AUDIT_MAX_FACILITY_def AUDIT_MAX_FRAME_BYTES_def)
  moreover have "shared = sink_body (js_trim (sf_address form)) (js_trim (sf_ca_bundle_path form)) (js_trim (sf_server_name form))
      (js_trim (sf_client_cert_path form)) (js_trim (sf_client_key_path form)) a b"
    using assms calculation by (auto simp: parseShared_def Let_def sink_body_def)
  ultimately show ?thesis
    using r unfolding sound_sink_def by blast
qed

definition plain_filter :: "string list \<Rightarrow> string list \<Rightarrow> string \<Rightarrow> int \<Rightarrow> jsv" where
  "plain_filter streams services outcome sample =
     JObj [(''streams'', JArr (map JStr streams)), (''services'', JArr (map JStr services)),
           (''outcome'', JStr outcome), (''data_sample'', jint sample)]"

definition with_filter :: "jsobj \<Rightarrow> jsobj option \<Rightarrow> jsobj" where
  "with_filter body filt = (case filt of None \<Rightarrow> body | Some ob \<Rightarrow> body @ [(''filter'', JObj ob)])"

lemma parseNamedSinkForm_ok:
  assumes "parseNamedSinkForm form = (Some (name, body), errors)"
  shows "errors = [] \<and> name = sf_name form \<and> name \<noteq> ''compliance'' \<and> rx_test AUDIT_SINK_NAME_RE name
    \<and> (\<exists>address ca server cert key facility frame enterprise services sample.
        sound_sink address ca cert key facility frame \<and> 1 \<le> enterprise \<and> enterprise < 2 ^ 32
        \<and> [] \<notin> set services
        \<and> body = with_filter (sink_body address ca server cert key facility frame @ [(''enterprise_number'', jint enterprise)])
            (normalFilter (plain_filter (sf_streams form) services (sf_outcome form) sample)))"
proof -
  let ?ent = "optionalNumber (sf_enterprise_number form) 1 AUDIT_MAX_ENTERPRISE_NUMBER"
  let ?smp = "optionalNumber (sf_data_sample form) 0 MAX_SAFE_INTEGER"
  define e1 where "e1 = put_error ''name''
                 (if sf_name form = AUDIT_RESERVED_SINK_NAME then Some ReservedName
                  else if \<not> rx_test AUDIT_SINK_NAME_RE (sf_name form) then Some BadName else None) []"
  obtain shared e2 where sh: "parseShared form e1 = (shared, e2)"
    by (cases "parseShared form e1")
  have n: "snd ?ent = None" "snd ?smp = None" and e2: "e2 = []" and r: "errors = []" "name = sf_name form"
      "js_trim (sf_enterprise_number form) \<noteq> []"
      "\<not> (js_trim (sf_services form) \<noteq> [] \<and> [] \<in> set (map js_trim (split_on CHR '','' (sf_services form))))"
    and body: "body = with_filter (shared @ [(''enterprise_number'', JNum (fst ?ent))])
        (normalFilter (JObj [(''streams'', JArr (map JStr (sf_streams form))),
           (''services'', JArr (map JStr (if js_trim (sf_services form) \<noteq> [] then map js_trim (split_on CHR '','' (sf_services form)) else []))),
           (''outcome'', JStr (sf_outcome form)), (''data_sample'', JNum (fst ?smp))]))"
    using assms sh by (auto simp: parseNamedSinkForm_def e1_def [symmetric] Let_def with_filter_def split: if_splits prod.splits)
  obtain ent where ent: "fst ?ent = num ent" "1 \<le> ent" "ent < 2 ^ 32"
    using optionalNumber_ok [OF n(1)] r(3) by (auto simp: AUDIT_MAX_ENTERPRISE_NUMBER_def)
  obtain smp where smp: "fst ?smp = num smp"
    using optionalNumber_ok [OF n(2)] by (auto simp: MAX_SAFE_INTEGER_def)
  have "e1 = []" and s: "\<exists>address ca server cert key facility frame.
     shared = sink_body address ca server cert key facility frame \<and> sound_sink address ca cert key facility frame"
    using parseShared_ok sh e2 by blast+
  then have nm: "sf_name form \<noteq> ''compliance''" "rx_test AUDIT_SINK_NAME_RE (sf_name form)"
    by (auto simp: e1_def AUDIT_RESERVED_SINK_NAME_def split: if_splits)
  obtain address ca server cert key facility frame
    where s: "shared = sink_body address ca server cert key facility frame" "sound_sink address ca cert key facility frame"
    using s by blast
  define services where "services = (if js_trim (sf_services form) \<noteq> [] then map js_trim (split_on CHR '','' (sf_services form)) else [])"
  have "[] \<notin> set services"
    using r(4) by (auto simp: services_def)
  moreover have "body = with_filter (sink_body address ca server cert key facility frame @ [(''enterprise_number'', jint ent)])
            (normalFilter (plain_filter (sf_streams form) services (sf_outcome form) smp))"
    using body unfolding plain_filter_def ent smp s services_def .
  ultimately have "\<exists>address ca server cert key facility frame enterprise services sample.
        sound_sink address ca cert key facility frame \<and> 1 \<le> enterprise \<and> enterprise < 2 ^ 32
        \<and> [] \<notin> set services
        \<and> body = with_filter (sink_body address ca server cert key facility frame @ [(''enterprise_number'', jint enterprise)])
            (normalFilter (plain_filter (sf_streams form) services (sf_outcome form) sample))"
    using s(2) ent(2,3) by blast
  then show ?thesis
    using r(1,2) nm by (intro conjI) simp_all
qed

subsection \<open>When a sink is confirmed\<close>

lemma strict_eq_JStr [simp]: "strict_eq (JStr s) v \<longleftrightarrow> v = JStr s"
  by (cases v) auto

lemma strict_eq_jint [simp]: "strict_eq (jint n) v \<longleftrightarrow> v = jint n"
  by (cases v) auto

lemma list_all2_JStr [simp]: "list_all2 strict_eq (map JStr xs) ys \<longleftrightarrow> ys = map JStr xs"
  by (induction xs arbitrary: ys) (auto simp: list_all2_Cons1)

text \<open>What a named sink is set to, as a read or a body says it: absent members are zero.\<close>

definition sink_settings :: "jsv \<Rightarrow> jsv list \<times> jsnum list \<times> jsobj option" where
  "sink_settings read =
     (map (\<lambda>f. or_default (vget read f) (JStr [])) SINK_TEXT_FIELDS,
      map (\<lambda>f. zeroIfAbsent (vget read f)) (SINK_NUMBER_FIELDS @ [''enterprise_number'']),
      normalFilter (vget read ''filter''))"

lemma normalFilter_cases:
  obtains "normalFilter filt = None"
  | streams services outcome sample where "normalFilter filt = Some [(''streams'', JArr streams), (''services'', JArr services),
      (''outcome'', outcome), (''data_sample'', JNum sample)]"
  by (cases "normalFilter filt") (auto simp: normalFilter_def Let_def split: if_splits)

lemma normalFilter_JUndef [simp]: "normalFilter JUndef = None"
  by (simp add: normalFilter_def or_default_def num_lt.simps)

lemma normalFilter_plain:
  "normalFilter (plain_filter streams services outcome sample) =
     (if streams = [] \<and> services = [] \<and> outcome = [] \<and> sample \<le> 1 then None
      else Some [(''streams'', JArr (map JStr streams)), (''services'', JArr (map JStr services)),
                 (''outcome'', JStr outcome), (''data_sample'', jint (if 1 < sample then sample else 0))])"
  by (auto simp: normalFilter_def plain_filter_def oget_Cons Let_def)

lemma oget_append: "oget (xs @ ys) k = (if ohas xs k then oget xs k else oget ys k)"
  by (auto simp: oget_def ohas_def map_add_def split: option.splits)

lemma sink_body_gets:
  "oget (sink_body address ca server cert key facility frame) ''filter'' = JUndef"
  "\<not> ohas (sink_body address ca server cert key facility frame) ''filter''"
  "\<not> ohas (sink_body address ca server cert key facility frame) ''enabled''"
  "\<not> ohas (sink_body address ca server cert key facility frame) ''enterprise_number''"
  by (simp_all add: sink_body_def oget_Cons ohas_def)

lemma same_filter_plain:
  fixes streams services outcome sample
  defines "f \<equiv> normalFilter (plain_filter streams services outcome sample)"
  shows "normalFilter (case f of None \<Rightarrow> JUndef | Some ob \<Rightarrow> JObj ob) = f"
    and "same_filter f (normalFilter g) \<longleftrightarrow> normalFilter g = f"
proof -
  show "normalFilter (case f of None \<Rightarrow> JUndef | Some ob \<Rightarrow> JObj ob) = f"
  proof (cases "streams = [] \<and> services = [] \<and> outcome = [] \<and> sample \<le> 1")
    case True
    then show ?thesis by (simp add: f_def normalFilter_plain)
  next
    case False
    then have "(case f of None \<Rightarrow> JUndef | Some ob \<Rightarrow> JObj ob)
        = plain_filter streams services outcome (if 1 < sample then sample else 0)"
      unfolding f_def normalFilter_plain by (auto simp: plain_filter_def)
    then show ?thesis
      using False by (auto simp: f_def normalFilter_plain)
  qed
  have sf: "same_filter (Some [(''streams'', JArr (map JStr a)), (''services'', JArr (map JStr b)), (''outcome'', JStr c), (''data_sample'', jint n)])
      (Some [(''streams'', JArr xs), (''services'', JArr ys), (''outcome'', z), (''data_sample'', JNum m)])
    \<longleftrightarrow> xs = map JStr a \<and> ys = map JStr b \<and> z = JStr c \<and> JNum m = jint n" for a b c n xs ys z m
    by (simp add: same_filter_def sameList_def oget_Cons)
  show "same_filter f (normalFilter g) \<longleftrightarrow> normalFilter g = f"
    unfolding f_def normalFilter_plain
    by (cases g rule: normalFilter_cases) (auto simp: sf, auto simp: same_filter_def)
qed

lemma with_filter_gets:
  assumes "\<not> ohas body ''filter''"
  shows "oget (with_filter body filt) ''filter'' = (case filt of None \<Rightarrow> JUndef | Some ob \<Rightarrow> JObj ob)"
    and "k \<noteq> ''filter'' \<Longrightarrow> oget (with_filter body filt) k = oget body k"
    and "k \<noteq> ''filter'' \<Longrightarrow> ohas (with_filter body filt) k = ohas body k"
  using assms
  by (auto simp: with_filter_def oget_append not_ohas_oget oget_Cons split: option.splits) (auto simp: ohas_def)

text \<open>C14. A named sink is confirmed exactly when there is an answer and what it says, absent members read
  as zero and a filter that keeps everything out of it, is what the accepted form was sent as.\<close>

theorem sink_confirmed_iff:
  assumes "parseNamedSinkForm form = (Some (name, body), errors)"
  shows "sinkDiff body read = [] \<longleftrightarrow> truthy read \<and> sink_settings read = sink_settings (JObj body)"
proof -
  obtain address ca server cert key facility frame enterprise services sample
    where b: "body = with_filter (sink_body address ca server cert key facility frame @ [(''enterprise_number'', jint enterprise)])
            (normalFilter (plain_filter (sf_streams form) services (sf_outcome form) sample))"
    using parseNamedSinkForm_ok [OF assms] by blast
  let ?base = "sink_body address ca server cert key facility frame @ [(''enterprise_number'', jint enterprise)]"
  have nf: "\<not> ohas ?base ''filter''"
    using sink_body_gets by (auto simp: ohas_def)
  note gets = with_filter_gets [OF nf]
  have f: "normalFilter (oget body ''filter'') = normalFilter (plain_filter (sf_streams form) services (sf_outcome form) sample)"
    unfolding b gets by (rule same_filter_plain)
  have s: "same_filter (normalFilter (oget body ''filter'')) (normalFilter g) \<longleftrightarrow> normalFilter g = normalFilter (oget body ''filter'')" for g
    unfolding f by (rule same_filter_plain)
  have t: "oget body k = oget ?base k" "ohas body k = ohas ?base k" if "k \<noteq> ''filter''" for k
    unfolding b using that by (simp_all add: gets)
  have "oget body ''enterprise_number'' = jint enterprise" "ohas body ''enterprise_number''" "\<not> ohas body ''enabled''"
    using sink_body_gets by (simp_all add: t oget_append oget_Cons) (auto simp: ohas_def)
  then show ?thesis
    unfolding sinkDiff_def sink_settings_def s
    by (auto simp: t sink_body_def oget_Cons oget_append SINK_TEXT_FIELDS_def SINK_NUMBER_FIELDS_def ohas_def)
qed

text \<open>The sink a witness uses: one stream, two services, a sample of 10.\<close>

definition sample_sink :: audit_named_sink_form where
  "sample_sink = \<lparr>sf_address = ''log.example:6514'', sf_ca_bundle_path = ''/etc/ca.pem'', sf_server_name = [],
     sf_client_cert_path = [], sf_client_key_path = [], sf_facility = '' 16'', sf_max_frame_bytes = [],
     sf_name = ''siem'', sf_enterprise_number = ''32473'', sf_streams = [''mgmt''], sf_services = ''rbac, lb'',
     sf_outcome = [], sf_data_sample = ''10''\<rparr>"

definition sample_body :: jsobj where
  "sample_body =
     [(''address'', JStr ''log.example:6514''), (''ca_bundle_path'', JStr ''/etc/ca.pem''), (''server_name'', JStr []),
      (''client_cert_path'', JStr []), (''client_key_path'', JStr []), (''facility'', jint 16), (''max_frame_bytes'', jint 0),
      (''enterprise_number'', jint 32473),
      (''filter'', JObj [(''streams'', JArr [JStr ''mgmt'']), (''services'', JArr [JStr ''rbac'', JStr ''lb'']),
         (''outcome'', JStr []), (''data_sample'', jint 10)])]"

lemma sample_sink_accepted: "parseNamedSinkForm sample_sink = (Some (''siem'', sample_body), [])"
  by code_simp

theorem sink_confirmed_iff_witness:
  "sinkDiff sample_body (JObj
     [(''address'', JStr ''log.example:6514''), (''ca_bundle_path'', JStr ''/etc/ca.pem''), (''facility'', jint 16),
      (''enterprise_number'', jint 32473), (''state'', JStr ''starting''),
      (''filter'', JObj [(''data_sample'', jint 10), (''streams'', JArr [JStr ''mgmt'']),
         (''services'', JArr [JStr ''rbac'', JStr ''lb''])])]) = []"
  by (subst sink_confirmed_iff [OF sample_sink_accepted]) code_simp

subsection \<open>A policy that is saved unchanged\<close>

lemma num_lt_irrefl [simp]: "\<not> num_lt n n"
  by (cases n) auto

lemma update_appends: "k \<notin> fst ` set xs \<Longrightarrow> AList.update k v xs = xs @ [(k, v)]"
  by (induction xs) auto

lemma parse_all_whole:
  assumes "\<And>f. f \<in> set fs \<Longrightarrow> wholeNumber (form_field form f) (field_bound f) = Inr (v f)"
    "distinct fs" "set fs \<inter> fst ` set acc = {}"
  shows "fold (parse_field form) fs (acc, []) = (acc @ map (\<lambda>f. (f, JNum (v f))) fs, [])"
  using assms by (induction fs arbitrary: acc) (auto simp: parse_field_def update_appends)

lemma oget_policy_map:
  "f \<in> set fs \<Longrightarrow> oget (map (\<lambda>f. (f, g f)) fs) f = g f"
  by (induction fs) (auto simp: oget_Cons)

lemma form_field_map:
  "f \<in> set fs \<Longrightarrow> form_field (map (\<lambda>f. (f, g f)) fs) f = g f"
  by (induction fs) (auto simp: form_field_def)

text \<open>The values of an answer, field by field.\<close>

definition held :: "jsv \<Rightarrow> string \<Rightarrow> jsnum" where
  "held read f = (let n = zeroIfAbsent (vget read f)
     in if f = ''retention_max_prune_per_pass'' \<and> n = num 0 then num 1 else n)"

lemma policyValues_eq: "policyValues read = map (\<lambda>f. (f, JNum (held read f))) AUDIT_POLICY_FIELDS"
  by (simp add: policyValues_def held_def AUDIT_POLICY_FIELDS_def oget_Cons Let_def)

lemma zeroIfAbsent_finite: "is_finite (zeroIfAbsent v)"
  by (induction v rule: zeroIfAbsent.induct) auto

lemma held_finite [simp]: "is_finite (held read f)"
  using zeroIfAbsent_finite by (auto simp: held_def Let_def)

lemma policyDiff_iff:
  "policyDiff sent read = [] \<longleftrightarrow> list_all (\<lambda>f. held (JObj sent) f = held read f) AUDIT_POLICY_FIELDS"
proof -
  have "num_eq (held (JObj sent) f) (held read f) \<longleftrightarrow> held (JObj sent) f = held read f" for f
    using held_finite [of "JObj sent" f] by (cases "held (JObj sent) f") (auto simp: num_eq_def)
  then show ?thesis
    by (auto simp: policyDiff_def policyValues_eq Let_def filter_empty_conv list_all_iff oget_policy_map)
qed

text \<open>Opening the policy form on an answer of whole numbers within their limits and saving it unchanged
  is accepted, sends those numbers, and the same answer confirms it.\<close>

theorem policy_unchanged_confirms:
  assumes whole: "\<forall>f\<in>set AUDIT_POLICY_FIELDS. \<exists>n. held read f = num (int n) \<and> int n \<le> field_bound f"
    and quota: "held read ''retention_max_bytes'' = num 0
      \<or> num_le (held read ''max_segment_bytes'') (held read ''retention_max_bytes'')"
  shows "parsePolicyForm (policyForm (policyValues read)) = (Some (policyValues read), [])
    \<and> policyDiff (policyValues read) read = []"
proof
  let ?form = "policyForm (policyValues read)"
  have w: "wholeNumber (form_field ?form f) (field_bound f) = Inr (held read f)" if f: "f \<in> set AUDIT_POLICY_FIELDS" for f
  proof -
    obtain n where n: "held read f = num (int n)" "int n \<le> field_bound f"
      using whole f by blast
    then have "form_field ?form f = nat_str n"
      using f by (simp add: policyForm_def policyValues_eq form_field_map oget_policy_map del: of_int_of_nat_eq num_str.simps)
    moreover have "int n \<le> MAX_SAFE_INTEGER"
      using n(2) by (simp add: field_bound_def AUDIT_MAX_SECONDS_def MAX_SAFE_INTEGER_def split: if_splits)
    ultimately show ?thesis
      using n by simp
  qed
  have p: "parsed ?form = (policyValues read, [])"
    unfolding parsed_def using parse_all_whole [of AUDIT_POLICY_FIELDS ?form "held read" "[]"] w
    by (simp add: policyValues_eq)
  have "\<not> quota_below_segment (policyValues read) []"
    using quota by (auto simp: quota_below_segment_def policyValues_eq AUDIT_POLICY_FIELDS_def oget_Cons num_le_def num_eq_def
        dest: num_lt_asym)
  then show "parsePolicyForm ?form = (Some (policyValues read), [])"
    by (simp add: parsePolicyForm_eq policy_errors_def p)
  have "held (JObj (policyValues read)) f = held read f" if "f \<in> set AUDIT_POLICY_FIELDS" for f
    using held_finite [of read f] that
    by (auto simp: held_def [of "JObj _"] policyValues_eq oget_policy_map Let_def) (simp add: held_def Let_def split: if_splits)
  then show "policyDiff (policyValues read) read = []"
    by (simp add: policyDiff_iff list_all_iff)
qed

theorem policy_unchanged_confirms_witness:
  "policyDiff (policyValues (JObj [(''max_segment_bytes'', jint 67108864)])) (JObj [(''max_segment_bytes'', jint 67108864)]) = []"
proof -
  let ?read = "JObj [(''max_segment_bytes'', jint 67108864)]"
  have "held ?read f = num (int (if f = ''max_segment_bytes'' then 67108864 else if f = ''retention_max_prune_per_pass'' then 1 else 0))" for f
    by (simp add: held_def oget_Cons)
  then have w: "\<forall>f\<in>set AUDIT_POLICY_FIELDS. \<exists>n. held ?read f = num (int n) \<and> int n \<le> field_bound f"
    by (auto simp: field_bound_def AUDIT_MAX_SECONDS_def MAX_SAFE_INTEGER_def intro!: exI)
  have "held ?read ''retention_max_bytes'' = num 0"
    by (simp add: held_def oget_Cons)
  then show ?thesis
    using policy_unchanged_confirms [OF w] by blast
qed

text \<open>A named sink that is accepted has an address of one host and one port, a bundle to verify it with,
  a client certificate exactly when it has a key, a facility and a frame size the gateway takes, a
  number of its own, and a name that is not the compliance sink's; nothing is sent otherwise.\<close>

theorem accepted_sink_is_sound:
  "(case parseNamedSinkForm form of
      (None, errors) \<Rightarrow> errors \<noteq> []
    | (Some (name, body), errors) \<Rightarrow> errors = [] \<and> name \<noteq> ''compliance''
        \<and> 1 \<le> length name \<and> length name \<le> 64
        \<and> (\<exists>address ca cert key facility frame enterprise.
             map (oget body) [''address'', ''ca_bundle_path'', ''client_cert_path'', ''client_key_path'', ''facility'',
                              ''max_frame_bytes'', ''enterprise_number'']
             = [JStr address, JStr ca, JStr cert, JStr key, jint facility, jint frame, jint enterprise]
             \<and> rx_test HOST_PORT address \<and> ca \<noteq> [] \<and> (cert = [] \<longleftrightarrow> key = [])
             \<and> 0 \<le> facility \<and> facility \<le> 23 \<and> 0 \<le> frame \<and> frame \<le> 2 ^ 30 \<and> 1 \<le> enterprise \<and> enterprise < 2 ^ 32))"
proof (cases "parseNamedSinkForm form")
  case (Pair result errors)
  show ?thesis
  proof (cases result)
    case None
    then show ?thesis
      using Pair by (auto simp: parseNamedSinkForm_def Let_def split: prod.splits if_splits)
  next
    case (Some sink)
    then obtain name body where ok: "parseNamedSinkForm form = (Some (name, body), errors)"
      using Pair by (cases sink) auto
    note facts = parseNamedSinkForm_ok [OF ok]
    then obtain address ca server cert key facility frame enterprise services sample
      where s: "sound_sink address ca cert key facility frame" "1 \<le> enterprise" "enterprise < 2 ^ 32"
      and b: "body = with_filter (sink_body address ca server cert key facility frame @ [(''enterprise_number'', jint enterprise)])
            (normalFilter (plain_filter (sf_streams form) services (sf_outcome form) sample))"
      by blast
    have "\<not> ohas (sink_body address ca server cert key facility frame @ [(''enterprise_number'', jint enterprise)]) ''filter''"
      using sink_body_gets by (auto simp: ohas_def)
    then have g: "map (oget body) [''address'', ''ca_bundle_path'', ''client_cert_path'', ''client_key_path'', ''facility'',
                              ''max_frame_bytes'', ''enterprise_number'']
             = [JStr address, JStr ca, JStr cert, JStr key, jint facility, jint frame, jint enterprise]"
      unfolding b by (simp add: with_filter_gets oget_append sink_body_def oget_Cons ohas_def)
    have n: "rx_test AUDIT_SINK_NAME_RE name" "errors = []" "name \<noteq> ''compliance''"
      using facts by blast+
    from this(1) have "1 \<le> length name" "length name \<le> 64"
      unfolding AUDIT_SINK_NAME_RE_def rx_test_iff by (simp_all add: between_cls)
    moreover have "\<exists>address ca cert key facility frame enterprise.
             map (oget body) [''address'', ''ca_bundle_path'', ''client_cert_path'', ''client_key_path'', ''facility'',
                              ''max_frame_bytes'', ''enterprise_number'']
             = [JStr address, JStr ca, JStr cert, JStr key, jint facility, jint frame, jint enterprise]
             \<and> rx_test HOST_PORT address \<and> ca \<noteq> [] \<and> (cert = [] \<longleftrightarrow> key = [])
             \<and> 0 \<le> facility \<and> facility \<le> 23 \<and> 0 \<le> frame \<and> frame \<le> 2 ^ 30 \<and> 1 \<le> enterprise \<and> enterprise < 2 ^ 32"
      by (intro exI conjI, rule g) (use s in \<open>auto simp: sound_sink_def\<close>)
    ultimately show ?thesis
      unfolding ok prod.case option.case using n by (intro conjI)
  qed
qed

end
