(* ===== verification/AuditStatus.thy ===== *)
theory AuditStatus
  imports JsPrelude
begin

section \<open>Audit trail status\<close>

text \<open>
  \<open>types/audit_status.ts\<close>: what of the gateway's audit status is urgent. A status and a sink are values of
  the answers; every member of them may be absent.
\<close>

datatype audit_rest_read = ReadForbidden | ReadAbsent | ReadOk jsv "jsv option"

definition AUDIT_COMPLIANCE_SINK :: string where "AUDIT_COMPLIANCE_SINK = ''compliance''"

datatype sink_condition = Disconnected | Stalled | Stopped | Unreported | Unrecognized

record sink_signal =
  ss_name :: string
  ss_compliance :: bool
  ss_condition :: "sink_condition option"
  ss_state :: "string option"
  ss_lagDrops :: jsnum
  ss_address :: "string option"
  ss_lastError :: "string option"
  ss_writeErrors :: jsnum

record orphan_signal =
  og_count :: jsnum
  og_eventId :: "string option"

datatype audit_signals =
    SignalsNone
  | SignalsForbidden
  | SignalsUnknown
  | SignalsOk (signal_sinks: "sink_signal list") (signal_orphan: "orphan_signal option")

fun count_num :: "jsv \<Rightarrow> jsnum" where
  "count_num (JNum n) = (if is_finite n \<and> num_lt (num 0) n then n else num 0)"
| "count_num _ = num 0"

definition QUIET_STATES :: "string list" where
  "QUIET_STATES = [''starting'', ''connected'']"

definition RAISED_STATES :: "(string \<times> sink_condition) list" where
  "RAISED_STATES = [(''disconnected'', Disconnected), (''stalled'', Stalled), (''stopped'', Stopped)]"

definition sinkCondition :: "jsv \<Rightarrow> sink_condition option \<times> string option" where
  "sinkCondition state = (case state of
     JStr s \<Rightarrow>
       if s = [] then (Some Unreported, None)
       else if s \<in> set QUIET_STATES then (None, None)
       else (case map_of RAISED_STATES s of Some c \<Rightarrow> (Some c, None) | None \<Rightarrow> (Some Unrecognized, Some s))
   | _ \<Rightarrow> (Some Unreported, None))"

definition nonblank :: "jsv \<Rightarrow> string option" where
  "nonblank v = (case str_or_empty v of [] \<Rightarrow> None | s \<Rightarrow> Some s)"

fun is_object :: "jsv \<Rightarrow> bool" where
  "is_object (JObj _) = True"
| "is_object (JArr _) = True"
| "is_object _ = False"

definition sink_detail :: "jsv option \<Rightarrow> sink_signal \<Rightarrow> sink_signal" where
  "sink_detail sink signal = (case sink of
     Some s \<Rightarrow>
       if ss_compliance signal then
         signal\<lparr>ss_address := nonblank (vget s ''address''), ss_lastError := nonblank (vget s ''last_error''),
           ss_writeErrors := count_num (vget s ''write_errors'')\<rparr>
       else signal
   | None \<Rightarrow> signal)"

definition listed_signal :: "jsv \<Rightarrow> sink_signal" where
  "listed_signal el =
     (let compliance = (vget el ''compliance'' = JBool True);
          name = str_or_empty (vget el ''name'');
          (condition, state) = sinkCondition (vget el ''state'')
      in \<lparr>ss_name = (if name \<noteq> [] then name else if compliance then AUDIT_COMPLIANCE_SINK else []),
          ss_compliance = compliance, ss_condition = condition, ss_state = state,
          ss_lagDrops = count_num (vget el ''lag_drops''),
          ss_address = None, ss_lastError = None, ss_writeErrors = num 0\<rparr>)"

text \<open>One turn of the loop over the listed sinks.\<close>

definition list_sink :: "jsv option \<Rightarrow> jsv \<Rightarrow> sink_signal list \<Rightarrow> sink_signal list" where
  "list_sink sink el out =
     (if \<not> is_object el then out
      else (let signal = listed_signal el in
            if ss_condition signal = None \<and> ss_lagDrops signal = num 0 then out
            else out @ [sink_detail sink signal]))"

definition listedSinks :: "jsv list \<Rightarrow> jsv option \<Rightarrow> sink_signal list" where
  "listedSinks els sink = fold (list_sink sink) els []"

definition lone_sink :: "jsv \<Rightarrow> sink_signal" where
  "lone_sink sink =
     \<lparr>ss_name = AUDIT_COMPLIANCE_SINK, ss_compliance = True, ss_condition = Some Disconnected, ss_state = None,
      ss_lagDrops = num 0, ss_address = nonblank (vget sink ''address''), ss_lastError = nonblank (vget sink ''last_error''),
      ss_writeErrors = count_num (vget sink ''write_errors'')\<rparr>"

definition away :: "jsv option \<Rightarrow> bool" where
  "away sink = (case sink of None \<Rightarrow> False
     | Some s \<Rightarrow> vget s ''enabled'' = JBool True \<and> vget s ''connected'' \<noteq> JBool True)"

definition raised_sinks :: "jsv \<Rightarrow> jsv option \<Rightarrow> sink_signal list" where
  "raised_sinks status sink = (case vget status ''sinks'' of
     JArr els \<Rightarrow> listedSinks els sink
   | JUndef \<Rightarrow> (case sink of Some s \<Rightarrow> if away sink then [lone_sink s] else [] | None \<Rightarrow> [])
   | _ \<Rightarrow> [])"

text \<open>No sinks to raise is the empty list here, an absent member in the code.\<close>

definition auditRestSignals :: "audit_rest_read option \<Rightarrow> bool \<Rightarrow> audit_signals" where
  "auditRestSignals rd readFailed =
     (if readFailed then SignalsUnknown
      else (case rd of
          None \<Rightarrow> SignalsNone
        | Some ReadAbsent \<Rightarrow> SignalsNone
        | Some ReadForbidden \<Rightarrow> SignalsForbidden
        | Some (ReadOk status sink) \<Rightarrow>
            if vget status ''available'' = JBool False then SignalsOk [] None
            else SignalsOk (raised_sinks status sink)
              (let orphaned = count_num (vget status ''orphaned_intents'')
               in if num_lt (num 0) orphaned
                  then Some \<lparr>og_count = orphaned, og_eventId = nonblank (vget status ''last_orphan_event_id'')\<rparr>
                  else None)))"

definition add_name :: "jsv \<Rightarrow> string list \<Rightarrow> string list" where
  "add_name el names =
     (if \<not> is_object el then names
      else (let name = str_or_empty (vget el ''name'')
            in if vget el ''compliance'' = JBool True \<or> name = [] \<or> name = AUDIT_COMPLIANCE_SINK then names
               else set_add name names))"

definition namedSinkNames :: "jsv \<Rightarrow> string list option" where
  "namedSinkNames status = (case vget status ''sinks'' of
     JNull \<Rightarrow> Some []
   | JArr els \<Rightarrow> Some (fold add_name els [])
   | _ \<Rightarrow> None)"

subsection \<open>What silence means\<close>

definition quiet_sink :: "jsv \<Rightarrow> bool" where
  "quiet_sink el \<longleftrightarrow> list_ex (\<lambda>s. vget el ''state'' = JStr s) QUIET_STATES \<and> count_num (vget el ''lag_drops'') = num 0"

lemma condition_None: "fst (sinkCondition state) = None \<longleftrightarrow> list_ex (\<lambda>s. state = JStr s) QUIET_STATES"
  by (auto simp: sinkCondition_def QUIET_STATES_def split: jsv.splits option.splits)

lemma listed_quiet: "ss_condition (listed_signal el) = None \<and> ss_lagDrops (listed_signal el) = num 0 \<longleftrightarrow> quiet_sink el"
  using condition_None [of "vget el ''state''"] by (auto simp: listed_signal_def quiet_sink_def Let_def split: prod.splits)

lemma listedSinks_eq:
  "listedSinks els sink = map (\<lambda>el. sink_detail sink (listed_signal el)) (filter (\<lambda>el. is_object el \<and> \<not> quiet_sink el) els)"
proof -
  have "fold (list_sink sink) els out
      = out @ map (\<lambda>el. sink_detail sink (listed_signal el)) (filter (\<lambda>el. is_object el \<and> \<not> quiet_sink el) els)" for out
    by (induction els arbitrary: out) (auto simp: list_sink_def Let_def simp flip: listed_quiet)
  then show ?thesis
    by (simp add: listedSinks_def)
qed

text \<open>C34. Nothing is raised exactly when the writer never started, or every sink that is listed says that it is
  starting or connected and lost nothing, a lone sink of an older gateway is not away, and no intent is
  orphaned; a read that failed is never silence.\<close>

theorem silence_is_health:
  "auditRestSignals rd readFailed = SignalsOk [] None \<longleftrightarrow>
     \<not> readFailed \<and> (\<exists>status sink. rd = Some (ReadOk status sink)
        \<and> (vget status ''available'' = JBool False
           \<or> ((case vget status ''sinks'' of
                 JArr els \<Rightarrow> list_all (\<lambda>el. if is_object el then quiet_sink el else True) els
               | JUndef \<Rightarrow> \<not> away sink
               | _ \<Rightarrow> True)
              \<and> count_num (vget status ''orphaned_intents'') = num 0)))"
proof -
  have c: "num_lt (num 0) (count_num v) \<longleftrightarrow> count_num v \<noteq> num 0" for v
    by (induction v rule: count_num.induct) auto
  have l: "listedSinks els sink = [] \<longleftrightarrow> list_all (\<lambda>el. if is_object el then quiet_sink el else True) els" for els sink
    by (auto simp: listedSinks_eq filter_empty_conv list_all_iff)
  have r: "raised_sinks status sink = [] \<longleftrightarrow> (case vget status ''sinks'' of
                 JArr els \<Rightarrow> list_all (\<lambda>el. if is_object el then quiet_sink el else True) els
               | JUndef \<Rightarrow> \<not> away sink
               | _ \<Rightarrow> True)" for status sink
    by (auto simp: raised_sinks_def l away_def split: jsv.splits option.splits)
  show ?thesis
    by (auto simp: auditRestSignals_def r c [simplified] Let_def split: option.splits audit_rest_read.splits)
qed

end
