(* ===== verification/AiPriority.thy ===== *)
theory AiPriority
  imports JsPrelude
begin

section \<open>Request priority of identities\<close>

text \<open>
  \<open>types/ai_priority.ts\<close>: the priority fields an API key, a tenant or a JWT profile carries, their form,
  what a create and a change send of it, and the warnings. A member that is omitted or null is \<open>None\<close>.
\<close>

definition PRIORITY_CLASSES :: "string list" where
  "PRIORITY_CLASSES = [''critical'', ''standard'', ''sheddable'']"

datatype priority_scope = KeyScope | TenantScope | JwtScope

definition BODY_TIERS :: "string list" where
  "BODY_TIERS = [''tier:priority'', ''tier:fast'', ''tier:flex'']"

definition MAX_ALLOWED_OBJECTIVES :: nat where
  "MAX_ALLOWED_OBJECTIVES = 64"

definition RANK :: "string \<Rightarrow> nat" where
  "RANK c = (if c = ''critical'' then 2 else if c = ''standard'' then 1 else 0)"

definition isPriorityClass :: "string \<Rightarrow> bool" where
  "isPriorityClass v \<longleftrightarrow> v \<in> set PRIORITY_CLASSES"

definition objectiveClass :: "jsnum option \<Rightarrow> string" where
  "objectiveClass priority =
     (let v = (case priority of None \<Rightarrow> num 0 | Some n \<Rightarrow> n)
      in if num_lt (num 0) v then ''critical'' else if num_lt v (num 0) then ''sheddable'' else ''standard'')"

definition parseObjectiveList :: "string \<Rightarrow> string list" where
  "parseObjectiveList s = filter (\<lambda>name. name \<noteq> []) (map js_trim (split_on CHR '','' s))"

definition objectiveListText :: "string list option \<Rightarrow> string" where
  "objectiveListText names = join_with '', '' (case names of None \<Rightarrow> [] | Some l \<Rightarrow> l)"

subsection \<open>The form and what it sends\<close>

record priority_draft =
  pd_priority_class :: string
  pd_default_objective :: string
  pd_allowed_objectives :: string

text \<open>The fields as read, and as a write sends them.\<close>

record priority_fields =
  pf_priority_class :: "string option"
  pf_default_objective :: "string option"
  pf_allowed_objectives :: "string list option"

abbreviation no_fields :: priority_fields where
  "no_fields \<equiv> \<lparr>pf_priority_class = None, pf_default_objective = None, pf_allowed_objectives = None\<rparr>"

fun text_or_blank :: "string option \<Rightarrow> string" where
  "text_or_blank None = []"
| "text_or_blank (Some s) = s"

fun names_or_none :: "string list option \<Rightarrow> string list" where
  "names_or_none None = []"
| "names_or_none (Some l) = l"

definition priorityDraftFrom :: "priority_fields \<Rightarrow> priority_draft" where
  "priorityDraftFrom f =
     \<lparr>pd_priority_class = text_or_blank (pf_priority_class f),
      pd_default_objective = text_or_blank (pf_default_objective f),
      pd_allowed_objectives = objectiveListText (pf_allowed_objectives f)\<rparr>"

definition hasPrioritySettings :: "priority_fields \<Rightarrow> bool" where
  "hasPrioritySettings f \<longleftrightarrow> text_or_blank (pf_priority_class f) \<noteq> [] \<or> text_or_blank (pf_default_objective f) \<noteq> []
     \<or> 0 < length (names_or_none (pf_allowed_objectives f))"

definition priorityCreateFields :: "priority_draft \<Rightarrow> priority_scope \<Rightarrow> priority_fields" where
  "priorityCreateFields d scope =
     (let out = no_fields\<lparr>pf_priority_class := (if pd_priority_class d \<noteq> [] then Some (pd_priority_class d) else None)\<rparr>
      in if scope = JwtScope then out
         else (let objective = js_trim (pd_default_objective d);
                   allowed = parseObjectiveList (pd_allowed_objectives d)
               in out\<lparr>pf_default_objective := (if objective \<noteq> [] then Some objective else None),
                      pf_allowed_objectives := (if 0 < length allowed then Some allowed else None)\<rparr>))"

definition priorityChangedFields :: "priority_draft \<Rightarrow> priority_fields \<Rightarrow> priority_scope \<Rightarrow> priority_fields" where
  "priorityChangedFields d current scope =
     (let out = no_fields\<lparr>pf_priority_class :=
            (if pd_priority_class d \<noteq> text_or_blank (pf_priority_class current) then Some (pd_priority_class d) else None)\<rparr>
      in if scope = JwtScope then out
         else (let objective = js_trim (pd_default_objective d);
                   allowed = parseObjectiveList (pd_allowed_objectives d)
               in out\<lparr>pf_default_objective :=
                        (if objective \<noteq> text_or_blank (pf_default_objective current) then Some objective else None),
                      pf_allowed_objectives :=
                        (if join_with '','' allowed \<noteq> join_with '','' (names_or_none (pf_allowed_objectives current))
                         then Some allowed else None)\<rparr>))"

subsection \<open>Errors and warnings\<close>

definition duplicate_errors :: "string list \<Rightarrow> string list" where
  "duplicate_errors allowed =
     snd (fold (\<lambda>name (seen, errors).
        (insert name seen,
         if name \<in> seen then errors @ [''Allowed objective '' @ name @ '' is duplicated.''] else errors))
       allowed ({}, []))"

definition validatePriorityDraft :: "priority_draft \<Rightarrow> priority_scope \<Rightarrow> string list" where
  "validatePriorityDraft d scope =
     (let errors = (if pd_priority_class d \<noteq> [] \<and> \<not> isPriorityClass (pd_priority_class d)
                    then [''Priority class must be critical, standard or sheddable.''] else [])
      in if scope = JwtScope then errors
         else (let allowed = parseObjectiveList (pd_allowed_objectives d)
               in errors
                  @ (if CHR '','' \<in> set (pd_default_objective d) then [''The default objective is one name.''] else [])
                  @ (if MAX_ALLOWED_OBJECTIVES < length allowed then [''At most 64 allowed objectives.''] else [])
                  @ duplicate_errors allowed))"

record objective_entry =
  ob_name :: string
  ob_priority :: "jsnum option"

record priority_warning =
  pw_key :: string
  pw_values :: "(string \<times> string) list"

definition unknown_default_warning :: priority_warning where
  "unknown_default_warning = \<lparr>pw_key =
     ''The default objective names no objective that exists now. Requests are then treated as asking for an unknown objective.'',
     pw_values = []\<rparr>"

definition priorityWarnings ::
  "priority_draft \<Rightarrow> priority_scope \<Rightarrow> objective_entry list option \<Rightarrow> priority_warning list" where
  "priorityWarnings d scope objectives =
     (case objectives of
        None \<Rightarrow> []
      | Some entries \<Rightarrow>
          if scope = JwtScope then []
          else
            (let known = map_of (rev (map (\<lambda>e. (ob_name e, e)) entries));
                 objective = js_trim (pd_default_objective d);
                 unknown = filter (\<lambda>name. known name = None \<and> name \<notin> set BODY_TIERS)
                             (parseObjectiveList (pd_allowed_objectives d))
             in (if objective \<noteq> [] \<and> known objective = None then [unknown_default_warning] else [])
                @ (if 0 < length unknown
                   then [\<lparr>pw_key = ''Not an objective that exists now: {{names}}.'',
                          pw_values = [(''names'', join_with '', '' unknown)]\<rparr>] else [])
                @ (case known objective of
                     None \<Rightarrow> []
                   | Some target \<Rightarrow>
                       (let cap = (if isPriorityClass (pd_priority_class d) then Some (pd_priority_class d)
                                   else if scope = TenantScope then Some ''standard'' else None);
                            wanted = objectiveClass (ob_priority target)
                        in case cap of
                             None \<Rightarrow> []
                           | Some c \<Rightarrow>
                               if RANK c < RANK wanted
                               then [\<lparr>pw_key = ''The default objective is {{wanted}}, above the {{cap}} cap: its requests are held at {{cap}}.'',
                                      pw_values = [(''wanted'', wanted), (''cap'', c)]\<rparr>]
                               else []))))"

subsection \<open>Names\<close>

text \<open>A list of names whose text is read back: no comma, no blank around, none empty.\<close>

definition plain_names :: "string list \<Rightarrow> bool" where
  "plain_names names \<longleftrightarrow> list_all (\<lambda>n. n \<noteq> [] \<and> js_trim n = n \<and> CHR '','' \<notin> set n) names"

lemma parsed_names_plain: "plain_names (parseObjectiveList s)"
proof -
  have "CHR '','' \<notin> set (js_trim w)" if "w \<in> set (split_on CHR '','' s)" for w
    using split_on_no_sep [OF that] set_js_trim [of w] by blast
  then show ?thesis
    by (auto simp: plain_names_def parseObjectiveList_def list_all_iff)
qed

lemma plain_names_joined:
  assumes "plain_names a" "plain_names b" "join_with '','' a = join_with '','' b"
  shows "a = b"
proof (cases "a = [] \<or> b = []")
  case True
  have "join_with '','' x = [] \<Longrightarrow> plain_names x \<Longrightarrow> x = []" for x
    by (cases x; cases "tl x") (auto simp: plain_names_def)
  from this [of a] this [of b] show ?thesis
    using True assms by auto
next
  case False
  then show ?thesis
    using join_inj [OF _ _ _ _ assms(3)] assms(1,2) by (auto simp: plain_names_def list_all_iff)
qed

lemma split_names:
  assumes "plain_names (n # ns)"
  shows "map js_trim (split_on CHR '','' (join_with '', '' (n # ns))) = n # ns"
    and "map js_trim (split_on CHR '','' (CHR '' '' # join_with '', '' (n # ns))) = n # ns"
proof -
  have blank: "js_trim (CHR '' '' # w) = js_trim w" for w
    by (simp add: js_trim_def is_space_def)
  have both: "map js_trim (split_on CHR '','' (join_with '', '' (n # ns))) = n # ns
      \<and> map js_trim (split_on CHR '','' (CHR '' '' # join_with '', '' (n # ns))) = n # ns"
    using assms
  proof (induction ns arbitrary: n)
    case Nil
    then show ?case
      by (simp add: plain_names_def split_on_plain blank)
  next
    case (Cons m ns)
    have n: "js_trim n = n" "CHR '','' \<notin> set n"
      using Cons.prems by (simp_all add: plain_names_def)
    have ih: "map js_trim (split_on CHR '','' (CHR '' '' # join_with '', '' (m # ns))) = m # ns"
      using Cons.IH [of m] Cons.prems by (simp add: plain_names_def)
    have j: "join_with '', '' (n # m # ns) = n @ CHR '','' # CHR '' '' # join_with '', '' (m # ns)"
      by simp
    have "split_on CHR '','' ((CHR '' '' # n) @ CHR '','' # t) = (CHR '' '' # n) # split_on CHR '','' t" for t
      using n by (intro split_on_append) simp
    then show ?case
      unfolding j using ih n by (simp add: split_on_append blank del: join_with.simps)
  qed
  show "map js_trim (split_on CHR '','' (join_with '', '' (n # ns))) = n # ns"
    "map js_trim (split_on CHR '','' (CHR '' '' # join_with '', '' (n # ns))) = n # ns"
    using both by blast+
qed

lemma names_read_back: "plain_names names \<Longrightarrow> parseObjectiveList (join_with '', '' names) = names"
proof (cases names)
  case (Cons n ns)
  assume "plain_names names"
  then show ?thesis
    using split_names(1) [of n ns] Cons by (simp add: parseObjectiveList_def plain_names_def list_all_iff del: join_with.simps)
qed (simp add: parseObjectiveList_def)

subsection \<open>A change\<close>

text \<open>An identity after a change: an omitted member keeps, a sent one replaces.\<close>

definition patched :: "priority_fields \<Rightarrow> priority_fields \<Rightarrow> priority_fields" where
  "patched current w =
     \<lparr>pf_priority_class = (case pf_priority_class w of None \<Rightarrow> pf_priority_class current | s \<Rightarrow> s),
      pf_default_objective = (case pf_default_objective w of None \<Rightarrow> pf_default_objective current | s \<Rightarrow> s),
      pf_allowed_objectives = (case pf_allowed_objectives w of None \<Rightarrow> pf_allowed_objectives current | s \<Rightarrow> s)\<rparr>"

text \<open>A change brings the identity to what the form says, for a JWT profile in its class alone, and a form
  that says what the identity holds sends nothing.\<close>

theorem priority_change_lands:
  assumes "plain_names (names_or_none (pf_allowed_objectives current))"
    and "js_trim (text_or_blank (pf_default_objective current)) = text_or_blank (pf_default_objective current)"
  shows "(let after = patched current (priorityChangedFields d current scope)
      in text_or_blank (pf_priority_class after) = pd_priority_class d
         \<and> text_or_blank (pf_default_objective after) =
             (if scope = JwtScope then text_or_blank (pf_default_objective current) else js_trim (pd_default_objective d))
         \<and> names_or_none (pf_allowed_objectives after) =
             (if scope = JwtScope then names_or_none (pf_allowed_objectives current) else parseObjectiveList (pd_allowed_objectives d)))
    \<and> priorityChangedFields (priorityDraftFrom current) current scope = no_fields"
proof
  have same: "join_with '','' (parseObjectiveList t) = join_with '','' (names_or_none (pf_allowed_objectives current))
      \<Longrightarrow> parseObjectiveList t = names_or_none (pf_allowed_objectives current)" for t
    using plain_names_joined [OF parsed_names_plain assms(1)] by blast
  show "let after = patched current (priorityChangedFields d current scope)
      in text_or_blank (pf_priority_class after) = pd_priority_class d
         \<and> text_or_blank (pf_default_objective after) =
             (if scope = JwtScope then text_or_blank (pf_default_objective current) else js_trim (pd_default_objective d))
         \<and> names_or_none (pf_allowed_objectives after) =
             (if scope = JwtScope then names_or_none (pf_allowed_objectives current) else parseObjectiveList (pd_allowed_objectives d))"
    using same [of "pd_allowed_objectives d"] by (auto simp: patched_def priorityChangedFields_def Let_def)
  have "objectiveListText (pf_allowed_objectives current) = join_with '', '' (names_or_none (pf_allowed_objectives current))"
    by (cases "pf_allowed_objectives current") (simp_all add: objectiveListText_def)
  then show "priorityChangedFields (priorityDraftFrom current) current scope = no_fields"
    using assms(2) names_read_back [OF assms(1)] by (simp add: priorityChangedFields_def priorityDraftFrom_def Let_def)
qed

theorem priority_change_lands_witness:
  "priorityChangedFields (priorityDraftFrom
     \<lparr>pf_priority_class = Some ''standard'', pf_default_objective = None, pf_allowed_objectives = Some [''chat'', ''tier:fast'']\<rparr>)
     \<lparr>pf_priority_class = Some ''standard'', pf_default_objective = None, pf_allowed_objectives = Some [''chat'', ''tier:fast'']\<rparr>
     KeyScope = no_fields"
proof -
  let ?c = "\<lparr>pf_priority_class = Some ''standard'', pf_default_objective = None, pf_allowed_objectives = Some [''chat'', ''tier:fast'']\<rparr>"
  have "plain_names (names_or_none (pf_allowed_objectives ?c))"
    "js_trim (text_or_blank (pf_default_objective ?c)) = text_or_blank (pf_default_objective ?c)"
    by code_simp+
  from priority_change_lands [OF this] show ?thesis
    by blast
qed

end
