(* ===== verification/CapabilityStatus.thy ===== *)
theory CapabilityStatus
  imports JsPrelude
begin

section \<open>Runtime capabilities of the gateway\<close>

text \<open>
  \<open>types/capability_status.ts\<close>: what the deployed gateway says of a capability, and what a form says of it.
  The list is the answer's member; it is not read yet, or the endpoint is absent, or it is there.
\<close>

datatype capability_list = NotRead | EndpointAbsent | Listed "jsv list"

datatype unknown_why = WhyEndpointAbsent | WhyNotListed | WhyUnreadable

datatype capability_verdict =
    CapReady
  | CapNotReady (cap_reason_code: string) (cap_reason: string)
  | CapUnknown unknown_why

definition CAP_KV_EXACT_VLLM :: string where "CAP_KV_EXACT_VLLM = ''kv_exact_vllm''"
definition CAP_LB_ALLOWED_SOURCES :: string where "CAP_LB_ALLOWED_SOURCES = ''lb_allowed_sources''"

definition entry_of :: "jsv list \<Rightarrow> string \<Rightarrow> jsv option" where
  "entry_of entries name = find (\<lambda>c. vget c ''name'' = JStr name) entries"

definition capabilityVerdict :: "capability_list \<Rightarrow> string \<Rightarrow> capability_verdict" where
  "capabilityVerdict cl name = (case cl of
     EndpointAbsent \<Rightarrow> CapUnknown WhyEndpointAbsent
   | NotRead \<Rightarrow> CapUnknown WhyUnreadable
   | Listed entries \<Rightarrow>
       (case entry_of entries name of
          None \<Rightarrow> CapUnknown WhyNotListed
        | Some entry \<Rightarrow>
            (case vget entry ''ready'' of
               JBool r \<Rightarrow>
                 if r then CapReady
                 else CapNotReady (str_or_empty (vget entry ''reason_code'')) (js_trim (str_or_empty (vget entry ''reason'')))
             | _ \<Rightarrow> CapUnknown WhyUnreadable)))"

definition kvExactVllmVerdict :: "capability_list \<Rightarrow> capability_verdict" where
  "kvExactVllmVerdict cl = capabilityVerdict cl CAP_KV_EXACT_VLLM"

fun is_not_ready :: "capability_verdict \<Rightarrow> bool" where
  "is_not_ready (CapNotReady _ _) = True"
| "is_not_ready _ = False"

definition kvExactAdmissible :: "capability_verdict \<Rightarrow> bool" where
  "kvExactAdmissible v \<longleftrightarrow> \<not> is_not_ready v"

definition kvExactModelNotice ::
  "capability_verdict \<Rightarrow> capability_verdict \<Rightarrow> string \<Rightarrow> string \<Rightarrow> (string \<times> string) option" where
  "kvExactModelNotice seed model askedName currentName =
     (if askedName = [] \<or> askedName \<noteq> currentName then None
      else if is_not_ready seed then None
      else if \<not> is_not_ready model then None
      else Some (cap_reason_code model, cap_reason model))"

text \<open>\<open>isCount\<close>: the value when it is a whole number from 0.\<close>

fun count_of :: "jsv \<Rightarrow> int option" where
  "count_of (JNum (Fin r)) = (if of_int \<lfloor>r\<rfloor> = r \<and> 0 \<le> r then Some \<lfloor>r\<rfloor> else None)"
| "count_of _ = None"

record capability_budget =
  cb_limit :: int
  cb_inUse :: int

definition capabilityBudget :: "capability_list \<Rightarrow> string \<Rightarrow> capability_budget option" where
  "capabilityBudget cl name = (case cl of
     Listed entries \<Rightarrow>
       (case entry_of entries name of
          None \<Rightarrow> None
        | Some entry \<Rightarrow>
            (case (count_of (vget entry ''limit''), count_of (vget entry ''in_use'')) of
               (Some l, Some u) \<Rightarrow> Some \<lparr>cb_limit = l, cb_inUse = u\<rparr>
             | _ \<Rightarrow> None))
   | _ \<Rightarrow> None)"

datatype source_notice = NoNotice | Caption int int | SourceWarning string string

definition lbSourceBudgetNotice :: "capability_list \<Rightarrow> bool \<Rightarrow> source_notice" where
  "lbSourceBudgetNotice cl hasSources = (case capabilityVerdict cl CAP_LB_ALLOWED_SOURCES of
     CapNotReady code reason \<Rightarrow> if hasSources then SourceWarning code reason else NoNotice
   | CapUnknown _ \<Rightarrow> NoNotice
   | CapReady \<Rightarrow>
       (case capabilityBudget cl CAP_LB_ALLOWED_SOURCES of
          None \<Rightarrow> NoNotice
        | Some b \<Rightarrow> Caption (max 0 (cb_limit b - cb_inUse b)) (cb_limit b)))"

subsection \<open>Unknown is not refused\<close>

lemma not_ready_iff:
  "is_not_ready (capabilityVerdict cl name) \<longleftrightarrow>
     (\<exists>entries entry. cl = Listed entries \<and> entry_of entries name = Some entry \<and> vget entry ''ready'' = JBool False)"
  by (cases cl) (auto simp: capabilityVerdict_def split: option.splits jsv.splits)

text \<open>A control is withdrawn, and a rule with sources warned of, exactly when the gateway lists the
  capability and says that it is not ready; a number of free slots is told only from a budget the
  gateway reported, and lies between 0 and its limit.\<close>

theorem only_a_refusal_withdraws:
  "(\<not> kvExactAdmissible (kvExactVllmVerdict cl) \<longleftrightarrow>
     (\<exists>entries entry. cl = Listed entries \<and> entry_of entries CAP_KV_EXACT_VLLM = Some entry
        \<and> vget entry ''ready'' = JBool False))
   \<and> (case lbSourceBudgetNotice cl hasSources of
      NoNotice \<Rightarrow> \<not> (hasSources \<and> is_not_ready (capabilityVerdict cl CAP_LB_ALLOWED_SOURCES))
    | SourceWarning code reason \<Rightarrow> hasSources \<and> capabilityVerdict cl CAP_LB_ALLOWED_SOURCES = CapNotReady code reason
    | Caption free limit \<Rightarrow> 0 \<le> free \<and> free \<le> limit \<and> capabilityVerdict cl CAP_LB_ALLOWED_SOURCES = CapReady
        \<and> (\<exists>used. capabilityBudget cl CAP_LB_ALLOWED_SOURCES = Some \<lparr>cb_limit = limit, cb_inUse = used\<rparr>))"
proof
  show "\<not> kvExactAdmissible (kvExactVllmVerdict cl) \<longleftrightarrow> (\<exists>entries entry. cl = Listed entries \<and> entry_of entries CAP_KV_EXACT_VLLM = Some entry
        \<and> vget entry ''ready'' = JBool False)"
    by (simp add: kvExactAdmissible_def kvExactVllmVerdict_def not_ready_iff)
  have c: "count_of v = Some n \<Longrightarrow> 0 \<le> n" for v n
    by (induction v rule: count_of.induct) (auto split: if_splits)
  show "case lbSourceBudgetNotice cl hasSources of
      NoNotice \<Rightarrow> \<not> (hasSources \<and> is_not_ready (capabilityVerdict cl CAP_LB_ALLOWED_SOURCES))
    | SourceWarning code reason \<Rightarrow> hasSources \<and> capabilityVerdict cl CAP_LB_ALLOWED_SOURCES = CapNotReady code reason
    | Caption free limit \<Rightarrow> 0 \<le> free \<and> free \<le> limit \<and> capabilityVerdict cl CAP_LB_ALLOWED_SOURCES = CapReady
        \<and> (\<exists>used. capabilityBudget cl CAP_LB_ALLOWED_SOURCES = Some \<lparr>cb_limit = limit, cb_inUse = used\<rparr>)"
    unfolding lbSourceBudgetNotice_def
    by (auto simp: capabilityBudget_def dest: c split: capability_verdict.splits capability_list.splits option.splits)
qed

end
