(* ===== verification/LogLines.thy ===== *)
theory LogLines
  imports JsText
begin

section \<open>Log lines\<close>

text \<open>
  \<open>parse_log_lines\<close> of \<open>common.ts\<close>: the three formats a line of the gateway or of the management service
  has, as the backtracking match of their regular expressions takes them apart. Every class that ends at
  a separator excludes it, so the only choices a match can revise are the last white space before an
  empty rest and the optional source location.
\<close>

record log_line =
  lg_id :: nat
  lg_created_at :: string
  lg_timestamp :: string
  lg_level :: string
  lg_message :: string
  lg_programname :: string
  lg_host :: string

subsection \<open>Upper case\<close>

text \<open>
  \<open>toUpperCase\<close> below 256: the sharp s becomes two letters; the micro sign and the y with diaeresis,
  whose capitals lie beyond, stay as they are.
\<close>

definition upper_char :: "char \<Rightarrow> string" where
  "upper_char c =
     (if (97 \<le> code_of c \<and> code_of c \<le> 122) \<or> (224 \<le> code_of c \<and> code_of c \<le> 254 \<and> code_of c \<noteq> 247)
      then [char_of (code_of c - 32)]
      else if code_of c = 223 then ''SS'' else [c])"

definition to_upper :: "string \<Rightarrow> string" where
  "to_upper s = concat (map upper_char s)"

definition normalizeLogLevel :: "string \<Rightarrow> string" where
  "normalizeLogLevel level =
     (let u = to_upper level in
      if u = ''ERR'' then ''ERROR''
      else if u = ''DBG'' then ''DEBUG''
      else if u = ''WARN'' then ''WARNING''
      else if u = ''INFO'' then ''INFO''
      else if u = ''CRITICAL'' then ''CRITICAL''
      else level)"

subsection \<open>Matching\<close>

text \<open>A template of digits (\<open>d\<close>) and literal characters.\<close>

definition fits :: "string \<Rightarrow> string \<Rightarrow> bool" where
  "fits pat s \<longleftrightarrow> list_all2 (\<lambda>p c. if p = CHR ''d'' then is_digit c else c = p) pat s"

definition SLASH_TIME :: string where "SLASH_TIME = ''dddd/dd/dd dd:dd:dd''"
definition DASH_TIME :: string where "DASH_TIME = ''dddd-dd-dd dd:dd:dd''"

definition line_end :: "char \<Rightarrow> bool" where
  "line_end c \<longleftrightarrow> code_of c = 10 \<or> code_of c = 13"

text \<open>\<open>(.+)$\<close>: the rest of the line, not empty and without a line terminator.\<close>

definition rest_of_line :: "string \<Rightarrow> string option" where
  "rest_of_line s = (if s \<noteq> [] \<and> \<not> list_ex line_end s then Some s else None)"

text \<open>
  What follows white space that the pattern needs (\<open>need\<close> is \<open>\s+\<close>) or allows: when nothing follows,
  the last white space is given back to the rest.
\<close>

definition after_space :: "bool \<Rightarrow> string \<Rightarrow> string option" where
  "after_space need s =
     (let ws = takeWhile is_space s; rest = dropWhile is_space s
      in if need \<and> ws = [] then None
         else if rest \<noteq> [] then Some rest
         else if ws = [] \<or> (need \<and> tl ws = []) then None
         else Some [last ws])"

text \<open>\<open>(?:([^\s:]+:\d+):\s*)?(.+)$\<close>: the source location, if there is one, and the message.\<close>

definition location_at :: "string \<Rightarrow> (string \<times> string) option" where
  "location_at s =
     (let file = takeWhile (\<lambda>c. \<not> is_space c \<and> c \<noteq> CHR '':'') s; r1 = drop (length file) s
      in if file = [] \<or> r1 = [] \<or> hd r1 \<noteq> CHR '':'' then None
         else (let line = takeWhile is_digit (tl r1); r2 = drop (length line) (tl r1)
               in if line = [] \<or> r2 = [] \<or> hd r2 \<noteq> CHR '':'' then None
                  else Some (file @ '':'' @ line, tl r2)))"

definition located_message :: "string \<Rightarrow> (string option \<times> string) option" where
  "located_message s = (case location_at s of
     None \<Rightarrow> map_option (\<lambda>m. (None, m)) (rest_of_line s)
   | Some (loc, after) \<Rightarrow>
       (case after_space False after of
          None \<Rightarrow> map_option (\<lambda>m. (None, m)) (rest_of_line s)
        | Some r \<Rightarrow> map_option (\<lambda>m. (Some loc, m)) (rest_of_line r)))"

definition NEW_LEVELS :: "string list" where
  "NEW_LEVELS = [''ERR'', ''INFO'', ''WARN'', ''DBG'', ''CRITICAL'']"

definition LEGACY_LEVELS :: "string list" where
  "LEGACY_LEVELS = [''ERROR'', ''INFO'', ''WARNING'', ''DEBUG'', ''CRITICAL'']"

definition DATAPATH_LEVELS :: "string list" where
  "DATAPATH_LEVELS = [''ERR'', ''ERROR'', ''INFO'', ''WARN'', ''WARNING'', ''DBG'', ''DEBUG'', ''CRITICAL'', ''FATAL'', ''TRACE'']"

text \<open>\<open>^(LEVEL):\s*(TIME)\<close>: the level, the time and what follows it.\<close>

definition level_first :: "string list \<Rightarrow> string \<Rightarrow> (string \<times> string \<times> string) option" where
  "level_first levels line =
     (let level = takeWhile (\<lambda>c. c \<noteq> CHR '':'') line; r = drop (length level) line;
          s = dropWhile is_space (tl r)
      in if level \<in> set levels \<and> r \<noteq> [] \<and> fits SLASH_TIME (take 19 s)
         then Some (level, take 19 s, drop 19 s) else None)"

definition newApiMatch :: "string \<Rightarrow> (string \<times> string \<times> string) option" where
  "newApiMatch line = (case level_first NEW_LEVELS line of
     None \<Rightarrow> None
   | Some (level, timestamp, r) \<Rightarrow>
       (case after_space True r of
          None \<Rightarrow> None
        | Some s \<Rightarrow> map_option (\<lambda>m. (level, timestamp, m)) (rest_of_line s)))"

definition legacyMatch :: "string \<Rightarrow> (string \<times> string \<times> string option \<times> string) option" where
  "legacyMatch line = (case level_first LEGACY_LEVELS line of
     None \<Rightarrow> None
   | Some (level, timestamp, r) \<Rightarrow>
       (case after_space True r of
          None \<Rightarrow> None
        | Some s \<Rightarrow> map_option (\<lambda>(loc, m). (level, timestamp, loc, m)) (located_message s)))"

definition datapathMatch :: "string \<Rightarrow> (string \<times> string \<times> string option \<times> string) option" where
  "datapathMatch line =
     (let r = drop 19 line; s = dropWhile is_space r;
          level = takeWhile (\<lambda>c. \<not> is_space c) s
      in if \<not> fits DASH_TIME (take 19 line) \<or> takeWhile is_space r = [] \<or> level \<notin> set DATAPATH_LEVELS then None
         else (case after_space True (drop (length level) s) of
             None \<Rightarrow> None
           | Some u \<Rightarrow> map_option (\<lambda>(loc, m). (take 19 line, level, loc, m)) (located_message u)))"

subsection \<open>Lines\<close>

definition new_log :: "string \<Rightarrow> string \<Rightarrow> string \<Rightarrow> string \<Rightarrow> log_line" where
  "new_log timestamp level message prog =
     \<lparr>lg_id = 0, lg_created_at = timestamp, lg_timestamp = timestamp, lg_level = level,
      lg_message = message, lg_programname = prog, lg_host = []\<rparr>"

definition parse_log_line :: "string \<Rightarrow> log_line option" where
  "parse_log_line line = (case newApiMatch line of
     Some (level, timestamp, message) \<Rightarrow>
       Some (new_log timestamp (normalizeLogLevel level) (js_trim message) [])
   | None \<Rightarrow>
     (case legacyMatch line of
        Some (level, timestamp, loc, message) \<Rightarrow>
          Some (new_log timestamp level message
                  (hd (split_on CHR '' '' (js_trim (case loc of None \<Rightarrow> [] | Some p \<Rightarrow> p)))))
      | None \<Rightarrow>
        (case datapathMatch line of
           Some (timestamp, level, loc, message) \<Rightarrow>
             Some (new_log timestamp (normalizeLogLevel level) (js_trim message)
                     (js_trim (case loc of None \<Rightarrow> [] | Some p \<Rightarrow> p)))
         | None \<Rightarrow> None)))"

definition push_log :: "nat \<times> string \<Rightarrow> log_line list \<Rightarrow> log_line list" where
  "push_log il acc = (case parse_log_line (snd il) of
     None \<Rightarrow> acc | Some lg \<Rightarrow> acc @ [lg\<lparr>lg_id := fst il\<rparr>])"

definition parse_log_lines :: "string list \<Rightarrow> log_line list" where
  "parse_log_lines lines = fold push_log (enumerate 0 lines) []"

lemma sample_lines:
  "map (\<lambda>l. (lg_level l, lg_programname l, lg_message l)) (parse_log_lines
     [''ERR:  2025/08/17 09:00:03 nlp: RT add failed-rt exists'', ''garbage line'',
      ''ERROR: 2025/05/25 07:23:58 logging.go:51: Reconnection failed'',
      ''2026-08-17 11:43:12 INFO  sockproxy_http.c:8097: [EOF_READ] fd=2259'',
      ''2026-08-17 11:43:12 INFO starting up: phase 2''])
   = [(''ERROR'', [], ''nlp: RT add failed-rt exists''), (''ERROR'', ''logging.go:51'', ''Reconnection failed''),
      (''INFO'', ''sockproxy_http.c:8097'', ''[EOF_READ] fd=2259''), (''INFO'', [], ''starting up: phase 2'')]"
  by code_simp

subsection \<open>What a line becomes\<close>

definition KNOWN_LEVELS :: "string list" where
  "KNOWN_LEVELS = [''ERROR'', ''INFO'', ''WARNING'', ''DEBUG'', ''CRITICAL'', ''FATAL'', ''TRACE'']"

lemma normal_levels:
  "list_all (\<lambda>l. normalizeLogLevel l \<in> set KNOWN_LEVELS) (NEW_LEVELS @ DATAPATH_LEVELS)"
  by code_simp

lemma level_first_level: "level_first levels line = Some (level, r) \<Longrightarrow> level \<in> set levels"
  by (auto simp: level_first_def Let_def split: if_splits)

lemma known_level:
  assumes "parse_log_line line = Some lg"
  shows "lg_level lg \<in> set KNOWN_LEVELS"
proof -
  have n: "normalizeLogLevel l \<in> set KNOWN_LEVELS" if "l \<in> set NEW_LEVELS \<or> l \<in> set DATAPATH_LEVELS" for l
    using normal_levels that by (auto simp: list_all_iff)
  have new: "l \<in> set NEW_LEVELS" if "newApiMatch line = Some (l, r)" for l r
    using that by (auto simp: newApiMatch_def dest: level_first_level split: option.splits)
  have old: "l \<in> set KNOWN_LEVELS" if "legacyMatch line = Some (l, r)" for l r
  proof -
    have "l \<in> set LEGACY_LEVELS"
      using that by (auto simp: legacyMatch_def dest: level_first_level split: option.splits)
    then show ?thesis
      by (auto simp: LEGACY_LEVELS_def KNOWN_LEVELS_def)
  qed
  have dp: "l \<in> set DATAPATH_LEVELS" if "datapathMatch line = Some (t, l, r)" for t l r
    using that by (auto simp: datapathMatch_def Let_def split: option.splits if_splits)
  show ?thesis
    using assms n new old dp
    by (auto simp: parse_log_line_def new_log_def split: option.splits prod.splits)
qed

text \<open>The lines that are read, each with the position it had; the others are left out.\<close>

definition numbered :: "nat \<times> string \<Rightarrow> log_line option" where
  "numbered il = map_option (\<lambda>lg. lg\<lparr>lg_id := fst il\<rparr>) (parse_log_line (snd il))"

lemma parse_log_lines_eq: "parse_log_lines lines = List.map_filter numbered (enumerate 0 lines)"
proof -
  have "fold push_log ils acc = acc @ List.map_filter numbered ils" for ils acc
    by (induction ils arbitrary: acc) (auto simp: push_log_def numbered_def map_filter_simps split: option.splits)
  then show ?thesis
    by (simp add: parse_log_lines_def)
qed

lemma parsed_from:
  assumes "lg \<in> set (parse_log_lines lines)"
  shows "lg_id lg < length lines \<and> (\<exists>lg'. parse_log_line (lines ! lg_id lg) = Some lg' \<and> lg = lg'\<lparr>lg_id := lg_id lg\<rparr>)"
proof -
  obtain i l where il: "(i, l) \<in> set (enumerate 0 lines)" "numbered (i, l) = Some lg"
    using assms by (auto simp: parse_log_lines_eq List.map_filter_def)
  then have "i < length lines" "l = lines ! i"
    by (auto simp: in_set_enumerate_eq)
  then show ?thesis
    using il(2) by (auto simp: numbered_def)
qed

lemma parsed_level: "lg \<in> set (parse_log_lines lines) \<Longrightarrow> lg_level lg \<in> set KNOWN_LEVELS"
  using parsed_from known_level by (metis log_line.select_convs(4) log_line.simps(15) log_line.surjective log_line.update_convs(1))

subsection \<open>A datapath line reads back\<close>

lemma takeWhile_stop: "list_all P xs \<Longrightarrow> \<not> P y \<Longrightarrow> takeWhile P (xs @ y # ys) = xs"
  by (induction xs) auto

lemma dropWhile_stop: "list_all P xs \<Longrightarrow> \<not> P y \<Longrightarrow> dropWhile P (xs @ y # ys) = y # ys"
  by (induction xs) auto

lemma trimmed_ends:
  assumes "js_trim s = s" "s \<noteq> []"
  shows "\<not> is_space (hd s)"
proof -
  have "length (dropWhile is_space s) \<ge> length s"
    using assms(1) unfolding js_trim_def by (metis length_dropWhile_le length_rev order_trans)
  then show ?thesis
    using assms(2) length_dropWhile_le [of is_space "tl s"] by (cases s) auto
qed

text \<open>A line of the datapath log - time, level, source location, message - is read as these parts, the
  level under its full name, whatever white space separates them.\<close>

theorem datapath_line_reads_back:
  assumes time: "fits DASH_TIME time"
    and level: "level \<in> set DATAPATH_LEVELS"
    and src: "src \<noteq> []" "list_all (\<lambda>c. \<not> is_space c \<and> c \<noteq> CHR '':'') src"
    and number: "all_digits number"
    and message: "message \<noteq> []" "js_trim message = message" "\<not> list_ex line_end message"
    and blank: "list_all is_space a" "a \<noteq> []" "list_all is_space b" "b \<noteq> []" "list_all is_space c"
  shows "parse_log_line (time @ a @ level @ b @ src @ '':'' @ number @ '':'' @ c @ message)
    = Some (new_log time (normalizeLogLevel level) message (src @ '':'' @ number))"
proof -
  let ?after = "src @ '':'' @ number @ '':'' @ c @ message"
  let ?line = "time @ a @ level @ b @ ?after"
  have colon: "\<not> is_space CHR '':''" "\<not> is_digit CHR '':''"
    by (simp_all add: is_space_def is_digit_def)
  have len: "length time = 19"
    using time by (auto simp: fits_def DASH_TIME_def dest!: list_all2_lengthD)
  obtain t0 ts where t: "time = t0 # ts" "is_digit t0"
    using time by (auto simp: fits_def DASH_TIME_def list_all2_Cons1)
  have hd_no: "takeWhile (\<lambda>c. c \<noteq> CHR '':'') ?line \<notin> set levels" if "list_all (\<lambda>l. l \<noteq> [] \<and> \<not> is_digit (hd l)) levels" for levels
  proof -
    have "takeWhile (\<lambda>c. c \<noteq> CHR '':'') ?line = [] \<or> is_digit (hd (takeWhile (\<lambda>c. c \<noteq> CHR '':'') ?line))"
      using t by simp
    then show ?thesis
      using that by (auto simp: list_all_iff)
  qed
  have "list_all (\<lambda>l. l \<noteq> [] \<and> \<not> is_digit (hd l)) NEW_LEVELS" "list_all (\<lambda>l. l \<noteq> [] \<and> \<not> is_digit (hd l)) LEGACY_LEVELS"
    by code_simp+
  then have none: "newApiMatch ?line = None" "legacyMatch ?line = None"
    using hd_no by (auto simp: newApiMatch_def legacyMatch_def level_first_def Let_def)
  obtain m ms where m: "message = m # ms" "\<not> is_space m"
    using message trimmed_ends [of message] by (cases message) auto
  obtain f fs where f: "src = f # fs" "\<not> is_space f"
    using src by (cases src) auto
  obtain n ns where n: "number = n # ns" "list_all is_digit number"
    using number by (cases number) (auto simp: all_digits_def)
  obtain l ls where l: "level = l # ls" "list_all (\<lambda>c. \<not> is_space c) level"
  proof -
    have "list_all (\<lambda>l. l \<noteq> [] \<and> list_all (\<lambda>c. \<not> is_space c) l) DATAPATH_LEVELS"
      by code_simp
    then show ?thesis
      using level that by (cases level) (auto simp: list_all_iff)
  qed
  obtain b0 bs where b: "b = b0 # bs" "is_space b0"
    using blank by (cases b) auto
  have loc: "location_at ?after = Some (src @ '':'' @ number, c @ message)"
  proof -
    have "takeWhile (\<lambda>c. \<not> is_space c \<and> c \<noteq> CHR '':'') ?after = src"
      using takeWhile_stop [OF src(2), of "CHR '':''"] by simp
    moreover have "takeWhile is_digit (number @ '':'' @ c @ message) = number"
      using takeWhile_stop [OF n(2), of "CHR '':''"] colon by simp
    ultimately show ?thesis
      using src(1) n(1) by (simp add: location_at_def Let_def)
  qed
  have sp: "dropWhile is_space (x @ y # z) = y # z" "takeWhile is_space (x @ y # z) = x"
    if "list_all is_space x" "\<not> is_space y" for x y z
    using that dropWhile_stop [of is_space x y z] takeWhile_stop [of is_space x y z] by simp_all
  have msg: "located_message ?after = Some (Some (src @ '':'' @ number), message)"
  proof -
    have "after_space False (c @ message) = Some message"
      using sp(1) [OF blank(5) m(2), of ms] m(1) by (simp add: after_space_def Let_def)
    then show ?thesis
      using message unfolding located_message_def loc by (simp add: rest_of_line_def)
  qed
  have lv: "takeWhile (\<lambda>c. \<not> is_space c) (level @ b @ ?after) = level"
    using takeWhile_stop [OF l(2), of b0] b by simp
  have u: "after_space True (b @ ?after) = Some ?after"
    using sp [OF blank(3), of f "fs @ '':'' @ number @ '':'' @ c @ message"] f blank(4)
    by (simp add: after_space_def Let_def)
  have w: "dropWhile is_space (a @ level @ b @ ?after) = level @ b @ ?after" "takeWhile is_space (a @ level @ b @ ?after) = a"
    using sp [OF blank(1), of l "ls @ b @ ?after"] l by auto
  have "datapathMatch ?line = Some (time, level, Some (src @ '':'' @ number), message)"
    using time level blank(2) by (simp add: datapathMatch_def Let_def len w lv u msg del: append.simps(2))
  moreover have "js_trim (src @ '':'' @ number) = src @ '':'' @ number"
  proof (rule trim_plain)
    show "\<forall>x\<in>set (src @ '':'' @ number). \<not> is_space x"
      using src(2) n(2) digit_not_space colon by (auto simp: list_all_iff)
  qed
  ultimately show ?thesis
    using message none by (simp add: parse_log_line_def)
qed

theorem datapath_line_reads_back_witness:
  "parse_log_line (''2026-08-17 11:43:12'' @ '' '' @ ''ERR'' @ ''  '' @ ''dp.c'' @ '':'' @ ''112'' @ '':'' @ '' '' @ ''map: update failed'')
   = Some (new_log ''2026-08-17 11:43:12'' (normalizeLogLevel ''ERR'') ''map: update failed'' (''dp.c'' @ '':'' @ ''112''))"
  by (rule datapath_line_reads_back) code_simp+

end
