(* ===== verification/LogTable.thy ===== *)
theory LogTable
  imports LogLines "HOL-Library.List_Lexorder" "HOL-Library.Char_ord"
begin

section \<open>The log list\<close>

text \<open>
  \<open>components/table/dashboard/logTableLogic.ts\<close>: order, filters, severity counts and rows of the lines
  that were read. Reading a date is a parameter: \<open>date_ms s\<close> is the time value of \<open>new Date(s)\<close>, \<open>None\<close>
  when it is invalid; so are the ISO text, the local text and the local fields of a time value.
\<close>

type_synonym date_reader = "string \<Rightarrow> int option"

definition logTimestampMs :: "date_reader \<Rightarrow> string \<Rightarrow> int option" where
  "logTimestampMs date_ms timestamp =
     (case date_ms (map (\<lambda>c. if c = CHR ''/'' then CHR ''-'' else c) timestamp @ ''Z'') of
        Some ms \<Rightarrow> Some ms
      | None \<Rightarrow> date_ms timestamp)"

subsection \<open>Order and filters\<close>

definition sort_ms :: "date_reader \<Rightarrow> log_line \<Rightarrow> int" where
  "sort_ms date_ms lg = (case logTimestampMs date_ms (lg_timestamp lg) of None \<Rightarrow> 0 | Some ms \<Rightarrow> ms)"

definition sortLogsNewestFirst :: "date_reader \<Rightarrow> log_line list \<Rightarrow> log_line list" where
  "sortLogsNewestFirst date_ms logs = js_sort (\<lambda>a b. sort_ms date_ms b - sort_ms date_ms a \<le> 0) logs"

definition parseBound :: "date_reader \<Rightarrow> string \<Rightarrow> jsnum \<Rightarrow> jsnum" where
  "parseBound date_ms v fallback =
     (if v = [] then fallback else (case date_ms v of None \<Rightarrow> fallback | Some ms \<Rightarrow> num ms))"

definition filterLogsByPeriod :: "date_reader \<Rightarrow> log_line list \<Rightarrow> string \<Rightarrow> string \<Rightarrow> log_line list" where
  "filterLogsByPeriod date_ms logs start_text end_text =
     (let start = parseBound date_ms start_text NegInf; stop = parseBound date_ms end_text PosInf
      in if start = NegInf \<and> stop = PosInf then logs
         else filter (\<lambda>lg. case logTimestampMs date_ms (lg_timestamp lg) of
                 None \<Rightarrow> False
               | Some ts \<Rightarrow> num_le start (num ts) \<and> num_le (num ts) stop) logs)"

definition filterLogsByLevel :: "log_line list \<Rightarrow> string \<Rightarrow> log_line list" where
  "filterLogsByLevel logs level =
     (if level = [] then logs else filter (\<lambda>lg. to_lower (lg_level lg) = to_lower level) logs)"

subsection \<open>Presets\<close>

datatype time_preset = P5m | P15m | P1h | P24h | PAll | PCustom

text \<open>The minutes of \<open>TIME_RANGE_PRESETS\<close>; \<open>None\<close> is null.\<close>

definition preset_minutes :: "(time_preset \<times> int option) list" where
  "preset_minutes = [(P5m, Some 5), (P15m, Some 15), (P1h, Some 60), (P24h, Some (60 * 24)), (PAll, None), (PCustom, None)]"

definition resolvePresetRange ::
  "(int \<Rightarrow> string) \<Rightarrow> time_preset \<Rightarrow> int \<Rightarrow> (string \<times> string) option \<Rightarrow> string \<times> string" where
  "resolvePresetRange iso_text preset now custom =
     (if preset = PCustom then (case custom of None \<Rightarrow> ([], []) | Some r \<Rightarrow> r)
      else (case map_of preset_minutes preset of
          Some (Some minutes) \<Rightarrow> (iso_text (now - minutes * 60000), [])
        | _ \<Rightarrow> ([], [])))"

subsection \<open>The structure of a message\<close>

definition component_char :: "char \<Rightarrow> bool" where
  "component_char c \<longleftrightarrow> is_alpha c \<or> is_digit c \<or> c = CHR ''_'' \<or> c = CHR ''-''"

text \<open>\<open>/^\[([A-Za-z0-9_-]+)\]\s*(.*)$/s\<close>\<close>

definition splitLogComponent :: "string \<Rightarrow> string \<times> string" where
  "splitLogComponent message =
     (let name = takeWhile component_char (tl message); r = drop (length name) (tl message)
      in if message \<noteq> [] \<and> hd message = CHR ''['' \<and> name \<noteq> [] \<and> r \<noteq> [] \<and> hd r = CHR '']''
         then (name, dropWhile is_space (tl r)) else ([], message))"

definition word_char :: "char \<Rightarrow> bool" where
  "word_char c \<longleftrightarrow> is_alpha c \<or> is_digit c \<or> c = CHR ''_''"

text \<open>
  The first place where \<open>\bkey=([^\s,]*)\<close> matches, with the character before it: a key starts with a
  word character, so the boundary asks that the one before is none.
\<close>

fun tag_value :: "string \<Rightarrow> bool \<Rightarrow> string \<Rightarrow> string" where
  "tag_value key inside [] = []"
| "tag_value key inside (c # s) =
     (if \<not> inside \<and> starts_with (c # s) (key @ ''='')
      then takeWhile (\<lambda>x. \<not> is_space x \<and> x \<noteq> CHR '','') (drop (length key + 1) (c # s))
      else tag_value key (word_char c) s)"

record log_tags =
  tag_model :: string
  tag_tenant :: string

definition extractLogTags :: "string \<Rightarrow> log_tags" where
  "extractLogTags message =
     \<lparr>tag_model = tag_value ''model'' False message, tag_tenant = tag_value ''tenant'' False message\<rparr>"

subsection \<open>Severities\<close>

definition level_key :: "log_line \<Rightarrow> string" where
  "level_key lg = to_upper (if lg_level lg = [] then ''UNKNOWN'' else lg_level lg)"

definition count_level :: "log_line \<Rightarrow> (string \<times> nat) list \<Rightarrow> (string \<times> nat) list" where
  "count_level lg acc =
     AList.update (level_key lg) ((case map_of acc (level_key lg) of None \<Rightarrow> 0 | Some n \<Rightarrow> n) + 1) acc"

definition countLogsByLevel :: "log_line list \<Rightarrow> (string \<times> nat) list" where
  "countLogsByLevel logs = fold count_level logs []"

definition LEVEL_ORDER :: "string list" where
  "LEVEL_ORDER = [''CRITICAL'', ''ERROR'', ''WARNING'', ''INFO'', ''DEBUG'']"

definition level_count :: "(string \<times> nat) list \<Rightarrow> string \<Rightarrow> nat" where
  "level_count counts l = (case map_of counts l of None \<Rightarrow> 0 | Some n \<Rightarrow> n)"

definition visibleLogLevels :: "(string \<times> nat) list \<Rightarrow> string \<Rightarrow> string list" where
  "visibleLogLevels levelCounts selectedLevel =
     (let selected = to_upper selectedLevel;
          keys = fold set_add (map fst levelCounts @ (if selected \<noteq> [] then [selected] else [])) [];
          extra = sort (filter (\<lambda>l. l \<notin> set LEVEL_ORDER) keys)
      in filter (\<lambda>l. level_count levelCounts l \<noteq> 0 \<or> l = selected) (LEVEL_ORDER @ extra))"

subsection \<open>Rows\<close>

record log_row =
  lr_id :: nat
  lr_timestamp :: string
  lr_level :: string
  lr_host :: string
  lr_message :: string

definition toLogRow :: "date_reader \<Rightarrow> (int \<Rightarrow> string) \<Rightarrow> log_line \<Rightarrow> nat \<Rightarrow> log_row" where
  "toLogRow date_ms local_text item index =
     \<lparr>lr_id = index,
      lr_timestamp = (case logTimestampMs date_ms (lg_timestamp item) of
          None \<Rightarrow> lg_timestamp item | Some ms \<Rightarrow> local_text ms),
      lr_level = lg_level item, lr_host = lg_host item, lr_message = lg_message item\<rparr>"

text \<open>The local month (from 0), day, hours, minutes and seconds of a time value.\<close>

type_synonym local_fields = "int \<Rightarrow> nat \<times> nat \<times> nat \<times> nat \<times> nat"

definition pad2 :: "nat \<Rightarrow> string" where
  "pad2 n = replicate (2 - length (nat_str n)) CHR ''0'' @ nat_str n"

definition formatCompactTimestamp :: "date_reader \<Rightarrow> local_fields \<Rightarrow> string \<Rightarrow> string" where
  "formatCompactTimestamp date_ms locals timestamp =
     (case logTimestampMs date_ms timestamp of
        None \<Rightarrow> timestamp
      | Some ms \<Rightarrow>
          (let (month, day, hours, minutes, seconds) = locals ms
           in pad2 (month + 1) @ ''-'' @ pad2 day @ '' '' @ pad2 hours @ '':'' @ pad2 minutes @ '':'' @ pad2 seconds))"

record console_row =
  cr_id :: nat
  cr_timestamp :: string
  cr_level :: string
  cr_component :: string
  cr_model :: string
  cr_tenant :: string
  cr_message :: string

definition toConsoleRow :: "date_reader \<Rightarrow> local_fields \<Rightarrow> log_line \<Rightarrow> nat \<Rightarrow> console_row" where
  "toConsoleRow date_ms locals item index =
     (let (component, body) = splitLogComponent (lg_message item); tags = extractLogTags (lg_message item)
      in \<lparr>cr_id = index, cr_timestamp = formatCompactTimestamp date_ms locals (lg_timestamp item),
          cr_level = lg_level item, cr_component = component, cr_model = tag_model tags,
          cr_tenant = tag_tenant tags, cr_message = body\<rparr>)"

subsection \<open>Facts about the order\<close>

lemma newest_first:
  "mset (sortLogsNewestFirst date_ms logs) = mset logs"
  "sorted_wrt (\<lambda>a b. sort_ms date_ms b \<le> sort_ms date_ms a) (sortLogsNewestFirst date_ms logs)"
proof -
  show "mset (sortLogsNewestFirst date_ms logs) = mset logs"
    by (simp add: sortLogsNewestFirst_def)
  show "sorted_wrt (\<lambda>a b. sort_ms date_ms b \<le> sort_ms date_ms a) (sortLogsNewestFirst date_ms logs)"
  proof -
    have "(\<lambda>a b. sort_ms date_ms b - sort_ms date_ms a \<le> 0) = (\<lambda>a b. sort_ms date_ms b \<le> sort_ms date_ms a)"
      by auto
    then show ?thesis
      unfolding sortLogsNewestFirst_def by (simp only:) (rule sorted_js_sort; auto)
  qed
qed

lemma period_subset: "set (filterLogsByPeriod date_ms logs a b) \<subseteq> set logs"
  by (auto simp: filterLogsByPeriod_def Let_def)

subsection \<open>Severity chips\<close>

lemma level_count_step: "level_count (count_level lg acc) l = level_count acc l + (if level_key lg = l then 1 else 0)"
  by (simp add: count_level_def level_count_def update_conv)

lemma level_count_eq: "level_count (countLogsByLevel logs) l = length (filter (\<lambda>lg. level_key lg = l) logs)"
proof -
  have "level_count (fold count_level logs acc) l = level_count acc l + length (filter (\<lambda>lg. level_key lg = l) logs)" for acc
    by (induction logs arbitrary: acc) (simp_all add: level_count_step)
  then show ?thesis
    by (simp add: countLogsByLevel_def level_count_def)
qed

lemma counted_levels: "fst ` set (countLogsByLevel logs) = level_key ` set logs"
proof -
  have "fst ` set (fold count_level logs acc) = fst ` set acc \<union> level_key ` set logs" for acc
    by (induction logs arbitrary: acc) (auto simp: count_level_def dom_update)
  then show ?thesis
    by (simp add: countLogsByLevel_def)
qed

lemma set_unique: "set (fold set_add xs []) = set xs"
  using set_fold_set_add [of "\<lambda>x. x" xs "[]"] by simp

lemma visible_iff:
  "l \<in> set (visibleLogLevels (countLogsByLevel logs) sel) \<longleftrightarrow>
     l \<in> level_key ` set logs \<or> (l = to_upper sel \<and> l \<noteq> [])"
proof -
  have shown: "level_count (countLogsByLevel logs) l = 0 \<longleftrightarrow> l \<notin> level_key ` set logs"
    by (auto simp: level_count_eq filter_empty_conv)
  then have "0 < level_count (countLogsByLevel logs) l \<longleftrightarrow> l \<in> level_key ` set logs"
    by (metis gr_zeroI less_irrefl)
  note shown = shown this
  have "[] \<notin> set LEVEL_ORDER"
    by (simp add: LEVEL_ORDER_def)
  then show ?thesis
    unfolding visibleLogLevels_def Let_def
    by (cases "l \<in> level_key ` set logs"; cases "l = to_upper sel"; cases "l \<in> set LEVEL_ORDER"; cases "to_upper sel = []")
       (simp_all add: shown set_unique counted_levels)
qed

lemma distinct_visible: "distinct (visibleLogLevels counts sel)"
proof -
  have "distinct (fold set_add xs [])" for xs :: "string list"
    using distinct_fold_set_add [of "[]" "\<lambda>x. x" xs] by simp
  moreover have "distinct LEVEL_ORDER"
    by (simp add: LEVEL_ORDER_def)
  ultimately show ?thesis
    unfolding visibleLogLevels_def Let_def by (intro distinct_filter) (auto simp: distinct_append)
qed

lemma groups_add_up:
  assumes "distinct ls" "g ` set xs \<subseteq> set ls"
  shows "(\<Sum>l\<leftarrow>ls. length (filter (\<lambda>x. g x = l) xs)) = length xs"
proof -
  have "(\<Sum>l\<in>set ls. length (filter (\<lambda>x. g x = l) xs)) = length xs"
    using assms(2)
  proof (induction xs)
    case (Cons x xs)
    have "(\<Sum>l\<in>set ls. length (filter (\<lambda>x. g x = l) (x # xs)))
        = (\<Sum>l\<in>set ls. (if g x = l then 1 else 0) + length (filter (\<lambda>x. g x = l) xs))"
      by (rule sum.cong) auto
    then show ?case
      using Cons by (simp add: sum.distrib)
  qed simp
  then show ?thesis
    using assms(1) by (simp add: sum_list_distinct_conv_sum_set)
qed

subsection \<open>Letters\<close>

definition capital :: "char \<Rightarrow> bool" where
  "capital c \<longleftrightarrow> 65 \<le> code_of c \<and> code_of c \<le> 90"

definition small :: "char \<Rightarrow> bool" where
  "small c \<longleftrightarrow> 97 \<le> code_of c \<and> code_of c \<le> 122"

lemma code_of_less: "code_of c < 256"
  by (simp add: code_of_def)

lemma code_of_eq: "code_of c = code_of d \<Longrightarrow> c = d"
  by (simp add: code_of_def)

lemma same_lower_char:
  assumes "capital c" "\<not> small d" "lower_char c = lower_char d"
  shows "c = d"
proof (rule code_of_eq)
  have "code_of (lower_char c) = code_of c + 32"
    using assms(1) by (simp add: lower_char_def capital_def)
  moreover have "code_of (lower_char c) = code_of (lower_char d)"
    by (simp only: assms(3))
  moreover have "code_of (lower_char d) = code_of d \<or> (code_of (lower_char d) = code_of d + 32 \<and> code_of d \<le> 90)
      \<or> 224 \<le> code_of (lower_char d)"
    by (auto simp: lower_char_def)
  ultimately show "code_of c = code_of d"
    using assms by (auto simp: capital_def small_def)
qed

lemma same_lower:
  assumes "list_all capital k" "list_all (\<lambda>c. \<not> small c) l" "to_lower k = to_lower l"
  shows "k = l"
  using assms
proof (induction k arbitrary: l)
  case (Cons c k)
  then show ?case
    by (cases l) (auto simp: to_lower_def intro: same_lower_char)
qed (simp add: to_lower_def)

lemma upper_not_small: "list_all (\<lambda>c. \<not> small c) (to_upper s)"
proof -
  have "list_all (\<lambda>c. \<not> small c) (upper_char c)" for c
    using code_of_less [of c] by (auto simp: upper_char_def small_def)
  then show ?thesis
    by (auto simp: to_upper_def list_all_iff)
qed

lemma known_capital: "list_all (\<lambda>k. list_all capital k \<and> to_upper k = k \<and> k \<noteq> []) KNOWN_LEVELS"
  by code_simp

text \<open>C28. Of the lines of all pages read from a log and left by a time window, every one is counted under exactly one of
  the severity chips shown; each chip tells as many lines as selecting it shows; and a selected level
  keeps its chip.\<close>

theorem chips_account_for_every_line:
  fixes date_ms pages a b sel
  defines "logs \<equiv> filterLogsByPeriod date_ms (concat (map parse_log_lines pages)) a b"
  defines "chips \<equiv> visibleLogLevels (countLogsByLevel logs) sel"
  shows "distinct chips \<and> (\<Sum>l\<leftarrow>chips. level_count (countLogsByLevel logs) l) = length logs
    \<and> list_all (\<lambda>l. level_count (countLogsByLevel logs) l = length (filterLogsByLevel logs l)) chips
    \<and> (if sel = [] then True else to_upper sel \<in> set chips)"
proof (intro conjI)
  have known: "list_all capital (lg_level lg)" "level_key lg = lg_level lg" "lg_level lg \<noteq> []" if "lg \<in> set logs" for lg
  proof -
    have "lg_level lg \<in> set KNOWN_LEVELS"
      using that period_subset parsed_level unfolding logs_def by fastforce
    then show "list_all capital (lg_level lg)" "level_key lg = lg_level lg" "lg_level lg \<noteq> []"
      using known_capital by (auto simp: level_key_def list_all_iff)
  qed
  show "distinct chips"
    unfolding chips_def by (rule distinct_visible)
  have keys: "level_key ` set logs \<subseteq> set chips"
    unfolding chips_def by (auto simp: visible_iff)
  then show "(\<Sum>l\<leftarrow>chips. level_count (countLogsByLevel logs) l) = length logs"
    using groups_add_up [OF \<open>distinct chips\<close> keys] by (simp add: level_count_eq)
  have "level_count (countLogsByLevel logs) l = length (filterLogsByLevel logs l)" if "l \<in> set chips" for l
  proof -
    have "l \<in> level_key ` set logs \<or> (l = to_upper sel \<and> l \<noteq> [])"
      using that unfolding chips_def visible_iff .
    then have l: "list_all (\<lambda>c. \<not> small c) l" "l \<noteq> []"
      using upper_not_small [of sel] upper_not_small known(2,3) by (auto simp: level_key_def [symmetric]) (metis level_key_def)+
    have "level_key lg = l \<longleftrightarrow> to_lower (lg_level lg) = to_lower l" if "lg \<in> set logs" for lg
      using known [OF that] same_lower l(1) by auto
    then show ?thesis
      using l(2) by (auto simp: level_count_eq filterLogsByLevel_def intro!: arg_cong [where f = length] filter_cong)
  qed
  then show "list_all (\<lambda>l. level_count (countLogsByLevel logs) l = length (filterLogsByLevel logs l)) chips"
    by (simp add: list_all_iff)
  have "sel \<noteq> [] \<Longrightarrow> to_upper sel \<noteq> []"
    by (cases sel) (auto simp: to_upper_def upper_char_def)
  then show "if sel = [] then True else to_upper sel \<in> set chips"
    unfolding chips_def by (simp add: visible_iff)
qed

end
