(* ===== verification/LogPaging.thy ===== *)
theory LogPaging
  imports LogTable
begin

section \<open>Paging through a log\<close>

text \<open>
  \<open>hooks/useInstanceLogPaging.ts\<close> with the read it drives, \<open>query_get_inst_logs\<close> of
  \<open>connector/instance/status.ts\<close>: the state of the hook as a record, one operation per callback and
  effect, and the runs of the hook as an inductive relation. The query library is what the rules of the
  relation rely on: the answer a render sees is one to the current options, and a page that was read with
  a cursor is not read again while the options stay the same (its \<open>staleTime\<close> is infinite).
\<close>

subsection \<open>The read\<close>

record log_options =
  lo_level :: "string option"
  lo_keyword :: "string option"
  lo_cursor :: "string option"
  lo_file :: "string option"
  lo_reload_token :: nat
  lo_enableAutoRefresh :: bool

text \<open>A text that is there and not empty.\<close>

fun given :: "string option \<Rightarrow> bool" where
  "given None = False"
| "given (Some s) = (s \<noteq> [])"

definition some_text :: "string \<Rightarrow> string option" where
  "some_text s = (if s = [] then None else Some s)"

definition mapLevelToApiCode :: "string \<Rightarrow> string" where
  "mapLevelToApiCode level =
     (let l = to_lower level in
      if l = ''debug'' then ''DBG''
      else if l = ''info'' then ''INFO''
      else if l = ''error'' then ''ERR''
      else if l = ''warning'' then ''WARN''
      else if l = ''critical'' then ''CRITICAL''
      else to_upper level)"

definition opt_param :: "string \<Rightarrow> string option \<Rightarrow> (string \<times> string) list" where
  "opt_param k v = (case v of Some s \<Rightarrow> if s = [] then [] else [(k, s)] | None \<Rightarrow> [])"

text \<open>The parameters of the request; the hook never sets \<open>lines\<close>.\<close>

definition log_params :: "log_options \<Rightarrow> (string \<times> string) list" where
  "log_params opts =
     [(''lines'', ''1000'')]
     @ (case lo_level opts of Some l \<Rightarrow> if l = [] then [] else [(''level'', mapLevelToApiCode l)] | None \<Rightarrow> [])
     @ opt_param ''keyword'' (lo_keyword opts)
     @ opt_param ''cursor'' (lo_cursor opts)
     @ opt_param ''file'' (lo_file opts)"

record log_response =
  pr_logs :: "log_line list"
  pr_next_cursor :: "string option"
  pr_has_more :: bool
  pr_count :: "jsnum option"
  pr_total_size :: "jsnum option"
  pr_scanned_bytes :: "jsnum option"

fun number_of :: "jsv \<Rightarrow> jsnum option" where
  "number_of (JNum n) = Some n"
| "number_of _ = None"

fun texts_of :: "jsv \<Rightarrow> string list" where
  "texts_of (JArr vs) = map str_or_empty vs"
| "texts_of _ = []"

definition read_log_body :: "jsv \<Rightarrow> log_response" where
  "read_log_body data =
     (if \<not> truthy (vget data ''logs'') then
        \<lparr>pr_logs = [], pr_next_cursor = None, pr_has_more = False, pr_count = None, pr_total_size = None,
         pr_scanned_bytes = None\<rparr>
      else
        \<lparr>pr_logs = parse_log_lines (texts_of (vget data ''logs'')),
         pr_next_cursor = some_text (str_or_empty (vget data ''next_cursor'')),
         pr_has_more = truthy (vget data ''has_more''),
         pr_count = (if truthy (vget data ''log_count'') then number_of (vget data ''log_count'') else None),
         pr_total_size = number_of (vget data ''total_size''),
         pr_scanned_bytes = number_of (vget data ''scanned_bytes'')\<rparr>)"

subsection \<open>The hook\<close>

fun num_plus :: "jsnum \<Rightarrow> jsnum \<Rightarrow> jsnum" where
  "num_plus (Fin a) (Fin b) = Fin (a + b)"
| "num_plus NaN _ = NaN"
| "num_plus _ NaN = NaN"
| "num_plus PosInf NegInf = NaN"
| "num_plus NegInf PosInf = NaN"
| "num_plus PosInf _ = PosInf"
| "num_plus _ PosInf = PosInf"
| "num_plus NegInf _ = NegInf"
| "num_plus _ NegInf = NegInf"

text \<open>
  \<open>lp_applied\<close> is the identity of the response object last folded in: react-query hands the same object
  to every render until it has read a new answer.
\<close>

record log_pager =
  lp_selectedLevel :: string
  lp_keyword :: string
  lp_preset :: time_preset
  lp_customRange :: "string \<times> string"
  lp_liveTail :: bool
  lp_rawLogs :: "log_line list"
  lp_nextCursor :: "string option"
  lp_hasMore :: bool
  lp_isLoadingMore :: bool
  lp_totalSize :: jsnum
  lp_scannedBytes :: jsnum
  lp_options :: log_options
  lp_applied :: "nat option"

definition new_pager :: log_pager where
  "new_pager =
     \<lparr>lp_selectedLevel = [], lp_keyword = [], lp_preset = PAll, lp_customRange = ([], []), lp_liveTail = False,
      lp_rawLogs = [], lp_nextCursor = None, lp_hasMore = False, lp_isLoadingMore = False,
      lp_totalSize = num 0, lp_scannedBytes = num 0,
      lp_options = \<lparr>lo_level = None, lo_keyword = None, lo_cursor = None, lo_file = None, lo_reload_token = 0,
                    lo_enableAutoRefresh = False\<rparr>,
      lp_applied = None\<rparr>"

definition num_or_zero :: "jsnum option \<Rightarrow> jsnum" where
  "num_or_zero n = (case n of None \<Rightarrow> num 0 | Some v \<Rightarrow> v)"

text \<open>The effect on the response \<open>n\<close> with the content \<open>r\<close>.\<close>

definition apply_response :: "nat \<Rightarrow> log_response \<Rightarrow> log_pager \<Rightarrow> log_pager" where
  "apply_response n r p =
     (if lp_applied p = Some n then p
      else (let following = given (lo_cursor (lp_options p)) in
        p\<lparr>lp_applied := Some n,
          lp_rawLogs := (if following then lp_rawLogs p @ pr_logs r else pr_logs r),
          lp_nextCursor := pr_next_cursor r,
          lp_hasMore := pr_has_more r,
          lp_isLoadingMore := False,
          lp_totalSize := (case pr_total_size r of None \<Rightarrow> lp_totalSize p | Some n \<Rightarrow> n),
          lp_scannedBytes := (if following then num_plus (lp_scannedBytes p) (num_or_zero (pr_scanned_bytes r))
                              else num_or_zero (pr_scanned_bytes r))\<rparr>))"

definition fetching_changed :: "bool \<Rightarrow> log_pager \<Rightarrow> log_pager" where
  "fetching_changed isFetching p = (if \<not> isFetching then p\<lparr>lp_isLoadingMore := False\<rparr> else p)"

definition applyKeyword :: "string \<Rightarrow> log_pager \<Rightarrow> log_pager" where
  "applyKeyword keyword p =
     p\<lparr>lp_options := (lp_options p)\<lparr>lo_level := None, lo_keyword := some_text keyword, lo_cursor := None\<rparr>,
       lp_keyword := keyword, lp_nextCursor := None, lp_hasMore := False\<rparr>"

definition handleLoadMore :: "log_pager \<Rightarrow> log_pager" where
  "handleLoadMore p =
     (if \<not> given (lp_nextCursor p) \<or> lp_isLoadingMore p then p
      else p\<lparr>lp_liveTail := False, lp_isLoadingMore := True,
             lp_options := (lp_options p)\<lparr>lo_cursor := lp_nextCursor p, lo_enableAutoRefresh := False\<rparr>\<rparr>)"

definition handleRefresh :: "log_pager \<Rightarrow> log_pager" where
  "handleRefresh p =
     p\<lparr>lp_nextCursor := None, lp_hasMore := False,
       lp_options := (lp_options p)\<lparr>lo_cursor := None, lo_reload_token := lo_reload_token (lp_options p) + 1\<rparr>\<rparr>"

definition toggleLiveTail :: "log_pager \<Rightarrow> log_pager" where
  "toggleLiveTail p =
     (let follow = \<not> lp_liveTail p; q = p\<lparr>lp_liveTail := follow\<rparr>;
          q = (if follow then q\<lparr>lp_nextCursor := None, lp_hasMore := False\<rparr> else q)
      in q\<lparr>lp_options := (lp_options q)\<lparr>lo_cursor := None, lo_enableAutoRefresh := follow\<rparr>\<rparr>)"

definition selectFile :: "string \<Rightarrow> log_pager \<Rightarrow> log_pager" where
  "selectFile name p =
     p\<lparr>lp_liveTail := False, lp_nextCursor := None, lp_hasMore := False,
       lp_options := (lp_options p)\<lparr>lo_file := some_text name, lo_cursor := None,
         lo_enableAutoRefresh := False, lo_reload_token := lo_reload_token (lp_options p) + 1\<rparr>\<rparr>"

definition resetFilters :: "log_pager \<Rightarrow> log_pager" where
  "resetFilters p = applyKeyword [] (p\<lparr>lp_selectedLevel := [], lp_preset := PAll, lp_customRange := ([], [])\<rparr>)"

text \<open>What is shown: the window, the counts in it, and the lines of the selected level.\<close>

definition logs_in_period :: "date_reader \<Rightarrow> (int \<Rightarrow> string) \<Rightarrow> int \<Rightarrow> log_pager \<Rightarrow> log_line list" where
  "logs_in_period date_ms iso_text now p =
     (let (start, stop) = resolvePresetRange iso_text (lp_preset p) now (Some (lp_customRange p))
      in filterLogsByPeriod date_ms (lp_rawLogs p) start stop)"

definition shown_counts :: "date_reader \<Rightarrow> (int \<Rightarrow> string) \<Rightarrow> int \<Rightarrow> log_pager \<Rightarrow> (string \<times> nat) list" where
  "shown_counts date_ms iso_text now p = countLogsByLevel (logs_in_period date_ms iso_text now p)"

definition shown_logs :: "date_reader \<Rightarrow> (int \<Rightarrow> string) \<Rightarrow> int \<Rightarrow> log_pager \<Rightarrow> log_line list" where
  "shown_logs date_ms iso_text now p =
     filterLogsByLevel (logs_in_period date_ms iso_text now p) (lp_selectedLevel p)"

subsection \<open>Runs\<close>

datatype pager_event =
    SetLevel string | SetPreset time_preset | SetCustomRange "string \<times> string" | ApplyKeyword string
  | LoadMore | RefreshLogs | ToggleLive | SelectFile string | ResetFilters | FetchingChanged bool

fun handle_event :: "pager_event \<Rightarrow> log_pager \<Rightarrow> log_pager" where
  "handle_event (SetLevel l) p = p\<lparr>lp_selectedLevel := l\<rparr>"
| "handle_event (SetPreset x) p = p\<lparr>lp_preset := x\<rparr>"
| "handle_event (SetCustomRange r) p = p\<lparr>lp_customRange := r\<rparr>"
| "handle_event (ApplyKeyword k) p = applyKeyword k p"
| "handle_event LoadMore p = handleLoadMore p"
| "handle_event RefreshLogs p = handleRefresh p"
| "handle_event ToggleLive p = toggleLiveTail p"
| "handle_event (SelectFile f) p = selectFile f p"
| "handle_event ResetFilters p = resetFilters p"
| "handle_event (FetchingChanged b) p = fetching_changed b p"

type_synonym page = "log_options \<times> log_response"

text \<open>
  \<open>paged p pages\<close>: the hook can be in the state \<open>p\<close>, and \<open>pages\<close> are the answers folded into the lines it
  holds, each with the options it answered.
\<close>

inductive paged :: "log_pager \<Rightarrow> page list \<Rightarrow> bool" where
  mounted: "paged new_pager []"
| event: "paged p pages \<Longrightarrow> paged (handle_event e p) pages"
| answer: "paged p pages \<Longrightarrow> lp_applied p \<noteq> Some n
    \<Longrightarrow> \<not> (given (lo_cursor (lp_options p)) \<and> pages \<noteq> [] \<and> fst (last pages) = lp_options p)
    \<Longrightarrow> paged (apply_response n r p)
          ((if given (lo_cursor (lp_options p)) then pages else []) @ [(lp_options p, r)])"

inductive_cases paged_E: "paged p pages"

subsection \<open>One scan\<close>

definition same_scan :: "log_options \<Rightarrow> log_options \<Rightarrow> bool" where
  "same_scan a b \<longleftrightarrow> lo_file a = lo_file b \<and> lo_keyword a = lo_keyword b"

text \<open>Each page was asked with the cursor that the page before it returned, in the same scan.\<close>

fun linked :: "page list \<Rightarrow> bool" where
  "linked [] = True"
| "linked [p] = True"
| "linked (p # q # ps) = (lo_cursor (fst q) = pr_next_cursor (snd p) \<and> given (lo_cursor (fst q))
     \<and> same_scan (fst p) (fst q) \<and> linked (q # ps))"

definition one_scan :: "page list \<Rightarrow> bool" where
  "one_scan pages \<longleftrightarrow> pages = [] \<or> (\<not> given (lo_cursor (fst (hd pages))) \<and> linked pages)"

definition bytes_of :: "page list \<Rightarrow> jsnum" where
  "bytes_of pages = foldl (\<lambda>n p. num_plus n (num_or_zero (pr_scanned_bytes (snd p)))) (num 0) pages"

definition pager_inv :: "log_pager \<Rightarrow> page list \<Rightarrow> bool" where
  "pager_inv p pages \<longleftrightarrow>
     one_scan pages
     \<and> lp_rawLogs p = concat (map (\<lambda>q. pr_logs (snd q)) pages)
     \<and> lp_scannedBytes p = bytes_of pages
     \<and> (given (lp_nextCursor p) \<longrightarrow> pages \<noteq> [] \<and> lp_nextCursor p = pr_next_cursor (snd (last pages))
          \<and> same_scan (fst (last pages)) (lp_options p))
     \<and> (given (lo_cursor (lp_options p)) \<longrightarrow> pages \<noteq> [] \<and> \<not> lo_enableAutoRefresh (lp_options p)
          \<and> same_scan (fst (last pages)) (lp_options p)
          \<and> (fst (last pages) = lp_options p \<or> lo_cursor (lp_options p) = pr_next_cursor (snd (last pages))))
     \<and> lp_liveTail p = lo_enableAutoRefresh (lp_options p)"

lemma linked_snoc:
  "linked (ps @ [q]) \<longleftrightarrow> linked ps \<and> (ps = [] \<or> (lo_cursor (fst q) = pr_next_cursor (snd (last ps))
     \<and> given (lo_cursor (fst q)) \<and> same_scan (fst (last ps)) (fst q)))"
  by (induction ps rule: linked.induct) auto

lemma num_plus_zero [simp]: "num_plus (Fin 0) n = n"
  by (cases n) auto

lemmas pager_ops = applyKeyword_def handleLoadMore_def handleRefresh_def toggleLiveTail_def selectFile_def
  resetFilters_def fetching_changed_def

lemma event_keeps_inv: "pager_inv p pages \<Longrightarrow> pager_inv (handle_event e p) pages"
  by (cases e) (auto simp: pager_inv_def pager_ops same_scan_def Let_def)

lemma answer_keeps_inv:
  assumes "pager_inv p pages" "lp_applied p \<noteq> Some n"
    and fresh: "\<not> (given (lo_cursor (lp_options p)) \<and> pages \<noteq> [] \<and> fst (last pages) = lp_options p)"
  shows "pager_inv (apply_response n r p) ((if given (lo_cursor (lp_options p)) then pages else []) @ [(lp_options p, r)])"
proof (cases "given (lo_cursor (lp_options p))")
  case True
  then show ?thesis
    using assms by (auto simp: pager_inv_def apply_response_def Let_def one_scan_def linked_snoc bytes_of_def same_scan_def)
next
  case False
  then show ?thesis
    using assms by (auto simp: pager_inv_def apply_response_def Let_def one_scan_def bytes_of_def same_scan_def num_or_zero_def)
qed

lemma paged_inv: "paged p pages \<Longrightarrow> pager_inv p pages"
proof (induction rule: paged.induct)
  case mounted
  show ?case
    by (simp add: pager_inv_def new_pager_def one_scan_def bytes_of_def)
qed (rule event_keeps_inv answer_keeps_inv; assumption)+

text \<open>C9. Whatever is clicked and in whatever order answers come, the lines held are those of the pages of one
  scan of one file and one keyword: the first asked from the newest line, each further one asked with the
  cursor the page before it returned, none twice; the bytes told as searched are the bytes of those
  pages; the log is polled exactly while the switch says it is followed, and never while a cursor is set.\<close>

theorem lines_are_one_scan:
  assumes "paged p pages"
  shows "one_scan pages \<and> lp_rawLogs p = concat (map (\<lambda>q. pr_logs (snd q)) pages)
    \<and> lp_scannedBytes p = bytes_of pages
    \<and> lp_liveTail p = lo_enableAutoRefresh (lp_options p)
    \<and> \<not> (given (lo_cursor (lp_options p)) \<and> lo_enableAutoRefresh (lp_options p))"
  using paged_inv [OF assms] by (auto simp: pager_inv_def)

definition sample_page :: "string \<Rightarrow> string option \<Rightarrow> log_response" where
  "sample_page line following = read_log_body (JObj ([(''logs'', JArr [JStr line]), (''has_more'', JBool True), (''scanned_bytes'', jint 10)]
     @ (case following of None \<Rightarrow> [] | Some c \<Rightarrow> [(''next_cursor'', JStr c)])))"

theorem lines_are_one_scan_witness:
  "let p1 = apply_response 1 (sample_page ''INFO: 2025/08/17 09:00:00 b'' (Some ''c1'')) new_pager;
       p2 = apply_response 2 (sample_page ''INFO: 2025/08/17 08:00:00 a'' None) (handleLoadMore p1)
   in map lg_message (lp_rawLogs p2) = [''b'', ''a''] \<and> lp_scannedBytes p2 = num 20
      \<and> one_scan [(lp_options new_pager, sample_page ''INFO: 2025/08/17 09:00:00 b'' (Some ''c1'')),
                  (lp_options (handleLoadMore p1), sample_page ''INFO: 2025/08/17 08:00:00 a'' None)]"
proof -
  let ?r1 = "sample_page ''INFO: 2025/08/17 09:00:00 b'' (Some ''c1'')"
  let ?r2 = "sample_page ''INFO: 2025/08/17 08:00:00 a'' None"
  let ?p1 = "apply_response 1 ?r1 new_pager"
  let ?p2 = "apply_response 2 ?r2 (handleLoadMore ?p1)"
  have f: "\<not> given (lo_cursor (lp_options new_pager))" "lp_applied new_pager \<noteq> Some 1"
      "given (lo_cursor (lp_options (handleLoadMore ?p1)))" "lp_applied (handleLoadMore ?p1) \<noteq> Some 2"
      "lp_options new_pager \<noteq> lp_options (handleLoadMore ?p1)"
    by code_simp+
  have "paged ?p1 [(lp_options new_pager, ?r1)]"
    using paged.answer [OF mounted, of 1 ?r1] f by simp
  then have "paged (handleLoadMore ?p1) [(lp_options new_pager, ?r1)]"
    using paged.event [where e = LoadMore] by fastforce
  then have "paged ?p2 [(lp_options new_pager, ?r1), (lp_options (handleLoadMore ?p1), ?r2)]"
    using paged.answer [of "handleLoadMore ?p1" "[(lp_options new_pager, ?r1)]" 2 ?r2] f by simp
  note one = lines_are_one_scan [OF this]
  have "map lg_message (lp_rawLogs ?p2) = [''b'', ''a'']" "lp_scannedBytes ?p2 = num 20"
    by code_simp+
  then show ?thesis
    using one by (simp only: Let_def)
qed

subsection \<open>Where a callback leaves the hook stuck\<close>

text \<open>
  Resetting filters on the first page of a log without a keyword: the options stay as they were, so no
  answer comes, but the cursor to older lines is dropped.
\<close>

lemma reset_forgets_older_lines:
  assumes "lo_level (lp_options p) = None" "lo_keyword (lp_options p) = None" "lo_cursor (lp_options p) = None"
  shows "lp_options (resetFilters p) = lp_options p \<and> lp_nextCursor (resetFilters p) = None \<and> \<not> lp_hasMore (resetFilters p)"
  using assms by (simp add: pager_ops some_text_def)

text \<open>
  Asking again for a page that failed: the options stay as they were, so nothing is read and the button
  waits for a change of \<open>isFetching\<close> that does not come.
\<close>

lemma failed_page_asked_again:
  assumes "given (lp_nextCursor p)" "lo_cursor (lp_options p) = lp_nextCursor p" "\<not> lo_enableAutoRefresh (lp_options p)"
    "\<not> lp_isLoadingMore p"
  shows "lp_options (handleLoadMore p) = lp_options p \<and> lp_isLoadingMore (handleLoadMore p)"
  using assms by (simp add: pager_ops)

end
