(* ===== verification/FormParams.thy ===== *)
theory FormParams
  imports JsText "HOL-Library.AList"
begin

section \<open>Forms described by the gateway\<close>

text \<open>
  \<open>hooks/inputFormHook.ts\<close>: a form whose fields are described by the metadata of the gateway - its check,
  its defaults, and the writes of its hook - and \<open>get_param\<close> of \<open>hooks/query/queryHooks.ts\<close>. A
  description and a form are values; the errors of a field are a text, or an object or a list for the
  parts of the field, and undefined when there is none.
\<close>

subsection \<open>The check\<close>

text \<open>\<open>undefined\<close>, \<open>null\<close>, the empty text and the empty list.\<close>

fun blank_value :: "jsv \<Rightarrow> bool" where
  "blank_value JUndef = True"
| "blank_value JNull = True"
| "blank_value (JStr s) = (s = [])"
| "blank_value (JArr vs) = (vs = [])"
| "blank_value _ = False"

fun is_num :: "jsv \<Rightarrow> bool" where
  "is_num (JNum _) = True"
| "is_num _ = False"

text \<open>\<open>xs.includes(v)\<close>: like \<open>===\<close>, and NaN is found.\<close>

definition enum_includes :: "jsv list \<Rightarrow> jsv \<Rightarrow> bool" where
  "enum_includes xs v \<longleftrightarrow> list_ex (\<lambda>x. strict_eq x v \<or> (x = JNum NaN \<and> v = JNum NaN)) xs"

definition required_error :: "jsv \<Rightarrow> jsv \<Rightarrow> bool" where
  "required_error param v \<longleftrightarrow> truthy (vget param ''required'') \<and> blank_value v"

definition integer_error :: "jsv \<Rightarrow> jsv \<Rightarrow> bool" where
  "integer_error param v \<longleftrightarrow> vget param ''type'' = JStr ''integer'' \<and> \<not> nullish v \<and> \<not> is_num v"

definition enum_error :: "jsv \<Rightarrow> jsv \<Rightarrow> bool" where
  "enum_error param v \<longleftrightarrow> (case vget param ''enum'' of
     JArr xs \<Rightarrow> \<not> nullish v \<and> \<not> enum_includes xs v
   | _ \<Rightarrow> False)"

definition own_error :: "jsv \<Rightarrow> jsv \<Rightarrow> jsv" where
  "own_error param v =
     (if enum_error param v then JStr ''Invalid value''
      else if integer_error param v then JStr ''Must be a number''
      else if required_error param v then JStr ''Required'' else JUndef)"

definition own_valid :: "jsv \<Rightarrow> jsv \<Rightarrow> bool" where
  "own_valid param v \<longleftrightarrow> \<not> required_error param v \<and> \<not> integer_error param v \<and> \<not> enum_error param v"

definition is_field_desc :: "jsv \<Rightarrow> bool" where
  "is_field_desc v \<longleftrightarrow> (case v of JObj ob \<Rightarrow> ohas ob ''type'' \<or> ohas ob ''properties'' | _ \<Rightarrow> False)"

text \<open>The fields under a description: its properties, or itself when it is a map of descriptions.\<close>

definition sub_fields :: "jsv \<Rightarrow> jsobj option" where
  "sub_fields param =
     (if vget param ''type'' = JStr ''object'' \<and> truthy (vget param ''properties'') then
        (case vget param ''properties'' of JObj ps \<Rightarrow> Some ps | _ \<Rightarrow> Some [])
      else if \<not> truthy (vget param ''type'') then
        (case param of JObj ps \<Rightarrow> if list_all (\<lambda>(k, v). is_field_desc v) ps then Some ps else None | _ \<Rightarrow> None)
      else None)"

definition list_items :: "jsv \<Rightarrow> jsv \<Rightarrow> (jsv \<times> jsv list) option" where
  "list_items param v =
     (if vget param ''type'' = JStr ''array'' \<and> truthy (vget param ''items'') then
        (case v of JArr vs \<Rightarrow> Some (vget param ''items'', vs) | _ \<Rightarrow> None)
      else None)"

definition item_fields :: "jsv \<Rightarrow> jsobj option" where
  "item_fields items =
     (if truthy (vget items ''properties'') then
        (case vget items ''properties'' of JObj ps \<Rightarrow> Some ps | _ \<Rightarrow> Some [])
      else None)"

lemma size_oget: "size (oget ob k) \<le> size_list (size_prod (\<lambda>_. 0) size) ob"
  by (induction ob) (auto simp: oget_Cons)

lemma size_vget: "truthy (vget p k) \<Longrightarrow> size (vget p k) < size p"
  by (cases p) (use size_oget in \<open>auto simp: less_Suc_eq_le\<close>)

lemma sub_fields_size: "sub_fields p = Some ps \<Longrightarrow> size_list (size_prod (\<lambda>_. 0) size) ps < size p"
proof -
  assume s: "sub_fields p = Some ps"
  have "JObj ps = vget p ''properties'' \<and> truthy (vget p ''properties'') \<or> ps = [] \<and> truthy (vget p ''properties'') \<or> p = JObj ps"
    using s by (auto simp: sub_fields_def split: if_splits jsv.splits)
  then show ?thesis
    using size_vget [of p "''properties''"] by (cases p) (auto dest: arg_cong [where f = size])
qed

lemma item_fields_size: "item_fields p = Some ps \<Longrightarrow> size_list (size_prod (\<lambda>_. 0) size) ps < size p"
  using size_vget [of p "''properties''"]
  by (cases p) (auto simp: item_fields_def split: if_splits jsv.splits dest: arg_cong [where f = size])

lemma list_items_size: "list_items p v = Some (items, vs) \<Longrightarrow> size items < size p"
  using size_vget [of p "''items''"] by (auto simp: list_items_def split: if_splits jsv.splits)

lemma list_item_fields_size:
  "list_items p v = Some (items, vs) \<Longrightarrow> item_fields items = Some ps \<Longrightarrow> size_list (size_prod (\<lambda>_. 0) size) ps < size p"
  using list_items_size item_fields_size less_trans by blast

text \<open>The value of a nested form: \<open>value || {}\<close>.\<close>

definition or_object :: "jsv \<Rightarrow> jsv" where
  "or_object v = (if truthy v then v else JObj [])"

function (sequential) validate_param :: "jsv \<Rightarrow> jsv \<Rightarrow> jsv \<times> bool"
and validate_fields :: "jsobj \<Rightarrow> jsv \<Rightarrow> jsobj \<times> bool" where
  "validate_param param v =
     (case sub_fields param of
        Some ps \<Rightarrow>
          (let (errors, ok) = validate_fields ps (or_object v) in (JObj errors, own_valid param v \<and> ok))
      | None \<Rightarrow>
          (case list_items param v of
             Some (items, vs) \<Rightarrow>
               (let rs = map (\<lambda>item. case item_fields items of
                          Some ps \<Rightarrow> (let (errors, ok) = validate_fields ps item in (JObj errors, ok))
                        | None \<Rightarrow> validate_param items item) vs
                in (JArr (map fst rs), own_valid param v \<and> list_all snd rs))
           | None \<Rightarrow> (own_error param v, own_valid param v)))"
| "validate_fields [] form = ([], True)"
| "validate_fields ((k, param) # ps) form =
     (let (e, ok) = validate_param param (vget form k); (errors, oks) = validate_fields ps form
      in (if e = JUndef then errors else (k, e) # errors, ok \<and> oks))"
  by pat_completeness auto
termination
  by (relation "measure (case_sum (\<lambda>(p, v). Suc (2 * size p)) (\<lambda>(ps, v). Suc (2 * size_list (size_prod (\<lambda>_. 0) size) ps)))")
    (auto dest: sub_fields_size list_item_fields_size list_items_size)

text \<open>The check of a form: its errors and whether it may be sent.\<close>

definition validateForm :: "jsv \<Rightarrow> jsobj \<Rightarrow> jsobj \<times> bool" where
  "validateForm form params = validate_fields params form"

subsection \<open>Defaults\<close>

fun alnum_run :: "string \<Rightarrow> string option" where
  "alnum_run [] = None"
| "alnum_run (c # s) =
     (let w = takeWhile (\<lambda>x. is_alpha x \<or> is_digit x) (c # s); r = drop (length w) (c # s)
      in if w \<noteq> [] \<and> starts_with r ''-default'' then Some w else alnum_run s)"

text \<open>The value an enumeration starts from; the code also adds a documented default to the enumeration.\<close>

definition getEnumDefault :: "jsv \<Rightarrow> jsv list \<Rightarrow> jsv" where
  "getEnumDefault param xs =
     (case (case vget param ''description'' of JStr d \<Rightarrow> alnum_run d | _ \<Rightarrow> None) of
        Some w \<Rightarrow> if is_num (hd xs) then JNum (js_number w) else JStr w
      | None \<Rightarrow>
          if JStr ''none'' \<in> set xs then JStr ''none''
          else if JStr [] \<in> set xs then JStr []
          else if vget param ''type'' = JStr ''integer'' \<and> enum_includes xs (jint 0) then jint 0
          else hd xs)"

definition when_required :: "jsv \<Rightarrow> jsv \<Rightarrow> jsv" where
  "when_required param v = (if truthy (vget param ''required'') then v else JUndef)"

fun is_obj :: "jsv \<Rightarrow> bool" where
  "is_obj (JObj _) = True"
| "is_obj _ = False"

fun members :: "jsv \<Rightarrow> jsobj" where
  "members (JObj ob) = ob"
| "members _ = []"

text \<open>\<open>room\<close> is how deep the defaults may still go: 11 less the depth.\<close>

fun default_fields :: "nat \<Rightarrow> jsobj \<Rightarrow> jsobj" where
  "default_fields 0 params = []"
| "default_fields (Suc n) params = map (\<lambda>(k, param).
     (k, if \<not> is_obj param then JUndef
         else (case vget param ''enum'' of
            JArr (x # xs) \<Rightarrow> when_required param (getEnumDefault param (x # xs))
          | _ \<Rightarrow>
             (let t = vget param ''type'' in
              if t = JStr ''string'' then when_required param (JStr [])
              else if t = JStr ''integer'' then when_required param (jint 0)
              else if t = JStr ''boolean'' then when_required param (JBool False)
              else if t = JStr ''array'' then
                (case n of
                   0 \<Rightarrow> JArr []
                 | Suc m \<Rightarrow>
                     if truthy (vget (vget param ''items'') ''properties'')
                     then JArr [JObj (default_fields m (members (vget (vget param ''items'') ''properties'')))]
                     else JArr [])
              else if truthy (vget param ''properties'') then JObj (default_fields n (members (vget param ''properties'')))
              else if t = JStr ''object'' then JObj []
              else JObj (default_fields n (members param)))))) params"

definition getDefaultValueFromParams :: "jsobj \<Rightarrow> jsv" where
  "getDefaultValueFromParams params = JObj (default_fields 11 params)"

text \<open>Defaults laid under what the form holds.\<close>

function (sequential) mergeDefaultsUnder :: "jsv \<Rightarrow> jsv \<Rightarrow> jsv"
and merge_members :: "jsobj \<Rightarrow> jsobj \<Rightarrow> jsobj \<Rightarrow> jsobj" where
  "mergeDefaultsUnder defaults JUndef = defaults"
| "mergeDefaultsUnder defaults JNull = defaults"
| "mergeDefaultsUnder (JObj ds) (JObj cs) = JObj (merge_members ds cs ds)"
| "mergeDefaultsUnder defaults current = current"
| "merge_members ds [] merged = merged"
| "merge_members ds ((k, v) # cs) merged = merge_members ds cs (AList.update k (mergeDefaultsUnder (oget ds k) v) merged)"
  by pat_completeness auto
termination
  by (relation "measure (case_sum (\<lambda>(d, c). size c) (\<lambda>(ds, cs, m). size_list (size_prod (\<lambda>_. 0) size) cs))") auto

subsection \<open>The writes of the hook\<close>

text \<open>The state, and the reference that mirrors the latest write.\<close>

record form_hook =
  fh_form :: jsv
  fh_merged :: "jsv option"

definition form_number :: "jsv \<Rightarrow> jsnum" where
  "form_number v = (case v of JNum n \<Rightarrow> n | JStr s \<Rightarrow> js_number s | JBool b \<Rightarrow> (if b then Fin 1 else Fin 0) | JNull \<Rightarrow> Fin 0 | _ \<Rightarrow> NaN)"

definition processed_value :: "jsobj \<Rightarrow> string \<Rightarrow> jsv \<Rightarrow> jsv" where
  "processed_value params field v =
     (if vget (oget params field) ''type'' = JStr ''integer'' then JNum (form_number v) else v)"

definition latest :: "jsv \<Rightarrow> form_hook \<Rightarrow> jsobj" where
  "latest rendered h = members (or_object (case fh_merged h of None \<Rightarrow> rendered | Some m \<Rightarrow> m))"

text \<open>A write from a callback of an older render: \<open>rendered\<close> is the form that render saw.\<close>

definition handleChange :: "jsobj \<Rightarrow> jsv \<Rightarrow> string \<Rightarrow> jsv \<Rightarrow> form_hook \<Rightarrow> form_hook" where
  "handleChange params rendered field v h =
     (let newForm = JObj (AList.update field (processed_value params field v) (latest rendered h))
      in h\<lparr>fh_merged := Some newForm, fh_form := newForm\<rparr>)"

definition handleObjectChange :: "jsv \<Rightarrow> jsobj \<Rightarrow> form_hook \<Rightarrow> form_hook" where
  "handleObjectChange rendered partial h =
     (let newForm = JObj (fold (\<lambda>(k, v). AList.update k v) partial (latest rendered h))
      in h\<lparr>fh_merged := Some newForm, fh_form := newForm\<rparr>)"

text \<open>The metadata arrived: the defaults go under the form, and the mirror follows.\<close>

definition adopt_defaults :: "jsobj \<Rightarrow> form_hook \<Rightarrow> form_hook" where
  "adopt_defaults params h =
     (let newForm = mergeDefaultsUnder (getDefaultValueFromParams params) (fh_form h)
      in h\<lparr>fh_form := newForm, fh_merged := Some newForm\<rparr>)"

text \<open>\<open>get_param\<close>: the description at a path.\<close>

fun get_param :: "jsv \<Rightarrow> string list \<Rightarrow> jsv" where
  "get_param current [] = current"
| "get_param current (seg # path) =
     (if \<not> is_obj current then JUndef
      else (let next_desc = or_default (vget (vget current ''properties'') seg) (vget current seg)
            in if truthy next_desc then get_param next_desc path else JUndef))"

subsection \<open>What the check accepts\<close>

text \<open>\<open>part_of p v q w\<close>: the value \<open>w\<close> described by \<open>q\<close> is a part of the value \<open>v\<close> described by \<open>p\<close>.\<close>

inductive part_of :: "jsv \<Rightarrow> jsv \<Rightarrow> jsv \<Rightarrow> jsv \<Rightarrow> bool" where
  here: "part_of p v p v"
| field: "sub_fields p = Some ps \<Longrightarrow> (k, q) \<in> set ps \<Longrightarrow> part_of q (vget (or_object v) k) r w \<Longrightarrow> part_of p v r w"
| item_field: "sub_fields p = None \<Longrightarrow> list_items p v = Some (items, vs) \<Longrightarrow> item \<in> set vs \<Longrightarrow> item_fields items = Some ps
    \<Longrightarrow> (k, q) \<in> set ps \<Longrightarrow> part_of q (vget item k) r w \<Longrightarrow> part_of p v r w"
| item: "sub_fields p = None \<Longrightarrow> list_items p v = Some (items, vs) \<Longrightarrow> item \<in> set vs \<Longrightarrow> item_fields items = None
    \<Longrightarrow> part_of items item r w \<Longrightarrow> part_of p v r w"

inductive_cases part_of_E: "part_of p v q w"

declare validate_param.simps [simp del]

lemma validate_fields_iff:
  "snd (validate_fields ps form) \<longleftrightarrow> (\<forall>(k, p)\<in>set ps. snd (validate_param p (vget form k)))"
  by (induction ps) (auto simp: split: prod.splits)

lemma validate_param_iff:
  "snd (validate_param p v) \<longleftrightarrow> own_valid p v \<and> (case sub_fields p of
     Some ps \<Rightarrow> snd (validate_fields ps (or_object v))
   | None \<Rightarrow> (case list_items p v of
        Some (items, vs) \<Rightarrow> (\<forall>item\<in>set vs. case item_fields items of
             Some ps \<Rightarrow> snd (validate_fields ps item) | None \<Rightarrow> snd (validate_param items item))
      | None \<Rightarrow> True))"
  by (subst validate_param.simps) (auto simp: list_all_iff Let_def case_prod_unfold split: option.splits)

lemma valid_parts:
  "part_of p v q w \<Longrightarrow> snd (validate_param p v) \<Longrightarrow> own_valid q w"
proof (induction rule: part_of.induct)
  case (here p v)
  then show ?case
    by (simp add: validate_param_iff [of p v])
next
  case (field p ps k q v r w)
  then show ?case
    using validate_param_iff [of p v] by (auto simp: validate_fields_iff)
next
  case (item_field p v items vs item ps k q r w)
  then show ?case
    using validate_param_iff [of p v] by (auto simp: validate_fields_iff)
next
  case (item p v items vs item r w)
  then show ?case
    using validate_param_iff [of p v] by auto
qed

lemma invalid_part:
  "\<not> snd (validate_param p v) \<Longrightarrow> \<exists>q w. part_of p v q w \<and> \<not> own_valid q w"
  "\<not> snd (validate_fields ps form) \<Longrightarrow> \<exists>k p q w. (k, p) \<in> set ps \<and> part_of p (vget form k) q w \<and> \<not> own_valid q w"
proof (induction p v and ps form rule: validate_param_validate_fields.induct)
  case (1 p v)
  show ?case
  proof (cases "own_valid p v")
    case False
    then show ?thesis
      using part_of.here by blast
  next
    case own: True
    show ?thesis
    proof (cases "sub_fields p")
      case (Some ps)
      then show ?thesis
        using 1(3) [OF Some] 1(4) own validate_param_iff [of p v] part_of.field [OF Some] by auto metis
    next
      case None
      then obtain items vs where l: "list_items p v = Some (items, vs)"
        using 1(4) own validate_param_iff [of p v] by (auto split: option.splits)
      then obtain item where i: "item \<in> set vs" "\<not> (case item_fields items of
             Some ps \<Rightarrow> snd (validate_fields ps item) | None \<Rightarrow> snd (validate_param items item))"
        using 1(4) own None validate_param_iff [of p v] by auto
      show ?thesis
      proof (cases "item_fields items")
        case none: None
        then show ?thesis
          using 1(1) [OF None l refl i(1) none] i(2) part_of.item [OF None l i(1) none] by auto
      next
        case (Some ps)
        then show ?thesis
          using 1(2) [OF None l refl i(1) Some] i(2) part_of.item_field [OF None l i(1) Some] by auto metis
      qed
    qed
  qed
next
  case (3 k p ps form)
  then show ?case
    by (auto split: prod.splits) (metis snd_conv)+
qed simp


subsection \<open>What was entered stays\<close>

lemma oget_merge_members:
  "distinct (map fst cs) \<Longrightarrow> oget (merge_members ds cs m) k =
     (if k \<in> fst ` set cs then mergeDefaultsUnder (oget ds k) (oget cs k) else oget m k)"
proof (induction cs arbitrary: m)
  case (Cons c cs)
  then show ?case
    by (cases c) (auto simp: oget_Cons)
qed simp

lemma distinct_merge_members: "distinct (map fst m) \<Longrightarrow> distinct (map fst (merge_members ds cs m))"
  by (induction ds cs m rule: mergeDefaultsUnder_merge_members.induct(2) [where P = "\<lambda>d c. True"])
     (auto simp: distinct_update)

lemma merge_keeps:
  assumes "\<not> nullish v" "\<not> is_obj v"
  shows "mergeDefaultsUnder d v = v"
  using assms by (cases v; cases d) (auto simp: nullish_def)

text \<open>A field at the top of an object of distinct fields holds a plain value.\<close>

definition holds :: "jsv \<Rightarrow> string \<Rightarrow> jsv \<Rightarrow> bool" where
  "holds form f v \<longleftrightarrow> (\<exists>ob. form = JObj ob \<and> distinct (map fst ob) \<and> oget ob f = v)"

lemma merge_holds:
  assumes "holds form f v" "\<not> nullish v" "\<not> is_obj v" "\<exists>ds. d = JObj ds \<and> distinct (map fst ds)"
  shows "holds (mergeDefaultsUnder d form) f v"
proof -
  obtain ob ds where ob: "form = JObj ob" "distinct (map fst ob)" "oget ob f = v" "d = JObj ds" "distinct (map fst ds)"
    using assms(1,4) by (auto simp: holds_def)
  then have "f \<in> fst ` set ob"
    using assms(2) by (auto simp: oget_def nullish_def dest: map_of_SomeD split: option.splits) force
  then show ?thesis
    using ob assms(2,3) by (auto simp: holds_def oget_merge_members merge_keeps distinct_merge_members)
qed

datatype form_event = FieldWrite jsv string jsv | ObjectWrite jsv jsobj | DefaultsArrive jsobj

fun form_step :: "jsobj \<Rightarrow> form_event \<Rightarrow> form_hook \<Rightarrow> form_hook" where
  "form_step params (FieldWrite rendered f v) h = handleChange params rendered f v h"
| "form_step params (ObjectWrite rendered partial) h = handleObjectChange rendered partial h"
| "form_step params (DefaultsArrive descs) h = adopt_defaults descs h"

text \<open>An event that leaves the field to itself; the defaults come from a description of distinct fields.\<close>

fun spares :: "string \<Rightarrow> form_event \<Rightarrow> bool" where
  "spares f (FieldWrite rendered g v) = (g \<noteq> f)"
| "spares f (ObjectWrite rendered partial) = (f \<notin> fst ` set partial)"
| "spares f (DefaultsArrive descs) = distinct (map fst descs)"

lemma update_holds: "holds (JObj ob) f v \<Longrightarrow> g \<noteq> f \<Longrightarrow> holds (JObj (AList.update g w ob)) f v"
  by (auto simp: holds_def distinct_update)

lemma fold_update_holds:
  "f \<notin> fst ` set partial \<Longrightarrow> holds (JObj ob) f v \<Longrightarrow> holds (JObj (fold (\<lambda>(k, v). AList.update k v) partial ob)) f v"
proof (induction partial arbitrary: ob)
  case (Cons p partial)
  then show ?case
    using update_holds [OF Cons.prems(2), of "fst p"] by (cases p) (auto simp: eq_commute)
qed simp

lemma default_keys: "map fst (default_fields (Suc n) params) = map fst params"
  by (simp add: comp_def case_prod_unfold)

lemma spared_step:
  assumes "holds (fh_form h) f v" "fh_merged h = Some (fh_form h)" "\<not> nullish v" "\<not> is_obj v" "spares f e"
  shows "holds (fh_form (form_step params e h)) f v \<and> fh_merged (form_step params e h) = Some (fh_form (form_step params e h))"
proof -
  obtain ob where ob: "fh_form h = JObj ob" "holds (JObj ob) f v"
    using assms(1) by (auto simp: holds_def)
  then have l: "latest rendered h = ob" for rendered
    using assms(2) by (simp add: latest_def or_object_def)
  show ?thesis
  proof (cases e)
    case (FieldWrite rendered g w)
    then show ?thesis
      using assms(5) update_holds [OF ob(2)] by (simp add: handleChange_def Let_def l)
  next
    case (ObjectWrite rendered partial)
    then show ?thesis
      using assms(5) fold_update_holds [OF _ ob(2)] by (simp add: handleObjectChange_def Let_def l)
  next
    case (DefaultsArrive descs)
    have "distinct (map fst (default_fields 11 descs))"
      using DefaultsArrive assms(5) default_keys [of 10 descs] by simp
    then show ?thesis
      using DefaultsArrive merge_holds [OF assms(1,3,4)] by (simp add: adopt_defaults_def getDefaultValueFromParams_def Let_def)
  qed
qed



end
