(* ===== verification/NetworkPrefix.thy ===== *)
theory NetworkPrefix
  imports InstanceForm JsWord
begin

section \<open>Network prefixes\<close>

text \<open>
  \<open>types/network_prefix.ts\<close>: the identity of a prefix under which a rule is found again in what the
  gateway reads back. An IPv6 address goes through the host parser and serialiser of \<open>URL\<close>, modelled here
  as the URL standard states them; the code takes the serialised text apart again.
\<close>

unbundle bit_operations_syntax

subsection \<open>Addresses\<close>

text \<open>\<open>/^(0|[1-9]\d{0,2})$/\<close> and at most 255.\<close>

definition strict_octet :: "string \<Rightarrow> bool" where
  "strict_octet s \<longleftrightarrow> (s = ''0'' \<or> (1 \<le> length s \<and> length s \<le> 3 \<and> list_all is_digit s \<and> hd s \<noteq> CHR ''0''))
     \<and> digits_val s \<le> 255"

definition v4 :: "string \<Rightarrow> int list option" where
  "v4 s = (let octets = split_on CHR ''.'' s
           in if length octets = 4 \<and> list_all strict_octet octets then Some (map digits_val octets) else None)"

definition hex_of :: "char \<Rightarrow> int" where
  "hex_of c = (case hex_val c of None \<Rightarrow> 0 | Some n \<Rightarrow> int n)"

text \<open>\<open>parseInt(s, 16)\<close> of hexadecimal digits.\<close>

definition parse_hex :: "string \<Rightarrow> int" where
  "parse_hex s = foldl (\<lambda>n c. n * 16 + hex_of c) 0 (takeWhile is_hex s)"

text \<open>
  The host parser: the pieces read so far and where the elision stands among them. Its end puts the pieces
  after the elision last and zeros between.
\<close>

definition v6_finish :: "int list \<Rightarrow> nat option \<Rightarrow> int list option" where
  "v6_finish ps compress = (case compress of
     None \<Rightarrow> if length ps = 8 then Some ps else None
   | Some k \<Rightarrow> Some (take k ps @ replicate (8 - length ps) 0 @ drop k ps))"

function (sequential) v6_loop :: "int list \<Rightarrow> nat option \<Rightarrow> string \<Rightarrow> int list option" where
  "v6_loop ps compress [] = v6_finish ps compress"
| "v6_loop ps compress (c # s) =
     (if length ps = 8 then None
      else if c = CHR '':'' then
        (if compress \<noteq> None then None else v6_loop (ps @ [0]) (Some (length ps + 1)) s)
      else
        (let h = take 4 (takeWhile is_hex (c # s)) in
         case drop (length h) (c # s) of
           [] \<Rightarrow> v6_finish (ps @ [parse_hex h]) compress
         | d # r \<Rightarrow>
             if d = CHR ''.'' then
               (if h = [] \<or> length ps > 6 then None
                else (case v4 (c # s) of
                    Some [w, x, y, z] \<Rightarrow> v6_finish (ps @ [w * 256 + x, y * 256 + z]) compress
                  | _ \<Rightarrow> None))
             else if d = CHR '':'' then
               (if r = [] then None else v6_loop (ps @ [parse_hex h]) compress r)
             else None))"
  by pat_completeness auto
termination
proof (relation "measure (\<lambda>(ps, compress, s). length s)")
  fix ps :: "int list" and compress :: "nat option" and c s h d r
  assume "h = take 4 (takeWhile is_hex (c # s))" "drop (length h) (c # s) = d # r"
  then show "((ps @ [parse_hex h], compress, r), ps, compress, c # s) \<in> measure (\<lambda>(ps, compress, s). length s)"
    using length_drop [of "length h" "c # s"] by simp
qed auto

definition v6_host :: "string \<Rightarrow> int list option" where
  "v6_host s = (case s of
     c # d # r \<Rightarrow>
       if c = CHR '':'' then (if d = CHR '':'' then v6_loop [0] (Some 1) r else None) else v6_loop [] None s
   | c # r \<Rightarrow> if c = CHR '':'' then None else v6_loop [] None s
   | [] \<Rightarrow> v6_loop [] None s)"

text \<open>The serialiser: the first of the longest runs of at least two zero pieces is elided.\<close>

function hex_text :: "int \<Rightarrow> string" where
  "hex_text n = (if n < 16 then [hex_digit (nat n)] else hex_text (n div 16) @ [hex_digit (nat (n mod 16))])"
  by auto
termination
  by (relation "measure nat") auto

declare hex_text.simps [simp del]

definition zero_run :: "int list \<Rightarrow> nat \<Rightarrow> nat" where
  "zero_run ps i = length (takeWhile (\<lambda>n. n = 0) (drop i ps))"

definition compress_at :: "int list \<Rightarrow> nat option" where
  "compress_at ps =
     (let longest = fold max (map (zero_run ps) [0..<length ps]) 0
      in if longest \<le> 1 then None else find (\<lambda>i. zero_run ps i = longest) [0..<length ps])"

definition v6_text :: "int list \<Rightarrow> string" where
  "v6_text ps = (case compress_at ps of
     None \<Rightarrow> join_with '':'' (map hex_text ps)
   | Some i \<Rightarrow> join_with '':'' (map hex_text (take i ps)) @ ''::''
             @ join_with '':'' (map hex_text (drop (i + zero_run ps i) ps)))"

text \<open>What the code makes of the serialised host.\<close>

definition host_groups :: "string \<Rightarrow> int list" where
  "host_groups s = (if s = [] then [] else map parse_hex (split_on CHR '':'' s))"

definition host_units :: "string \<Rightarrow> int list" where
  "host_units host = (case split_elision host of
     l # r # _ \<Rightarrow> (let a = host_groups l; b = host_groups r in a @ replicate (8 - length a - length b) 0 @ b)
   | [l] \<Rightarrow> host_groups l
   | [] \<Rightarrow> [])"

subsection \<open>The key\<close>

datatype ip_family = V4 | V6

record net_prefix =
  np_family :: ip_family
  np_units :: "int list"
  np_bits :: int

definition unit_width :: "ip_family \<Rightarrow> int" where
  "unit_width f = (case f of V4 \<Rightarrow> 8 | V6 \<Rightarrow> 16)"

definition read_address :: "string \<Rightarrow> (ip_family \<times> int list) option" where
  "read_address ip =
     (if CHR '':'' \<in> set ip then
        (if \<not> list_all (\<lambda>c. is_hex c \<or> c = CHR '':'' \<or> c = CHR ''.'') ip
            \<or> (CHR ''.'' \<in> set ip \<and> v4 (after_last CHR '':'' ip) = None) then None
         else map_option (\<lambda>ps. (V6, host_units (v6_text ps))) (v6_host ip))
      else map_option (\<lambda>octets. (V4, octets)) (v4 ip))"

text \<open>IPv4-mapped prefixes of at least 96 bits are those of IPv4.\<close>

definition unmap :: "net_prefix \<Rightarrow> net_prefix" where
  "unmap p =
     (if np_family p = V6 \<and> 96 \<le> np_bits p \<and> list_all (\<lambda>n. n = 0) (take 5 (np_units p)) \<and> np_units p ! 5 = 65535
      then \<lparr>np_family = V4,
            np_units = [drop_bit 8 (np_units p ! 6), (np_units p ! 6) AND 255, drop_bit 8 (np_units p ! 7), (np_units p ! 7) AND 255],
            np_bits = np_bits p - 96\<rparr>
      else p)"

text \<open>
  The prefix a text states. A length of many digits is read as a number above every width, whatever the
  rounding of \<open>Number\<close>.
\<close>

definition read_prefix :: "string \<Rightarrow> net_prefix option" where
  "read_prefix input =
     (let pieces = split_on CHR ''/'' (js_trim input)
      in if length pieces > 2 \<or> (length pieces = 2 \<and> \<not> all_digits (pieces ! 1)) then None
         else (case read_address (hd pieces) of
             None \<Rightarrow> None
           | Some (f, us) \<Rightarrow>
               (let width = int (length us) * unit_width f;
                    bits = (if length pieces = 2 then digits_val (pieces ! 1) else width)
                in if width < bits then None
                   else Some (unmap \<lparr>np_family = f, np_units = us, np_bits = bits\<rparr>))))"

definition masked_unit :: "int \<Rightarrow> int \<Rightarrow> nat \<Rightarrow> int \<Rightarrow> int" where
  "masked_unit width bits i n =
     (let keep = max 0 (min width (bits - int i * width))
      in if keep = 0 then 0 else n AND push_bit (nat (width - keep)) (push_bit (nat keep) 1 - 1))"

definition prefix_key :: "net_prefix \<Rightarrow> string" where
  "prefix_key p =
     (case np_family p of V4 \<Rightarrow> ''v4'' | V6 \<Rightarrow> ''v6'') @ '':''
     @ join_with '':'' (map (\<lambda>(i, n). int_str (masked_unit (unit_width (np_family p)) (np_bits p) i n)) (enumerate 0 (np_units p)))
     @ ''/'' @ int_str (np_bits p)"

definition networkPrefixKey :: "string \<Rightarrow> string option" where
  "networkPrefixKey input = map_option prefix_key (read_prefix input)"

definition validGatewayCidr :: "string \<Rightarrow> bool" where
  "validGatewayCidr input \<longleftrightarrow> CHR ''/'' \<in> set input \<and> networkPrefixKey input \<noteq> None"

subsection \<open>Taking a serialised address apart\<close>

lemma hex_of_digit: "n < 16 \<Longrightarrow> hex_of (hex_digit n) = int n"
  by (simp add: hex_of_def hex_val_hex_digit)

lemma is_hex_digit: "n < 16 \<Longrightarrow> is_hex (hex_digit n)"
  by (auto simp: is_hex_def is_digit_def hex_digit_def)

lemma hex_text_hex: "0 \<le> n \<Longrightarrow> list_all is_hex (hex_text n)"
  by (induction n rule: hex_text.induct) (subst hex_text.simps, auto simp: is_hex_digit)

lemma hex_text_not_Nil [simp]: "hex_text n \<noteq> []"
  by (subst hex_text.simps) simp

lemma takeWhile_all: "list_all P xs \<Longrightarrow> takeWhile P xs = xs"
  by (induction xs) auto

lemma parse_hex_text: "0 \<le> n \<Longrightarrow> parse_hex (hex_text n) = n"
proof (induction n rule: hex_text.induct)
  case (1 n)
  show ?case
  proof (cases "n < 16")
    case True
    then show ?thesis
      using 1(2) by (subst hex_text.simps) (simp add: parse_hex_def is_hex_digit hex_of_digit)
  next
    case False
    have "parse_hex (hex_text (n div 16)) = n div 16"
      using 1 False by simp
    moreover have "list_all is_hex (hex_text (n div 16))" "is_hex (hex_digit (nat (n mod 16)))"
      using 1(2) by (auto intro: hex_text_hex is_hex_digit simp: nat_less_iff)
    ultimately show ?thesis
      using False by (subst hex_text.simps) (simp add: parse_hex_def takeWhile_all hex_of_digit nat_less_iff)
  qed
qed

lemma colon_not_hex: "\<not> is_hex CHR '':''"
  by (simp add: is_hex_def is_digit_def)

lemma hex_text_no_colon: "0 \<le> n \<Longrightarrow> CHR '':'' \<notin> set (hex_text n)"
  using hex_text_hex [of n] colon_not_hex by (auto simp: list_all_iff)

text \<open>A text without an elision.\<close>

fun plain_colons :: "string \<Rightarrow> bool" where
  "plain_colons (c # d # s) = (\<not> (c = CHR '':'' \<and> d = CHR '':'') \<and> plain_colons (d # s))"
| "plain_colons _ = True"

lemma plain_append:
  "plain_colons (a @ b) \<longleftrightarrow> plain_colons a \<and> plain_colons b
     \<and> (a = [] \<or> b = [] \<or> \<not> (last a = CHR '':'' \<and> hd b = CHR '':''))"
  by (induction a rule: plain_colons.induct) (cases b; auto)+

lemma plain_word: "CHR '':'' \<notin> set w \<Longrightarrow> plain_colons w"
  by (induction w rule: plain_colons.induct) auto

lemma plain_join:
  assumes "\<forall>w\<in>set ws. w \<noteq> [] \<and> CHR '':'' \<notin> set w"
  shows "plain_colons (join_with '':'' ws)
    \<and> (ws \<noteq> [] \<longrightarrow> join_with '':'' ws \<noteq> [] \<and> hd (join_with '':'' ws) \<noteq> CHR '':'' \<and> last (join_with '':'' ws) \<noteq> CHR '':'')"
  using assms
proof (induction ws rule: join_with.induct [where ?P = "\<lambda>_. _"])
  case (2 sep w)
  then have "w \<noteq> []" "CHR '':'' \<notin> set w"
    by simp_all
  then show ?case
    using plain_word [of w] last_in_set [of w] hd_in_set [of w] by (cases "last w = CHR '':''"; cases "hd w = CHR '':''") auto
next
  case (3 sep w v ws)
  have w: "w \<noteq> []" "CHR '':'' \<notin> set w"
    using 3(2) by auto
  moreover have "plain_colons (CHR '':'' # s)" if "plain_colons s" "s \<noteq> []" "hd s \<noteq> CHR '':''" for s
    using that by (cases s) auto
  moreover have "last w \<noteq> CHR '':''" "hd w \<noteq> CHR '':''"
    using w last_in_set hd_in_set by metis+
  ultimately show ?case
    using 3 w plain_word [OF w(2)] by (auto simp: plain_append [of w])
qed simp

lemma split_plain: "plain_colons s \<Longrightarrow> split_elision s = [s]"
  by (induction s rule: plain_colons.induct) auto

lemma split_at_elision:
  "plain_colons l \<Longrightarrow> l = [] \<or> last l \<noteq> CHR '':'' \<Longrightarrow> split_elision (l @ ''::'' @ r) = l # split_elision r"
  by (induction l rule: plain_colons.induct) auto

definition in_range :: "int \<Rightarrow> int list \<Rightarrow> bool" where
  "in_range b ps \<longleftrightarrow> list_all (\<lambda>n. 0 \<le> n \<and> n < b) ps"

lemma in_range_parts:
  "in_range b (ps @ qs) \<longleftrightarrow> in_range b ps \<and> in_range b qs"
  "in_range b ps \<Longrightarrow> in_range b (take k ps)"
  "in_range b ps \<Longrightarrow> in_range b (drop k ps)"
proof -
  show "in_range b (ps @ qs) \<longleftrightarrow> in_range b ps \<and> in_range b qs"
    by (simp add: in_range_def)
  then show "in_range b ps \<Longrightarrow> in_range b (take k ps)" "in_range b ps \<Longrightarrow> in_range b (drop k ps)"
    by (simp_all add: in_range_def list_all_length)
qed

lemma host_groups_text:
  assumes "in_range b ps"
  shows "host_groups (join_with '':'' (map hex_text ps)) = ps"
proof (cases "ps = []")
  case False
  have c: "\<forall>w\<in>set (map hex_text ps). CHR '':'' \<notin> set w"
    using assms hex_text_no_colon by (auto simp: in_range_def list_all_iff)
  then have "join_with '':'' (map hex_text ps) \<noteq> []"
    using plain_join [of "map hex_text ps"] False by auto
  moreover have "split_on CHR '':'' (join_with '':'' (map hex_text ps)) = map hex_text ps"
    using c False by (intro split_join) simp_all
  ultimately show ?thesis
    using assms by (auto simp: host_groups_def in_range_def list_all_iff parse_hex_text intro: map_idI)
qed (simp add: host_groups_def)

lemma zero_run_zeros: "take (zero_run ps i) (drop i ps) = replicate (zero_run ps i) 0" "zero_run ps i \<le> length ps - i"
proof -
  have "takeWhile (\<lambda>n. n = 0) (drop i ps) = replicate (zero_run ps i) 0"
    by (rule replicate_eqI) (auto simp: zero_run_def dest: set_takeWhileD)
  then show "take (zero_run ps i) (drop i ps) = replicate (zero_run ps i) 0"
    by (simp add: zero_run_def takeWhile_eq_take [symmetric])
  show "zero_run ps i \<le> length ps - i"
    using length_takeWhile_le [of "\<lambda>n. n = 0" "drop i ps"] by (simp add: zero_run_def)
qed

lemma host_units_text:
  assumes "in_range b ps" "length ps = 8"
  shows "host_units (v6_text ps) = ps"
proof (cases "compress_at ps")
  case None
  have "plain_colons (join_with '':'' (map hex_text ps))"
    using assms(1) hex_text_no_colon by (intro plain_join [THEN conjunct1]) (auto simp: in_range_def list_all_iff)
  then show ?thesis
    using host_groups_text [OF assms(1)] by (simp add: v6_text_def None host_units_def split_plain)
next
  case (Some i)
  define k where "k = zero_run ps i"
  define l where "l = take i ps"
  define r where "r = drop (i + k) ps"
  have i: "i < length ps"
    using Some by (auto simp: compress_at_def Let_def find_Some_iff split: if_splits)
  have "take k (drop i ps) = replicate k 0" "k \<le> length ps - i"
    using zero_run_zeros [of ps i] by (simp_all add: k_def)
  moreover have "ps = take i ps @ take k (drop i ps) @ drop k (drop i ps)"
    by (metis append_take_drop_id)
  ultimately have ps: "ps = l @ replicate k 0 @ r"
    by (simp add: l_def r_def add.commute)
  have lr: "in_range b l" "in_range b r"
    using assms(1) by (auto simp: ps in_range_def)
  have plain: "plain_colons (join_with '':'' (map hex_text us)) \<and> (us \<noteq> [] \<longrightarrow> join_with '':'' (map hex_text us) \<noteq> []
      \<and> hd (join_with '':'' (map hex_text us)) \<noteq> CHR '':'' \<and> last (join_with '':'' (map hex_text us)) \<noteq> CHR '':'')"
    if "in_range b us" for us
    using plain_join [of "map hex_text us"] that hex_text_no_colon by (auto simp: in_range_def list_all_iff)
  have "split_elision (v6_text ps) = [join_with '':'' (map hex_text l), join_with '':'' (map hex_text r)]"
    using split_at_elision [of "join_with '':'' (map hex_text l)" "join_with '':'' (map hex_text r)"]
      plain [OF lr(1)] plain [OF lr(2)]
    by (cases "l = []") (simp_all add: v6_text_def Some l_def [symmetric] r_def [symmetric] k_def [symmetric] split_plain)
  moreover have "8 - length l - length r = k"
    using assms(2) ps by simp
  ultimately show ?thesis
    using host_groups_text [OF lr(1)] host_groups_text [OF lr(2)] by (simp add: host_units_def Let_def ps [symmetric])
qed

subsection \<open>What is read is an address\<close>

definition unit_count :: "ip_family \<Rightarrow> nat" where
  "unit_count f = (case f of V4 \<Rightarrow> 4 | V6 \<Rightarrow> 8)"

definition prefix_ok :: "net_prefix \<Rightarrow> bool" where
  "prefix_ok p \<longleftrightarrow> length (np_units p) = unit_count (np_family p) \<and> in_range (2 ^ nat (unit_width (np_family p))) (np_units p)
     \<and> 0 \<le> np_bits p \<and> np_bits p \<le> int (unit_count (np_family p)) * unit_width (np_family p)"

lemma v4_ok: "v4 s = Some us \<Longrightarrow> length us = 4 \<and> in_range 256 us"
proof -
  assume v: "v4 s = Some us"
  have "0 \<le> digits_val w \<and> digits_val w < 256" if "strict_octet w" for w
  proof -
    have "all_digits w"
      using that by (auto simp: strict_octet_def all_digits_def is_digit_def)
    then show ?thesis
      using that all_digits_nonneg by (auto simp: strict_octet_def)
  qed
  then show ?thesis
    using v by (auto simp: v4_def Let_def in_range_def list_all_iff split: if_splits)
qed

lemma parse_hex_range:
  assumes "length h \<le> 4"
  shows "0 \<le> parse_hex h \<and> parse_hex h < 65536"
proof -
  have d: "0 \<le> hex_of c \<and> hex_of c < 16" for c
    by (auto simp: hex_of_def hex_val_def Let_def split: option.splits if_splits)
  have f: "0 \<le> foldl (\<lambda>n c. n * 16 + hex_of c) n cs \<and> foldl (\<lambda>n c. n * 16 + hex_of c) n cs < (n + 1) * 16 ^ length cs"
    if "0 \<le> n" for n cs
    using that
  proof (induction cs arbitrary: n)
    case (Cons c cs)
    have "0 \<le> n * 16 + hex_of c" "n * 16 + hex_of c + 1 \<le> (n + 1) * 16"
      using d [of c] Cons.prems by auto
    moreover from this(2) have "(n * 16 + hex_of c + 1) * 16 ^ length cs \<le> (n + 1) * 16 * 16 ^ length cs"
      by (rule mult_right_mono) simp
    moreover have "(n + 1) * 16 * 16 ^ length cs = (n + 1) * 16 ^ length (c # cs)"
      by simp
    ultimately show ?case
      using Cons.IH [of "n * 16 + hex_of c"] unfolding foldl_Cons by linarith
  qed simp
  have "length (takeWhile is_hex h) \<le> 4"
    using assms length_takeWhile_le [of is_hex h] by linarith
  then have "(16 :: int) ^ length (takeWhile is_hex h) \<le> 16 ^ 4"
    by (intro power_increasing) simp_all
  then show ?thesis
    using f [of 0 "takeWhile is_hex h"] by (simp add: parse_hex_def)
qed

definition pieces_ok :: "int list \<Rightarrow> nat option \<Rightarrow> bool" where
  "pieces_ok ps compress \<longleftrightarrow> in_range 65536 ps \<and> length ps \<le> 8 \<and> (case compress of None \<Rightarrow> True | Some k \<Rightarrow> k \<le> length ps)"

lemma pieces_snoc: "pieces_ok ps compress \<Longrightarrow> length ps \<noteq> 8 \<Longrightarrow> 0 \<le> n \<Longrightarrow> n < 65536 \<Longrightarrow> pieces_ok (ps @ [n]) compress"
  by (auto simp: pieces_ok_def in_range_def split: option.splits)

lemma v6_finish_ok: "pieces_ok ps compress \<Longrightarrow> v6_finish ps compress = Some us \<Longrightarrow> in_range 65536 us \<and> length us = 8"
  using in_range_parts(2,3) [of 65536 ps]
  by (auto simp: pieces_ok_def v6_finish_def in_range_parts(1) split: option.splits if_splits)
    (simp_all add: in_range_def list_all_iff)

lemma v6_loop_ok: "v6_loop ps compress s = Some us \<Longrightarrow> pieces_ok ps compress \<Longrightarrow> in_range 65536 us \<and> length us = 8"
proof (induction ps compress s rule: v6_loop.induct)
  case (1 ps compress)
  then show ?case
    using v6_finish_ok by simp
next
  case (2 ps compress c s)
  have n: "length ps \<noteq> 8"
    using 2 by (auto split: if_splits)
  show ?case
  proof (cases "c = CHR '':''")
    case True
    then have "compress = None" "v6_loop (ps @ [0]) (Some (length ps + 1)) s = Some us"
      using 2(3) n by (auto split: if_splits)
    moreover have "pieces_ok (ps @ [0]) (Some (length ps + 1))"
      using 2(4) n by (auto simp: pieces_ok_def in_range_def)
    ultimately show ?thesis
      using 2(1) [OF n True] by simp
  next
    case False
    define h where "h = take 4 (takeWhile is_hex (c # s))"
    have h: "0 \<le> parse_hex h" "parse_hex h < 65536"
      using parse_hex_range [of h] by (simp_all add: h_def)
    show ?thesis
    proof (cases "drop (length h) (c # s)")
      case Nil
      then have "v6_finish (ps @ [parse_hex h]) compress = Some us"
        using 2(3) n False by (simp add: h_def Let_def)
      then show ?thesis
        using v6_finish_ok pieces_snoc [OF 2(4) n h] by blast
    next
      case (Cons d r)
      have eq: "v6_loop ps compress (c # s) =
          (if d = CHR ''.'' then
             (if h = [] \<or> length ps > 6 then None
              else (case v4 (c # s) of
                  Some [w, x, y, z] \<Rightarrow> v6_finish (ps @ [w * 256 + x, y * 256 + z]) compress
                | _ \<Rightarrow> None))
           else if d = CHR '':'' then (if r = [] then None else v6_loop (ps @ [parse_hex h]) compress r) else None)"
        by (simp only: v6_loop.simps(2) n False if_False Let_def h_def [symmetric] Cons list.case)
      show ?thesis
      proof (cases "d = CHR ''.''")
        case True
        then obtain w x y z where v: "length ps \<le> 6" "v4 (c # s) = Some [w, x, y, z]"
          "v6_finish (ps @ [w * 256 + x, y * 256 + z]) compress = Some us"
          using 2(3) unfolding eq by (auto split: if_splits option.splits list.splits)
        have "pieces_ok (ps @ [w * 256 + x, y * 256 + z]) compress"
          using v4_ok [OF v(2)] v(1) 2(4) by (auto simp: pieces_ok_def in_range_def split: option.splits)
        then show ?thesis
          using v6_finish_ok v(3) by blast
      next
        case dot: False
        then have r: "d = CHR '':''" "r \<noteq> []" "v6_loop (ps @ [parse_hex h]) compress r = Some us"
          using 2(3) unfolding eq by (auto split: if_splits)
        then show ?thesis
          using 2(2) [OF n False h_def Cons dot] pieces_snoc [OF 2(4) n h] by simp
      qed
    qed
  qed
qed

lemma v6_host_ok: "v6_host s = Some us \<Longrightarrow> in_range 65536 us \<and> length us = 8"
proof -
  have "pieces_ok [] None" "pieces_ok [0] (Some 1)"
    by (simp_all add: pieces_ok_def in_range_def)
  then show "v6_host s = Some us \<Longrightarrow> in_range 65536 us \<and> length us = 8"
    using v6_loop_ok [of "[]" None] v6_loop_ok [of "[0]" "Some 1"]
    unfolding v6_host_def by (simp del: v6_loop.simps split: list.splits if_splits)
qed

lemma read_address_ok:
  "read_address ip = Some (f, us) \<Longrightarrow> length us = unit_count f \<and> in_range (2 ^ nat (unit_width f)) us"
  using v4_ok v6_host_ok host_units_text
  by (auto simp: read_address_def unit_count_def unit_width_def split: if_splits ip_family.splits) metis+

lemma and_255: "n AND 255 = take_bit 8 (n :: int)"
  by (simp add: take_bit_eq_mask mask_eq_exp_minus_1)

lemma unmap_ok: "prefix_ok p \<Longrightarrow> prefix_ok (unmap p)"
proof -
  have byte: "0 \<le> drop_bit 8 n \<and> drop_bit 8 n < 256" "0 \<le> n AND 255 \<and> n AND 255 < 256" if "0 \<le> n" "n < 65536" for n :: int
    using that take_bit_int_less_exp [of 8 n] by (auto simp: drop_bit_eq_div and_255)
  assume "prefix_ok p"
  moreover have "0 \<le> np_units p ! i \<and> np_units p ! i < 65536" if "i < 8" "np_family p = V6" for i
    using \<open>prefix_ok p\<close> that by (auto simp: prefix_ok_def in_range_def list_all_length unit_width_def unit_count_def)
  ultimately show ?thesis
    using byte by (auto simp: unmap_def prefix_ok_def in_range_def unit_width_def unit_count_def)
qed

lemma read_prefix_ok: "read_prefix s = Some p \<Longrightarrow> prefix_ok p"
proof -
  assume r: "read_prefix s = Some p"
  then obtain f us bits where a: "read_address (hd (split_on CHR ''/'' (js_trim s))) = Some (f, us)"
      "p = unmap \<lparr>np_family = f, np_units = us, np_bits = bits\<rparr>" "bits \<le> int (length us) * unit_width f" "0 \<le> bits"
    by (auto simp: read_prefix_def Let_def unit_width_def all_digits_nonneg split: option.splits if_splits ip_family.splits)
  have "prefix_ok \<lparr>np_family = f, np_units = us, np_bits = bits\<rparr>"
    using a read_address_ok [OF a(1)] by (simp add: prefix_ok_def)
  then show ?thesis
    using unmap_ok a(2) by simp
qed

subsection \<open>Masking as division\<close>

text \<open>The number a list of units states, and a number with its low bits cleared.\<close>

fun positional :: "nat \<Rightarrow> int list \<Rightarrow> int" where
  "positional w [] = 0"
| "positional w (n # us) = n * 2 ^ (w * length us) + positional w us"

definition cleared :: "nat \<Rightarrow> int \<Rightarrow> int" where
  "cleared k n = n div 2 ^ k * 2 ^ k"

lemma masked_is_cleared:
  assumes "0 \<le> n" "n < 2 ^ w"
  shows "masked_unit (int w) bits i n = cleared (nat (int w - max 0 (min (int w) (bits - int i * int w)))) n"
proof -
  define keep where "keep = max 0 (min (int w) (bits - int i * int w))"
  define m where "m = nat (int w - keep)"
  have k: "0 \<le> keep" "keep \<le> int w"
    by (simp_all add: keep_def)
  have n: "n = take_bit w n"
    using assms by (simp add: take_bit_int_eq_self)
  have "n AND push_bit m (push_bit (nat keep) 1 - 1) = push_bit m (drop_bit m n)"
  proof (rule bit_eqI)
    fix j
    have "bit n j \<Longrightarrow> j < w"
      by (subst (asm) n) (simp add: bit_take_bit_iff)
    moreover have "push_bit (nat keep) (1 :: int) - 1 = mask (nat keep)"
      by (simp add: push_bit_eq_mult mask_eq_exp_minus_1)
    ultimately show "bit (n AND push_bit m (push_bit (nat keep) 1 - 1)) j \<longleftrightarrow> bit (push_bit m (drop_bit m n)) j"
      using k by (auto simp: bit_and_iff bit_push_bit_iff bit_drop_bit_eq bit_mask_iff m_def)
  qed
  moreover have "push_bit m (drop_bit m n) = cleared m n"
    by (simp add: push_bit_eq_mult drop_bit_eq_div cleared_def)
  moreover have "keep = 0 \<Longrightarrow> cleared m n = 0"
    using assms by (simp add: cleared_def m_def)
  ultimately show ?thesis
    by (simp add: masked_unit_def Let_def keep_def [symmetric] m_def [symmetric])
qed

fun masked_units :: "nat \<Rightarrow> int \<Rightarrow> int list \<Rightarrow> int list" where
  "masked_units w bits [] = []"
| "masked_units w bits (n # us) = cleared (nat (int w - max 0 (min (int w) bits))) n # masked_units w (bits - int w) us"

lemma masked_enumerate:
  "in_range (2 ^ w) us \<Longrightarrow>
   map (\<lambda>(i, n). masked_unit (int w) bits i n) (enumerate i us) = masked_units w (bits - int i * int w) us"
proof (induction us arbitrary: i)
  case (Cons n us)
  have "bits - int (Suc i) * int w = bits - int i * int w - int w"
    by (simp add: algebra_simps)
  then have "masked_units w (bits - int (Suc i) * int w) us = masked_units w (bits - int i * int w - int w) us"
    by (rule arg_cong)
  then show ?case
    using Cons masked_is_cleared [of n w bits i] by (simp add: in_range_def)
qed simp

lemma positional_bounds: "in_range (2 ^ w) us \<Longrightarrow> 0 \<le> positional w us \<and> positional w us < 2 ^ (w * length us)"
proof (induction us)
  case (Cons n us)
  have n: "0 \<le> n" "n + 1 \<le> 2 ^ w" and us: "0 \<le> positional w us" "positional w us < 2 ^ (w * length us)"
    using Cons by (auto simp: in_range_def)
  have "(n + 1) * 2 ^ (w * length us) \<le> 2 ^ w * 2 ^ (w * length us)"
    using n(2) by (rule mult_right_mono) simp
  then show ?case
    using n us by (simp add: power_add algebra_simps)
qed simp

lemma cleared_le: "cleared k n \<le> n" "n < cleared k n + 2 ^ k"
  using div_mult_mod_eq [of n "2 ^ k"] pos_mod_sign [of "2 ^ k" n, OF zero_less_power]
    pos_mod_bound [of "2 ^ k" n, OF zero_less_power] unfolding cleared_def by linarith+

lemma cleared_range: "0 \<le> n \<Longrightarrow> n < b \<Longrightarrow> 0 \<le> cleared k n \<and> cleared k n < b"
proof -
  assume "0 \<le> n" "n < b"
  moreover have "0 \<le> cleared k n"
    using \<open>0 \<le> n\<close> by (simp add: cleared_def pos_imp_zdiv_nonneg_iff)
  ultimately show ?thesis
    using cleared_le(1) [where k = k and n = n] by linarith
qed

lemma masked_range: "in_range b us \<Longrightarrow> in_range b (masked_units w bits us)"
  by (induction us arbitrary: bits) (auto simp: in_range_def cleared_range)

lemma masked_length [simp]: "length (masked_units w bits us) = length us"
  by (induction us arbitrary: bits) auto

lemma masked_Nil [simp]: "masked_units w bits us = [] \<longleftrightarrow> us = []"
  by (cases us) auto

lemma positional_inj:
  "in_range (2 ^ w) us \<Longrightarrow> in_range (2 ^ w) vs \<Longrightarrow> length us = length vs \<Longrightarrow> positional w us = positional w vs \<Longrightarrow> us = vs"
proof (induction us arbitrary: vs)
  case (Cons n us)
  then obtain m vs' where vs: "vs = m # vs'" "length us = length vs'"
    by (cases vs) auto
  have r: "in_range (2 ^ w) us" "in_range (2 ^ w) vs'"
    using Cons.prems vs by (simp_all add: in_range_def)
  have e: "n * 2 ^ (w * length us) + positional w us = m * 2 ^ (w * length us) + positional w vs'"
    using Cons.prems(4) vs by simp
  have "(n * 2 ^ (w * length us) + positional w us) div 2 ^ (w * length us) = n"
    "(m * 2 ^ (w * length us) + positional w vs') div 2 ^ (w * length us) = m"
    using positional_bounds [OF r(1)] positional_bounds [OF r(2)] vs(2) by simp_all
  then have "n = m"
    using e by metis
  then show ?case
    using Cons.IH [of vs'] r e vs by simp
qed simp

lemma cleared_add:
  assumes "k \<le> l"
  shows "cleared k (n * 2 ^ l + v) = n * 2 ^ l + cleared k v"
proof -
  have e: "n * 2 ^ l = n * 2 ^ (l - k) * 2 ^ k"
    using assms by (simp add: mult.assoc power_add [symmetric])
  show ?thesis
    unfolding cleared_def e by (simp add: distrib_right)
qed

lemma cleared_above: "0 \<le> n \<Longrightarrow> n < 2 ^ l \<Longrightarrow> l \<le> k \<Longrightarrow> cleared k n = 0"
proof -
  assume n: "0 \<le> n" "n < 2 ^ l" "l \<le> k"
  then have "n < 2 ^ k"
    using power_increasing [of l k "2 :: int"] by linarith
  then show ?thesis
    using n by (simp add: cleared_def)
qed

lemma cleared_shift: "0 \<le> v \<Longrightarrow> v < 2 ^ l \<Longrightarrow> cleared (l + k) (n * 2 ^ l + v) = cleared k n * 2 ^ l"
proof -
  assume "0 \<le> v" "v < 2 ^ l"
  then have "(n * 2 ^ l + v) div 2 ^ l = n"
    by simp
  then have "(n * 2 ^ l + v) div 2 ^ (l + k) = n div 2 ^ k"
    by (simp add: power_add zdiv_zmult2_eq)
  then show ?thesis
    by (simp add: cleared_def power_add)
qed

lemma positional_masked:
  "in_range (2 ^ w) us \<Longrightarrow>
   positional w (masked_units w bits us) = cleared (nat (int (w * length us) - bits)) (positional w us)"
proof (induction us arbitrary: bits)
  case (Cons n us)
  define l where "l = w * length us"
  have n: "0 \<le> n" "n < 2 ^ w" and us: "in_range (2 ^ w) us"
    using Cons.prems by (simp_all add: in_range_def)
  have v: "0 \<le> positional w us" "positional w us < 2 ^ l"
    using positional_bounds [OF us] by (simp_all add: l_def)
  have L: "int (w * length (n # us)) - bits = int l - (bits - int w)"
    by (simp add: l_def)
  have IH: "positional w (masked_units w (bits - int w) us) = cleared (nat (int l - (bits - int w))) (positional w us)"
    using Cons.IH [OF us] by (simp add: l_def)
  show ?case
  proof (cases "int w \<le> bits")
    case True
    then have "nat (int l - (bits - int w)) \<le> l"
      by simp
    then show ?thesis
      unfolding L using True IH by (simp add: l_def [symmetric] cleared_add) (simp add: cleared_def)
  next
    case low: False
    have rest: "cleared (nat (int l - (bits - int w))) (positional w us) = 0"
      using low v by (intro cleared_above [of _ l]) simp_all
    show ?thesis
    proof (cases "0 \<le> bits")
      case True
      have "nat (int l - (bits - int w)) = l + nat (int w - bits)"
        using low by simp
      then show ?thesis
        unfolding L using True low IH rest cleared_shift [OF v] by (simp add: l_def [symmetric])
    next
      case False
      have "w * length (n # us) \<le> nat (int l - (bits - int w))"
        using False by (simp only: length_Cons mult_Suc_right l_def [symmetric])
      then have "cleared (nat (int l - (bits - int w))) (positional w (n # us)) = 0"
        using positional_bounds [OF Cons.prems] by (intro cleared_above [of _ "w * length (n # us)"]) simp_all
      moreover have "cleared w n = 0"
        using n by (simp add: cleared_def)
      ultimately show ?thesis
        unfolding L using False low IH rest by simp
    qed
  qed
qed (simp add: cleared_def)

subsection \<open>What a prefix covers\<close>

definition width_of :: "ip_family \<Rightarrow> nat" where
  "width_of f = nat (unit_width f)"

definition total_of :: "ip_family \<Rightarrow> nat" where
  "total_of f = width_of f * unit_count f"

text \<open>The addresses that share their leading bits with the prefix.\<close>

definition covered :: "net_prefix \<Rightarrow> ip_family \<times> int set" where
  "covered p =
     (let total = total_of (np_family p); free = nat (int total - np_bits p)
      in (np_family p, {x. 0 \<le> x \<and> x < 2 ^ total
            \<and> x div 2 ^ free = positional (width_of (np_family p)) (np_units p) div 2 ^ free}))"

lemma family_widths [simp]: "width_of V4 = 8" "width_of V6 = 16" "total_of V4 = 32" "total_of V6 = 128"
  by (simp_all add: width_of_def total_of_def unit_width_def unit_count_def)

lemma cleared_interval: "x div 2 ^ k = n div 2 ^ k \<longleftrightarrow> cleared k n \<le> x \<and> x < cleared k n + 2 ^ k" for x n :: int
proof -
  have "x div 2 ^ k = c \<longleftrightarrow> c * 2 ^ k \<le> x \<and> x < c * 2 ^ k + 2 ^ k" for c :: int
  proof
    show "x div 2 ^ k = c \<Longrightarrow> c * 2 ^ k \<le> x \<and> x < c * 2 ^ k + 2 ^ k"
      using cleared_le [where k = k and n = x] by (simp only: cleared_def)
    show "c * 2 ^ k \<le> x \<and> x < c * 2 ^ k + 2 ^ k \<Longrightarrow> x div 2 ^ k = c"
      by (intro int_div_pos_eq [of _ _ _ "x - c * 2 ^ k"]) auto
  qed
  then show ?thesis
    by (simp add: cleared_def)
qed

lemma covered_interval:
  assumes "prefix_ok p"
  shows "covered p =
    (np_family p,
     {cleared (nat (int (total_of (np_family p)) - np_bits p)) (positional (width_of (np_family p)) (np_units p))
      ..< cleared (nat (int (total_of (np_family p)) - np_bits p)) (positional (width_of (np_family p)) (np_units p))
          + 2 ^ nat (int (total_of (np_family p)) - np_bits p)})"
proof -
  define w where "w = width_of (np_family p)"
  define t where "t = total_of (np_family p)"
  define k where "k = nat (int t - np_bits p)"
  define n where "n = positional w (np_units p)"
  have n: "0 \<le> n" "n < 2 ^ t"
    using assms positional_bounds [of w "np_units p"] by (simp_all add: prefix_ok_def n_def w_def t_def total_of_def width_of_def)
  have k: "k \<le> t"
    using assms by (simp only: prefix_ok_def k_def) linarith
  have "cleared k n div 2 ^ k + 1 \<le> 2 ^ (t - k)"
  proof -
    have "cleared k n < 2 ^ (t - k) * 2 ^ k"
      using n(2) k cleared_le(1) [where k = k and n = n] by (simp add: power_add [symmetric])
    then have "n div 2 ^ k < 2 ^ (t - k)"
      unfolding cleared_def by (rule mult_right_less_imp_less) simp
    then show ?thesis
      by (simp add: cleared_def)
  qed
  then have "(cleared k n div 2 ^ k + 1) * 2 ^ k \<le> 2 ^ (t - k) * 2 ^ k"
    by (rule mult_right_mono) simp
  then have "cleared k n + 2 ^ k \<le> 2 ^ t"
    using k by (simp add: cleared_def distrib_right power_add [symmetric])
  moreover have "0 \<le> cleared k n"
    using n cleared_range [of n] by simp
  ultimately have "{x. 0 \<le> x \<and> x < 2 ^ t \<and> x div 2 ^ k = n div 2 ^ k} = {cleared k n ..< cleared k n + 2 ^ k}"
    unfolding cleared_interval by auto
  then show ?thesis
    by (simp add: covered_def Let_def w_def t_def k_def n_def)
qed

lemma covered_eq_iff:
  assumes "prefix_ok p" "prefix_ok q"
  shows "covered p = covered q \<longleftrightarrow>
    np_family p = np_family q \<and> np_bits p = np_bits q
    \<and> masked_units (width_of (np_family p)) (np_bits p) (np_units p) = masked_units (width_of (np_family q)) (np_bits q) (np_units q)"
proof (cases "np_family p = np_family q")
  case True
  define w where "w = width_of (np_family p)"
  define t where "t = total_of (np_family p)"
  define c where "c = (\<lambda>r :: net_prefix. cleared (nat (int t - np_bits r)) (positional w (np_units r)))"
  have us: "in_range (2 ^ w) (np_units p)" "in_range (2 ^ w) (np_units q)"
      and len: "w * length (np_units p) = t" "w * length (np_units q) = t"
      and bits: "0 \<le> np_bits p" "np_bits p \<le> int t" "0 \<le> np_bits q" "np_bits q \<le> int t"
    using assms True
    by (auto simp: prefix_ok_def w_def t_def total_of_def width_of_def unit_width_def split: ip_family.splits)
  have m: "positional w (masked_units w (np_bits p) (np_units p)) = c p"
    "positional w (masked_units w (np_bits q) (np_units q)) = c q"
    using positional_masked [OF us(1)] positional_masked [OF us(2)] len by (simp_all add: c_def)
  have "covered p = covered q \<longleftrightarrow> {c p ..< c p + 2 ^ nat (int t - np_bits p)} = {c q ..< c q + 2 ^ nat (int t - np_bits q)}"
    using covered_interval [OF assms(1)] covered_interval [OF assms(2)] True by (simp add: c_def t_def w_def)
  also have "\<dots> \<longleftrightarrow> c p = c q \<and> np_bits p = np_bits q"
    using bits by (auto simp: atLeastLessThan_eq_iff)
  also have "c p = c q \<and> np_bits p = np_bits q \<longleftrightarrow>
      np_bits p = np_bits q \<and> masked_units w (np_bits p) (np_units p) = masked_units w (np_bits q) (np_units q)"
  proof
    assume e: "c p = c q \<and> np_bits p = np_bits q"
    have "length (np_units p) = length (np_units q)"
      using assms True by (simp add: prefix_ok_def)
    then show "np_bits p = np_bits q \<and> masked_units w (np_bits p) (np_units p) = masked_units w (np_bits q) (np_units q)"
      using e m by (intro conjI positional_inj [OF masked_range [OF us(1)] masked_range [OF us(2)]]) simp_all
  next
    assume "np_bits p = np_bits q \<and> masked_units w (np_bits p) (np_units p) = masked_units w (np_bits q) (np_units q)"
    then show "c p = c q \<and> np_bits p = np_bits q"
      using m by auto
  qed
  finally show ?thesis
    using True by (simp add: w_def)
qed (simp add: covered_def Let_def)

subsection \<open>Keys\<close>

lemma int_str_nonneg: "0 \<le> n \<Longrightarrow> int_str n = nat_str (nat n)"
  by (simp add: int_str_def)

lemma join_numerals_inj:
  assumes "ps \<noteq> []" "qs \<noteq> []" "in_range b ps" "in_range b qs"
    and "join_with '':'' (map int_str ps) @ ''/'' @ s = join_with '':'' (map int_str qs) @ ''/'' @ t"
  shows "ps = qs \<and> s = t"
proof -
  have digits: "c \<in> set (int_str n) \<Longrightarrow> is_digit c" if "0 \<le> n" for n c
    using that nat_str_digits by (auto simp: int_str_nonneg)
  have inj: "inj_on int_str {n. 0 \<le> n}"
    by (rule inj_on_inverseI [of _ digits_val]) (simp add: int_str_nonneg digits_val_nat_str)
  have pos: "set ps \<subseteq> {n. 0 \<le> n}" "set qs \<subseteq> {n. 0 \<le> n}"
    using assms(3,4) by (auto simp: in_range_def list_all_iff)
  have plain: "d \<notin> set (int_str n)" if "0 \<le> n" "\<not> is_digit d" for n d
    using digits that by blast
  have no_slash: "CHR ''/'' \<notin> set (join_with '':'' (map int_str ns))" if "set ns \<subseteq> {n. 0 \<le> n}" for ns
    using plain [where d = "CHR ''/''"] that set_join [of "CHR ''/''" "'':''" "map int_str ns"] by (auto simp: is_digit_def)
  have "split_on CHR ''/'' (join_with '':'' (map int_str ps) @ CHR ''/'' # s)
      = split_on CHR ''/'' (join_with '':'' (map int_str qs) @ CHR ''/'' # t)"
    using assms(5) by simp
  then have j: "join_with '':'' (map int_str ps) = join_with '':'' (map int_str qs)"
    by (simp add: split_on_append no_slash pos)
  then have "map int_str ps = map int_str qs"
    using assms(1,2) pos plain [where d = "CHR '':''"] by (intro join_inj [where d = "CHR '':''"]) (auto simp: is_digit_def)
  then have "ps = qs"
    using inj_on_map_eq_map [of int_str ps qs] inj pos inj_on_subset by (metis Un_least)
  then show ?thesis
    using j assms(5) by simp
qed

lemma prefix_key_eq:
  "prefix_ok p \<Longrightarrow>
   prefix_key p = (case np_family p of V4 \<Rightarrow> ''v4'' | V6 \<Rightarrow> ''v6'') @ '':''
     @ join_with '':'' (map int_str (masked_units (width_of (np_family p)) (np_bits p) (np_units p))) @ ''/'' @ int_str (np_bits p)"
proof -
  assume "prefix_ok p"
  then have r: "in_range (2 ^ width_of (np_family p)) (np_units p)"
    by (simp add: prefix_ok_def width_of_def)
  have w: "unit_width (np_family p) = int (width_of (np_family p))"
    by (simp add: unit_width_def split: ip_family.splits)
  have strings: "map (\<lambda>(i, n). int_str (f i n)) xs = map int_str (map (\<lambda>(i, n). f i n) xs)" for f :: "nat \<Rightarrow> int \<Rightarrow> int" and xs
    by auto
  have "map (\<lambda>(i, n). int_str (masked_unit (unit_width (np_family p)) (np_bits p) i n)) (enumerate 0 (np_units p))
      = map int_str (masked_units (width_of (np_family p)) (np_bits p) (np_units p))"
    unfolding w strings using masked_enumerate [OF r, where i = 0 and bits = "np_bits p"] by simp
  then show ?thesis
    by (simp add: prefix_key_def)
qed

lemma prefix_key_inj:
  assumes "prefix_ok p" "prefix_ok q"
  shows "prefix_key p = prefix_key q \<longleftrightarrow> covered p = covered q"
proof -
  define mp where "mp = masked_units (width_of (np_family p)) (np_bits p) (np_units p)"
  define mq where "mq = masked_units (width_of (np_family q)) (np_bits q) (np_units q)"
  have m: "mp \<noteq> []" "mq \<noteq> []" "in_range (2 ^ width_of (np_family p)) mp" "in_range (2 ^ width_of (np_family q)) mq"
    using assms by (auto simp: mp_def mq_def prefix_ok_def width_of_def unit_count_def masked_range split: ip_family.splits)
  have bits: "int_str (np_bits p) = int_str (np_bits q) \<longleftrightarrow> np_bits p = np_bits q"
    using assms by (metis prefix_ok_def int_str_nonneg digits_val_nat_str int_nat_eq)
  show ?thesis
  proof
    assume k: "prefix_key p = prefix_key q"
    then have f: "np_family p = np_family q"
      using assms by (auto simp: prefix_key_eq split: ip_family.splits)
    then have "join_with '':'' (map int_str mp) @ ''/'' @ int_str (np_bits p) = join_with '':'' (map int_str mq) @ ''/'' @ int_str (np_bits q)"
      using k assms by (simp add: prefix_key_eq mp_def mq_def)
    then have "mp = mq \<and> np_bits p = np_bits q"
      using join_numerals_inj [OF m(1,2,3)] m(4) f bits by simp
    then show "covered p = covered q"
      using f assms by (auto simp: covered_eq_iff mp_def mq_def)
  next
    assume "covered p = covered q"
    then show "prefix_key p = prefix_key q"
      using assms by (auto simp: covered_eq_iff prefix_key_eq)
  qed
qed

lemma key_text: "networkPrefixKey s = networkPrefixKey t \<longleftrightarrow> map_option covered (read_prefix s) = map_option covered (read_prefix t)"
  using prefix_key_inj read_prefix_ok by (cases "read_prefix s"; cases "read_prefix t") (auto simp: networkPrefixKey_def)

text \<open>C29. Two texts have the same key exactly when they state the same prefix: both are refused, or they are of one
  family, IPv4 addresses mapped into IPv6 counting as IPv4, and cover the same addresses, whatever host bits,
  zero elision, letter case or embedded dotted form they are written with.
\<close>

theorem same_key_same_addresses:
  "networkPrefixKey s = networkPrefixKey t \<longleftrightarrow> map_option covered (read_prefix s) = map_option covered (read_prefix t)"
  by (rule key_text)

end
