(* ===== verification/PacketRules.thy ===== *)
theory PacketRules
  imports NetworkPrefix LbConnector AiGateway
begin

section \<open>Firewall and IP-filter rules\<close>

text \<open>
  \<open>types/firewall_policy.ts\<close> and \<open>types/ipfilter_policy.ts\<close>: what may be sent, what a read is accepted as, and
  whether a write has landed; the calls of \<open>connector/instance/firewall.ts\<close> and
  \<open>connector/instance/ipfilter.ts\<close>; the address patterns and the hash of \<open>common.ts\<close>; the selection of
  \<open>pages/traffic/FirewallPage.tsx\<close>. A rule is the JSON object the code reads by member.
\<close>

unbundle bit_operations_syntax

subsection \<open>Reading members\<close>

text \<open>\<open>>\<close> of two values.\<close>

fun text_less :: "string \<Rightarrow> string \<Rightarrow> bool" where
  "text_less _ [] = False"
| "text_less [] (_ # _) = True"
| "text_less (c # s) (d # t) = (code_of c < code_of d \<or> (c = d \<and> text_less s t))"

definition primitive :: "jsv \<Rightarrow> jsv" where
  "primitive v = (case v of JArr _ \<Rightarrow> JStr (js_string v) | JObj _ \<Rightarrow> JStr (js_string v) | _ \<Rightarrow> v)"

definition greater :: "jsv \<Rightarrow> jsv \<Rightarrow> bool" where
  "greater v w = (case (primitive v, primitive w) of
     (JStr s, JStr t) \<Rightarrow> text_less t s
   | (a, b) \<Rightarrow> num_lt (to_number b) (to_number a))"

definition js_or :: "jsv \<Rightarrow> jsv \<Rightarrow> jsv" where
  "js_or v w = (if truthy v then v else w)"

fun key_of :: "jsv \<Rightarrow> string option" where
  "key_of (JStr s) = networkPrefixKey s"
| "key_of _ = None"

fun int_up_to :: "int \<Rightarrow> jsv \<Rightarrow> bool" where
  "int_up_to b JUndef = True"
| "int_up_to b (JNum n) = (is_integer n \<and> num_le (num 0) n \<and> num_le n (num b))"
| "int_up_to b _ = False"

fun optional_flag :: "jsv \<Rightarrow> bool" where
  "optional_flag JUndef = True"
| "optional_flag (JBool _) = True"
| "optional_flag _ = False"

fun filled :: "jsv \<Rightarrow> bool" where
  "filled (JStr s) = (js_trim s \<noteq> [])"
| "filled _ = False"

subsection \<open>Firewall rules\<close>

definition PORTS :: "string list" where
  "PORTS = [''minSourcePort'', ''maxSourcePort'', ''minDestinationPort'', ''maxDestinationPort'']"

definition VERDICTS :: "string list" where
  "VERDICTS = [''allow'', ''drop'', ''redirect'', ''trap'', ''doSnat'']"

definition MARK_MAX :: int where "MARK_MAX = 4294967295"

abbreviation ruleArguments :: "jsv \<Rightarrow> jsv" where
  "ruleArguments r \<equiv> vget r ''ruleArguments''"

abbreviation rule_opts :: "jsv \<Rightarrow> jsv" where
  "rule_opts r \<equiv> vget r ''opts''"

definition issue_if :: "bool \<Rightarrow> string \<Rightarrow> string list" where
  "issue_if b s = (if b then [s] else [])"

definition to_ip_refused :: "jsv \<Rightarrow> bool" where
  "to_ip_refused v \<longleftrightarrow> truthy v \<and> (case v of JStr s \<Rightarrow> CHR ''/'' \<in> set s \<or> networkPrefixKey s = None | _ \<Rightarrow> True)"

definition validateFirewallConfig :: "jsv \<Rightarrow> string list" where
  "validateFirewallConfig rule =
     (let a = ruleArguments rule; p = rule_opts rule
      in if \<not> truthy a \<or> \<not> truthy p then [''configuration'']
         else filter (\<lambda>f. \<not> int_up_to 65535 (vget a f)) (PORTS @ [''preference''])
            @ issue_if (\<not> int_up_to 255 (vget a ''protocol'')) ''protocol''
            @ issue_if (\<not> optional_flag (vget a ''hwOffload'')) ''hwOffload''
            @ issue_if (\<not> int_up_to 65535 (vget p ''toPort'') \<or> \<not> int_up_to MARK_MAX (vget p ''fwMark'')) ''options''
            @ issue_if (\<not> filled (vget a ''sourceIP'') \<and> \<not> filled (vget a ''destinationIP'')) ''match''
            @ filter (\<lambda>f. truthy (vget a f) \<and> key_of (vget a f) = None) [''sourceIP'', ''destinationIP'']
            @ concat (map (\<lambda>(lo, hi). issue_if (greater (or_default (vget a lo) (jint 0)) (or_default (vget a hi) (jint 0))) hi)
                [(''minSourcePort'', ''maxSourcePort''), (''minDestinationPort'', ''maxDestinationPort'')])
            @ issue_if (1 < length (filter (\<lambda>f. truthy (vget p f)) VERDICTS)) ''verdict''
            @ filter (\<lambda>f. \<not> optional_flag (vget p f)) (VERDICTS @ [''record'', ''onDefault''])
            @ issue_if (to_ip_refused (vget p ''toIP'')) ''toIP''
            @ issue_if (truthy (vget p ''doSnat'')
                \<and> (\<not> truthy (vget p ''toIP'') \<or> \<not> strict_eq (or_default (vget p ''fwMark'') (jint 0)) (jint 0))) ''snat'')"

definition any_address :: "jsv \<Rightarrow> jsv" where
  "any_address a =
     (case key_of (js_or (js_or (vget a ''sourceIP'') (vget a ''destinationIP'')) (JStr ''0.0.0.0/0'')) of
        Some k \<Rightarrow> if starts_with k ''v6:'' then JStr ''::/0'' else JStr ''0.0.0.0/0''
      | None \<Rightarrow> JStr ''0.0.0.0/0'')"

definition fw_identity_parts :: "jsv \<Rightarrow> jsv list" where
  "fw_identity_parts a =
     (let number = (\<lambda>f. or_default (vget a f) (jint 0))
      in [or_default (vget a ''portName'') (JStr []),
          opt_str (key_of (js_or (vget a ''sourceIP'') (any_address a))), number ''minSourcePort'', number ''maxSourcePort'',
          opt_str (key_of (js_or (vget a ''destinationIP'') (any_address a))), number ''minDestinationPort'', number ''maxDestinationPort'',
          number ''protocol'', number ''preference''])"

definition firewallIdentity :: "jsv \<Rightarrow> string" where
  "firewallIdentity a = json_stringify (JArr (fw_identity_parts a))"

text \<open>\<open>hash\<close> is kept in 32 bits by \<open>|= 0\<close> and read unsigned.\<close>

definition getStableHash :: "string \<Rightarrow> nat" where
  "getStableHash s = unat (fold (\<lambda>c h. push_bit 5 h - h + word_of_nat (code_of c)) s (0 :: 32 word))"

definition firewallRowId :: "jsv \<Rightarrow> nat" where
  "firewallRowId rule = getStableHash (firewallIdentity (ruleArguments rule))"

abbreviation same_rule :: "jsv \<Rightarrow> jsv \<Rightarrow> bool" where
  "same_rule r s \<equiv> firewallIdentity (ruleArguments r) = firewallIdentity (ruleArguments s)"

definition firewallsAbsent :: "jsv list \<Rightarrow> jsv list \<Rightarrow> bool" where
  "firewallsAbsent want rows = list_all (\<lambda>item. \<not> list_ex (\<lambda>row. same_rule row item) rows) want"

definition flag_applied :: "jsv \<Rightarrow> jsv \<Rightarrow> bool" where
  "flag_applied want got \<longleftrightarrow> want = JUndef \<or> strict_eq (JBool (truthy got)) want"

definition option_applied :: "jsv \<Rightarrow> jsv \<Rightarrow> string \<Rightarrow> bool" where
  "option_applied want got f \<longleftrightarrow>
     vget want f = JUndef
     \<or> (f = ''fwMark'' \<and> truthy (vget want ''doSnat'') \<and> strict_eq (vget want f) (jint 0))
     \<or> strict_eq (or_default (vget got f) (if is_number (vget want f) then jint 0 else JStr [])) (vget want f)"

definition firewall_row_applied :: "jsv \<Rightarrow> jsv \<Rightarrow> bool" where
  "firewall_row_applied want row \<longleftrightarrow>
     same_rule row want
     \<and> flag_applied (vget (ruleArguments want) ''hwOffload'') (vget (ruleArguments row) ''hwOffload'')
     \<and> list_all (\<lambda>f. flag_applied (vget (rule_opts want) f) (vget (rule_opts row) f)) (VERDICTS @ [''record'', ''onDefault''])
     \<and> list_all (option_applied (rule_opts want) (rule_opts row)) [''redirectPortName'', ''toIP'', ''toPort'', ''fwMark'']"

definition firewallApplied :: "jsv \<Rightarrow> jsv list \<Rightarrow> bool" where
  "firewallApplied want rows = list_ex (firewall_row_applied want) rows"

definition firewall_row_ok :: "jsv \<Rightarrow> bool" where
  "firewall_row_ok row \<longleftrightarrow>
     (let a = ruleArguments row; p = rule_opts row
      in truthy a \<and> is_object a \<and> truthy p \<and> is_object p
         \<and> key_of (vget a ''sourceIP'') \<noteq> None \<and> key_of (vget a ''destinationIP'') \<noteq> None
         \<and> list_all (\<lambda>f. int_up_to 65535 (vget a f)) (PORTS @ [''preference''])
         \<and> int_up_to 255 (vget a ''protocol'') \<and> int_up_to 65535 (vget p ''toPort'') \<and> int_up_to MARK_MAX (vget p ''fwMark'')
         \<and> list_all (\<lambda>f. optional_flag (vget p f)) (VERDICTS @ [''record'', ''onDefault''])
         \<and> (vget p ''counter'' = JUndef \<or> is_text (vget p ''counter'')))"

text \<open>\<open>None\<close> is the throw: a read of another shape is an error, never an empty list.\<close>

definition parseFirewallRows :: "jsv \<Rightarrow> jsv list option" where
  "parseFirewallRows v = (case v of
     JNull \<Rightarrow> Some []
   | JArr rows \<Rightarrow> if list_all firewall_row_ok rows then Some rows else None
   | _ \<Rightarrow> None)"

text \<open>The selection of the page: the first rule of each selected row id.\<close>

definition selected_firewall_rules :: "nat list \<Rightarrow> jsv list \<Rightarrow> jsv list" where
  "selected_firewall_rules hashes rows = List.map_filter (\<lambda>h. find (\<lambda>r. firewallRowId r = h) rows) hashes"

text \<open>The calls: a create is refused, or sends a body; a delete sends a query.\<close>

definition client_refusal :: "string \<Rightarrow> string option \<Rightarrow> op_result" where
  "client_refusal code detail = (bare_result Invalid code (STATUS_LOCALE_KEYS Invalid) False)\<lparr>op_rawDetail := detail\<rparr>"

definition object_without :: "jsv \<Rightarrow> string list \<Rightarrow> jsv" where
  "object_without v ks = (case v of JObj ob \<Rightarrow> JObj (without ob ks) | _ \<Rightarrow> v)"

definition request_create_firewall_rule :: "jsv \<Rightarrow> op_result + jsv" where
  "request_create_firewall_rule rule =
     (let issues = validateFirewallConfig rule
      in if issues \<noteq> [] then Inl (client_refusal ''firewall.create.client_invalid'' (Some (join_with '', '' issues)))
         else Inr (JObj [(''ruleArguments'', ruleArguments rule), (''opts'', object_without (rule_opts rule) [''counter''])]))"

definition firewall_delete_query :: "jsv \<Rightarrow> jsobj" where
  "firewall_delete_query f =
     (let given = (\<lambda>k. if truthy (vget f k) then [(k, vget f k)] else []);
          stated = (\<lambda>k. if vget f k = JUndef then [] else [(k, vget f k)])
      in given ''sourceIP'' @ given ''destinationIP'' @ concat (map stated PORTS) @ stated ''protocol'' @ given ''portName''
         @ stated ''preference'')"

definition request_delete_all_firewall_rules :: "jsv \<Rightarrow> string" where
  "request_delete_all_firewall_rules f =
     (let query = search_params (firewall_delete_query f)
      in ''/config/firewall'' @ (if query = [] then [] else ''?'' @ query))"

subsection \<open>IP filters\<close>

definition validIPFilterConfig :: "jsv \<Rightarrow> bool" where
  "validIPFilterConfig d \<longleftrightarrow>
     networkPrefixKey (js_trim (str_or_empty (vget d ''cidr''))) \<noteq> None
     \<and> (vget d ''zone'' = JUndef \<or> strict_eq (vget d ''zone'') (jint 0))
     \<and> int_up_to 65535 (vget d ''priority'')
     \<and> ((vget d ''filterType'' = JStr ''whitelist'' \<and> vget d ''action'' = JStr ''allow'')
        \<or> (vget d ''filterType'' = JStr ''blacklist'' \<and> vget d ''action'' = JStr ''drop''))"

fun counter_ok :: "jsv \<Rightarrow> bool" where
  "counter_ok JUndef = True"
| "counter_ok (JNum n) = (is_safe_integer n \<and> num_le (num 0) n)"
| "counter_ok _ = False"

definition filter_row_ok :: "jsv \<Rightarrow> bool" where
  "filter_row_ok row \<longleftrightarrow>
     truthy row \<and> validIPFilterConfig row \<and> vget row ''priority'' \<noteq> JUndef
     \<and> list_all (\<lambda>f. counter_ok (vget row f)) [''packets'', ''bytes'']"

definition parseIPFilterRows :: "jsv \<Rightarrow> jsv list option" where
  "parseIPFilterRows v = (case v of
     JNull \<Rightarrow> Some []
   | JArr rows \<Rightarrow> if list_ex (\<lambda>row. \<not> filter_row_ok row) rows then None else Some rows
   | _ \<Rightarrow> None)"

definition sameIdentity :: "jsv \<Rightarrow> jsv \<Rightarrow> bool" where
  "sameIdentity a b \<longleftrightarrow>
     strict_eq (vget a ''filterType'') (vget b ''filterType'')
     \<and> strict_eq (or_default (vget a ''zone'') (jint 0)) (or_default (vget b ''zone'') (jint 0))
     \<and> key_of (vget a ''cidr'') = key_of (vget b ''cidr'')"

definition ipFilterApplied :: "jsv \<Rightarrow> jsv list \<Rightarrow> bool" where
  "ipFilterApplied want rows =
     list_ex (\<lambda>row. sameIdentity row want \<and> strict_eq (vget row ''action'') (vget want ''action'')
        \<and> strict_eq (or_default (vget row ''priority'') (jint 0)) (or_default (vget want ''priority'') (jint 100))) rows"

definition ipFiltersAbsent :: "jsv list \<Rightarrow> jsv list \<Rightarrow> bool" where
  "ipFiltersAbsent want rows = list_all (\<lambda>item. \<not> list_ex (\<lambda>row. sameIdentity row item) rows) want"

text \<open>The address patterns of \<open>common.ts\<close>.\<close>

definition digit_rx :: rx where "digit_rx = RCls digits_cls"

definition ralts :: "rx list \<Rightarrow> rx" where "ralts rs = foldr RAlt rs RNone"

definition rseqs :: "rx list \<Rightarrow> rx" where "rseqs rs = foldr RSeq rs REps"

definition octet_rx :: rx where
  "octet_rx = ralts [RSeq (rtext ''25'') (RCls [(48, 53)]), rseqs [rchar CHR ''2'', RCls [(48, 52)], digit_rx],
     rseqs [ropt (RCls [(48, 49)]), digit_rx, ropt digit_rx]]"

definition ipv4Regex :: rx where
  "ipv4Regex = rseqs [octet_rx, rchar CHR ''.'', octet_rx, rchar CHR ''.'', octet_rx, rchar CHR ''.'', octet_rx]"

definition isValidIPv4 :: "string \<Rightarrow> bool" where
  "isValidIPv4 ip = rx_test ipv4Regex ip"

definition hextet :: rx where
  "hextet = rbetween 1 4 (RCls (digits_cls @ [(97, 102), (65, 70)]))"

definition v6_octet_rx :: rx where
  "v6_octet_rx = RAlt (RSeq (rtext ''25'') (RCls [(48, 53)]))
     (RSeq (ropt (RAlt (RSeq (rchar CHR ''2'') (RCls [(48, 52)])) (RSeq (ropt (rchar CHR ''1'')) digit_rx))) digit_rx)"

definition v6_dotted_rx :: rx where
  "v6_dotted_rx = RSeq (rbetween 3 3 (RSeq v6_octet_rx (rchar CHR ''.''))) v6_octet_rx"

definition ipv6Regex :: rx where
  "ipv6Regex =
     (let head = RSeq hextet (rchar CHR '':''); rest = RSeq (rchar CHR '':'') hextet; colon = rchar CHR '':''
      in ralts
       [RSeq (rbetween 7 7 head) hextet,
        RSeq (rbetween 1 7 head) colon,
        rseqs [rbetween 1 6 head, colon, hextet],
        RSeq (rbetween 1 5 head) (rbetween 1 2 rest),
        RSeq (rbetween 1 4 head) (rbetween 1 3 rest),
        RSeq (rbetween 1 3 head) (rbetween 1 4 rest),
        RSeq (rbetween 1 2 head) (rbetween 1 5 rest),
        rseqs [hextet, colon, rbetween 1 6 rest],
        RSeq colon (RAlt (rbetween 1 7 rest) colon),
        rseqs [rtext ''fe80:'', rbetween 0 4 (RSeq colon (rbetween 0 4 (RCls (digits_cls @ [(97, 102), (65, 70)])))),
               rchar CHR ''%'', rplus (RCls (digits_cls @ lower_cls @ upper_cls))],
        rseqs [rtext ''::'', ropt (rseqs [rtext ''ffff'', ropt (RSeq colon (rbetween 1 4 (rchar CHR ''0''))), colon]), v6_dotted_rx],
        rseqs [rbetween 1 4 head, colon, v6_dotted_rx]])"

definition isValidIPv6 :: "string \<Rightarrow> bool" where
  "isValidIPv6 ip = rx_test ipv6Regex ip"

definition isValidIPAddress :: "string \<Rightarrow> bool" where
  "isValidIPAddress ip \<longleftrightarrow> ip \<noteq> [] \<and> (isValidIPv4 ip \<or> isValidIPv6 ip)"

definition toHostCidr :: "string \<Rightarrow> string" where
  "toHostCidr cidr =
     (let trimmed = js_trim cidr
      in if \<not> isValidIPAddress trimmed then trimmed
         else if CHR '':'' \<in> set trimmed then trimmed @ ''/128'' else trimmed @ ''/32'')"

definition request_create_ipfilter_rule :: "jsv \<Rightarrow> op_result + jsv" where
  "request_create_ipfilter_rule d =
     (if \<not> validIPFilterConfig d then Inl (client_refusal ''ipfilter.create.client_invalid'' None)
      else Inr (JObj [(''filterType'', vget d ''filterType''), (''cidr'', JStr (toHostCidr (str_or_empty (vget d ''cidr'')))),
                      (''zone'', vget d ''zone''), (''priority'', vget d ''priority''), (''action'', vget d ''action'')]))"

definition request_delete_ipfilter_rule :: "jsv \<Rightarrow> string" where
  "request_delete_ipfilter_rule p =
     ''/config/ipfilter?'' @ search_params
        ([(''filterType'', vget p ''filterType''), (''cidr'', vget p ''cidr'')]
         @ (if vget p ''zone'' = JUndef then [] else [(''zone'', vget p ''zone'')]))"

subsection \<open>What is sent states what was asked\<close>

lemma alphabet_repeat [simp]:
  "\<not> in_cls (rx_alphabet r) c \<Longrightarrow> \<not> in_cls (rx_alphabet (rbetween m n r)) c"
proof -
  assume r: "\<not> in_cls (rx_alphabet r) c"
  then have "\<not> in_cls (rx_alphabet (rupto k r)) c" "\<not> in_cls (rx_alphabet (rexact k r)) c" for k
    by (induction k) (simp_all add: in_cls_def)
  then show ?thesis
    by (simp add: rbetween_def)
qed

lemma alphabet_text [simp]:
  "in_cls (rx_alphabet (rtext s)) c \<longleftrightarrow> c \<in> set s" "in_cls (rx_alphabet (rchar d)) c \<longleftrightarrow> c = d"
proof -
  show l: "in_cls (rx_alphabet (rchar d)) c \<longleftrightarrow> c = d" for d
    by (auto simp: rchar_def in_cls_def simp flip: code_of_inj)
  show "in_cls (rx_alphabet (rtext s)) c \<longleftrightarrow> c \<in> set s"
    by (induction s) (auto simp: l in_cls_def [of "[]"])
qed

lemma address_no_slash: "isValidIPAddress s \<Longrightarrow> CHR ''/'' \<notin> set s"
proof -
  have c: "in_cls [] CHR ''/'' = False" "in_cls ((lo, hi) # rs) CHR ''/'' \<longleftrightarrow> (lo \<le> 47 \<and> 47 \<le> hi) \<or> in_cls rs CHR ''/''" for lo hi rs
    by (simp_all add: in_cls_def code_of_def)
  have "\<not> in_cls (rx_alphabet ipv4Regex) CHR ''/''" "\<not> in_cls (rx_alphabet ipv6Regex) CHR ''/''"
    by (simp_all add: ipv4Regex_def ipv6Regex_def octet_rx_def v6_octet_rx_def v6_dotted_rx_def hextet_def digit_rx_def ralts_def
        rseqs_def ropt_def rplus_def Let_def c)
  then show "isValidIPAddress s \<Longrightarrow> CHR ''/'' \<notin> set s"
    using lang_alphabet by (auto simp: isValidIPAddress_def isValidIPv4_def isValidIPv6_def rx_test_iff)
qed

lemma trim_append:
  assumes "js_trim s = s" "t \<noteq> []" "\<forall>c\<in>set t. \<not> is_space c"
  shows "js_trim (s @ t) = s @ t"
proof -
  have "s = [] \<or> \<not> is_space (hd s)"
  proof (cases s)
    case (Cons c r)
    have "\<not> is_space c"
    proof
      assume "is_space c"
      then have "js_trim s = js_trim r"
        by (simp add: js_trim_def Cons)
      then have "length (js_trim s) \<le> length r"
        using length_js_trim [of r] by simp
      then show False
        using assms(1) Cons by simp
    qed
    then show ?thesis
      by (simp add: Cons)
  qed simp
  then have front: "dropWhile is_space (s @ t) = s @ t"
    using assms(2,3) by (cases s; cases t) auto
  have "dropWhile is_space (rev t @ rev s) = rev t @ rev s"
    using assms(2,3) by (cases "rev t") (auto simp: rev_eq_Cons_iff)
  then show ?thesis
    using front by (simp add: js_trim_def)
qed

lemma address_shape:
  "read_address s = Some (f, us) \<Longrightarrow> (f = V6 \<longleftrightarrow> CHR '':'' \<in> set s) \<and> int (length us) * unit_width f = (if CHR '':'' \<in> set s then 128 else 32)"
  using read_address_ok [of s f us] by (auto simp: read_address_def unit_count_def unit_width_def split: if_splits)

lemma host_key:
  assumes "CHR ''/'' \<notin> set s" "js_trim s = s"
  shows "networkPrefixKey (s @ (if CHR '':'' \<in> set s then ''/128'' else ''/32'')) = networkPrefixKey s"
proof -
  define d where "d = (if CHR '':'' \<in> set s then ''128'' else ''32'')"
  have d: "all_digits d" "digits_val d = (if CHR '':'' \<in> set s then 128 else 32)" "CHR ''/'' \<notin> set d" "\<forall>c\<in>set d. \<not> is_space c"
    by (simp_all add: d_def all_digits_def is_digit_def is_space_def digits_val_def digit_val_def)
  have t: "s @ (if CHR '':'' \<in> set s then ''/128'' else ''/32'') = s @ CHR ''/'' # d"
    by (simp add: d_def)
  have "js_trim (s @ CHR ''/'' # d) = s @ CHR ''/'' # d"
    using d(4) by (intro trim_append [OF assms(2)]) (auto simp: is_space_def)
  moreover have "split_on CHR ''/'' (s @ CHR ''/'' # d) = [s, d]"
    using split_on_append [OF assms(1), of d] split_on_plain [OF d(3)] by simp
  ultimately have "read_prefix (s @ CHR ''/'' # d) = read_prefix s"
    using assms(2) split_on_plain [OF assms(1)] d(1,2) address_shape [of s]
    by (auto simp: read_prefix_def Let_def split: option.split)
  then show ?thesis
    unfolding t by (simp add: networkPrefixKey_def)
qed

lemma sent_cidr: "networkPrefixKey (toHostCidr c) = networkPrefixKey c"
proof -
  have "networkPrefixKey (js_trim c) = networkPrefixKey c"
    by (simp add: networkPrefixKey_def read_prefix_def)
  moreover have "networkPrefixKey (toHostCidr c) = networkPrefixKey (js_trim c)"
    using host_key [of "js_trim c"] address_no_slash [of "js_trim c"]
    by (cases "CHR '':'' \<in> set (js_trim c)") (simp_all add: toHostCidr_def Let_def)
  ultimately show ?thesis
    by simp
qed

subsection \<open>Which rules are the same rule\<close>

definition addresses :: "jsv \<Rightarrow> (ip_family \<times> int set) option" where
  "addresses v = (case v of JStr s \<Rightarrow> map_option covered (read_prefix s) | _ \<Rightarrow> None)"

lemma key_of_iff: "key_of v = key_of w \<longleftrightarrow> addresses v = addresses w"
proof -
  have "networkPrefixKey s = None \<longleftrightarrow> read_prefix s = None" "None = networkPrefixKey s \<longleftrightarrow> read_prefix s = None" for s
    by (auto simp: networkPrefixKey_def)
  then show ?thesis
    by (cases v; cases w) (simp_all add: addresses_def key_text eq_commute [of None "read_prefix _"])
qed

text \<open>The traffic a rule selects.\<close>

record fw_scope =
  fs_port :: jsv
  fs_source :: "(ip_family \<times> int set) option"
  fs_destination :: "(ip_family \<times> int set) option"
  fs_numbers :: "jsv list"

definition scope_of :: "jsv \<Rightarrow> fw_scope" where
  "scope_of r =
     (let a = ruleArguments r
      in \<lparr>fs_port = or_default (vget a ''portName'') (JStr []), fs_source = addresses (vget a ''sourceIP''),
          fs_destination = addresses (vget a ''destinationIP''),
          fs_numbers = map (\<lambda>f. or_default (vget a f) (jint 0)) (PORTS @ [''protocol'', ''preference''])\<rparr>)"

definition plain_port :: "jsv \<Rightarrow> bool" where
  "plain_port r \<longleftrightarrow> nullish (vget (ruleArguments r) ''portName'') \<or> is_text (vget (ruleArguments r) ''portName'')"

lemma stringify_array_inj:
  "list_all jsonable vs \<Longrightarrow> list_all jsonable ws \<Longrightarrow> json_stringify (JArr vs) = json_stringify (JArr ws) \<longleftrightarrow> vs = ws"
proof -
  have l: "jsonable_list us \<longleftrightarrow> list_all jsonable us" for us
    by (induction us) auto
  assume "list_all jsonable vs" "list_all jsonable ws"
  then have "jsonable (JArr vs)" "jsonable (JArr ws)"
    by (simp_all add: l)
  then show ?thesis
    using json_roundtrip by (metis jsv.inject(4) option.inject)
qed

lemma number_jsonable: "int_up_to b v \<Longrightarrow> b < 2 ^ 53 \<Longrightarrow> jsonable (or_default v (jint 0))"
  using double_bound_large by (cases v rule: jsv.exhaust [case_names JUndef JNull JBool JNum JStr JArr JObj])
    (auto simp: or_default_def num_le_def num_eq_def split: jsnum.splits elim!: num_lt.elims)

lemma key_truthy: "key_of v \<noteq> None \<Longrightarrow> truthy v"
proof (cases v)
  case (JStr s)
  moreover have "networkPrefixKey [] = None"
    by (simp add: networkPrefixKey_def read_prefix_def Let_def read_address_def v4_def)
  ultimately show "key_of v \<noteq> None \<Longrightarrow> truthy v"
    by (cases s) simp_all
qed simp_all

lemma accepted_parts:
  assumes "firewall_row_ok r" "plain_port r"
  shows "list_all jsonable (fw_identity_parts (ruleArguments r))"
    and "fw_identity_parts (ruleArguments r) =
      (let a = ruleArguments r
       in [or_default (vget a ''portName'') (JStr []), opt_str (key_of (vget a ''sourceIP'')),
           or_default (vget a ''minSourcePort'') (jint 0), or_default (vget a ''maxSourcePort'') (jint 0),
           opt_str (key_of (vget a ''destinationIP'')),
           or_default (vget a ''minDestinationPort'') (jint 0), or_default (vget a ''maxDestinationPort'') (jint 0),
           or_default (vget a ''protocol'') (jint 0), or_default (vget a ''preference'') (jint 0)])"
proof -
  let ?a = "ruleArguments r"
  have t: "truthy (vget ?a ''sourceIP'')" "truthy (vget ?a ''destinationIP'')"
    using assms(1) key_truthy by (auto simp: firewall_row_ok_def Let_def)
  show parts: "fw_identity_parts (ruleArguments r) =
      (let a = ruleArguments r
       in [or_default (vget a ''portName'') (JStr []), opt_str (key_of (vget a ''sourceIP'')),
           or_default (vget a ''minSourcePort'') (jint 0), or_default (vget a ''maxSourcePort'') (jint 0),
           opt_str (key_of (vget a ''destinationIP'')),
           or_default (vget a ''minDestinationPort'') (jint 0), or_default (vget a ''maxDestinationPort'') (jint 0),
           or_default (vget a ''protocol'') (jint 0), or_default (vget a ''preference'') (jint 0)])"
    using t by (simp add: fw_identity_parts_def js_or_def Let_def)
  show "list_all jsonable (fw_identity_parts ?a)"
  proof -
    have "jsonable (or_default (vget ?a ''portName'') (JStr []))"
      using assms(2) by (auto simp: plain_port_def nullish_def or_default_def elim: is_text.elims)
    moreover have "jsonable (opt_str (key_of (vget ?a ''sourceIP'')))" "jsonable (opt_str (key_of (vget ?a ''destinationIP'')))"
      using assms(1) by (auto simp: firewall_row_ok_def Let_def opt_str_def)
    moreover have "jsonable (or_default (vget ?a f) (jint 0))" if "f \<in> set (PORTS @ [''protocol'', ''preference''])" for f
      using assms(1) that number_jsonable [where b = 65535] number_jsonable [where b = 255] by (auto simp: firewall_row_ok_def Let_def PORTS_def)
    ultimately show ?thesis
      unfolding parts by (simp add: Let_def PORTS_def)
  qed
qed

text \<open>C30. Two firewall rules of an accepted read are one rule to the confirmation, the selection and the deletion
  exactly when they select the same traffic: the same port, addresses covering the same set on each side, and
  the same port numbers, protocol and preference, a missing number counting as 0.
\<close>

theorem firewall_identity_iff:
  assumes "parseFirewallRows v = Some rows" "r \<in> set rows" "s \<in> set rows" "plain_port r" "plain_port s"
  shows "firewallIdentity (ruleArguments r) = firewallIdentity (ruleArguments s) \<longleftrightarrow> scope_of r = scope_of s"
proof -
  have ok: "firewall_row_ok r" "firewall_row_ok s"
    using assms(1-3) by (auto simp: parseFirewallRows_def list_all_iff split: jsv.splits if_splits)
  have inj: "opt_str x = opt_str y \<longleftrightarrow> x = y" for x y
    by (auto simp: opt_str_def split: option.splits)
  have "firewallIdentity (ruleArguments r) = firewallIdentity (ruleArguments s) \<longleftrightarrow>
      fw_identity_parts (ruleArguments r) = fw_identity_parts (ruleArguments s)"
    unfolding firewallIdentity_def
    by (rule stringify_array_inj [OF accepted_parts(1) [OF ok(1) assms(4)] accepted_parts(1) [OF ok(2) assms(5)]])
  also have "\<dots> \<longleftrightarrow> scope_of r = scope_of s"
    unfolding accepted_parts(2) [OF ok(1) assms(4)] accepted_parts(2) [OF ok(2) assms(5)]
    by (auto simp: scope_of_def Let_def PORTS_def inj key_of_iff)
  finally show ?thesis .
qed

definition demo_fw_rule :: "string \<Rightarrow> string \<Rightarrow> jsv" where
  "demo_fw_rule port src =
     JObj [(''ruleArguments'', JObj [(''sourceIP'', JStr src), (''destinationIP'', JStr ''0.0.0.0/0''), (''portName'', JStr port), (''preference'', jint 10)]),
           (''opts'', JObj [(''drop'', JBool True)])]"

lemma demo_accepted:
  assumes "networkPrefixKey src \<noteq> None"
  shows "firewall_row_ok (demo_fw_rule port src)" "plain_port (demo_fw_rule port src)"
proof -
  have "networkPrefixKey ''0.0.0.0/0'' \<noteq> None"
    by code_simp
  then show "firewall_row_ok (demo_fw_rule port src)"
    using assms by (simp add: firewall_row_ok_def demo_fw_rule_def oget_def PORTS_def VERDICTS_def MARK_MAX_def num_le_def num_eq_def num_lt.simps)
  show "plain_port (demo_fw_rule port src)"
    by (simp add: plain_port_def demo_fw_rule_def oget_def)
qed

theorem firewall_identity_iff_witness:
  "scope_of (demo_fw_rule ''hs0'' ''10.1.2.3/8'') = scope_of (demo_fw_rule ''hs0'' ''10.0.0.0/8'')"
proof -
  have k: "networkPrefixKey ''10.1.2.3/8'' = Some ''v4:10:0:0:0/8''" "networkPrefixKey ''10.0.0.0/8'' = Some ''v4:10:0:0:0/8''"
    by code_simp+
  let ?r = "demo_fw_rule ''hs0'' ''10.1.2.3/8''" and ?s = "demo_fw_rule ''hs0'' ''10.0.0.0/8''"
  have "firewall_row_ok ?r" "firewall_row_ok ?s" "plain_port ?r" "plain_port ?s"
    using demo_accepted k by simp_all
  moreover from this have "parseFirewallRows (JArr [?r, ?s]) = Some [?r, ?s]"
    by (simp add: parseFirewallRows_def)
  moreover have "firewallIdentity (ruleArguments ?r) = firewallIdentity (ruleArguments ?s)"
    by (simp add: firewallIdentity_def fw_identity_parts_def demo_fw_rule_def oget_def js_or_def k any_address_def Let_def)
  ultimately show ?thesis
    using firewall_identity_iff [of "JArr [?r, ?s]" "[?r, ?s]" ?r ?s] by simp
qed

text \<open>
  The row id is a 32-bit hash of the identity: two rules on the ports \<open>eAa\<close> and \<open>eBB\<close> have one id, and
  selecting the second selects the first.
\<close>

lemma hash_swap: "getStableHash (a @ ''Aa'' @ b) = getStableHash (a @ ''BB'' @ b)"
  by (simp add: getStableHash_def push_bit_eq_mult code_of_def algebra_simps)

lemma row_id_collides:
  "firewallRowId (demo_fw_rule ''eAa'' src) = firewallRowId (demo_fw_rule ''eBB'' src)
   \<and> firewallIdentity (ruleArguments (demo_fw_rule ''eAa'' src)) \<noteq> firewallIdentity (ruleArguments (demo_fw_rule ''eBB'' src))"
proof -
  define ps where "ps = tl (fw_identity_parts (ruleArguments (demo_fw_rule ''eAa'' src)))"
  define tail where "tail = join_with '','' (json_elems ps) @ '']''"
  have q: "quote ''eAa'' = CHR 0x22 # ''e'' @ ''Aa'' @ [CHR 0x22]" "quote ''eBB'' = CHR 0x22 # ''e'' @ ''BB'' @ [CHR 0x22]"
    by code_simp+
  have "fw_identity_parts (ruleArguments (demo_fw_rule port src)) = JStr port # ps" "ps \<noteq> []" for port
    by (simp_all add: ps_def fw_identity_parts_def demo_fw_rule_def Let_def oget_def or_default_def any_address_def)
  moreover have "json_stringify (JArr (JStr port # ps)) = CHR ''['' # quote port @ CHR '','' # tail" if "ps \<noteq> []" for port
    using that by (cases ps) (simp_all add: tail_def)
  ultimately have e: "firewallIdentity (ruleArguments (demo_fw_rule port src)) = CHR ''['' # quote port @ CHR '','' # tail" for port
    by (simp add: firewallIdentity_def del: json_stringify.simps)
  have "getStableHash ((CHR ''['' # CHR 0x22 # ''e'') @ ''Aa'' @ CHR 0x22 # CHR '','' # tail)
      = getStableHash ((CHR ''['' # CHR 0x22 # ''e'') @ ''BB'' @ CHR 0x22 # CHR '','' # tail)"
    by (rule hash_swap)
  then show ?thesis
    by (simp add: firewallRowId_def e q)
qed

text \<open>The selection, of any read: the rule on the port \<open>eBB\<close> cannot be selected while the other one is there.\<close>

lemma selection_takes_the_other:
  "selected_firewall_rules [firewallRowId (demo_fw_rule ''eBB'' src)] [demo_fw_rule ''eAa'' src, demo_fw_rule ''eBB'' src] = [demo_fw_rule ''eAa'' src]"
  using row_id_collides [of src] by (simp add: selected_firewall_rules_def map_filter_simps)

subsection \<open>Confirmation\<close>

text \<open>Of a read: a rule that selects the traffic of the rule written, or none that does.\<close>

interpretation fw_gone: confirmation firewallsAbsent
    "\<lambda>want rows. \<forall>item\<in>set want. \<forall>row\<in>set rows. \<not> same_rule row item"
  by unfold_locales (simp add: firewallsAbsent_def list_all_iff list_ex_iff)

interpretation fw_put: confirmation firewallApplied "\<lambda>want rows. \<exists>row\<in>set rows. firewall_row_applied want row"
  by unfold_locales (simp add: firewallApplied_def list_ex_iff)

interpretation filter_gone: confirmation ipFiltersAbsent
    "\<lambda>want rows. \<forall>item\<in>set want. \<forall>row\<in>set rows. \<not> sameIdentity row item"
  by unfold_locales (simp add: ipFiltersAbsent_def list_all_iff list_ex_iff)

interpretation filter_put: confirmation ipFilterApplied
    "\<lambda>want rows. \<exists>row\<in>set rows. addresses (vget row ''cidr'') = addresses (vget want ''cidr'') \<and> strict_eq (vget row ''action'') (vget want ''action'')"
  by unfold_locales (auto simp: ipFilterApplied_def list_ex_iff sameIdentity_def key_of_iff)


text \<open>An address the gateway cannot read: the pattern for IPv6 does not know the form, and it is sent bare.\<close>

lemma bare_address_sent:
  "toHostCidr ''1:2:3:4:5:6:1.2.3.4'' = ''1:2:3:4:5:6:1.2.3.4''"
  "map_option np_bits (read_prefix ''1:2:3:4:5:6:1.2.3.4'') = Some 128"
  by code_simp+

end
