(* ===== verification/SeriesStore.thy ===== *)
theory SeriesStore
  imports Session
begin

section \<open>Time series kept by the browser\<close>

text \<open>
  \<open>hooks/query/common.ts\<close>: the points a page accumulates by polling, kept for a day and at most a hundred, in the
  state of the hook, in the query cache and in the local storage. The hook is a record; an event is an answer of
  the poll, a change of the instance with what the cache of queries holds for it, or a timer of a save. A point is
  the object that is stored; the clock is an argument.
\<close>

definition MAX_DURATION_MS :: int where "MAX_DURATION_MS = 24 * 60 * 60 * 1000"
definition MAX_DATA_POINTS :: nat where "MAX_DATA_POINTS = 100"

text \<open>\<open>now - item.timestamp\<close>\<close>

fun age_of :: "int \<Rightarrow> jsv \<Rightarrow> jsnum" where
  "age_of now (JNum (Fin r)) = Fin (of_int now - r)"
| "age_of now (JNum PosInf) = NegInf"
| "age_of now (JNum NegInf) = PosInf"
| "age_of now _ = NaN"

definition recent :: "int \<Rightarrow> jsv \<Rightarrow> bool" where
  "recent now p \<longleftrightarrow> num_le (age_of now (vget p ''timestamp'')) (num MAX_DURATION_MS)"

definition pruneOld :: "int \<Rightarrow> jsv list \<Rightarrow> jsv list" where
  "pruneOld now arr =
     (let timeFiltered = filter (recent now) arr
      in if MAX_DATA_POINTS < length timeFiltered then drop (length timeFiltered - MAX_DATA_POINTS) timeFiltered
         else timeFiltered)"

fun is_point :: "jsv \<Rightarrow> bool" where
  "is_point (JObj ob) = (case oget ob ''timestamp'' of JNum _ \<Rightarrow> True | _ \<Rightarrow> False)"
| "is_point _ = False"

definition remove_local_storage :: "string \<Rightarrow> browser \<Rightarrow> browser" where
  "remove_local_storage key w = w\<lparr>local_store := AList.delete key (local_store w)\<rparr>"

definition readStoredSeries :: "int \<Rightarrow> string \<Rightarrow> browser \<Rightarrow> jsv list \<times> browser" where
  "readStoredSeries now key w =
     (case get_item (local_store w) key of
        None \<Rightarrow> ([], w)
      | Some raw \<Rightarrow>
          if raw = [] then ([], w)
          else (case json_parse raw of
                  Some (JArr points) \<Rightarrow> (pruneOld now (filter is_point points), w)
                | _ \<Rightarrow> ([], remove_local_storage key w)))"

definition point_at :: "int \<Rightarrow> jsv \<Rightarrow> jsv" where
  "point_at now data = JObj [(''timestamp'', jint now), (''data'', data)]"

definition appendSeries :: "int \<Rightarrow> jsv list \<Rightarrow> int \<times> jsv \<Rightarrow> jsv list" where
  "appendSeries now prev p = pruneOld now (prev @ [point_at (fst p) (snd p)])"

subsection \<open>The hook\<close>

record series_hook =
  sh_instance :: "nat option"
  sh_series :: "jsv list"
  sh_saves :: "(string \<times> jsv list) list"
  sh_cache :: "(string \<times> jsv list) list"
  sh_browser :: browser

definition storage_key :: "string \<Rightarrow> nat \<Rightarrow> string" where
  "storage_key seriesKey n = seriesKey @ ''_'' @ nat_str n"

text \<open>The series of an instance, from the query cache or else the storage: the initial state and the second effect.\<close>

definition load_series :: "string \<Rightarrow> int \<Rightarrow> series_hook \<Rightarrow> series_hook" where
  "load_series seriesKey now h =
     (case sh_instance h of
        None \<Rightarrow> h\<lparr>sh_series := []\<rparr>
      | Some n \<Rightarrow>
          (let key = storage_key seriesKey n;
               cached = (case map_of (sh_cache h) key of None \<Rightarrow> [] | Some s \<Rightarrow> s)
           in if cached \<noteq> [] then h\<lparr>sh_series := pruneOld now cached\<rparr>
              else (let (series, w) = readStoredSeries now key (sh_browser h)
                    in h\<lparr>sh_series := series, sh_browser := w\<rparr>)))"

text \<open>The first effect: the point is appended and a timer will save the series.\<close>

definition take_answer :: "string \<Rightarrow> int \<Rightarrow> jsv \<Rightarrow> series_hook \<Rightarrow> series_hook" where
  "take_answer seriesKey now data h =
     (case sh_instance h of
        None \<Rightarrow> h
      | Some n \<Rightarrow>
          (let nextSeries = appendSeries now (sh_series h) (now, data)
           in h\<lparr>sh_series := nextSeries, sh_saves := sh_saves h @ [(storage_key seriesKey n, nextSeries)]\<rparr>))"

definition run_save :: "series_hook \<Rightarrow> series_hook" where
  "run_save h =
     (case sh_saves h of
        [] \<Rightarrow> h
      | (key, series) # rest \<Rightarrow>
          h\<lparr>sh_saves := rest, sh_cache := AList.update key series (sh_cache h),
            sh_browser := save_local_storage key (json_stringify (JArr series)) (sh_browser h)\<rparr>)"

text \<open>
  A change of the instance: both effects run, in their order; \<open>data\<close> is what the query cache holds of the new
  instance's poll.
\<close>

definition switch_instance :: "string \<Rightarrow> nat option \<Rightarrow> int \<Rightarrow> jsv option \<Rightarrow> series_hook \<Rightarrow> series_hook" where
  "switch_instance seriesKey inst now data h =
     (let h1 = h\<lparr>sh_instance := inst\<rparr>;
          h2 = (case data of None \<Rightarrow> h1 | Some d \<Rightarrow> take_answer seriesKey now d h1)
      in load_series seriesKey now h2)"

datatype series_event =
    Answered int jsv
  | Switched "nat option" int "jsv option"
  | SaveTimer

fun series_step :: "string \<Rightarrow> series_event \<Rightarrow> series_hook \<Rightarrow> series_hook" where
  "series_step k (Answered now data) h = take_answer k now data h"
| "series_step k (Switched inst now data) h = switch_instance k inst now data h"
| "series_step k SaveTimer h = run_save h"

definition mount_series :: "string \<Rightarrow> nat option \<Rightarrow> int \<Rightarrow> (string \<times> jsv list) list \<Rightarrow> browser \<Rightarrow> series_hook" where
  "mount_series k inst now cache w =
     load_series k now \<lparr>sh_instance = inst, sh_series = [], sh_saves = [], sh_cache = cache, sh_browser = w\<rparr>"

text \<open>Of the queries of an instance: whether a failed read is tried again, and whether a refetch must cancel the
  load that is under way.\<close>

definition retry_read :: "nat \<Rightarrow> jsv \<Rightarrow> bool" where
  "retry_read failureCount status \<longleftrightarrow> \<not> strict_eq status (jint 404) \<and> failureCount < 3"

definition refetch_cancels :: "(string \<times> bool) option \<Rightarrow> bool" where
  "refetch_cancels state = (case state of None \<Rightarrow> False | Some (fetchStatus, has_data) \<Rightarrow> fetchStatus = ''fetching'' \<and> \<not> has_data)"

subsection \<open>Pruning as it goes is pruning once\<close>

definition last_few :: "nat \<Rightarrow> 'a list \<Rightarrow> 'a list" where
  "last_few n xs = drop (length xs - n) xs"

lemma prune_eq: "pruneOld now arr = last_few MAX_DATA_POINTS (filter (recent now) arr)"
  by (simp add: pruneOld_def last_few_def Let_def)

lemma last_few_Cons: "n \<le> length xs \<Longrightarrow> last_few n (x # xs) = last_few n xs"
  by (simp add: last_few_def Suc_diff_le)

lemma last_few_short: "length xs \<le> n \<Longrightarrow> last_few n xs = xs"
  by (simp add: last_few_def)

text \<open>Cutting first does not matter when what is kept is kept for every later element too.\<close>

lemma last_few_filter:
  "sorted_wrt (\<lambda>a b. Q a \<longrightarrow> Q b) ys \<Longrightarrow> last_few n (filter Q (last_few n ys) @ zs) = last_few n (filter Q ys @ zs)"
proof (induction ys)
  case (Cons y ys)
  show ?case
  proof (cases "n \<le> length ys")
    case True
    have "last_few n (filter Q ys @ zs) = last_few n (filter Q (y # ys) @ zs)"
    proof (cases "Q y")
      case q: True
      then have "filter Q ys = ys"
        using Cons.prems by (simp add: filter_id_conv)
      then show ?thesis
        using q True last_few_Cons [of n "ys @ zs" y] by simp
    qed simp
    then show ?thesis
      using Cons True by (simp add: last_few_Cons)
  next
    case False
    then show ?thesis
      by (simp add: last_few_short)
  qed
qed (simp add: last_few_def)

definition young :: "int \<Rightarrow> int \<times> jsv \<Rightarrow> bool" where
  "young now p \<longleftrightarrow> now - fst p \<le> MAX_DURATION_MS"

definition stamp :: "int \<times> jsv \<Rightarrow> jsv" where
  "stamp p = point_at (fst p) (snd p)"

lemma recent_stamp [simp]: "recent now (stamp p) \<longleftrightarrow> young now p"
proof -
  have "recent now (stamp p) \<longleftrightarrow> (of_int (now - fst p) :: rat) \<le> of_int MAX_DURATION_MS"
    by (auto simp: recent_def stamp_def point_at_def oget_def num_le_def num_eq_def)
  then show ?thesis
    by (simp only: of_int_le_iff young_def)
qed

lemma prune_stamped: "pruneOld now (map stamp polls) = map stamp (last_few MAX_DATA_POINTS (filter (young now) polls))"
  by (simp add: prune_eq filter_map comp_def last_few_def drop_map)

lemma young_later: "t \<le> t' \<Longrightarrow> young t' p \<Longrightarrow> young t p"
  by (simp add: young_def)

lemma append_pruned:
  assumes "sorted (map fst polls)" "t \<le> t'"
  shows "appendSeries t' (map stamp (last_few MAX_DATA_POINTS (filter (young t) polls))) (t', d)
    = map stamp (last_few MAX_DATA_POINTS (filter (young t') (polls @ [(t', d)])))"
proof -
  have "filter (young t') (filter (young t) polls) = filter (young t') polls"
    using young_later [OF assms(2)] by (auto intro: filter_cong)
  moreover have "sorted_wrt (\<lambda>a b. young t' a \<longrightarrow> young t' b) (filter (young t) polls)"
    using assms(1) by (intro sorted_wrt_filter) (auto simp: sorted_map young_def intro: sorted_wrt_mono_rel [rotated])
  ultimately have "last_few MAX_DATA_POINTS (filter (young t') (last_few MAX_DATA_POINTS (filter (young t) polls)) @ [(t', d)])
      = last_few MAX_DATA_POINTS (filter (young t') polls @ [(t', d)])"
    using last_few_filter by metis
  moreover have "young t' (t', d)"
    by (simp add: young_def MAX_DURATION_MS_def)
  moreover have "map stamp xs @ [point_at t' d] = map stamp (xs @ [(t', d)])" for xs
    by (simp add: stamp_def)
  ultimately show ?thesis
    by (simp add: appendSeries_def prune_stamped del: map_append)
qed

definition polled :: "string \<Rightarrow> (int \<times> jsv) list \<Rightarrow> series_hook \<Rightarrow> series_hook" where
  "polled k polls h = fold (\<lambda>(t, d). series_step k (Answered t d)) polls h"

lemma polled_series:
  assumes "sh_instance h = Some n" "sh_series h = []" "sorted (map fst polls)"
  shows "sh_instance (polled k polls h) = Some n
    \<and> (polls = [] \<or> sh_series (polled k polls h) = map stamp (last_few MAX_DATA_POINTS (filter (young (fst (last polls))) polls)))
    \<and> (polls = [] \<longrightarrow> sh_series (polled k polls h) = [])"
  using assms(3)
proof (induction polls rule: rev_induct)
  case (snoc p polls)
  obtain t' d where p: "p = (t', d)"
    by fastforce
  have step: "polled k (polls @ [p]) h = take_answer k t' d (polled k polls h)"
    by (simp add: polled_def p)
  have s: "sorted (map fst polls)"
    using snoc.prems by (simp add: sorted_append)
  have "sh_series (take_answer k t' d (polled k polls h)) = map stamp (last_few MAX_DATA_POINTS (filter (young t') (polls @ [p])))"
  proof (cases "polls = []")
    case True
    then show ?thesis
      using assms(1,2) append_pruned [of "[]" t' t' d] by (simp add: polled_def take_answer_def Let_def p last_few_def)
  next
    case False
    then have "fst (last polls) \<le> t'"
      using snoc.prems p by (auto simp: sorted_append)
    then show ?thesis
      using snoc.IH [OF s] False append_pruned [OF s] by (simp add: take_answer_def Let_def p)
  qed
  then show ?case
    using snoc.IH [OF s] unfolding step by (simp add: take_answer_def Let_def p)
qed (simp_all add: polled_def assms)

subsection \<open>What is saved is read back\<close>

lemma jsonable_array: "jsonable (JArr vs) \<longleftrightarrow> list_all jsonable vs"
proof -
  have "jsonable_list vs \<longleftrightarrow> list_all jsonable vs"
    by (induction vs) auto
  then show ?thesis
    by simp
qed

lemma read_saved:
  assumes "get_item (local_store w) key = Some (json_stringify (JArr series))"
    and "list_all jsonable series" "list_all is_point series"
  shows "readStoredSeries now key w = (pruneOld now series, w)"
proof -
  have "json_parse (json_stringify (JArr series)) = Some (JArr series)"
    using assms(2) by (intro json_roundtrip) (simp only: jsonable_array)
  moreover have "json_stringify (JArr series) \<noteq> []"
    by simp
  moreover have "filter is_point series = series"
    using assms(3) by (simp add: filter_id_conv list_all_iff)
  ultimately show ?thesis
    using assms(1) by (simp add: readStoredSeries_def del: json_stringify.simps)
qed

text \<open>Each answer is followed by the timer of its save.\<close>

definition polled_saved :: "string \<Rightarrow> (int \<times> jsv) list \<Rightarrow> series_hook \<Rightarrow> series_hook" where
  "polled_saved k polls h = fold (\<lambda>(t, d) h. series_step k SaveTimer (series_step k (Answered t d) h)) polls h"

lemma run_save_keeps [simp]: "sh_series (run_save h) = sh_series h" "sh_instance (run_save h) = sh_instance h"
  by (simp_all add: run_save_def split: list.split prod.split)

lemma polled_saved_series:
  "sh_instance (polled_saved k polls h) = sh_instance (polled k polls h) \<and> sh_series (polled_saved k polls h) = sh_series (polled k polls h)"
proof (induction polls rule: rev_induct)
  case (snoc p polls)
  obtain t d where p: "p = (t, d)"
    by fastforce
  have e: "polled_saved k (polls @ [p]) h = run_save (take_answer k t d (polled_saved k polls h))"
    "polled k (polls @ [p]) h = take_answer k t d (polled k polls h)"
    by (simp_all add: polled_saved_def polled_def p)
  show ?case
    unfolding e run_save_keeps using snoc.IH by (simp add: take_answer_def Let_def split: option.split)
qed (simp add: polled_saved_def polled_def)

text \<open>A save that fits the quota is in the storage.\<close>

lemma save_written:
  assumes "sh_saves h = [(key, series)]"
    and "set_item (capacity (sh_browser h)) key (json_stringify (JArr series)) (local_store (sh_browser h)) \<noteq> None"
  shows "get_item (local_store (sh_browser (run_save h))) key = Some (json_stringify (JArr series))"
  using assms by (auto simp: run_save_def save_local_storage_def set_item_def get_item_def Let_def update_conv' split: if_splits)


definition empty_browser :: browser where
  "empty_browser = demo_browser\<lparr>local_store := []\<rparr>"


text \<open>Whatever happens, no series holds more than a hundred points.\<close>

definition series_small :: "series_hook \<Rightarrow> bool" where
  "series_small h \<longleftrightarrow> length (sh_series h) \<le> MAX_DATA_POINTS \<and> list_all (\<lambda>s. length (snd s) \<le> MAX_DATA_POINTS) (sh_saves h)"

lemma length_prune: "length (pruneOld now arr) \<le> MAX_DATA_POINTS"
  by (simp add: prune_eq last_few_def)

lemma load_small: "sh_saves (load_series k now h) = sh_saves h \<and> length (sh_series (load_series k now h)) \<le> MAX_DATA_POINTS"
  by (auto simp: load_series_def readStoredSeries_def Let_def length_prune split: option.split prod.split jsv.split)

lemma step_small: "series_small h \<Longrightarrow> series_small (series_step k e h)"
proof -
  have answer: "series_small (take_answer k now d h)" if "series_small h" for now d h
    using that by (auto simp: series_small_def take_answer_def appendSeries_def Let_def length_prune split: option.split)
  assume "series_small h"
  then show ?thesis
  proof (cases e)
    case (Switched inst now data)
    have "series_small (h\<lparr>sh_instance := inst\<rparr>)"
      using \<open>series_small h\<close> by (simp add: series_small_def)
    then show ?thesis
      using answer load_small by (auto simp: Switched switch_instance_def Let_def series_small_def split: option.split)
  next
    case Answered
    then show ?thesis
      using answer [OF \<open>series_small h\<close>] by simp
  next
    case SaveTimer
    then show ?thesis
      using \<open>series_small h\<close> by (auto simp: series_small_def run_save_def split: list.split)
  qed
qed

lemma series_stay_small: "series_small h \<Longrightarrow> series_small (fold (series_step k) es h)"
  by (induction es arbitrary: h) (simp_all add: step_small)

text \<open>
  A change to an instance whose poll is cached appends that answer to the points of the instance before, and
  saves them under the key of the new one; the series shown is the right one, and the next answer repairs the save.
\<close>

lemma switch_saves_the_other_series:
  "sh_saves (switch_instance ''s'' (Some 2) 9 (Some JNull)
      \<lparr>sh_instance = Some 1, sh_series = [point_at 5 (JBool True)], sh_saves = [], sh_cache = [], sh_browser = empty_browser\<rparr>)
   = [(''s_2'', [point_at 5 (JBool True), point_at 9 JNull])]"
  by code_simp

end
