(* ===== verification/AiConnector.thy ===== *)
theory AiConnector
  imports OpResult Quota TokenQuota LbRules
begin

section \<open>Calls of the AI configuration\<close>

text \<open>
  \<open>connector/instance/ai.ts\<close> and \<open>connector/instance/ai_objective.ts\<close>: API keys, rate limits, their defaults,
  objectives and network identities. A write is a function of \<open>send\<close>, what the HTTP layer answers to a call
  (\<open>Inl\<close> is a throw); a read is a function of the answer, and \<open>Inl\<close> is what it throws.
\<close>

datatype api_body =
    Bodiless
  | JsonBody jsv
  | PatchBody key_patch
  | TenantBody tenant_mod
  | UserBody user_mod
  | DefaultsBody defaults_mod

record api_call =
  ac_method :: http_method
  ac_path :: string
  ac_body :: api_body

type_synonym sender = "api_call \<Rightarrow> js_error + simple_response option"

definition invalid_result :: "string \<Rightarrow> string \<Rightarrow> op_result" where
  "invalid_result code detail = (bare_result Invalid code (STATUS_LOCALE_KEYS Invalid) False)\<lparr>op_rawDetail := Some detail\<rparr>"

definition code_is_404 :: "simple_response \<Rightarrow> bool" where
  "code_is_404 resp \<longleftrightarrow> r_code resp = jint 404"

text \<open>\<open>assertOk\<close> and what follows it.\<close>

definition after_ok :: "simple_response \<Rightarrow> string \<Rightarrow> js_error + 'a \<Rightarrow> js_error + 'a" where
  "after_ok resp operation rest = (case assertOk resp operation of Inl e \<Rightarrow> Inl (ApiErr e) | Inr _ \<Rightarrow> rest)"

fun list_or_empty :: "jsv \<Rightarrow> jsv list" where
  "list_or_empty (JArr vs) = vs"
| "list_or_empty _ = []"

definition or_null :: "jsv \<Rightarrow> jsv" where
  "or_null v = or_default v JNull"

subsection \<open>API keys\<close>

definition query_get_apikey_all :: "simple_response \<Rightarrow> js_error + jsv list" where
  "query_get_apikey_all resp = after_ok resp ''Get API Keys'' (Inr (list_or_empty (r_data resp)))"

definition apikey_path :: "string \<Rightarrow> string" where
  "apikey_path key_id = ''/config/ai/apikey/'' @ encodeURIComponent key_id"

definition query_get_apikey :: "string \<Rightarrow> simple_response \<Rightarrow> js_error + jsv" where
  "query_get_apikey key_id resp =
     (if key_id = [] \<or> unsendableInPath [JStr key_id] then Inl (PlainErr ''This API key ID cannot be sent in a request path.'')
      else if code_is_404 resp then Inr JNull
      else after_ok resp ''Get API Key''
        (case r_data resp of
           JObj ob \<Rightarrow> Inr (JObj ob)
         | _ \<Rightarrow> Inl (PlainErr ''The API key answer is not a key.'')))"

definition request_create_apikey :: "int \<Rightarrow> sender \<Rightarrow> jsv \<Rightarrow> op_result" where
  "request_create_apikey now send data =
     runOp now ''ai.apikey.create'' (send \<lparr>ac_method = PostM, ac_path = ''/config/ai/apikey'', ac_body = JsonBody data\<rparr>)"

definition request_delete_apikey :: "int \<Rightarrow> sender \<Rightarrow> string \<Rightarrow> op_result" where
  "request_delete_apikey now send key_id =
     (if unsendableInPath [JStr key_id] then pathRefusal ''ai.apikey.delete''
      else runOp now ''ai.apikey.delete'' (send \<lparr>ac_method = DeleteM, ac_path = apikey_path key_id, ac_body = Bodiless\<rparr>))"

definition PARTIAL_REJECTED :: string where
  "PARTIAL_REJECTED = ''The gateway rejected one of these values. Fields are written in separate steps without a transaction, so an earlier field may already be saved - the list has been re-read.''"

definition relabel_patch :: "js_error + simple_response option \<Rightarrow> op_result \<Rightarrow> op_result" where
  "relabel_patch answer res =
     (case answer of
        Inr (Some resp) \<Rightarrow>
          if r_code resp = jint 400 then res\<lparr>op_code := ''ai.apikey.patch.partial_rejected'', op_localeKey := PARTIAL_REJECTED\<rparr> else res
      | _ \<Rightarrow> res)"

definition request_patch_apikey :: "int \<Rightarrow> sender \<Rightarrow> string \<Rightarrow> key_patch \<Rightarrow> op_result" where
  "request_patch_apikey now send key_id patch =
     (if unsendableInPath [JStr key_id] then pathRefusal ''ai.apikey.patch''
      else if js_trim key_id = [] then invalid_result ''ai.apikey.patch.client_invalid'' ''An API key identifier is required.''
      else if validateApiKeyPatch patch \<noteq> [] then invalid_result ''ai.apikey.patch.client_invalid'' (join_with '' '' (validateApiKeyPatch patch))
      else (let answer = send \<lparr>ac_method = PatchM, ac_path = apikey_path key_id, ac_body = PatchBody patch\<rparr>
            in relabel_patch answer (runOp now ''ai.apikey.patch'' answer)))"

subsection \<open>Rate limits of tenants and users\<close>

definition query_get_tenant_ratelimit :: "simple_response \<Rightarrow> js_error + jsv" where
  "query_get_tenant_ratelimit resp =
     (if code_is_404 resp then Inr JNull
      else after_ok resp ''Get Tenant Rate Limit'' (Inr (if truthy (r_data resp) then r_data resp else JNull)))"

text \<open>
  Reads fanned out over distinct names: a missing row contributes nothing, any other failure fails the whole read
  (here with the first name that fails; which one a browser reports is the first to answer).
\<close>

fun gather_rows :: "string \<Rightarrow> (string \<Rightarrow> simple_response) \<Rightarrow> string list \<Rightarrow> js_error + jsv list" where
  "gather_rows operation answer [] = Inr []"
| "gather_rows operation answer (n # ns) =
     (let row = (if code_is_404 (answer n) then Inr JNull else after_ok (answer n) operation (Inr (or_null (r_data (answer n)))))
      in (case (row, gather_rows operation answer ns) of
            (Inl e, _) \<Rightarrow> Inl e
          | (_, Inl e) \<Rightarrow> Inl e
          | (Inr v, Inr vs) \<Rightarrow> Inr (if v = JNull then vs else v # vs)))"

definition distinct_names :: "string list \<Rightarrow> string list" where
  "distinct_names ns = fold set_add (filter (\<lambda>n. n \<noteq> []) ns) []"

definition query_get_tenant_ratelimits_for :: "string list \<Rightarrow> (string \<Rightarrow> simple_response) \<Rightarrow> js_error + jsv list" where
  "query_get_tenant_ratelimits_for tenant_ids answer = gather_rows ''Get Tenant Rate Limits'' answer (distinct_names tenant_ids)"

definition request_set_tenant_ratelimit :: "int \<Rightarrow> sender \<Rightarrow> tenant_mod \<Rightarrow> op_result" where
  "request_set_tenant_ratelimit now send data =
     (let payload = normalizeTenantRateLimit data; errors = validateTenantRateLimit payload
      in if errors \<noteq> [] then invalid_result ''ai.ratelimit.client_invalid'' (join_with '' '' errors)
         else runOp now ''ai.ratelimit.set'' (send \<lparr>ac_method = PostM, ac_path = ''/config/ai/tenant/ratelimit'', ac_body = TenantBody payload\<rparr>))"

definition query_get_user_ratelimits :: "simple_response \<Rightarrow> js_error + jsv list" where
  "query_get_user_ratelimits resp = after_ok resp ''Get User Rate Limits'' (Inr (list_or_empty (r_data resp)))"

definition query_get_user_ratelimit :: "simple_response \<Rightarrow> js_error + jsv" where
  "query_get_user_ratelimit resp =
     (if code_is_404 resp then Inr JNull else after_ok resp ''Get User Rate Limit'' (Inr (or_null (r_data resp))))"

definition request_set_user_ratelimit :: "int \<Rightarrow> sender \<Rightarrow> user_mod \<Rightarrow> op_result" where
  "request_set_user_ratelimit now send data =
     (let payload = normalizeUserRateLimit data; errors = validateUserRateLimit payload
      in if errors \<noteq> [] then invalid_result ''ai.user_ratelimit.client_invalid'' (join_with '' '' errors)
         else runOp now ''ai.user_ratelimit.set'' (send \<lparr>ac_method = PostM, ac_path = ''/config/ai/user/ratelimit'', ac_body = UserBody payload\<rparr>))"

definition request_delete_user_ratelimit :: "int \<Rightarrow> sender \<Rightarrow> string \<Rightarrow> string \<Rightarrow> op_result" where
  "request_delete_user_ratelimit now send tenant_id user_id =
     (if unsendableInPath [JStr tenant_id, JStr user_id] then pathRefusal ''ai.user_ratelimit.delete''
      else runOp now ''ai.user_ratelimit.delete''
        (send \<lparr>ac_method = DeleteM,
               ac_path = ''/config/ai/user/ratelimit/'' @ encodeURIComponent tenant_id @ ''/'' @ encodeURIComponent user_id,
               ac_body = Bodiless\<rparr>))"

subsection \<open>The ladder of defaults\<close>

record defaults_read =
  dq_storeState :: store_state
  dq_global :: jsv
  dq_rule :: jsv

fun whole_code :: "jsv \<Rightarrow> int option" where
  "whole_code (JNum (Fin r)) = (if of_int \<lfloor>r\<rfloor> = r then Some \<lfloor>r\<rfloor> else None)"
| "whole_code _ = None"

fun text_code :: "jsv \<Rightarrow> string option" where
  "text_code (JStr s) = Some s"
| "text_code _ = None"

definition store_failure :: "simple_response \<Rightarrow> store_state" where
  "store_failure resp =
     storeStateFromError (whole_code (r_code resp)) (text_code (or_default (vget (r_data resp) ''result'') (vget (r_data resp) ''message'')))"

definition conclusive :: "simple_response \<Rightarrow> bool" where
  "conclusive resp \<longleftrightarrow> \<not> r_parse_failed resp \<and> (r_code resp = jint 200 \<or> code_is_404 resp)"

text \<open>\<open>rule_answer\<close> is the answer to the read of the rule row, which is sent only when a rule is named.\<close>

definition query_get_ratelimit_defaults :: "simple_response \<Rightarrow> string option \<Rightarrow> simple_response \<Rightarrow> defaults_read" where
  "query_get_ratelimit_defaults global_answer rule_ident rule_answer =
     (if r_parse_failed global_answer then \<lparr>dq_storeState = UnknownStore, dq_global = JNull, dq_rule = JNull\<rparr>
      else if r_code global_answer \<noteq> jint 200 \<and> \<not> code_is_404 global_answer
        then \<lparr>dq_storeState = store_failure global_answer, dq_global = JNull, dq_rule = JNull\<rparr>
      else (let globalRow = (if code_is_404 global_answer then JNull else or_null (r_data global_answer))
            in if some_or [] rule_ident = [] then \<lparr>dq_storeState = Readable, dq_global = globalRow, dq_rule = JNull\<rparr>
               else if r_parse_failed rule_answer \<or> (r_code rule_answer \<noteq> jint 200 \<and> \<not> code_is_404 rule_answer)
                 then \<lparr>dq_storeState = UnknownStore, dq_global = globalRow, dq_rule = JNull\<rparr>
               else \<lparr>dq_storeState = Readable, dq_global = globalRow,
                     dq_rule = (if r_code rule_answer = jint 200 then or_null (r_data rule_answer) else JNull)\<rparr>))"

definition query_get_ratelimit_defaults_for :: "string list \<Rightarrow> (string \<Rightarrow> simple_response) \<Rightarrow> js_error + jsv list" where
  "query_get_ratelimit_defaults_for rule_idents answer =
     gather_rows ''Get Rate Limit Defaults'' answer (distinct_names (map js_trim rule_idents))"

definition request_set_ratelimit_defaults :: "int \<Rightarrow> sender \<Rightarrow> defaults_mod \<Rightarrow> op_result" where
  "request_set_ratelimit_defaults now send data =
     (let errors = validateRateLimitDefaults data
      in if errors \<noteq> [] then invalid_result ''ai.ratelimit_defaults.client_invalid'' (join_with '' '' errors)
         else runOp now ''ai.ratelimit_defaults.set''
           (send \<lparr>ac_method = PostM, ac_path = ''/config/ai/ratelimit/defaults'', ac_body = DefaultsBody (normalizeRateLimitDefaults data)\<rparr>))"

definition request_delete_ratelimit_defaults :: "int \<Rightarrow> sender \<Rightarrow> defaults_scope \<Rightarrow> string option \<Rightarrow> op_result" where
  "request_delete_ratelimit_defaults now send scope rule_ident =
     (let ident = js_trim (some_or [] rule_ident)
      in if scope = RuleScope \<and> ident = []
         then invalid_result ''ai.ratelimit_defaults.client_invalid'' ''A service identifier is required to delete a rule defaults row.''
         else runOp now ''ai.ratelimit_defaults.delete''
           (send \<lparr>ac_method = DeleteM,
                  ac_path = (if scope = RuleScope then ''/config/ai/ratelimit/defaults/rule?rule_ident='' @ encodeURIComponent ident
                             else ''/config/ai/ratelimit/defaults/global''),
                  ac_body = Bodiless\<rparr>))"

subsection \<open>Objectives and network identities\<close>

record objective_list =
  ol_objectives :: "jsv list"
  ol_source :: "string option"
  ol_sourceTimestamp :: "string option"
  ol_storeReachable :: "bool option"
  ol_storeLastRead :: "string option"

definition api_failure :: "string \<Rightarrow> jsv \<Rightarrow> js_error" where
  "api_failure message status = ApiErr \<lparr>e_message = message, e_status = status, e_response = None\<rparr>"

definition routeMissing :: "string \<Rightarrow> simple_response \<Rightarrow> js_error" where
  "routeMissing operation resp = api_failure (operation @ '': route not served (404)'') (r_code resp)"

fun flag_of :: "jsv \<Rightarrow> bool option" where
  "flag_of (JBool b) = Some b"
| "flag_of _ = None"

text \<open>The list of a member of an answer: \<open>None\<close> when it is neither absent nor a list.\<close>

definition listed_member :: "jsobj \<Rightarrow> string \<Rightarrow> jsv list option" where
  "listed_member ob k = (case oget ob k of JArr vs \<Rightarrow> Some vs | JUndef \<Rightarrow> Some [] | JNull \<Rightarrow> Some [] | _ \<Rightarrow> None)"

definition query_get_objectives :: "simple_response \<Rightarrow> js_error + objective_list" where
  "query_get_objectives resp =
     (if code_is_404 resp then Inl (routeMissing ''Get Objectives'' resp)
      else after_ok resp ''Get Objectives''
        (case r_data resp of
           JObj ob \<Rightarrow>
             (case listed_member ob ''objectiveAttr'' of
                None \<Rightarrow> Inl (api_failure ''Get Objectives: objectiveAttr is not a list'' (jint 500))
              | Some vs \<Rightarrow> Inr \<lparr>ol_objectives = vs, ol_source = text_code (oget ob ''source''),
                  ol_sourceTimestamp = text_code (oget ob ''source_timestamp''), ol_storeReachable = flag_of (oget ob ''store_reachable''),
                  ol_storeLastRead = text_code (oget ob ''store_last_read'')\<rparr>)
         | _ \<Rightarrow> Inl (api_failure ''Get Objectives: the answer is not an objective list'' (jint 500))))"

text \<open>An objective of the form: a name, a priority, the services when given.\<close>

record objective =
  ob_name :: "string option"
  ob_priority :: jsv
  ob_services :: "string list option"

definition objective_name_char :: "char \<Rightarrow> bool" where
  "objective_name_char c \<longleftrightarrow> is_alpha c \<or> is_digit c \<or> c \<in> set ''._-''"

definition OBJECTIVE_NAME :: "string \<Rightarrow> bool" where
  "OBJECTIVE_NAME s \<longleftrightarrow> 1 \<le> length s \<and> length s \<le> 63 \<and> list_all objective_name_char s"

fun priority_ok :: "jsv \<Rightarrow> bool" where
  "priority_ok (JNum n) = (is_integer n \<and> num_le (num (- 2147483648)) n \<and> num_le n (num 2147483647))"
| "priority_ok _ = False"

definition validateObjective :: "objective \<Rightarrow> string list" where
  "validateObjective entry =
     (let name = some_or [] (ob_name entry); services = some_or [] (ob_services entry)
      in (if starts_with name ''tier:'' then [''An objective name cannot begin with tier:.'']
          else if \<not> OBJECTIVE_NAME name then [''Objective name must be 1 to 63 letters, digits, -, _ or .''] else [])
         @ (if \<not> priority_ok (ob_priority entry) then [''Priority must be a whole number from -2147483648 to 2147483647.''] else [])
         @ (if 256 < length services then [''At most 256 services.''] else [])
         @ (if length (remdups services) \<noteq> length services then [''A service is listed twice.''] else []))"

definition objective_body :: "objective \<Rightarrow> objective" where
  "objective_body entry = entry\<lparr>ob_services := (case ob_services entry of Some (x # xs) \<Rightarrow> Some (x # xs) | _ \<Rightarrow> None)\<rparr>"

definition opt_str_of :: "string option \<Rightarrow> jsv" where
  "opt_str_of v = (case v of None \<Rightarrow> JUndef | Some s \<Rightarrow> JStr s)"

definition objective_json :: "objective \<Rightarrow> jsv" where
  "objective_json b = JObj ([(''name'', opt_str_of (ob_name b)), (''priority'', ob_priority b)]
     @ (case ob_services b of None \<Rightarrow> [] | Some ss \<Rightarrow> [(''services'', JArr (map JStr ss))]))"

definition request_upsert_objective :: "int \<Rightarrow> sender \<Rightarrow> objective \<Rightarrow> op_result" where
  "request_upsert_objective now send entry =
     (let body = objective_body entry; errors = validateObjective body
      in if errors \<noteq> [] then invalid_result ''ai.objective.client_invalid'' (join_with '' '' errors)
         else runOp now ''ai.objective.upsert''
           (send \<lparr>ac_method = PostM, ac_path = ''/config/ai/objective'', ac_body = JsonBody (objective_json body)\<rparr>))"

definition request_delete_objective :: "int \<Rightarrow> sender \<Rightarrow> string \<Rightarrow> op_result" where
  "request_delete_objective now send name =
     (if name = [] \<or> unsendableInPath [JStr name] then pathRefusal ''ai.objective.delete''
      else runOp now ''ai.objective.delete''
        (send \<lparr>ac_method = DeleteM, ac_path = ''/config/ai/objective/'' @ encodeURIComponent name, ac_body = Bodiless\<rparr>))"

definition query_get_netidentities :: "simple_response \<Rightarrow> js_error + jsv list" where
  "query_get_netidentities resp =
     (if code_is_404 resp then Inl (routeMissing ''Get Network Identities'' resp)
      else after_ok resp ''Get Network Identities''
        (case r_data resp of
           JObj ob \<Rightarrow>
             (case listed_member ob ''netIdentityAttr'' of
                None \<Rightarrow> Inl (api_failure ''Get Network Identities: netIdentityAttr is not a list'' (jint 500))
              | Some vs \<Rightarrow> Inr vs)
         | _ \<Rightarrow> Inl (api_failure ''Get Network Identities: the answer is not a binding list'' (jint 500))))"

subsection \<open>What a read of the ladder claims\<close>

lemma whole_code_iff: "whole_code v = Some n \<longleftrightarrow> v = jint n"
  by (cases v rule: whole_code.cases) auto

lemma text_code_iff: "text_code v = Some s \<longleftrightarrow> v = JStr s"
  by (cases v) auto

lemma store_failure_not_readable: "store_failure resp \<noteq> Readable"
  by (simp add: store_failure_def storeStateFromError_def)

lemma store_failure_unavailable:
  "store_failure resp = Unavailable \<longleftrightarrow>
     r_code resp = jint 503 \<and> or_default (vget (r_data resp) ''result'') (vget (r_data resp) ''message'') = JStr ''ai_key_store_unavailable''"
  by (auto simp: store_failure_def storeStateFromError_def whole_code_iff text_code_iff split: if_splits)

definition row_of :: "simple_response \<Rightarrow> jsv" where
  "row_of resp = (if r_code resp = jint 200 then or_null (r_data resp) else JNull)"

text \<open>C33. The ladder of defaults is called readable exactly when every read it took was answered by the store: the
  global row, and the rule row when a rule is named, each with a readable body and either 200 or the 404 of a level
  without a row. A row is shown only from a 200, a state other than readable never shows a rule row, and a 503 that
  names the failure of the key store is kept apart from a failure that says nothing.\<close>

theorem ladder_state_is_earned:
  "case query_get_ratelimit_defaults g ident r of q \<Rightarrow>
     (dq_storeState q = Readable \<longleftrightarrow> conclusive g \<and> (some_or [] ident = [] \<or> conclusive r)) \<and>
     dq_global q = (if conclusive g \<and> r_code g = jint 200 then or_null (r_data g) else JNull) \<and>
     dq_rule q = (if dq_storeState q = Readable \<and> some_or [] ident \<noteq> [] \<and> r_code r = jint 200 then or_null (r_data r) else JNull) \<and>
     (dq_storeState q = Unavailable \<longleftrightarrow> \<not> r_parse_failed g \<and> r_code g = jint 503
        \<and> or_default (vget (r_data g) ''result'') (vget (r_data g) ''message'') = JStr ''ai_key_store_unavailable'')"
proof (cases "conclusive g")
  case True
  then have g503: "r_code g \<noteq> jint 503"
    by (auto simp: conclusive_def code_is_404_def)
  then have q: "query_get_ratelimit_defaults g ident r =
      (if some_or [] ident \<noteq> [] \<and> \<not> conclusive r then \<lparr>dq_storeState = UnknownStore, dq_global = row_of g, dq_rule = JNull\<rparr>
       else \<lparr>dq_storeState = Readable, dq_global = row_of g, dq_rule = (if some_or [] ident = [] then JNull else row_of r)\<rparr>)"
    using True by (auto simp: query_get_ratelimit_defaults_def conclusive_def row_of_def code_is_404_def)
  show ?thesis
    using True g503 unfolding q by (cases "some_or [] ident = []"; cases "conclusive r") (simp_all add: row_of_def)
next
  case False
  then have q: "query_get_ratelimit_defaults g ident r =
      \<lparr>dq_storeState = (if r_parse_failed g then UnknownStore else store_failure g), dq_global = JNull, dq_rule = JNull\<rparr>"
    by (auto simp: query_get_ratelimit_defaults_def conclusive_def)
  show ?thesis
    using False store_failure_not_readable [of g] store_failure_unavailable [of g] unfolding q
    by (cases "r_parse_failed g") simp_all
qed

end
