(* ===== verification/MetricsRing.thy ===== *)
theory MetricsRing
  imports MetricManifest LbConnector
begin

section \<open>The retained scrapes of a page\<close>

text \<open>
  \<open>hooks/query/observabilityHooks.ts\<close>: the ring of observations behind \<open>useMetricsSnapshot\<close>. A render is given the
  key of the instance and its flavor and what the query holds for that key; it returns the history and then runs
  the effect, which records the observation when the snapshot or the key changed.
\<close>

definition SNAPSHOT_RETENTION :: nat where "SNAPSHOT_RETENTION = 6"
definition SNAPSHOT_PROJECTION_VERSION :: int where "SNAPSHOT_PROJECTION_VERSION = 1"

record metrics_ring =
  mr_key :: string
  mr_entries :: "metrics_snapshot list"
  mr_deps :: "(metrics_snapshot option \<times> string) option"

fun flavor_name :: "flavor \<Rightarrow> string" where
  "flavor_name Loxilb = ''loxilb''"
| "flavor_name InferenceGateway = ''inference-gateway''"

definition ring_key :: "nat option \<Rightarrow> flavor option \<Rightarrow> string" where
  "ring_key inst fl =
     (case inst of None \<Rightarrow> [] | Some n \<Rightarrow> nat_str n) @ '':'' @ flavor_name (case fl of None \<Rightarrow> Loxilb | Some f \<Rightarrow> f)"

text \<open>\<open>[...entries, snapshot].slice(-SNAPSHOT_RETENTION)\<close>, unless the last entry is this observation.\<close>

definition retained :: "metrics_snapshot list \<Rightarrow> metrics_snapshot \<Rightarrow> metrics_snapshot list" where
  "retained entries sn =
     (if entries \<noteq> [] \<and> sn_receivedAtMs (last entries) = sn_receivedAtMs sn then entries
      else drop (Suc (length entries) - SNAPSHOT_RETENTION) (entries @ [sn]))"

definition recorded :: "string \<Rightarrow> metrics_ring \<Rightarrow> metrics_snapshot list" where
  "recorded key r = (if mr_key r = key then mr_entries r else [])"

definition history_of :: "string \<Rightarrow> metrics_snapshot option \<Rightarrow> metrics_ring \<Rightarrow> metrics_snapshot list" where
  "history_of key sn r = (case sn of None \<Rightarrow> recorded key r | Some s \<Rightarrow> retained (recorded key r) s)"

definition ring_effect :: "string \<Rightarrow> metrics_snapshot option \<Rightarrow> metrics_ring \<Rightarrow> metrics_ring" where
  "ring_effect key sn r =
     (let r1 = (if mr_key r \<noteq> key then r\<lparr>mr_key := key, mr_entries := []\<rparr> else r)
      in (case sn of None \<Rightarrow> r1 | Some s \<Rightarrow> r1\<lparr>mr_entries := retained (mr_entries r1) s\<rparr>))"

definition after_render :: "string \<times> metrics_snapshot option \<Rightarrow> metrics_ring \<Rightarrow> metrics_ring" where
  "after_render e r =
     (if mr_deps r = Some (snd e, fst e) then r else (ring_effect (fst e) (snd e) r)\<lparr>mr_deps := Some (snd e, fst e)\<rparr>)"

definition new_ring :: "string \<Rightarrow> metrics_ring" where
  "new_ring key = \<lparr>mr_key = key, mr_entries = [], mr_deps = None\<rparr>"

text \<open>The ring before the last of a list of renders.\<close>

definition rendered :: "(string \<times> metrics_snapshot option) list \<Rightarrow> metrics_ring" where
  "rendered es = fold after_render es (new_ring (case es of [] \<Rightarrow> [] | e # _ \<Rightarrow> fst e))"

subsection \<open>What the history holds\<close>

text \<open>What was observed under a key since the last render under another one, oldest first.\<close>

definition observations :: "string \<Rightarrow> (string \<times> metrics_snapshot option) list \<Rightarrow> metrics_snapshot list" where
  "observations key es = List.map_filter snd (rev (takeWhile (\<lambda>e. fst e = key) (rev es)))"

definition last_six :: "'a list \<Rightarrow> 'a list" where
  "last_six xs = drop (length xs - SNAPSHOT_RETENTION) xs"

lemma observations_same [simp]:
  "observations key (es @ [(key, sn)]) = observations key es @ (case sn of None \<Rightarrow> [] | Some s \<Rightarrow> [s])"
  by (simp add: observations_def map_filter_def split: option.split)

lemma observations_other: "fst e \<noteq> key \<Longrightarrow> observations key (es @ [e]) = []"
  by (simp add: observations_def map_filter_def)

lemma last_six_snoc: "last_six (last_six xs @ [x]) = last_six (xs @ [x])"
proof (cases "length xs \<le> SNAPSHOT_RETENTION")
  case False
  then have "Suc (length xs - 6) = length xs - 5"
    by (simp add: SNAPSHOT_RETENTION_def)
  with False show ?thesis
    by (simp add: last_six_def SNAPSHOT_RETENTION_def)
qed (simp add: last_six_def)

lemma last_six_last: "xs \<noteq> [] \<Longrightarrow> last_six xs \<noteq> [] \<and> last (last_six xs) = last xs"
proof -
  assume "xs \<noteq> []"
  then have "length xs - SNAPSHOT_RETENTION < length xs"
    by (simp add: SNAPSHOT_RETENTION_def)
  then show ?thesis
    by (simp add: last_six_def last_drop)
qed

lemma last_six_map: "map f (last_six xs) = last_six (map f xs)"
  by (simp add: last_six_def drop_map)

lemma last_six_Nil [simp]: "last_six [] = []"
  by (simp add: last_six_def)

lemma remdups_adj_snoc:
  "remdups_adj (xs @ [x]) = (if xs \<noteq> [] \<and> last xs = x then remdups_adj xs else remdups_adj xs @ [x])"
  by (induction xs rule: remdups_adj.induct) auto

abbreviation instants :: "metrics_snapshot list \<Rightarrow> int list" where
  "instants \<equiv> map sn_receivedAtMs"

definition holds_observations :: "metrics_snapshot list \<Rightarrow> metrics_snapshot list \<Rightarrow> bool" where
  "holds_observations h obs \<longleftrightarrow> instants h = last_six (remdups_adj (instants obs)) \<and> set h \<subseteq> set obs"

lemma retained_holds:
  assumes "holds_observations h obs"
  shows "holds_observations (retained h s) (obs @ [s])"
proof (cases "h = []")
  case True
  then have "obs = []"
    using assms last_six_last [of "remdups_adj (instants obs)"] by (auto simp: holds_observations_def)
  then show ?thesis
    using True by (simp add: holds_observations_def retained_def last_six_def SNAPSHOT_RETENTION_def)
next
  case False
  then have obs: "obs \<noteq> []"
    using assms by (auto simp: holds_observations_def)
  have "sn_receivedAtMs (last h) = last (instants h)"
    using False by (simp add: last_map)
  then have l: "sn_receivedAtMs (last h) = sn_receivedAtMs (last obs)"
    using assms obs last_six_last [of "remdups_adj (instants obs)"] by (simp add: holds_observations_def last_map)
  have cut: "drop (Suc (length h) - SNAPSHOT_RETENTION) (h @ [s]) = last_six (h @ [s])"
    by (simp add: last_six_def)
  have "set (last_six (h @ [s])) \<subseteq> set (h @ [s])"
    unfolding last_six_def by (rule set_drop_subset)
  then show ?thesis
    using assms obs l False
    by (auto simp: holds_observations_def retained_def cut last_six_map remdups_adj_snoc last_map last_six_snoc simp del: drop_append)
qed

lemma same_again: "holds_observations h obs \<Longrightarrow> obs \<noteq> [] \<Longrightarrow> last obs = s \<Longrightarrow> holds_observations h (obs @ [s])"
  by (auto simp: holds_observations_def remdups_adj_snoc last_map)

text \<open>The ring holds the observations under its own key, and none are recorded under any other.\<close>

definition ring_inv :: "(string \<times> metrics_snapshot option) list \<Rightarrow> metrics_ring \<Rightarrow> bool" where
  "ring_inv es r \<longleftrightarrow>
     (if es = [] then mr_deps r = None
      else mr_key r = fst (last es) \<and> mr_deps r = Some (snd (last es), fst (last es)))
     \<and> holds_observations (mr_entries r) (observations (mr_key r) es)"

lemma nothing_observed: "es = [] \<or> fst (last es) \<noteq> key \<Longrightarrow> observations key es = []"
  by (cases es rule: rev_cases) (auto simp: observations_other, simp add: observations_def map_filter_def)

lemma holds_Nil [simp]: "holds_observations [] []"
  by (simp add: holds_observations_def)

lemma ring_inv_recorded: "ring_inv es r \<Longrightarrow> holds_observations (recorded key r) (observations key es)"
  by (auto simp: ring_inv_def recorded_def nothing_observed split: if_splits)

lemma ring_inv_step:
  assumes "ring_inv es r"
  shows "ring_inv (es @ [e]) (after_render e r)"
proof (cases "mr_deps r = Some (snd e, fst e)")
  case True
  then have "es \<noteq> []" "last es = e" "mr_key r = fst e"
    using assms by (auto simp: ring_inv_def prod_eq_iff split: if_splits)
  then obtain es' where es: "es = es' @ [e]"
    using append_butlast_last_id by metis
  obtain k sn where e: "e = (k, sn)"
    by fastforce
  have "holds_observations (mr_entries r) (observations k es)"
    using assms \<open>mr_key r = fst e\<close> by (simp add: ring_inv_def e)
  then have "holds_observations (mr_entries r) (observations k (es @ [(k, sn)]))"
    using same_again [of "mr_entries r" "observations k es"] unfolding observations_same es e
    by (cases sn) simp_all
  then show ?thesis
    using True \<open>mr_key r = fst e\<close> by (simp add: ring_inv_def after_render_def e)
next
  case False
  obtain k sn where e: "e = (k, sn)"
    by fastforce
  have "mr_entries (ring_effect k sn r) = (case sn of None \<Rightarrow> recorded k r | Some s \<Rightarrow> retained (recorded k r) s)"
    by (simp add: ring_effect_def recorded_def split: option.split)
  then have "holds_observations (mr_entries (ring_effect k sn r)) (observations k (es @ [(k, sn)]))"
    using ring_inv_recorded [OF assms, of k] retained_holds by (cases sn) simp_all
  moreover have "mr_key (ring_effect k sn r) = k"
    by (simp add: ring_effect_def split: option.split)
  ultimately show ?thesis
    using False by (simp add: ring_inv_def after_render_def e)
qed

lemma ring_inv_rendered: "ring_inv es (rendered es)"
proof -
  have "ring_inv es (fold after_render es (new_ring k))" for k
  proof (induction es rule: rev_induct)
    case (snoc e es)
    then show ?case
      using ring_inv_step by simp
  qed (simp add: ring_inv_def new_ring_def observations_def holds_observations_def map_filter_def)
  then show ?thesis
    by (simp add: rendered_def)
qed

text \<open>C8. The history a page computes rates from is what was observed of this instance: after any renders, with any
  changes of the instance, of its flavor and of what the query holds, the render that is given an observation
  returns the last six distinct observations made under the present key since the last change of it, this
  observation last, and never one of another instance or flavor.\<close>

theorem history_is_of_this_instance:
  "case history_of key (Some s) (rendered es) of h \<Rightarrow>
     map sn_receivedAtMs h = last_six (remdups_adj (map sn_receivedAtMs (observations key (es @ [(key, Some s)]))))
     \<and> set h \<subseteq> set (observations key (es @ [(key, Some s)]))
     \<and> h \<noteq> [] \<and> sn_receivedAtMs (last h) = sn_receivedAtMs s"
proof -
  have "holds_observations (recorded key (rendered es)) (observations key es)"
    by (rule ring_inv_recorded [OF ring_inv_rendered])
  then have h: "holds_observations (history_of key (Some s) (rendered es)) (observations key (es @ [(key, Some s)]))"
    using retained_holds by (simp add: history_of_def)
  let ?h = "history_of key (Some s) (rendered es)"
  have "last (last_six (remdups_adj (instants (observations key es @ [s])))) = sn_receivedAtMs s"
    using last_six_last [of "remdups_adj (instants (observations key es @ [s]))"] by simp
  moreover have "last_six (remdups_adj (instants (observations key es @ [s]))) \<noteq> []"
    using last_six_last [of "remdups_adj (instants (observations key es @ [s]))"] by simp
  moreover have i: "instants ?h = last_six (remdups_adj (instants (observations key es @ [s])))"
    using h by (simp add: holds_observations_def)
  ultimately have ne: "?h \<noteq> []" and l: "last (instants ?h) = sn_receivedAtMs s"
    by auto
  have "sn_receivedAtMs (last ?h) = sn_receivedAtMs s"
    using l last_map [OF ne, of sn_receivedAtMs] by (rule trans [OF sym, rotated])
  then show ?thesis
    using h ne by (simp add: holds_observations_def)
qed

end
