(* ===== verification/CertStore.thy ===== *)
theory CertStore
  imports OpResult LbRules
begin

section \<open>The certificate store: \<open>connector/instance/cert.ts\<close>\<close>

text \<open>
  Certificates are looked up one by one, and the lookup confirms an upload, a rotation and a delete. A read is the
  answer of the HTTP layer or its throw; what leaves the module is a summary without the PEM text.
\<close>

subsection \<open>PEM text\<close>

definition BEGIN_MARK :: string where "BEGIN_MARK = ''-----BEGIN CERTIFICATE-----''"
definition END_MARK :: string where "END_MARK = ''-----END CERTIFICATE-----''"

text \<open>The text before and after the first occurrence.\<close>

fun cut_at :: "string \<Rightarrow> string \<Rightarrow> (string \<times> string) option" where
  "cut_at p [] = (if p = [] then Some ([], []) else None)"
| "cut_at p (c # s) =
     (if starts_with (c # s) p then Some ([], drop (length p) (c # s))
      else (case cut_at p s of None \<Rightarrow> None | Some (a, b) \<Rightarrow> Some (c # a, b)))"

lemma cut_at_length: "cut_at p s = Some (a, b) \<Longrightarrow> length a + length p + length b = length s"
proof (induction p s arbitrary: a b rule: cut_at.induct)
  case (2 p c s)
  show ?case
  proof (cases "starts_with (c # s) p")
    case True
    then have "length p \<le> length (c # s)"
      by (auto simp: starts_with_iff dest: arg_cong [where f = length])
    with True 2 show ?thesis
      by auto
  qed (use 2 in \<open>auto split: option.splits\<close>)
qed (auto split: if_splits)

text \<open>The matches of \<open>CERT_BLOCK_RE\<close>, one after the other, each as short as it can be.\<close>

function cert_blocks :: "string \<Rightarrow> string list" where
  "cert_blocks s =
     (case cut_at BEGIN_MARK s of
        None \<Rightarrow> []
      | Some (_, r) \<Rightarrow> (case cut_at END_MARK r of None \<Rightarrow> [] | Some (body, rest) \<Rightarrow> body # cert_blocks rest))"
  by auto
termination
proof (relation "measure length")
  fix s x a r y body rest
  assume "cut_at BEGIN_MARK s = Some x" "(a, r) = x" "cut_at END_MARK r = Some y" "(body, rest) = y"
  then show "(rest, s) \<in> measure length"
    using cut_at_length [of BEGIN_MARK s a r] cut_at_length [of END_MARK r body rest] by (auto simp: BEGIN_MARK_def)
qed auto

declare cert_blocks.simps [simp del]

definition no_space :: "string \<Rightarrow> string" where
  "no_space s = filter (\<lambda>c. \<not> is_space c) s"

text \<open>\<open>None\<close>: what is neither text nor nullish has no \<open>matchAll\<close>, and the read throws.\<close>

fun certBodies :: "jsv \<Rightarrow> string list option" where
  "certBodies (JStr s) = Some (map no_space (cert_blocks s))"
| "certBodies JNull = Some []"
| "certBodies JUndef = Some []"
| "certBodies _ = None"

subsection \<open>Lookup\<close>

record cert_summary =
  cs_certId :: jsv
  cs_usage :: jsv
  cs_hostnames :: "jsv list"
  cs_certificates :: nat
  cs_chainCertificates :: nat

datatype raw_lookup = RawFound jsv | RawAbsent | RawError op_result

datatype cert_lookup = CertFound cert_summary | CertAbsent | CertError op_result

datatype cert_material = CertMatch | CertDiffers

fun text_names :: "jsv \<Rightarrow> jsv list" where
  "text_names (JArr vs) = filter (\<lambda>v. case v of JStr _ \<Rightarrow> True | _ \<Rightarrow> False) vs"
| "text_names _ = []"

definition summarizeCert :: "string \<Rightarrow> jsv \<Rightarrow> cert_summary option" where
  "summarizeCert certId rd =
     (case (certBodies (vget rd ''certPem''), certBodies (vget rd ''chainPem'')) of
        (Some cs, Some chain) \<Rightarrow> Some
          \<lparr>cs_certId = (if truthy (vget rd ''certId'') then vget rd ''certId'' else JStr certId),
           cs_usage = (if truthy (vget rd ''usage'') then vget rd ''usage'' else JStr ''server''),
           cs_hostnames = text_names (vget rd ''hostnames''),
           cs_certificates = length cs, cs_chainCertificates = length chain\<rparr>
      | _ \<Rightarrow> None)"

definition read_cert :: "int \<Rightarrow> js_error + simple_response \<Rightarrow> string \<Rightarrow> string \<Rightarrow> raw_lookup" where
  "read_cert now answer certId operation =
     (if unsendableInPath [JStr certId] then RawError (pathRefusal operation)
      else (case answer of
         Inl err \<Rightarrow> RawError (fromNetworkError operation err ReadOp)
       | Inr resp \<Rightarrow>
           if r_code resp = jint 200 then RawFound (or_default (r_data resp) (JObj []))
           else if r_code resp = jint 404 \<and> origin_marker (r_headers resp) \<noteq> Some ''oam'' then RawAbsent
           else RawError (fromSimpleResponse now (Some resp) operation ReadOp)))"

definition lookup_cert :: "int \<Rightarrow> js_error + simple_response \<Rightarrow> string \<Rightarrow> cert_lookup option" where
  "lookup_cert now answer certId =
     (case read_cert now answer certId ''cert.lookup'' of
        RawFound rd \<Rightarrow> map_option CertFound (summarizeCert certId rd)
      | RawAbsent \<Rightarrow> Some CertAbsent
      | RawError res \<Rightarrow> Some (CertError res))"

definition same_material :: "string list \<Rightarrow> string list \<Rightarrow> bool" where
  "same_material stored submitted \<longleftrightarrow>
     0 < length stored \<and> length stored = length submitted \<and> list_all (\<lambda>(a, b). a = b) (zip stored submitted)"

definition confirm_cert_material ::
  "int \<Rightarrow> js_error + simple_response \<Rightarrow> string \<Rightarrow> string \<Rightarrow> (cert_lookup \<times> cert_material option) option" where
  "confirm_cert_material now answer certId submittedCertPem =
     (case read_cert now answer certId ''cert.confirm'' of
        RawFound rd \<Rightarrow>
          (case (summarizeCert certId rd, certBodies (vget rd ''certPem''), certBodies (JStr submittedCertPem)) of
             (Some sm, Some stored, Some submitted) \<Rightarrow>
               Some (CertFound sm, Some (if same_material stored submitted then CertMatch else CertDiffers))
           | _ \<Rightarrow> None)
      | RawAbsent \<Rightarrow> Some (CertAbsent, None)
      | RawError res \<Rightarrow> Some (CertError res, None))"

definition createdCertId :: "op_result \<Rightarrow> string" where
  "createdCertId res = (case vget (op_data res) ''certId'' of JStr s \<Rightarrow> js_trim s | _ \<Rightarrow> [])"

definition cert_path :: "string \<Rightarrow> string" where
  "cert_path certId = ''/config/cert/'' @ encodeURIComponent certId"

definition request_rotate_cert_pem :: "string \<Rightarrow> op_result + string" where
  "request_rotate_cert_pem certId =
     (if unsendableInPath [JStr certId] then Inl (pathRefusal ''cert.rotate_cert_pem'') else Inr (cert_path certId))"

definition request_delete_cert_pem :: "string \<Rightarrow> op_result + string" where
  "request_delete_cert_pem certId =
     (if unsendableInPath [JStr certId] then Inl (pathRefusal ''cert.delete_cert_pem'') else Inr (cert_path certId))"

subsection \<open>Printed certificates\<close>

text \<open>Any text in which each certificate stands between its marks, with other text without a dash around them.\<close>

definition dashless :: "string \<Rightarrow> bool" where
  "dashless s \<longleftrightarrow> CHR ''-'' \<notin> set s"

fun pem_file :: "(string \<times> string) list \<Rightarrow> string \<Rightarrow> string" where
  "pem_file [] end_text = end_text"
| "pem_file ((before, body) # bs) end_text = before @ BEGIN_MARK @ body @ END_MARK @ pem_file bs end_text"

definition plain_file :: "(string \<times> string) list \<Rightarrow> string \<Rightarrow> bool" where
  "plain_file bs end_text \<longleftrightarrow> dashless end_text \<and> list_all (\<lambda>(before, body). dashless before \<and> dashless body) bs"

lemma marks: "BEGIN_MARK \<noteq> []" "hd BEGIN_MARK = CHR ''-''" "END_MARK \<noteq> []" "hd END_MARK = CHR ''-''"
  by (simp_all add: BEGIN_MARK_def END_MARK_def)

lemma cut_before: "dashless a \<Longrightarrow> p \<noteq> [] \<Longrightarrow> hd p = CHR ''-'' \<Longrightarrow> cut_at p (a @ p @ s) = Some (a, s)"
proof (induction a)
  case Nil
  then show ?case
    by (cases p) (auto simp: starts_with_iff)
next
  case (Cons c a)
  then have "\<not> starts_with ((c # a) @ p @ s) p"
    by (cases p) (auto simp: starts_with_iff dashless_def)
  with Cons show ?case
    by (simp add: dashless_def)
qed

lemma cut_none: "dashless s \<Longrightarrow> p \<noteq> [] \<Longrightarrow> hd p = CHR ''-'' \<Longrightarrow> cut_at p s = None"
proof (induction s)
  case (Cons c s)
  then have "\<not> starts_with (c # s) p"
    by (cases p) (auto simp: starts_with_iff dashless_def)
  with Cons show ?case
    by (simp add: dashless_def)
qed simp

lemma blocks_of_file: "plain_file bs e \<Longrightarrow> cert_blocks (pem_file bs e) = map snd bs"
proof (induction bs)
  case Nil
  then have "cut_at BEGIN_MARK e = None"
    by (intro cut_none marks) (simp add: plain_file_def)
  then show ?case
    by (subst cert_blocks.simps) simp
next
  case (Cons b bs)
  obtain before body where b: "b = (before, body)"
    by fastforce
  have d: "dashless before" "dashless body" "plain_file bs e"
    using Cons.prems by (simp_all add: plain_file_def b)
  have 1: "cut_at BEGIN_MARK (pem_file (b # bs) e) = Some (before, body @ END_MARK @ pem_file bs e)"
    unfolding b pem_file.simps by (rule cut_before [OF d(1) marks(1,2)])
  have 2: "cut_at END_MARK (body @ END_MARK @ pem_file bs e) = Some (body, pem_file bs e)"
    by (rule cut_before [OF d(2) marks(3,4)])
  show ?case
    unfolding cert_blocks.simps [of "pem_file (b # bs) e"] 1 by (simp add: 2 Cons.IH [OF d(3)] b)
qed

lemma same_material_iff: "same_material a b \<longleftrightarrow> a \<noteq> [] \<and> a = b"
  using list_all2_iff [of "(=)" a b] by (auto simp: same_material_def list_all_iff list.rel_eq)

text \<open>What each answer to a lookup means.\<close>

lemma lookup_is_absent_iff:
  "lookup_cert now answer certId = Some CertAbsent \<longleftrightarrow>
     \<not> unsendableInPath [JStr certId]
     \<and> (\<exists>resp. answer = Inr resp \<and> r_code resp = jint 404 \<and> origin_marker (r_headers resp) \<noteq> Some ''oam'')"
  by (auto simp: lookup_cert_def read_cert_def split: sum.splits)

text \<open>C20. An upload or a rotation is confirmed exactly when what is stored is what was submitted: for certificate
  files with any line breaks and spaces and any text without a dash around and in the blocks, the gateway's answer
  is read as a match precisely when the stored file has at least one certificate and both files hold the same
  certificates in the same order, and as a difference otherwise.\<close>

theorem material_matches_iff:
  assumes "plain_file stored e" "plain_file submitted f" "\<not> unsendableInPath [JStr certId]"
    and "r_code resp = jint 200" "vget (r_data resp) ''certPem'' = JStr (pem_file stored e)"
    and "nullish (vget (r_data resp) ''chainPem'')"
  shows "map_option snd (confirm_cert_material now (Inr resp) certId (pem_file submitted f)) = Some (Some
     (if stored \<noteq> [] \<and> map (\<lambda>b. no_space (snd b)) stored = map (\<lambda>b. no_space (snd b)) submitted
      then CertMatch else CertDiffers))"
proof -
  have "r_data resp \<noteq> JUndef" "r_data resp \<noteq> JNull"
    using assms(5) by auto
  then have "read_cert now (Inr resp) certId ''cert.confirm'' = RawFound (r_data resp)"
    using assms(3,4) by (simp add: read_cert_def or_default_def)
  moreover have "certBodies (vget (r_data resp) ''chainPem'') = Some []"
    using assms(6) by (auto simp: nullish_def)
  ultimately show ?thesis
    using assms(5) by (simp add: confirm_cert_material_def summarizeCert_def same_material_iff
        blocks_of_file [OF assms(1)] blocks_of_file [OF assms(2)] comp_def)
qed

definition stored_answer :: simple_response where
  "stored_answer = \<lparr>r_code = jint 200,
     r_data = JObj [(''certId'', JStr ''c1''), (''certPem'', JStr (pem_file [('' '', ''AB C''), ([], ''DE'')] []))],
     r_message = JStr [], r_headers = [], r_parse_failed = False\<rparr>"

theorem material_matches_iff_witness:
  "map_option snd (confirm_cert_material 0 (Inr stored_answer) ''c1'' (pem_file [([], ''ABC''), ([], ''DE'')] ''.'')) = Some (Some CertMatch)
   \<and> map_option snd (confirm_cert_material 0 (Inr stored_answer) ''c1'' (pem_file [([], ''DE''), ([], ''ABC'')] [])) = Some (Some CertDiffers)"
  using material_matches_iff [of "[('' '', ''AB C''), ([], ''DE'')]" "[]" "[([], ''ABC''), ([], ''DE'')]" "''.''" "''c1''" stored_answer 0]
    material_matches_iff [of "[('' '', ''AB C''), ([], ''DE'')]" "[]" "[([], ''DE''), ([], ''ABC'')]" "[]" "''c1''" stored_answer 0]
  by (simp add: stored_answer_def plain_file_def dashless_def no_space_def is_space_def unsendableInPath_def
      UNSENDABLE_PATH_CHARS_def nullish_def oget_def)

end
