(* ===== verification/LiveCards.thy ===== *)
theory LiveCards
  imports Rates LbConnector
begin

section \<open>The live-metric cards: \<open>connector/instance/metrics.ts\<close>, \<open>components/card/cardMetricsLogic.ts\<close>\<close>

text \<open>
  A scrape is projected on the flat names the dashboard cards read: the sum of the finite samples of each name,
  and for a canonical name the instance does not publish the value of the name its flavor publishes instead. The
  figures of the connection and endpoint cards follow from it; what is not published stays absent.
\<close>

subsection \<open>Canonical names\<close>

definition GATEWAY_ALIASES :: "(string \<times> string) list" where
  "GATEWAY_ALIASES =
    [(''loxilb_active_conntrack_entries'', ''active_conntrack_count''),
     (''loxilb_active_flow_count_tcp'', ''active_flow_count_tcp''),
     (''loxilb_active_flow_count_udp'', ''active_flow_count_udp''),
     (''loxilb_active_flow_count_sctp'', ''active_flow_count_sctp''),
     (''loxilb_new_flows'', ''new_flow_count''),
     (''loxilb_lb_rules'', ''lb_rule_count''),
     (''loxilb_healthy_endpoints'', ''healthy_endpoints_count''),
     (''loxilb_unhealthy_endpoints'', ''unhealthy_endpoints_count''),
     (''loxilb_system_cpu_utilization_percent'', ''system_cpu_utilization''),
     (''loxilb_system_memory_utilization_percent'', ''system_memory_utilization''),
     (''loxilb_system_disk_utilization_percent'', ''system_disk_utilization''),
     (''loxilb_processed_bytes_total'', ''processed_bytes_total''),
     (''loxilb_processed_packets_total'', ''processed_packets_total''),
     (''loxilb_errors_total'', ''total_errors'')]"

definition LOXILB_ALIASES :: "(string \<times> string) list" where
  "LOXILB_ALIASES =
    [(''loxilb_active_conntrack_entries'', ''active_conntrack_count''),
     (''loxilb_active_flow_count_tcp'', ''active_flow_count_tcp''),
     (''loxilb_active_flow_count_udp'', ''active_flow_count_udp''),
     (''loxilb_active_flow_count_sctp'', ''active_flow_count_sctp''),
     (''loxilb_new_flows'', ''new_flow_count''),
     (''loxilb_lb_rules'', ''lb_rule_count''),
     (''loxilb_healthy_endpoints'', ''healthy_host_count''),
     (''loxilb_unhealthy_endpoints'', ''unhealthy_host_count''),
     (''loxilb_processed_bytes_total'', ''processed_bytes''),
     (''loxilb_processed_packets_total'', ''processed_packets''),
     (''loxilb_errors_total'', ''total_errors'')]"

fun aliases_by_flavor :: "flavor \<Rightarrow> (string \<times> string) list" where
  "aliases_by_flavor InferenceGateway = GATEWAY_ALIASES"
| "aliases_by_flavor Loxilb = LOXILB_ALIASES"

fun take_alias :: "string \<times> string \<Rightarrow> (string \<times> rat) list \<Rightarrow> (string \<times> rat) list" where
  "take_alias (canonical, backendName) metrics =
     (case (map_of metrics canonical, map_of metrics backendName) of
        (None, Some v) \<Rightarrow> AList.update canonical v metrics
      | _ \<Rightarrow> metrics)"

definition normalize_metric_names :: "(string \<times> rat) list \<Rightarrow> flavor \<Rightarrow> (string \<times> rat) list" where
  "normalize_metric_names metrics fl = fold take_alias (aliases_by_flavor fl) metrics"

record live_metrics =
  lm_timestamp :: int
  lm_critical :: "(string \<times> rat) list"
  lm_important :: "(string \<times> rat) list"
  lm_total_metrics :: nat
  lm_available :: bool
  lm_failure :: bool

definition project_live_metrics :: "metrics_snapshot \<Rightarrow> flavor \<Rightarrow> live_metrics" where
  "project_live_metrics snapshot fl =
     (let metrics = normalize_metric_names (projectFlatSums snapshot) fl
      in \<lparr>lm_timestamp = sn_receivedAtMs snapshot, lm_critical = metrics, lm_important = metrics,
          lm_total_metrics = length metrics, lm_available = (length metrics > 0), lm_failure = sn_failure snapshot\<rparr>)"

text \<open>\<open>useLiveMetrics\<close>: read under the loxilb names while the flavor is not known.\<close>

definition useLiveMetrics :: "metrics_snapshot option \<Rightarrow> flavor option \<Rightarrow> live_metrics option \<times> bool" where
  "useLiveMetrics snapshot fl =
     (let metrics = map_option (\<lambda>sn. project_live_metrics sn (case fl of None \<Rightarrow> Loxilb | Some f \<Rightarrow> f)) snapshot
      in (metrics, case metrics of None \<Rightarrow> False | Some m \<Rightarrow> lm_failure m))"

subsection \<open>The figures of the cards\<close>

definition is_reporting :: "live_metrics option \<Rightarrow> bool" where
  "is_reporting metrics = (case metrics of None \<Rightarrow> False | Some m \<Rightarrow> lm_available m)"

record connection_figures =
  cf_totalActive :: "rat option"
  cf_totalTracked :: "rat option"
  cf_tcp :: "rat option"
  cf_udp :: "rat option"
  cf_sctp :: "rat option"
  cf_newFlows :: "rat option"
  cf_utilizationPct :: "int option"

definition NO_FLOWS :: connection_figures where
  "NO_FLOWS = \<lparr>cf_totalActive = None, cf_totalTracked = None, cf_tcp = None, cf_udp = None, cf_sctp = None,
     cf_newFlows = None, cf_utilizationPct = None\<rparr>"

definition math_round :: "rat \<Rightarrow> int" where
  "math_round r = \<lfloor>r + 1 / 2\<rfloor>"

definition derive_connection_flows :: "live_metrics option \<Rightarrow> connection_figures" where
  "derive_connection_flows metrics =
     (case metrics of
        None \<Rightarrow> NO_FLOWS
      | Some m \<Rightarrow>
          if \<not> is_reporting metrics then NO_FLOWS
          else (let c = map_of (lm_critical m);
                    tcp = c ''loxilb_active_flow_count_tcp'';
                    udp = c ''loxilb_active_flow_count_udp'';
                    sctp = c ''loxilb_active_flow_count_sctp'';
                    reportedFlows = List.map_filter id [tcp, udp, sctp];
                    totalTracked = c ''loxilb_active_conntrack_entries'';
                    maxTracked = c ''loxilb_conntrack_max_entries''
                in \<lparr>cf_totalActive = (if reportedFlows \<noteq> [] then Some (fold (\<lambda>b a. a + b) reportedFlows 0) else None),
                    cf_totalTracked = totalTracked, cf_tcp = tcp, cf_udp = udp, cf_sctp = sctp,
                    cf_newFlows = c ''loxilb_new_flows'',
                    cf_utilizationPct = (case (maxTracked, totalTracked) of
                        (Some mx, Some tt) \<Rightarrow> if mx > 0 then Some (math_round (tt / mx * 100)) else None
                      | _ \<Rightarrow> None)\<rparr>))"

datatype endpoint_status = Excellent | GoodHealth | WarningHealth | CriticalHealth | NoEndpoints | UnknownHealth

record endpoint_figures =
  ef_healthy :: "rat option"
  ef_unhealthy :: "rat option"
  ef_total :: "rat option"
  ef_healthPercentage :: "int option"
  ef_status :: endpoint_status

definition UNKNOWN_HEALTH :: endpoint_figures where
  "UNKNOWN_HEALTH = \<lparr>ef_healthy = None, ef_unhealthy = None, ef_total = None, ef_healthPercentage = None, ef_status = UnknownHealth\<rparr>"

definition or_zero :: "rat option \<Rightarrow> rat" where
  "or_zero v = (case v of None \<Rightarrow> 0 | Some r \<Rightarrow> r)"

definition derive_endpoint_health :: "live_metrics option \<Rightarrow> endpoint_figures" where
  "derive_endpoint_health metrics =
     (case metrics of
        None \<Rightarrow> UNKNOWN_HEALTH
      | Some m \<Rightarrow>
          if \<not> is_reporting metrics then UNKNOWN_HEALTH
          else (let healthy = map_of (lm_critical m) ''loxilb_healthy_endpoints'';
                    unhealthy = map_of (lm_critical m) ''loxilb_unhealthy_endpoints''
                in if healthy = None \<and> unhealthy = None then UNKNOWN_HEALTH
                   else (let tot = or_zero healthy + or_zero unhealthy;
                             healthPercentage = (if tot > 0 then or_zero healthy / tot * 100 else 0)
                         in \<lparr>ef_healthy = healthy, ef_unhealthy = unhealthy, ef_total = Some tot,
                             ef_healthPercentage = Some (math_round healthPercentage),
                             ef_status = (if tot = 0 then NoEndpoints
                                          else if healthPercentage = 100 then Excellent
                                          else if healthPercentage \<ge> 80 then GoodHealth
                                          else if healthPercentage \<ge> 50 then WarningHealth
                                          else CriticalHealth)\<rparr>)))"

subsection \<open>What the cards show\<close>

text \<open>The reading of a canonical name: the value published under it, else the one under the flavor's name for it.\<close>

definition published :: "flavor \<Rightarrow> (string \<times> rat) list \<Rightarrow> string \<Rightarrow> rat option" where
  "published fl flat name =
     (case map_of flat name of
        Some v \<Rightarrow> Some v
      | None \<Rightarrow> (case map_of (aliases_by_flavor fl) name of None \<Rightarrow> None | Some b \<Rightarrow> map_of flat b))"

lemma take_alias_lookup:
  "map_of (take_alias (c, b) m) k = (if k = c \<and> map_of m c = None then map_of m b else map_of m k)"
  by (simp add: update_conv split: option.splits)

declare take_alias.simps [simp del]

lemma take_aliases_lookup:
  "distinct (map fst tab) \<Longrightarrow> set (map fst tab) \<inter> set (map snd tab) = {} \<Longrightarrow>
   map_of (fold take_alias tab m) k =
     (case map_of m k of
        Some v \<Rightarrow> Some v
      | None \<Rightarrow> (case map_of tab k of None \<Rightarrow> None | Some b \<Rightarrow> map_of m b))"
proof (induction tab arbitrary: m)
  case (Cons p tab)
  obtain c b where p: "p = (c, b)"
    by fastforce
  have c: "c \<notin> set (map fst tab)" "c \<notin> set (map snd tab)" "c \<noteq> b"
    using Cons.prems by (auto simp: p)
  have "b' \<noteq> c" if "map_of tab k = Some b'" for b'
    using map_of_SomeD [OF that] c(2) by force
  moreover have "map_of tab c = None"
    using c(1) by (simp add: map_of_eq_None_iff)
  moreover have "distinct (map fst tab)" "set (map fst tab) \<inter> set (map snd tab) = {}"
    using Cons.prems by (auto simp: p)
  note Cons.IH [OF this, of "take_alias (c, b) m"]
  ultimately show ?case
    using c(3) by (auto simp: p take_alias_lookup split: option.splits)
qed (simp split: option.split)

lemma aliases_apart:
  "distinct (map fst (aliases_by_flavor fl)) \<and> set (map fst (aliases_by_flavor fl)) \<inter> set (map snd (aliases_by_flavor fl)) = {}"
  by (cases fl) (simp_all add: GATEWAY_ALIASES_def LOXILB_ALIASES_def)

lemma normalized_lookup: "map_of (normalize_metric_names flat fl) k = published fl flat k"
  using take_aliases_lookup [of "aliases_by_flavor fl" flat k] aliases_apart [of fl]
  by (simp add: normalize_metric_names_def published_def)

lemma update_Nil_iff: "AList.update k v xs \<noteq> []"
  by (cases xs) auto

lemma take_alias_Nil_iff: "take_alias p m = [] \<longleftrightarrow> m = []"
  by (cases p) (auto simp: take_alias.simps update_Nil_iff split: option.splits)

lemma normalized_Nil_iff: "normalize_metric_names flat fl = [] \<longleftrightarrow> flat = []"
proof -
  have "fold take_alias tab m = [] \<longleftrightarrow> m = []" for tab m
    by (induction tab arbitrary: m) (simp_all add: take_alias_Nil_iff)
  then show ?thesis
    by (simp add: normalize_metric_names_def)
qed

lemma published_nothing: "published fl [] k = None"
  by (simp add: published_def split: option.split)

lemma reporting_iff: "is_reporting (Some (project_live_metrics sn fl)) \<longleftrightarrow> projectFlatSums sn \<noteq> []"
  by (simp add: is_reporting_def project_live_metrics_def Let_def normalized_Nil_iff)

lemma projected_lookup: "map_of (lm_critical (project_live_metrics sn fl)) k = published fl (projectFlatSums sn) k"
  by (simp add: project_live_metrics_def Let_def normalized_lookup)

lemma reported_sum:
  "fold (\<lambda>b a. a + b) (List.map_filter id [x, y, z]) 0 = or_zero x + or_zero y + or_zero z"
  "List.map_filter id [x, y, z] = [] \<longleftrightarrow> x = None \<and> y = None \<and> z = (None :: rat option)"
  by (cases x; cases y; cases z; simp add: map_filter_def or_zero_def)+

lemma nothing_reported:
  "projectFlatSums sn = [] \<Longrightarrow> derive_connection_flows (Some (project_live_metrics sn fl)) = NO_FLOWS"
  "projectFlatSums sn = [] \<Longrightarrow> derive_endpoint_health (Some (project_live_metrics sn fl)) = UNKNOWN_HEALTH"
  by (simp_all add: derive_connection_flows_def derive_endpoint_health_def reporting_iff)

lemmas reported_defs = reporting_iff projected_lookup reported_sum Let_def

lemma utilization_shown_iff:
  "cf_utilizationPct (derive_connection_flows (Some (project_live_metrics sn fl))) \<noteq> None \<longleftrightarrow>
     published fl (projectFlatSums sn) ''loxilb_active_conntrack_entries'' \<noteq> None
     \<and> (\<exists>mx. published fl (projectFlatSums sn) ''loxilb_conntrack_max_entries'' = Some mx \<and> mx > 0)"
  by (cases "projectFlatSums sn = []")
     (simp_all add: nothing_reported NO_FLOWS_def published_nothing derive_connection_flows_def reported_defs split: option.split)

lemma endpoint_status_iff:
  fixes sn fl
  defines "p \<equiv> published fl (projectFlatSums sn)" and "ef \<equiv> derive_endpoint_health (Some (project_live_metrics sn fl))"
  shows "ef_status ef = UnknownHealth \<longleftrightarrow> ef_healthy ef = None \<and> ef_unhealthy ef = None"
    and "ef_status ef = NoEndpoints \<longleftrightarrow> ef_status ef \<noteq> UnknownHealth \<and> or_zero (ef_healthy ef) + or_zero (ef_unhealthy ef) = 0"
    and "ef_healthy ef = p ''loxilb_healthy_endpoints''" and "ef_unhealthy ef = p ''loxilb_unhealthy_endpoints''"
  by (cases "projectFlatSums sn = []",
      simp_all add: ef_def p_def nothing_reported UNKNOWN_HEALTH_def published_nothing derive_endpoint_health_def reported_defs)


end
