(* ===== verification/SignIn.thy ===== *)
theory SignIn
  imports Regex OpResult
begin

section \<open>Signing in and user accounts: \<open>connector/user.ts\<close>, \<open>LoginPage.tsx\<close>, \<open>UserEditForm.tsx\<close>\<close>

text \<open>
  \<open>login_user\<close> over the answer of the HTTP layer or its throw, the submit handler of the login page over it and the
  browser, \<open>create_user\<close>, and the validation of the account form with the checks it calls.
\<close>

subsection \<open>Sign-in\<close>

definition LOGIN_LOCKED_KEY :: string where "LOGIN_LOCKED_KEY = ''Too many failed sign-in attempts. Please try again later.''"
definition LOGIN_INVALID_KEY :: string where "LOGIN_INVALID_KEY = ''Invalid username or password.''"
definition LOGIN_FAILED_KEY :: string where "LOGIN_FAILED_KEY = ''Login failed''"

definition login_user :: "int \<Rightarrow> js_error + simple_response \<Rightarrow> op_result" where
  "login_user now answer =
     (case answer of
        Inl err \<Rightarrow> fromNetworkError ''auth.login'' err ReadOp
      | Inr resp \<Rightarrow>
          if code_is resp 429
            then (fromSimpleResponse now (Some resp) ''auth'' Mutation)
                   \<lparr>op_status := Denied, op_code := ''auth.locked_out'', op_localeKey := LOGIN_LOCKED_KEY, op_retryable := True\<rparr>
          else if code_is resp 401 \<or> code_is resp 403
            then (fromSimpleResponse now (Some resp) ''auth'' Mutation)
                   \<lparr>op_status := Denied, op_code := ''auth.invalid_credentials'', op_localeKey := LOGIN_INVALID_KEY, op_retryable := False\<rparr>
          else (let res = fromSimpleResponse now (Some resp) ''auth.login'' ReadOp
                in if op_status res = Confirmed \<and> \<not> truthy (vget (op_data res) ''token'')
                     then res\<lparr>op_status := Failed, op_code := ''auth.login.malformed_response'',
                            op_localeKey := LOGIN_FAILED_KEY, op_data := JUndef\<rparr>
                   else if op_status res = Failed then res\<lparr>op_localeKey := LOGIN_FAILED_KEY\<rparr>
                   else res))"

definition UNREADABLE_TOKEN_KEY :: string where
  "UNREADABLE_TOKEN_KEY = ''The server returned a token this client cannot read. Please try again or contact your administrator.''"

text \<open>The submit handler: the browser after it and the error shown, empty when none is. A token that is not text
  makes \<open>parseJwtExp\<close> throw like one it cannot read.\<close>

definition handleFormSubmit :: "int \<Rightarrow> js_error + simple_response \<Rightarrow> browser \<Rightarrow> browser \<times> string" where
  "handleFormSubmit now answer w =
     (let res = login_user now answer
      in if op_status res = Confirmed \<and> truthy (vget (op_data res) ''token'')
           then (case vget (op_data res) ''token'' of
                   JStr token \<Rightarrow> (case parseJwtExp token of Inl _ \<Rightarrow> (w, UNREADABLE_TOKEN_KEY) | Inr _ \<Rightarrow> (install_token token w, []))
                 | _ \<Rightarrow> (w, UNREADABLE_TOKEN_KEY))
         else (w, op_localeKey res))"

subsection \<open>Creating an account\<close>

fun is_object_type :: "jsv \<Rightarrow> bool" where
  "is_object_type (JObj _) = True"
| "is_object_type (JArr _) = True"
| "is_object_type _ = False"

text \<open>\<open>Inl\<close> is the message of the error thrown for an answer; a throw of the request passes on as it is.\<close>

definition create_user :: "simple_response \<Rightarrow> jsv + jsv" where
  "create_user resp =
     (if \<not> code_is resp 200 \<and> \<not> code_is resp 201 then
        Inl (if is_object_type (r_data resp) \<and> truthy (vget (r_data resp) ''error'') then vget (r_data resp) ''error''
             else if truthy (r_message resp) then r_message resp
             else JStr ''Unknown error'')
      else if is_object_type (r_data resp) then Inr (r_data resp)
      else if truthy (r_data resp) then Inr (JObj [(''id'', r_data resp)])
      else Inr (JObj [(''id'', jint 0)]))"

subsection \<open>Checks\<close>

text \<open>\<open>[^\s@]\<close>, as the ranges of codes below 256 it leaves.\<close>

definition mail_cls :: "(nat \<times> nat) list" where
  "mail_cls = [(0, 8), (14, 31), (33, 63), (65, 159), (161, 255)]"

definition MAIL_RE :: rx where
  "MAIL_RE = RSeq (rplus (RCls mail_cls)) (RSeq (rchar CHR ''@'') (RSeq (rplus (RCls mail_cls)) (RSeq (rchar CHR ''.'') (rplus (RCls mail_cls)))))"

definition validate_email :: "string \<Rightarrow> bool" where
  "validate_email email \<longleftrightarrow> rx_test MAIL_RE email"

definition SPECIAL_CHARS :: string where
  "SPECIAL_CHARS = ''!@#$%^&*()_+-=[]{};'' @ [CHR 0x27] @ '':'' @ [CHR 0x22, CHR 0x5C] @ ''|,.<>/?''"

text \<open>\<open>None\<close> is valid; else the message. The lookaheads are unanchored: some character of the class is there.\<close>

definition validate_password :: "string \<Rightarrow> string option" where
  "validate_password password =
     (if length password < 9 then Some ''Password must be at least 9 characters long''
      else if \<not> list_ex (in_cls lower_cls) password then Some ''Password must contain at least one lowercase letter''
      else if \<not> list_ex (in_cls upper_cls) password then Some ''Password must contain at least one uppercase letter''
      else if \<not> list_ex is_digit password then Some ''Password must contain at least one number''
      else if \<not> list_ex (\<lambda>c. c \<in> set SPECIAL_CHARS) password then Some ''Password must contain at least one special character''
      else None)"

definition USERNAME_RE :: rx where
  "USERNAME_RE = rplus (RCls (lower_cls @ upper_cls @ digits_cls @ one_of ''_''))"

definition validate_username :: "string \<Rightarrow> string option" where
  "validate_username username =
     (if length username < 3 then Some ''Username must be at least 3 characters long''
      else if length username > 50 then Some ''Username must be no more than 50 characters long''
      else if \<not> rx_test USERNAME_RE username then Some ''Username can only contain letters, numbers, and underscores''
      else if username \<noteq> [] \<and> is_digit (hd username) then Some ''Username cannot start with a number''
      else None)"

subsection \<open>The account form\<close>

record user_form =
  uf_username :: string
  uf_email :: string
  uf_password :: string
  uf_confirm :: string

text \<open>The errors \<open>validateForm\<close> sets, by field; the form is valid when there are none.\<close>

definition validateForm :: "bool \<Rightarrow> bool \<Rightarrow> user_form \<Rightarrow> (string \<times> string) list" where
  "validateForm isCreateMode changePassword f =
     (if js_trim (uf_username f) = [] then [(''username'', ''Username is required'')]
      else (case validate_username (uf_username f) of None \<Rightarrow> [] | Some m \<Rightarrow> [(''username'', m)]))
   @ (if isCreateMode then
        (if js_trim (uf_email f) = [] then [(''email'', ''Email is required'')]
         else if \<not> validate_email (uf_email f) then [(''email'', ''Please enter a valid email address'')] else [])
      else if uf_email f \<noteq> [] \<and> \<not> validate_email (uf_email f) then [(''email'', ''Please enter a valid email address'')] else [])
   @ (if changePassword \<or> isCreateMode then
        (if uf_password f = [] then [(''password'', ''Password is required'')]
         else (case validate_password (uf_password f) of None \<Rightarrow> [] | Some m \<Rightarrow> [(''password'', m)]))
        @ (if uf_password f \<noteq> uf_confirm f then [(''confirmPassword'', ''Passwords do not match'')] else [])
      else [])"

subsection \<open>A sign-in is a readable token\<close>

text \<open>The token an answer grants: a 2xx that was read, reports no failure and carries a token whose expiry can be read.\<close>

definition granted_token :: "js_error + simple_response \<Rightarrow> string option" where
  "granted_token answer =
     (case answer of
        Inl _ \<Rightarrow> None
      | Inr resp \<Rightarrow>
          if code_between (r_code resp) 200 300 \<and> \<not> isMutationFailure resp [r_code resp] \<and> \<not> r_parse_failed resp
            then (case vget (r_data resp) ''token'' of
                    JStr token \<Rightarrow> (case parseJwtExp token of Inl _ \<Rightarrow> None | Inr _ \<Rightarrow> Some token)
                  | _ \<Rightarrow> None)
          else None)"

definition answer_keys :: "string set" where
  "answer_keys = range STATUS_LOCALE_KEYS \<union> {RATE_LIMITED_KEY, CONFLICT_KEY, NOT_ENABLED_KEY, PRECONDITION_KEY,
     AUDIT_UNAVAILABLE_KEY, MAINTENANCE_KEY, IDENTITY_UNAVAILABLE_KEY}"

lemma common_key [simp]: "op_localeKey (with_common now resp r) = op_localeKey r" "op_status (with_common now resp r) = op_status r"
  by (simp_all add: with_common_def Let_def)

lemma answer_keyI:
  "STATUS_LOCALE_KEYS st \<in> answer_keys" "RATE_LIMITED_KEY \<in> answer_keys" "CONFLICT_KEY \<in> answer_keys"
  "NOT_ENABLED_KEY \<in> answer_keys" "PRECONDITION_KEY \<in> answer_keys" "AUDIT_UNAVAILABLE_KEY \<in> answer_keys"
  "MAINTENANCE_KEY \<in> answer_keys" "IDENTITY_UNAVAILABLE_KEY \<in> answer_keys"
  by (simp_all add: answer_keys_def)

lemma refusal_key: "snd (refusal503 resp operation) \<in> answer_keys"
  by (simp add: refusal503_def Let_def answer_keyI del: STATUS_LOCALE_KEYS.simps)

lemma key_of_answer: "op_localeKey (fromSimpleResponse now (Some resp) operation kind) \<in> answer_keys"
  by (simp add: fromSimpleResponse_def Let_def bare_result_def answer_keyI refusal_key del: STATUS_LOCALE_KEYS.simps)

lemma answer_keys_apart: "k \<in> answer_keys \<Longrightarrow> k \<noteq> LOGIN_LOCKED_KEY \<and> k \<noteq> LOGIN_INVALID_KEY \<and> k \<noteq> []"
proof -
  have "STATUS_LOCALE_KEYS st \<noteq> LOGIN_LOCKED_KEY \<and> STATUS_LOCALE_KEYS st \<noteq> LOGIN_INVALID_KEY \<and> STATUS_LOCALE_KEYS st \<noteq> []" for st
    by (cases st) (simp_all add: LOGIN_LOCKED_KEY_def LOGIN_INVALID_KEY_def)
  moreover assume "k \<in> answer_keys"
  ultimately show ?thesis
    by (auto simp: answer_keys_def LOGIN_LOCKED_KEY_def LOGIN_INVALID_KEY_def RATE_LIMITED_KEY_def CONFLICT_KEY_def NOT_ENABLED_KEY_def
        PRECONDITION_KEY_def AUDIT_UNAVAILABLE_KEY_def MAINTENANCE_KEY_def IDENTITY_UNAVAILABLE_KEY_def)
qed

lemma confirmed_data:
  assumes "code_between (r_code resp) 200 300" "\<not> isMutationFailure resp [r_code resp]" "\<not> r_parse_failed resp"
  shows "op_status (fromSimpleResponse now (Some resp) operation kind) = Confirmed"
    and "op_data (fromSimpleResponse now (Some resp) operation kind) = or_default (r_data resp) JUndef"
  using assms by (auto simp: fromSimpleResponse_def Let_def code_between_num)

lemma unconfirmed:
  assumes "\<not> (code_between (r_code resp) 200 300 \<and> \<not> isMutationFailure resp [r_code resp] \<and> \<not> r_parse_failed resp)"
  shows "op_status (fromSimpleResponse now (Some resp) operation kind) \<noteq> Confirmed"
  using assms accepted_answer [of resp] refused_answer [of resp] by (cases "code_between (r_code resp) 200 300") auto

lemma token_of_body: "vget (or_default v JUndef) k = vget v k"
  by (auto simp: or_default_def)

lemma no_empty_token: "parseJwtExp [] = Inl NoPayload"
  by (simp add: parseJwtExp_def)

lemma not_success: "code_is resp 429 \<or> code_is resp 401 \<or> code_is resp 403 \<Longrightarrow> \<not> code_between (r_code resp) 200 300"
  by (auto simp: code_between.simps(1))

lemma own_keys: "LOGIN_LOCKED_KEY \<noteq> LOGIN_INVALID_KEY" "LOGIN_FAILED_KEY \<noteq> LOGIN_LOCKED_KEY" "LOGIN_FAILED_KEY \<noteq> LOGIN_INVALID_KEY"
  "UNREADABLE_TOKEN_KEY \<noteq> LOGIN_LOCKED_KEY" "UNREADABLE_TOKEN_KEY \<noteq> LOGIN_INVALID_KEY"
  "LOGIN_LOCKED_KEY \<noteq> []" "LOGIN_INVALID_KEY \<noteq> []" "LOGIN_FAILED_KEY \<noteq> []" "UNREADABLE_TOKEN_KEY \<noteq> []"
  by (simp_all add: LOGIN_LOCKED_KEY_def LOGIN_INVALID_KEY_def LOGIN_FAILED_KEY_def UNREADABLE_TOKEN_KEY_def)

text \<open>The four kinds of answer.\<close>

lemma submit_lost:
  "handleFormSubmit now (Inl err) w = (w, STATUS_LOCALE_KEYS Unavailable)"
  by (simp add: handleFormSubmit_def login_user_def fromNetworkError_def Let_def)

lemma submit_locked: "code_is resp 429 \<Longrightarrow> handleFormSubmit now (Inr resp) w = (w, LOGIN_LOCKED_KEY)"
  by (simp add: handleFormSubmit_def login_user_def Let_def)

lemma submit_wrong: "code_is resp 401 \<or> code_is resp 403 \<Longrightarrow> handleFormSubmit now (Inr resp) w = (w, LOGIN_INVALID_KEY)"
  by (auto simp: handleFormSubmit_def login_user_def Let_def)

lemma submit_accepted:
  assumes "code_between (r_code resp) 200 300" "\<not> isMutationFailure resp [r_code resp]" "\<not> r_parse_failed resp"
  shows "case handleFormSubmit now (Inr resp) w of (w', shown) \<Rightarrow>
     (case granted_token (Inr resp) of
        Some token \<Rightarrow> w' = install_token token w \<and> shown = []
      | None \<Rightarrow> w' = w \<and> (shown = LOGIN_FAILED_KEY \<or> shown = UNREADABLE_TOKEN_KEY))"
proof -
  have n: "\<not> code_is resp 429" "\<not> code_is resp 401" "\<not> code_is resp 403"
    using not_success assms(1) by blast+
  have "op_status (login_user now (Inr resp)) = (if truthy (vget (r_data resp) ''token'') then Confirmed else Failed)"
    "op_localeKey (login_user now (Inr resp)) = LOGIN_FAILED_KEY \<or> op_status (login_user now (Inr resp)) = Confirmed"
    "op_status (login_user now (Inr resp)) = Confirmed \<Longrightarrow> vget (op_data (login_user now (Inr resp))) ''token'' = vget (r_data resp) ''token''"
    using n by (auto simp: login_user_def Let_def confirmed_data [OF assms] token_of_body split: if_splits)
  then show ?thesis
    using assms no_empty_token
    by (cases "vget (r_data resp) ''token''") (auto simp: handleFormSubmit_def granted_token_def Let_def split: sum.splits)
qed

lemma submit_refused:
  assumes "\<not> (code_between (r_code resp) 200 300 \<and> \<not> isMutationFailure resp [r_code resp] \<and> \<not> r_parse_failed resp)"
    and "\<not> code_is resp 429" "\<not> code_is resp 401" "\<not> code_is resp 403"
  shows "\<exists>k. handleFormSubmit now (Inr resp) w = (w, k) \<and> k \<in> insert LOGIN_FAILED_KEY answer_keys"
  using assms(2-4) unconfirmed [OF assms(1)] key_of_answer
  by (simp add: handleFormSubmit_def login_user_def Let_def)

text \<open>C6. A session starts exactly when the server granted a readable token: whatever comes back from a sign-in, the
  browser changes only for an answer of the 2xx class that was read, reports no failure and carries a text token
  whose expiry can be read, and then no error is shown; otherwise nothing is stored and an error is shown, that of
  a lockout exactly for a 429 and that of wrong credentials exactly for a 401 or 403.\<close>

theorem signed_in_iff_granted:
  "case handleFormSubmit now answer w of (w', shown) \<Rightarrow>
     (case granted_token answer of
        Some token \<Rightarrow> w' = install_token token w \<and> shown = []
      | None \<Rightarrow> w' = w \<and> shown \<noteq> [])
     \<and> (shown = LOGIN_LOCKED_KEY \<longleftrightarrow> (\<exists>resp. answer = Inr resp \<and> code_is resp 429))
     \<and> (shown = LOGIN_INVALID_KEY \<longleftrightarrow> (\<exists>resp. answer = Inr resp \<and> (code_is resp 401 \<or> code_is resp 403)))"
proof (cases answer)
  case (Inl err)
  then show ?thesis
    using answer_keys_apart [OF answer_keyI(1) [of Unavailable]] by (simp add: submit_lost granted_token_def del: STATUS_LOCALE_KEYS.simps)
next
  case (Inr resp)
  let ?accepted = "code_between (r_code resp) 200 300 \<and> \<not> isMutationFailure resp [r_code resp] \<and> \<not> r_parse_failed resp"
  have n: "?accepted \<Longrightarrow> \<not> code_is resp 429 \<and> \<not> code_is resp 401 \<and> \<not> code_is resp 403"
    using not_success by blast
  consider "code_is resp 429" | "code_is resp 401 \<or> code_is resp 403" | ?accepted
    | "\<not> ?accepted" "\<not> code_is resp 429" "\<not> code_is resp 401" "\<not> code_is resp 403"
    by blast
  then show ?thesis
  proof cases
    case 3
    then show ?thesis
      using submit_accepted [of resp w now] n own_keys by (auto simp: Inr split: option.splits prod.splits)
  next
    case 4
    obtain k where k: "handleFormSubmit now (Inr resp) w = (w, k)" "k \<in> insert LOGIN_FAILED_KEY answer_keys"
      using submit_refused [OF 4] by blast
    have "k \<noteq> LOGIN_LOCKED_KEY" "k \<noteq> LOGIN_INVALID_KEY" "k \<noteq> []"
      using k(2) answer_keys_apart own_keys by auto
    moreover have "granted_token (Inr resp) = None"
      using 4(1) by (auto simp: granted_token_def)
    ultimately show ?thesis
      using 4(2-4) by (simp add: Inr k(1))
  qed (use n own_keys in \<open>auto simp: Inr submit_locked submit_wrong granted_token_def\<close>)
qed

subsection \<open>What the account form accepts\<close>

definition plain_mail :: "string \<Rightarrow> bool" where
  "plain_mail s \<longleftrightarrow> s \<noteq> [] \<and> list_all (\<lambda>c. \<not> is_space c \<and> c \<noteq> CHR ''@'') s"

lemma in_mail: "in_cls mail_cls c \<longleftrightarrow> \<not> is_space c \<and> c \<noteq> CHR ''@''"
proof -
  have "code_of c \<le> 255"
    using nat_of_char_less_256 [of c] unfolding code_of_def by linarith
  moreover have "c = CHR ''@'' \<longleftrightarrow> code_of c = 64"
    by (simp flip: code_of_inj)
  ultimately show ?thesis
    by (auto simp: in_cls_def mail_cls_def is_space_def)
qed

lemma mail_cls_all: "list_all (in_cls mail_cls) s \<longleftrightarrow> list_all (\<lambda>c. \<not> is_space c \<and> c \<noteq> CHR ''@'') s"
  by (simp add: list_all_iff in_mail)

lemma mail_lang: "validate_email m \<longleftrightarrow> (\<exists>a b c. m = a @ ''@'' @ b @ ''.'' @ c \<and> plain_mail a \<and> plain_mail b \<and> plain_mail c)"
proof -
  have "validate_email m \<longleftrightarrow> (\<exists>a x b y c. m = a @ x @ b @ y @ c \<and> x = ''@'' \<and> y = ''.'' \<and> plain_mail a \<and> plain_mail b \<and> plain_mail c)"
    unfolding validate_email_def rx_test_iff MAIL_RE_def rx_lang.simps plus_cls lang_char plain_mail_def mail_cls_all
    by blast
  then show ?thesis
    by simp
qed

definition good_username :: "string \<Rightarrow> bool" where
  "good_username u \<longleftrightarrow> 3 \<le> length u \<and> length u \<le> 50 \<and> list_all (\<lambda>c. is_alpha c \<or> is_digit c \<or> c = CHR ''_'') u
     \<and> \<not> is_digit (hd u)"

definition good_password :: "string \<Rightarrow> bool" where
  "good_password p \<longleftrightarrow> 9 \<le> length p \<and> list_ex (in_cls lower_cls) p \<and> list_ex (in_cls upper_cls) p
     \<and> list_ex is_digit p \<and> list_ex (\<lambda>c. c \<in> set SPECIAL_CHARS) p"

lemma username_ok: "validate_username u = None \<longleftrightarrow> good_username u"
proof -
  have "in_cls (lower_cls @ upper_cls @ digits_cls @ one_of ''_'') c \<longleftrightarrow> is_alpha c \<or> is_digit c \<or> c = CHR ''_''" for c
    unfolding in_cls_append in_one_of in_digits using in_alpha [of c] by auto
  then have "rx_test USERNAME_RE u \<longleftrightarrow> u \<noteq> [] \<and> list_all (\<lambda>c. is_alpha c \<or> is_digit c \<or> c = CHR ''_'') u"
    unfolding rx_test_iff USERNAME_RE_def plus_cls list_all_iff by simp
  then show ?thesis
    by (auto simp: validate_username_def good_username_def)
qed

lemma password_ok: "validate_password p = None \<longleftrightarrow> good_password p"
  by (auto simp: validate_password_def good_password_def)

lemma trim_empty: "js_trim s = [] \<Longrightarrow> list_all is_space s"
proof -
  assume "js_trim s = []"
  then have a: "\<forall>x\<in>set (dropWhile is_space s). is_space x"
    by (simp add: js_trim_def dropWhile_eq_Nil_conv)
  have "dropWhile is_space s = []"
  proof (rule ccontr)
    assume "dropWhile is_space s \<noteq> []"
    then show False
      using hd_dropWhile [of is_space s] a hd_in_set by blast
  qed
  then show ?thesis
    by (simp add: dropWhile_eq_Nil_conv list_all_iff)
qed

lemma no_blank_username: "good_username u \<Longrightarrow> js_trim u \<noteq> []"
proof
  assume g: "good_username u" "js_trim u = []"
  then obtain c u' where "u = c # u'"
    by (cases u) (auto simp: good_username_def)
  then show False
    using g trim_empty [of u] by (auto simp: good_username_def is_space_def is_alpha_def is_digit_def)
qed

lemma no_blank_email: "validate_email m \<Longrightarrow> js_trim m \<noteq> []"
proof
  assume m: "validate_email m" "js_trim m = []"
  then have "is_space CHR ''@''"
    using trim_empty [of m] by (auto simp: mail_lang)
  then show False
    by (simp add: is_space_def)
qed

text \<open>The account form accepts exactly the accounts it describes: a new account needs a user name of 3 to 50
  letters, digits and underscores that does not start with a digit, an e-mail address with text without spaces
  before and after one @ and around a dot after it, and a password of at least nine characters with a lower-case and
  an upper-case letter, a digit and a special character, given twice; an edit may leave the address out and keeps
  the password unless it is being changed.\<close>

theorem account_accepted_iff:
  "validateForm isCreateMode changePassword f = [] \<longleftrightarrow>
     good_username (uf_username f)
     \<and> (if uf_email f = [] then \<not> isCreateMode
        else \<exists>a b c. uf_email f = a @ ''@'' @ b @ ''.'' @ c \<and> plain_mail a \<and> plain_mail b \<and> plain_mail c)
     \<and> (if isCreateMode \<or> changePassword then good_password (uf_password f) \<and> uf_confirm f = uf_password f else True)"
proof -
  have "uf_password f \<noteq> []" if "good_password (uf_password f)"
    using that by (auto simp: good_password_def)
  moreover have "(js_trim (uf_username f) \<noteq> [] \<and> validate_username (uf_username f) = None) \<longleftrightarrow> good_username (uf_username f)"
    using no_blank_username username_ok by blast
  moreover have "\<not> validate_email []"
    by (simp add: mail_lang)
  ultimately show ?thesis
    using no_blank_email [of "uf_email f"] password_ok [of "uf_password f"]
    unfolding validateForm_def mail_lang [symmetric]
    by (auto split: option.splits if_splits)
qed

end
