(* ===== verification/StatusReads.thy ===== *)
theory StatusReads
  imports CapabilityStatus AuditStatus MetricsRing OpResult
begin

section \<open>Status reads and what may be remembered of them\<close>

text \<open>
  The reads of \<open>connector/instance/status.ts\<close>, \<open>gatewayTelemetry.ts\<close> and \<open>maintenance.ts\<close> over the answer of the HTTP
  layer or its throw, with the query keys and retry rules of their hooks (\<open>hooks/query/\<close>), and the rule of
  \<open>queryClientSingleton.ts\<close> on what of the query cache is written to the browser's storage.
\<close>

type_synonym http_answer = "js_error + simple_response"

subsection \<open>Reads\<close>

text \<open>\<open>assertOk\<close> after the request: what is thrown, or the answer.\<close>

definition asserted :: "http_answer \<Rightarrow> string \<Rightarrow> js_error + simple_response" where
  "asserted answer operation =
     (case answer of
        Inl err \<Rightarrow> Inl err
      | Inr resp \<Rightarrow> (case assertOk resp operation of Inl e \<Rightarrow> Inl (ApiErr e) | Inr _ \<Rightarrow> Inr resp))"

definition capability_path :: "string option \<Rightarrow> string" where
  "capability_path modelName =
     (case modelName of
        None \<Rightarrow> ''/status/capabilities''
      | Some m \<Rightarrow> if m = [] then ''/status/capabilities'' else ''/status/capabilities?model_name='' @ encodeURIComponent m)"

text \<open>\<open>JNull\<close> is the answer \<open>null\<close>: this build has no capability surface.\<close>

definition query_get_capability_status :: "http_answer \<Rightarrow> js_error + jsv" where
  "query_get_capability_status answer =
     (case asserted answer ''Get Capability Status'' of
        Inr resp \<Rightarrow> Inr (or_default (vget (r_data resp) ''capabilities'') (JArr []))
      | Inl (ApiErr e) \<Rightarrow> if e_status e = jint 404 then Inr JNull else Inl (ApiErr e)
      | Inl err \<Rightarrow> Inl err)"

text \<open>The second answer is that to the sink request, which is sent only after the status answered.\<close>

definition query_get_audit_rest :: "bool \<Rightarrow> http_answer \<Rightarrow> http_answer \<Rightarrow> js_error + audit_rest_read" where
  "query_get_audit_rest readSink status_answer sink_answer =
     (case status_answer of
        Inl err \<Rightarrow> Inl err
      | Inr resp \<Rightarrow>
          if code_is resp 403 then Inr ReadForbidden
          else if code_is resp 404 then Inr ReadAbsent
          else (case asserted status_answer ''Get Audit Status'' of
                  Inl err \<Rightarrow> Inl err
                | Inr st \<Rightarrow>
                    if \<not> readSink then Inr (ReadOk (or_default (r_data st) (JObj [])) None)
                    else (case sink_answer of
                            Inl err \<Rightarrow> Inl err
                          | Inr sk \<Rightarrow>
                              Inr (ReadOk (or_default (r_data st) (JObj []))
                                    (if code_between (r_code sk) 200 300 \<and> \<not> r_parse_failed sk
                                     then Some (or_default (r_data sk) (JObj [])) else None)))))"

definition audit_requests :: "bool \<Rightarrow> http_answer \<Rightarrow> string list" where
  "audit_requests readSink status_answer =
     ''/audit/status'' #
     (case asserted status_answer ''Get Audit Status'' of Inl _ \<Rightarrow> [] | Inr _ \<Rightarrow> if readSink then [''/audit/sink''] else [])"

record instance_health =
  ih_isHealthy :: bool
  ih_error :: "string option"
  ih_code :: jsv

definition query_instance_health :: "http_answer \<Rightarrow> instance_health" where
  "query_instance_health answer =
     (case answer of
        Inr resp \<Rightarrow>
          if code_between (r_code resp) 200 300 then \<lparr>ih_isHealthy = True, ih_error = None, ih_code = r_code resp\<rparr>
          else \<lparr>ih_isHealthy = False,
                ih_error = Some (''Server responded with status '' @ js_string (r_code resp) @ '': '' @ js_string (r_message resp)),
                ih_code = r_code resp\<rparr>
      | Inl err \<Rightarrow> \<lparr>ih_isHealthy = False, ih_error = Some (case error_message err of Some m \<Rightarrow> m | None \<Rightarrow> ''Unknown error''), ih_code = JUndef\<rparr>)"

record timed_read =
  tr_data :: jsv
  tr_receivedAtMs :: int

definition timed :: "int \<Rightarrow> jsv \<Rightarrow> timed_read" where
  "timed now v = \<lparr>tr_data = v, tr_receivedAtMs = now\<rparr>"

definition query_get_gpu_status :: "int \<Rightarrow> http_answer \<Rightarrow> js_error + timed_read" where
  "query_get_gpu_status now answer = map_sum id (\<lambda>resp. timed now (or_default (r_data resp) (JObj []))) (asserted answer ''Get GPU Status'')"

definition query_get_worker_metrics :: "int \<Rightarrow> http_answer \<Rightarrow> js_error + timed_read" where
  "query_get_worker_metrics now answer =
     map_sum id (\<lambda>resp. timed now (or_default (vget (r_data resp) ''workers'') (JArr []))) (asserted answer ''Get Worker Metrics'')"

definition query_get_diagnostics :: "int \<Rightarrow> http_answer \<Rightarrow> js_error + timed_read" where
  "query_get_diagnostics now answer = map_sum id (\<lambda>resp. timed now (or_default (r_data resp) (JObj []))) (asserted answer ''Get Diagnostics'')"

definition query_get_maintenance :: "int \<Rightarrow> http_answer \<Rightarrow> js_error + timed_read" where
  "query_get_maintenance now answer = map_sum id (\<lambda>resp. timed now (or_default (r_data resp) (JObj []))) (asserted answer ''Get Maintenance'')"

definition enter_maintenance_body :: "jsv \<Rightarrow> jsv" where
  "enter_maintenance_body drainTimeoutSeconds =
     JObj ((''enabled'', JBool True) #
       (if truthy drainTimeoutSeconds then [(''drain_timeout_seconds'', drainTimeoutSeconds)] else []))"

definition leave_maintenance_body :: jsv where
  "leave_maintenance_body = JObj [(''enabled'', JBool False)]"

text \<open>\<open>useInstanceHealth\<close>: the probe against an eight-second timer; \<open>None\<close> when the timer was first.\<close>

record health_entry =
  he_isHealthy :: bool
  he_error :: "string option"
  he_code :: jsv
  he_lastChecked :: int

definition probe_health :: "int \<Rightarrow> http_answer option \<Rightarrow> health_entry" where
  "probe_health now raced =
     (case raced of
        None \<Rightarrow> \<lparr>he_isHealthy = False, he_error = Some ''Health check timeout'', he_code = JUndef, he_lastChecked = now\<rparr>
      | Some answer \<Rightarrow>
          (let res = query_instance_health answer
           in \<lparr>he_isHealthy = ih_isHealthy res, he_error = ih_error res, he_code = ih_code res, he_lastChecked = now\<rparr>))"

subsection \<open>Retries\<close>

definition error_status :: "js_error \<Rightarrow> jsv" where
  "error_status err = (case err of ApiErr e \<Rightarrow> e_status e | _ \<Rightarrow> JUndef)"

definition instance_data_retry :: "nat \<Rightarrow> js_error \<Rightarrow> bool" where
  "instance_data_retry failureCount err \<longleftrightarrow> error_status err \<noteq> jint 404 \<and> failureCount < 3"

definition audit_rest_retry :: "nat \<Rightarrow> js_error \<Rightarrow> bool" where
  "audit_rest_retry failureCount err \<longleftrightarrow> error_status err \<notin> {jint 401, jint 403, jint 404} \<and> failureCount < 3"

definition BOUNDED_RETRIES :: nat where "BOUNDED_RETRIES = 2"

definition kvExactStatusRetry :: "nat \<Rightarrow> js_error \<Rightarrow> bool" where
  "kvExactStatusRetry failureCount err =
     (if error_status err \<in> {jint 401, jint 403, jint 404, jint 422} then False else failureCount < BOUNDED_RETRIES)"

definition RETRY_DELAY :: "nat \<Rightarrow> int" where
  "RETRY_DELAY attempt = min (3000 * 2 ^ attempt) 15000"

subsection \<open>Query keys\<close>

text \<open>The instance's id, \<open>JUndef\<close> without one; \<open>instance_text\<close> is it as text, empty without one.\<close>

type_synonym query_key = "jsv list"

definition snapshot_key :: "jsv \<Rightarrow> flavor \<Rightarrow> query_key" where
  "snapshot_key inst fl =
     [JStr ''instance'', JStr ''metrics-snapshot'', inst, JStr (flavor_name fl), jint SNAPSHOT_PROJECTION_VERSION]"

definition gpu_status_key :: "jsv \<Rightarrow> query_key" where
  "gpu_status_key inst = [JStr ''instance'', JStr ''gpu-status'', inst]"

definition worker_metrics_key :: "jsv \<Rightarrow> query_key" where
  "worker_metrics_key inst = [JStr ''instance'', JStr ''worker-metrics'', inst]"

definition diagnostics_key :: "jsv \<Rightarrow> query_key" where
  "diagnostics_key inst = [JStr ''instance'', JStr ''diagnostics'', inst]"

definition maintenanceQueryKey :: "jsv \<Rightarrow> query_key" where
  "maintenanceQueryKey inst = [JStr ''instance'', JStr ''maintenance'', inst]"

definition flavor_key :: "jsv \<Rightarrow> query_key" where
  "flavor_key inst = [JStr ''instance'', JStr ''flavor'', inst]"

definition audit_rest_key :: "jsv \<Rightarrow> bool \<Rightarrow> query_key" where
  "audit_rest_key inst readSink = [JStr ''status'', JStr ''audit'', or_default inst (JStr []), JBool readSink]"

definition instance_text :: "jsv \<Rightarrow> string" where
  "instance_text inst = (if truthy inst then js_string inst else [])"

text \<open>\<open>useQueryInstanceData\<close> appends the id to the keys it is given.\<close>

definition instance_data_key :: "query_key \<Rightarrow> jsv \<Rightarrow> query_key" where
  "instance_data_key keys inst = keys @ [JStr (instance_text inst)]"

definition capabilities_key :: "jsv \<Rightarrow> string option \<Rightarrow> query_key" where
  "capabilities_key inst modelName =
     (let name = (case modelName of None \<Rightarrow> [] | Some m \<Rightarrow> m)
      in instance_data_key
           (if name \<noteq> [] then [JStr ''status'', JStr ''capabilities'', JStr (instance_text inst), JStr ''model'', JStr name]
            else [JStr ''status'', JStr ''capabilities'', JStr (instance_text inst)]) inst)"

definition capabilityQueryPrefix :: "jsv \<Rightarrow> query_key" where
  "capabilityQueryPrefix inst = [JStr ''status'', JStr ''capabilities'', JStr (js_string inst)]"

subsection \<open>What may be written to the storage\<close>

definition LIVE_TELEMETRY_KEYS :: "string list" where
  "LIVE_TELEMETRY_KEYS = [''metrics-snapshot'', ''worker-metrics'', ''gpu-status'', ''diagnostics'', ''audit'', ''maintenance'']"

definition DEPLOYMENT_STATE_KEYS :: "string list" where
  "DEPLOYMENT_STATE_KEYS = [''capabilities'', ''flavor'']"

text \<open>A query as the rule sees it: its key, and the verdict of the library's \<open>defaultShouldDehydrateQuery\<close> on it.\<close>

record cached_query =
  cq_key :: query_key
  cq_default :: bool

definition shouldPersistQuery :: "cached_query \<Rightarrow> bool" where
  "shouldPersistQuery q =
     (if \<not> cq_default q then False
      else \<not> list_ex (\<lambda>segment. case segment of
                 JStr s \<Rightarrow> s \<in> set LIVE_TELEMETRY_KEYS \<or> s \<in> set DEPLOYMENT_STATE_KEYS
               | _ \<Rightarrow> False) (cq_key q))"

text \<open>None of the reads above is ever written, and no name of a model makes one of them so.\<close>

lemma telemetry_never_persisted:
  assumes "k \<in> {snapshot_key inst fl, gpu_status_key inst, worker_metrics_key inst, diagnostics_key inst,
     maintenanceQueryKey inst, flavor_key inst, audit_rest_key inst readSink, capabilities_key inst modelName}"
  shows "\<not> shouldPersistQuery \<lparr>cq_key = k, cq_default = d\<rparr>"
  using assms
  by (auto simp: shouldPersistQuery_def snapshot_key_def gpu_status_key_def worker_metrics_key_def diagnostics_key_def
      maintenanceQueryKey_def flavor_key_def audit_rest_key_def capabilities_key_def instance_data_key_def Let_def
      LIVE_TELEMETRY_KEYS_def DEPLOYMENT_STATE_KEYS_def)

subsection \<open>The verdict of a read\<close>

text \<open>What \<open>useCapabilityVerdict\<close> is given: the data of the last read that succeeded, none before the first.
  \<open>None\<close>: a member that is not a list, on which \<open>find\<close> throws.\<close>

fun list_of_read :: "jsv option \<Rightarrow> capability_list option" where
  "list_of_read None = Some NotRead"
| "list_of_read (Some JNull) = Some EndpointAbsent"
| "list_of_read (Some (JArr entries)) = Some (Listed entries)"
| "list_of_read (Some _) = None"

definition last_data :: "http_answer list \<Rightarrow> jsv option" where
  "last_data answers =
     fold (\<lambda>a d. case query_get_capability_status a of Inl _ \<Rightarrow> d | Inr v \<Rightarrow> Some v) answers None"

definition useCapabilityVerdict :: "http_answer list \<Rightarrow> string \<Rightarrow> capability_verdict option" where
  "useCapabilityVerdict answers name = map_option (\<lambda>cl. capabilityVerdict cl name) (list_of_read (last_data answers))"

text \<open>An answer that tells nothing of the capabilities: no answer, or one that is neither a readable 2xx nor a 404.\<close>

definition tells_nothing :: "http_answer \<Rightarrow> bool" where
  "tells_nothing answer =
     (case answer of
        Inl (ApiErr e) \<Rightarrow> e_status e \<noteq> jint 404
      | Inl _ \<Rightarrow> True
      | Inr resp \<Rightarrow> r_code resp \<noteq> jint 404 \<and> \<not> (code_between (r_code resp) 200 300 \<and> \<not> r_parse_failed resp))"

lemma asserted_answer:
  "asserted (Inr resp) operation = Inr r \<longleftrightarrow> r = resp \<and> code_between (r_code resp) 200 300 \<and> \<not> r_parse_failed resp"
  "asserted (Inr resp) operation = Inl err \<Longrightarrow> (\<exists>e. err = ApiErr e \<and> e_status e = r_code resp)"
  "asserted (Inl err') operation = Inl err'"
  by (auto simp: asserted_def assertOk_def split: if_splits)

lemma not_found_not_ok: "r_code resp = jint 404 \<Longrightarrow> \<not> code_between (r_code resp) 200 300"
  by (simp add: code_between.simps(1))

lemma capability_error_iff: "(\<exists>err. query_get_capability_status a = Inl err) \<longleftrightarrow> tells_nothing a"
proof (cases a)
  case (Inl err)
  then show ?thesis
    by (cases err) (auto simp: query_get_capability_status_def tells_nothing_def asserted_answer(3))
next
  case (Inr resp)
  then show ?thesis
  proof (cases "asserted (Inr resp) ''Get Capability Status''")
    case (Inl err)
    then obtain e where "err = ApiErr e" "e_status e = r_code resp"
      using asserted_answer(2) by blast
    moreover have "\<not> (code_between (r_code resp) 200 300 \<and> \<not> r_parse_failed resp)"
      using asserted_answer(1) [of resp "''Get Capability Status''" resp] Inl by auto
    ultimately show ?thesis
      using Inr Inl by (simp add: query_get_capability_status_def tells_nothing_def)
  next
    case (Inr r)
    then show ?thesis
      using \<open>a = Inr resp\<close> asserted_answer(1) [of resp "''Get Capability Status''" r] not_found_not_ok [of resp]
      by (simp add: query_get_capability_status_def tells_nothing_def)
  qed
qed

lemma capability_list_iff:
  "query_get_capability_status a = Inr (JArr entries) \<and> entries \<noteq> [] \<longleftrightarrow>
     (\<exists>resp. a = Inr resp \<and> code_between (r_code resp) 200 300 \<and> \<not> r_parse_failed resp
        \<and> vget (r_data resp) ''capabilities'' = JArr entries \<and> entries \<noteq> [])"
proof (cases a)
  case (Inl err)
  then show ?thesis
    by (cases err) (auto simp: query_get_capability_status_def asserted_answer(3))
next
  case (Inr resp)
  then show ?thesis
    by (auto simp: query_get_capability_status_def asserted_def assertOk_def or_default_def split: if_splits)
qed

lemma last_data_snoc:
  "last_data (answers @ [a]) = (case query_get_capability_status a of Inl _ \<Rightarrow> last_data answers | Inr v \<Rightarrow> Some v)"
  by (simp add: last_data_def split: sum.split)

definition last_word :: "http_answer list \<Rightarrow> http_answer option" where
  "last_word answers = find (\<lambda>a. \<not> tells_nothing a) (rev answers)"

lemma last_data_word:
  "last_data answers =
     (case last_word answers of
        None \<Rightarrow> None
      | Some a \<Rightarrow> (case query_get_capability_status a of Inl _ \<Rightarrow> None | Inr v \<Rightarrow> Some v))"
proof (induction answers rule: rev_induct)
  case (snoc b answers)
  have "last_word (answers @ [b]) = (if tells_nothing b then last_word answers else Some b)"
    by (simp add: last_word_def)
  then show ?case
    using capability_error_iff [of b] snoc.IH
    by (cases "query_get_capability_status b") (auto simp: last_data_snoc)
qed (simp add: last_data_def last_word_def)

lemma entry_nonempty: "entry_of entries name = Some entry \<Longrightarrow> entries \<noteq> []"
  by (auto simp: entry_of_def)

lemma capability_word:
  "(last_word answers = Some a \<and> query_get_capability_status a = Inr (JArr entries) \<and> entry_of entries name = Some entry \<and> P) \<longleftrightarrow>
   (\<exists>resp. a = Inr resp \<and> last_word answers = Some (Inr resp) \<and> code_between (r_code resp) 200 300 \<and> \<not> r_parse_failed resp
      \<and> vget (r_data resp) ''capabilities'' = JArr entries \<and> entry_of entries name = Some entry \<and> P)"
proof (cases "entries = []")
  case True
  then show ?thesis
    using entry_nonempty by blast
next
  case False
  then show ?thesis
    using capability_list_iff [of a entries] by blast
qed


end
