(* ===== verification/Spec2Isabelle.thy ===== *)
theory Spec2Isabelle
  imports SessionWatch PageState Confirm LbEdit RestoreWizard InstanceForm
    PdTiers JwtAuth PolicerAttachment QosSignals Health DashboardLayout SystemUsage Preferences
    AuditConfig AuditStatus AiPriority CapabilityStatus LogPaging FormParams PacketRules
    SeriesStore AiConnector MetricsRing CertStore LiveCards SignIn StatusReads
begin

text \<open>
  A verification library for loxilb-ui, the browser client of a load balancer and inference gateway.
  The program is a React application; what decides what a page shows, sends and claims is in plain
  TypeScript modules under \<open>src/session\<close>, \<open>src/connector/fetcher\<close>, \<open>src/hooks/query\<close>,
  \<open>src/types\<close> and \<open>src/observability\<close>. Those modules are what this library models.

  \<^bold>\<open>How the parts interact.\<close> A page asks a query for data. The HTTP layer builds the request with
  the session's token, classifies the answer, and may end the session. A thrown error or a bad
  answer becomes an operation result, from which the page state follows. A form is validated and
  serialised to a body; after it was sent, a reconciler reads the list again and again until a
  confirmation predicate holds, and only then claims success. Metrics pages parse scrapes into
  families of samples and derive sums, rates and verdicts from the retained ones.

  \<^bold>\<open>Shared theories.\<close>
  \<^item> \<open>JsPrelude\<close>: numbers, strings, dynamic values and objects of the language, the collections
    \<open>js_simps\<close> and \<open>js_obj\<close>. \<open>JsWord\<close>: numbers as 32-bit words. \<open>Json\<close>: the parser and printer of
    JSON text and \<open>Number\<close> of a text, with a round trip. \<open>JsText\<close>: numbers read from digits.

  \<^bold>\<open>Component theories\<close>, in the order of the calls.
  \<^item> \<open>Session\<close> (\<open>session/session.ts\<close>, \<open>sessionPolicy.ts\<close>, parts of \<open>common.ts\<close> and
    \<open>pages/LoginPage.tsx\<close>): the browser as a record, the teardown split at its awaits, the redirect
    target, the storage purge. Lemmas: at most one teardown under any interleaving, it ends at the
    login screen and leaves no session data, the way back after a login.
  \<^item> \<open>SessionWatch\<close> (\<open>session/useSessionWatch.ts\<close>): idle, storage and expiry watchers as steps on a
    clock, with the timers as 32-bit delays.
  \<^item> \<open>Fetcher\<close> (\<open>connector/fetcher/fetcher_base.ts\<close>, \<open>fetcher_oam.ts\<close>, \<open>fetcher_inst.ts\<close>): request,
    answer, effects, and the session probe as an inductive step relation with its invariant.
  \<^item> \<open>OpResult\<close> (\<open>opResultAdapter.ts\<close>, \<open>opResultCodes.ts\<close>, \<open>opResultText.ts\<close>, \<open>pathSegment.ts\<close>,
    \<open>utils/retryAfter.ts\<close>): results of operations; the locale \<open>read_failure\<close> is what the pages rely
    on, interpreted on thrown errors. \<open>PageState\<close> (\<open>components/state/pageState.ts\<close>) is its client.
  \<^item> \<open>Reconcile\<close> (\<open>hooks/query/reconcile.ts\<close>, \<open>reconcileReport.ts\<close>): a poll as a chain of reads and
    sleeps; the reporter as an inductive relation; the locale \<open>confirmation\<close> is what a predicate
    promises, and turns "the chain ended confirmed" into "this landed". \<open>Confirm\<close>
    (\<open>confirmPredicates.ts\<close>) and \<open>LbApplied\<close> (\<open>lbRuleApplied.ts\<close>) interpret it on the code's predicates.
  \<^item> \<open>Quota\<close> (\<open>types/ai.ts\<close>), \<open>LbRules\<close> (\<open>types/lb_identity.ts\<close>, \<open>backend_tls.ts\<close>, \<open>load_balancer.ts\<close>),
    \<open>JwtProfile\<close> (\<open>types/ai_jwt.ts\<close>), \<open>AiGateway\<close> (\<open>types/ai_gateway.ts\<close>): bodies, their validation
    and what of a draft is sent. An edit of quotas refines a replacement of a map from models to
    counts; serialised arguments are a part of the draft.
  \<^item> \<open>Regex\<close>: regular expressions with derivatives, for the patterns a form tests. \<open>InstanceForm\<close>
    (\<open>components/input/instanceFormLogic.ts\<close>): the endpoint and the identity of an instance that the
    form accepts. \<open>LbConnector\<close> (\<open>api/capabilities.ts\<close>, \<open>connector/instance/load_balancer.ts\<close>): what of a
    rule body goes on the wire for which flavor of instance. \<open>LbEdit\<close> (\<open>types/lb_fullproxy_replace.ts\<close>,
    the update handler of \<open>pages/traffic/LBRulePage.tsx\<close>): an edit as a patch or as delete and create.
  \<^item> \<open>Restore\<close> (\<open>components/snapshot/wizardLogic.ts\<close>, \<open>connector/oam/snapshotApi.ts\<close>,
    \<open>snapshotOpError.ts\<close>): the answer of a restore as a verdict. \<open>RestoreWizard\<close>
    (\<open>components/snapshot/RestoreWizard.tsx\<close>): the wizard as a state machine with its awaits as pending
    continuations and its handlers on the values of an earlier render; every commit that was sent is
    one whose dry-run passed, at most one is under way, and a started one is always left.
  \<^item> \<open>Exposition\<close> (\<open>observability/parser.ts\<close>): the scrape parser, a state and a step per line, its
    well-formedness invariant and the round trip of label sets. \<open>MetricManifest\<close>
    (\<open>metricManifest.ts\<close>, \<open>familyActivation.ts\<close>): the types and the reasons of absence, a linear
    order by severity. \<open>Rates\<close> (\<open>rates.ts\<close>, \<open>selectors.ts\<close>, \<open>snapshotRates.ts\<close>): sums and rates.
    \<open>TokenQuota\<close> (\<open>tokenQuota.ts\<close>): quota rows and the verdict. \<open>RateFacts\<close>: the lemmas on rates of a part
    of a family that the readings share.
  \<^item> The readings of single pages, each a function of the newest scrape, the retained ones and what the
    REST interface said: \<open>AuditWriter\<close> (\<open>auditWriter.ts\<close>, a heartbeat judged by what the browser saw),
    \<open>AiTraffic\<close> (\<open>aiRequests.ts\<close>, \<open>aiAdmission.ts\<close>), \<open>PdTiers\<close> (\<open>pdTiers.ts\<close>, \<open>pdAdmission.ts\<close>,
    \<open>pdJoin.ts\<close>, \<open>workerScrape.ts\<close>), \<open>JwtAuth\<close> (\<open>jwtAuth.ts\<close>), \<open>PolicerAttachment\<close>
    (\<open>policerAttachment.ts\<close>), \<open>QosSignals\<close> (\<open>qosSignals.ts\<close>), \<open>Health\<close> (\<open>bootVerdict.ts\<close>,
    \<open>gatewayReadiness.ts\<close>, \<open>kvHealth.ts\<close>, \<open>reportedAt.ts\<close>). \<open>CapabilityRegistry\<close>
    (\<open>capabilityRegistry.ts\<close>): every panel with its requirements, and when it applies.

  \<^item> \<open>AuditConfig\<close> (\<open>types/audit_config.ts\<close>): policy and sinks of the audit trail, from a form of texts to a
    body and back from what the gateway reads; an accepted form is sound, a change is confirmed exactly
    when its settings are read back. \<open>AuditStatus\<close> (\<open>types/audit_status.ts\<close>), \<open>AiPriority\<close>
    (\<open>types/ai_priority.ts\<close>), \<open>CapabilityStatus\<close> (\<open>types/capability_status.ts\<close>): what of an answer is
    raised, sent or withdrawn.
  \<^item> \<open>LogLines\<close> (\<open>parse_log_lines\<close> of \<open>common.ts\<close>), \<open>LogTable\<close> (\<open>components/table/dashboard/logTableLogic.ts\<close>),
    \<open>LogPaging\<close> (\<open>hooks/useInstanceLogPaging.ts\<close> and the read of \<open>connector/instance/status.ts\<close>): the log
    console, its hook as an inductive relation with the invariant that the lines held are one scan.
  \<^item> \<open>FormParams\<close> (\<open>hooks/inputFormHook.ts\<close>): forms described by the metadata of the gateway, the check by
    recursion over the description, the writes of stale callbacks. \<open>DashboardLayout\<close>
    (\<open>pages/dashboardLayout.ts\<close>): the grid of cards and its reconciliation with a saved one. \<open>SystemUsage\<close>
    (\<open>utils/systemUsage.ts\<close>). \<open>Preferences\<close> (\<open>preferences.ts\<close>, \<open>hooks/localStorageHook.ts\<close>): a locale
    for what keeps a stored preference valid, interpreted on each of them.

  \<^item> \<open>NetworkPrefix\<close> (\<open>types/network_prefix.ts\<close>): the key of an IPv4 or IPv6 prefix, its masking as integer
    division, and the addresses it covers. \<open>PacketRules\<close> (\<open>types/firewall_policy.ts\<close>,
    \<open>types/ipfilter_policy.ts\<close>, their connectors and the selection of \<open>pages/traffic/FirewallPage.tsx\<close>):
    packet rules, their identity by the traffic they select, and their confirmation.

  \<^item> \<open>SeriesStore\<close> (\<open>hooks/query/common.ts\<close>): the points a page collects by polling, in the hook, the query
    cache and the storage. \<open>AiConnector\<close> (\<open>connector/instance/ai.ts\<close>, \<open>ai_objective.ts\<close>): each call as what is
    refused, sent and read.

  \<^item> \<open>MetricsRing\<close> (\<open>hooks/query/observabilityHooks.ts\<close>): the retained scrapes behind a page, a state changed by
    the effect after each render, with the invariant that it holds the observations under its own key.
    \<open>LiveCards\<close> (\<open>connector/instance/metrics.ts\<close>, \<open>components/card/cardMetricsLogic.ts\<close>): the names by flavor and
    the figures of the cards. \<open>CertStore\<close> (\<open>connector/instance/cert.ts\<close>): certificate look-ups and the comparison
    of PEM texts.
  \<^item> \<open>SignIn\<close> (\<open>connector/user.ts\<close>, the submit handler of \<open>pages/LoginPage.tsx\<close>, the check of
    \<open>components/input/UserEditForm.tsx\<close>): sign-in over the browser of \<open>Session\<close> and the results of \<open>OpResult\<close>.
    \<open>StatusReads\<close> (\<open>connector/instance/status.ts\<close>, \<open>gatewayTelemetry.ts\<close>, \<open>maintenance.ts\<close>,
    \<open>queryClientSingleton.ts\<close> and the hooks of these reads): reads, keys, retries and what may be persisted.

  \<^bold>\<open>Conventions.\<close> An error is a value: \<open>None\<close> where the code throws or gives undefined, a sum where the
  message matters. An optional member that is missing is \<open>JUndef\<close> or \<open>None\<close>. The one fuel is that of
  the JSON parser, one more than the length of its text; \<open>json_roundtrip\<close> shows that it is enough to
  read back what the printer writes. Every other recursion terminates by a proved measure.

  \<^bold>\<open>Bounds.\<close> Characters are code units below 256 (a dash of a message beyond them is written as a
  hyphen). Numbers are exact rationals with infinities and NaN, so results are those of the code for
  values that need no rounding. A property of an object is an own property: names that
  \<open>Object.prototype\<close> has are outside the model except where a definition says so.

  \<^bold>\<open>Not modelled.\<close> React rendering and hooks wiring, the query library, uploads and downloads, the generated
  API types and the generated metric manifest (a parameter), themes and locales. \<open>localeCompare\<close> and
  \<open>Date.parse\<close> are parameters where a reading uses them. The remaining bodies of
  \<open>src/types\<close> are interfaces without decisions, the remaining connectors one call of the modelled HTTP layer each,
  the remaining panel helpers texts; the other helpers of \<open>common.ts\<close> format by the locale or look up menus.
\<close>

end
